(* ===== verification/Prelude.thy ===== *)
theory Prelude
  imports Complex_Main "HOL-Library.AList" "HOL-Library.Char_ord" "HOL-Library.List_Lexorder"
    "HOL-Library.Monad_Syntax" "HOL-Library.Multiset"
begin

text \<open>
  What every component of the model shares: the operations of Go's package \<open>strings\<close> on
  byte strings (a Go string is a sequence of bytes, here a \<open>char list\<close>), the escaping
  functions of \<open>net/url\<close>, Go maps as association lists, Go errors as values, and the lemmas
  about them that the components use. A Go map is an association list whose keys are
  distinct (\<open>wf_map\<close>); the order of the list stands for the order in which one run happens
  to iterate the map, so a lemma about every such list is a lemma about every iteration
  order.
\<close>

named_theorems gostr \<open>facts about the string operations\<close>
named_theorems gomap \<open>facts about association lists as Go maps\<close>
named_theorems goerr \<open>facts about errors and results\<close>

section \<open>Strings\<close>

definition has_prefix :: "string \<Rightarrow> string \<Rightarrow> bool" where
  "has_prefix s p \<longleftrightarrow> take (length p) s = p"

definition has_suffix :: "string \<Rightarrow> string \<Rightarrow> bool" where
  "has_suffix s p \<longleftrightarrow> length p \<le> length s \<and> drop (length s - length p) s = p"

definition trim_prefix :: "string \<Rightarrow> string \<Rightarrow> string" where
  "trim_prefix s p = (if has_prefix s p then drop (length p) s else s)"

definition trim_suffix :: "string \<Rightarrow> string \<Rightarrow> string" where
  "trim_suffix s p = (if has_suffix s p then take (length s - length p) s else s)"

text \<open>\<open>strings.CutPrefix\<close>: the rest after the prefix, if it is one.\<close>

definition cut_prefix :: "string \<Rightarrow> string \<Rightarrow> string option" where
  "cut_prefix s p = (if has_prefix s p then Some (drop (length p) s) else None)"

text \<open>\<open>strings.Index\<close>: the first place where \<open>p\<close> occurs in \<open>s\<close>.\<close>

fun str_index :: "string \<Rightarrow> string \<Rightarrow> nat option" where
  "str_index [] p = (if p = [] then Some 0 else None)"
| "str_index (c # cs) p =
     (if has_prefix (c # cs) p then Some 0 else map_option Suc (str_index cs p))"

definition str_contains :: "string \<Rightarrow> string \<Rightarrow> bool" where
  "str_contains s p \<longleftrightarrow> str_index s p \<noteq> None"

text \<open>\<open>strings.Cut\<close>: before and after the first occurrence, and whether there is one.\<close>

definition str_cut :: "string \<Rightarrow> string \<Rightarrow> string \<times> string \<times> bool" where
  "str_cut s sep = (case str_index s sep of
      None \<Rightarrow> (s, [], False)
    | Some i \<Rightarrow> (take i s, drop (i + length sep) s, True))"

text \<open>\<open>strings.Split\<close> at a one-byte separator, and \<open>strings.Join\<close>.\<close>

fun split_on :: "char \<Rightarrow> string \<Rightarrow> string list" where
  "split_on d [] = [[]]"
| "split_on d (c # cs) =
     (case split_on d cs of
        [] \<Rightarrow> [[c]]
      | x # xs \<Rightarrow> if c = d then [] # x # xs else (c # x) # xs)"

fun join_with :: "string \<Rightarrow> string list \<Rightarrow> string" where
  "join_with sep [] = []"
| "join_with sep [x] = x"
| "join_with sep (x # y # zs) = x @ sep @ join_with sep (y # zs)"

abbreviation split_slash :: "string \<Rightarrow> string list" where
  "split_slash \<equiv> split_on (CHR ''/'')"

abbreviation join_slash :: "string list \<Rightarrow> string" where
  "join_slash \<equiv> join_with ''/''"

text \<open>The text after the last \<open>d\<close>, the whole string when there is none.\<close>

definition after_last :: "char \<Rightarrow> string \<Rightarrow> string" where
  "after_last d s = rev (takeWhile (\<lambda>c. c \<noteq> d) (rev s))"

text \<open>\<open>strings.TrimSpace\<close>, for the ASCII white space.\<close>

definition is_space :: "char \<Rightarrow> bool" where
  "is_space c \<longleftrightarrow> c \<in> {CHR 0x09, CHR 0x0A, CHR 0x0B, CHR 0x0C, CHR 0x0D, CHR 0x20}"

definition trim_space :: "string \<Rightarrow> string" where
  "trim_space s = rev (dropWhile is_space (rev (dropWhile is_space s)))"

text \<open>\<open>strings.Trim\<close> of one character at both ends.\<close>

definition trim_char :: "char \<Rightarrow> string \<Rightarrow> string" where
  "trim_char d s = rev (dropWhile (\<lambda>c. c = d) (rev (dropWhile (\<lambda>c. c = d) s)))"

text \<open>\<open>strings.ReplaceAll\<close> for a pattern that is not empty.\<close>

function replace_all :: "string \<Rightarrow> string \<Rightarrow> string \<Rightarrow> string" where
  "replace_all s p r = (if s = [] \<or> p = [] then s
     else if has_prefix s p then r @ replace_all (drop (length p) s) p r
     else hd s # replace_all (tl s) p r)"
  by pat_completeness auto
termination
  by (relation "measure (\<lambda>(s, p, r). length s)") (auto simp: has_prefix_def)

declare replace_all.simps [simp del]

text \<open>\<open>strings.Count\<close> of one character.\<close>

definition count_char :: "char \<Rightarrow> string \<Rightarrow> nat" where
  "count_char d s = length (filter (\<lambda>c. c = d) s)"

text \<open>\<open>strings.EqualFold\<close> and \<open>strings.ToLower\<close> on ASCII letters; other bytes compare as they are.\<close>

definition to_lower_char :: "char \<Rightarrow> char" where
  "to_lower_char c = (let n = (of_char c :: nat) in
     if 65 \<le> n \<and> n \<le> 90 then char_of (n + 32) else c)"

definition equal_fold :: "string \<Rightarrow> string \<Rightarrow> bool" where
  "equal_fold a b \<longleftrightarrow> map to_lower_char a = map to_lower_char b"

definition is_digit :: "char \<Rightarrow> bool" where
  "is_digit c \<longleftrightarrow> (let n = (of_char c :: nat) in 48 \<le> n \<and> n \<le> 57)"

definition is_alnum :: "char \<Rightarrow> bool" where
  "is_alnum c \<longleftrightarrow> (let n = (of_char c :: nat) in
     48 \<le> n \<and> n \<le> 57 \<or> 65 \<le> n \<and> n \<le> 90 \<or> 97 \<le> n \<and> n \<le> 122)"

text \<open>\<open>strconv.Itoa\<close>/\<open>FormatInt\<close> in base 10 and \<open>strconv.Atoi\<close> with its 64-bit range.\<close>

fun digits_of :: "nat \<Rightarrow> string" where
  "digits_of n = (if n < 10 then [char_of (48 + n)]
     else digits_of (n div 10) @ [char_of (48 + n mod 10)])"

declare digits_of.simps [simp del]

definition format_int :: "int \<Rightarrow> string" where
  "format_int i = (if i < 0 then CHR ''-'' # digits_of (nat (- i)) else digits_of (nat i))"

definition digits_value :: "string \<Rightarrow> int" where
  "digits_value s = foldl (\<lambda>acc c. acc * 10 + (int (of_char c) - 48)) 0 s"

definition atoi :: "string \<Rightarrow> int option" where
  "atoi s = (let neg = (take 1 s = ''-'');
                 ds = (if take 1 s = ''-'' \<or> take 1 s = ''+'' then drop 1 s else s);
                 v = (if neg then - digits_value ds else digits_value ds)
     in if ds = [] \<or> \<not> list_all is_digit ds then None
        else if - (2 ^ 63) \<le> v \<and> v < 2 ^ 63 then Some v else None)"

section \<open>Escaping (net/url)\<close>

definition is_unreserved :: "char \<Rightarrow> bool" where
  "is_unreserved c \<longleftrightarrow> is_alnum c \<or> c \<in> set ''-_.~''"

text \<open>\<open>url.PathEscape\<close> keeps the unreserved characters and \<open>$ & + : = @\<close>.\<close>

definition keep_in_segment :: "char \<Rightarrow> bool" where
  "keep_in_segment c \<longleftrightarrow> is_unreserved c \<or> c \<in> set ''$&+:=@''"

definition upper_hex :: "nat \<Rightarrow> char" where
  "upper_hex n = (if n < 10 then char_of (48 + n) else char_of (55 + n))"

definition pct :: "char \<Rightarrow> string" where
  "pct c = (let n = (of_char c :: nat) in [CHR ''%'', upper_hex (n div 16), upper_hex (n mod 16)])"

definition path_escape :: "string \<Rightarrow> string" where
  "path_escape s = concat (map (\<lambda>c. if keep_in_segment c then [c] else pct c) s)"

text \<open>\<open>url.QueryEscape\<close> keeps the unreserved characters and writes a space as \<open>+\<close>.\<close>

definition query_escape :: "string \<Rightarrow> string" where
  "query_escape s = concat (map (\<lambda>c. if is_unreserved c then [c]
     else if c = CHR '' '' then ''+'' else pct c) s)"

definition unhex :: "char \<Rightarrow> nat option" where
  "unhex c = (let n = (of_char c :: nat) in
     if 48 \<le> n \<and> n \<le> 57 then Some (n - 48)
     else if 97 \<le> n \<and> n \<le> 102 then Some (n - 87)
     else if 65 \<le> n \<and> n \<le> 70 then Some (n - 55) else None)"

text \<open>\<open>url.PathUnescape\<close>: \<open>None\<close> for a \<open>%\<close> that two hexadecimal digits do not follow.\<close>

fun path_unescape :: "string \<Rightarrow> string option" where
  "path_unescape [] = Some []"
| "path_unescape (c # cs) =
     (if c = CHR ''%'' then
        (case cs of
           h # l # rest \<Rightarrow>
             (case (unhex h, unhex l) of
                (Some a, Some b) \<Rightarrow> map_option (Cons (char_of (a * 16 + b))) (path_unescape rest)
              | _ \<Rightarrow> None)
         | _ \<Rightarrow> None)
      else map_option (Cons c) (path_unescape cs))"

section \<open>Errors\<close>

text \<open>
  A Go error as a value. \<open>Errorf\<close> is \<open>fmt.Errorf\<close> with its format and its arguments,
  \<open>Wrapf\<close> the same with a \<open>%w\<close>, so \<open>errors.As\<close> can look through it. \<open>ApiErr\<close> is an
  \<open>*APIError\<close> (internal/gcprov/errors.go), \<open>NetErr\<close> a failure of \<open>http.Client.Do\<close> (always a
  \<open>*url.Error\<close>), \<open>UnexpectedEOF\<close> is \<open>io.ErrUnexpectedEOF\<close>, and \<open>CtxErr\<close> is
  \<open>ctx.Err()\<close>: a context that was canceled or whose deadline passed.
\<close>

record api_error =
  Status :: int
  Code :: string
  Message :: string
  Reason :: string
  RetryAfter :: int

datatype ctx_err = Canceled | DeadlineExceeded

datatype gerr =
    ApiErr api_error
  | NetErr string
  | UnexpectedEOF
  | CtxErr ctx_err
  | Errorf string "string list"
  | Wrapf string "string list" gerr

section \<open>Facts about strings\<close>

lemma has_prefix_append [simp, gostr]: "has_prefix (p @ s) p"
  by (simp add: has_prefix_def)

lemma has_prefix_Nil [simp, gostr]: "has_prefix s []"
  by (simp add: has_prefix_def)

lemma has_prefix_iff [gostr]: "has_prefix s p \<longleftrightarrow> (\<exists>r. s = p @ r)"
  by (metis append_take_drop_id has_prefix_append has_prefix_def)

lemma has_suffix_iff [gostr]: "has_suffix s p \<longleftrightarrow> (\<exists>r. s = r @ p)"
proof
  assume "has_suffix s p"
  then show "\<exists>r. s = r @ p"
    by (metis append_take_drop_id has_suffix_def)
qed (auto simp: has_suffix_def)

lemma trim_prefix_append [simp, gostr]: "trim_prefix (p @ s) p = s"
  by (simp add: trim_prefix_def)

lemma cut_prefix_Some [gostr]: "cut_prefix s p = Some r \<longleftrightarrow> s = p @ r"
  by (auto simp: cut_prefix_def has_prefix_iff)

lemma str_index_bound: "str_index s p = Some i \<Longrightarrow> i + length p \<le> length s"
proof (induction s arbitrary: i)
  case (Cons c cs)
  show ?case
  proof (cases "has_prefix (c # cs) p")
    case True
    with Cons.prems show ?thesis
      by (metis add_0 append_eq_conv_conj has_prefix_def le_add1 length_append nat_le_linear
          option.inject str_index.simps(2) take_all_iff)
  qed (use Cons in auto)
qed (auto split: if_splits)

lemma str_index_at: "str_index s p = Some i \<Longrightarrow> has_prefix (drop i s) p"
proof (induction s arbitrary: i)
  case (Cons c cs)
  then show ?case by (auto split: if_splits)
qed (auto split: if_splits)

lemma str_index_first: "str_index s p = Some i \<Longrightarrow> j < i \<Longrightarrow> \<not> has_prefix (drop j s) p"
proof (induction s arbitrary: i j)
  case (Cons c cs)
  then show ?case by (cases j) (auto split: if_splits)
qed (auto split: if_splits)

lemma str_index_None: "str_index s p = None \<Longrightarrow> \<not> has_prefix (drop j s) p"
proof (induction s arbitrary: j)
  case Nil
  then show ?case by (auto simp: has_prefix_def split: if_splits)
next
  case (Cons c cs)
  then show ?case by (cases j) (auto split: if_splits)
qed

lemma split_on_neq_Nil [simp]: "split_on d s \<noteq> []"
  by (cases s) (auto split: list.splits)

lemma split_on_Cons:
  "split_on d (c # cs) = (if c = d then [] # split_on d cs
     else (c # hd (split_on d cs)) # tl (split_on d cs))"
  by (cases "split_on d cs") auto

lemma split_on_no_sep [gostr]: "d \<notin> set s \<Longrightarrow> split_on d s = [s]"
  by (induction s) auto

lemma split_on_append [gostr]:
  "d \<notin> set s \<Longrightarrow> split_on d (s @ d # t) = s # split_on d t"
proof (induction s)
  case Nil
  show ?case by (simp add: split_on_Cons del: split_on.simps(2))
qed auto

lemma split_on_parts: "x \<in> set (split_on d s) \<Longrightarrow> d \<notin> set x"
proof (induction s arbitrary: x)
  case (Cons c cs)
  then show ?case
    by (cases "split_on d cs") (auto split: if_splits)
qed auto

lemma join_split_Cons: "join_with sep ((c # x) # xs) = c # join_with sep (x # xs)"
  by (cases xs) auto

lemma join_split [simp, gostr]: "join_with [d] (split_on d s) = s"
proof (induction s)
  case (Cons c cs)
  obtain x xs where e: "split_on d cs = x # xs"
    by (cases "split_on d cs") auto
  with Cons show ?case
    by (simp add: join_split_Cons)
qed simp

lemma split_join [gostr]:
  "xs \<noteq> [] \<Longrightarrow> \<forall>x \<in> set xs. d \<notin> set x \<Longrightarrow> split_on d (join_with [d] xs) = xs"
proof (induction xs)
  case (Cons x xs)
  then show ?case
    by (cases xs) (simp_all add: split_on_no_sep split_on_append)
qed simp

lemma length_split_on: "length (split_on d s) = Suc (count_char d s)"
  by (induction s) (auto simp: count_char_def split: list.splits)

lemma after_last_no_sep [gostr]: "d \<notin> set s \<Longrightarrow> after_last d s = s"
proof -
  assume "d \<notin> set s"
  then have "takeWhile (\<lambda>c. c \<noteq> d) (rev s) = rev s"
    unfolding takeWhile_eq_all_conv by auto
  then show ?thesis by (simp only: after_last_def rev_rev_ident)
qed

lemma after_last_append [gostr]: "d \<notin> set t \<Longrightarrow> after_last d (s @ d # t) = t"
proof -
  assume "d \<notin> set t"
  then have "takeWhile (\<lambda>c. c \<noteq> d) (rev t @ d # rev s) = rev t"
    by (subst takeWhile_append2) auto
  then show ?thesis by (simp add: after_last_def)
qed

lemma after_last_sep [simp]: "d \<notin> set (after_last d s)"
  unfolding after_last_def by (metis (mono_tags, lifting) set_rev set_takeWhileD)

section \<open>Facts about escaping\<close>

lemma unhex_upper_hex: "n < 16 \<Longrightarrow> unhex (upper_hex n) = Some n"
  by (auto simp: unhex_def upper_hex_def of_char_of)

lemma upper_hex_char: "n < 16 \<Longrightarrow> upper_hex n \<noteq> CHR ''/''"
proof -
  assume "n < 16"
  then have "of_char (upper_hex n) \<noteq> (47 :: nat)"
    by (auto simp: upper_hex_def of_char_of)
  then show ?thesis by auto
qed

lemma of_char_div_16: "(of_char c :: nat) div 16 < 16"
proof -
  have "(of_char c :: nat) < 16 * 16" using nat_of_char_less_256 [of c] by simp
  then show ?thesis by (rule less_mult_imp_div_less)
qed

lemma pct_unescape: "path_unescape (pct c @ s) = map_option (Cons c) (path_unescape s)"
proof -
  have "(of_char c :: nat) div 16 < 16"
    by (rule of_char_div_16)
  moreover have "char_of ((of_char c :: nat) div 16 * 16 + of_char c mod 16) = c"
    by (simp only: div_mult_mod_eq char_of_char)
  ultimately show ?thesis
    by (simp add: pct_def Let_def unhex_upper_hex)
qed

lemma percent_not_kept: "\<not> keep_in_segment (CHR ''%'')"
  by (simp add: keep_in_segment_def is_unreserved_def is_alnum_def)

lemma path_escape_Nil [simp]: "path_escape [] = []"
  by (simp add: path_escape_def)

lemma path_unescape_escape [gostr, simp]: "path_unescape (path_escape s) = Some s"
proof (induction s)
  case (Cons c cs)
  then show ?case
    using percent_not_kept
    by (cases "keep_in_segment c") (auto simp: path_escape_def pct_unescape)
qed simp

lemma path_escape_no_slash [simp, gostr]: "CHR ''/'' \<notin> set (path_escape s)"
proof -
  have "\<not> keep_in_segment (CHR ''/'')"
    by (simp add: keep_in_segment_def is_unreserved_def is_alnum_def)
  moreover have "CHR ''/'' \<notin> set (pct c)" for c
    using upper_hex_char [OF of_char_div_16 [of c]] upper_hex_char [of "of_char c mod 16"]
    by (auto simp: pct_def Let_def)
  ultimately show ?thesis
    by (induction s) (auto simp: path_escape_def)
qed

lemma path_escape_inj: "path_escape a = path_escape b \<longleftrightarrow> a = b"
  by (metis option.inject path_unescape_escape)

lemma path_escape_eq_Nil [simp]: "path_escape s = [] \<longleftrightarrow> s = []"
  by (metis path_escape_Nil path_escape_inj)

section \<open>Maps\<close>

abbreviation keys :: "('k \<times> 'v) list \<Rightarrow> 'k list" where
  "keys m \<equiv> map fst m"

text \<open>The entries of a map nested in a datatype are smaller than it.\<close>

lemma size_entry [termination_simp]: "(k, a) \<in> set kvs \<Longrightarrow> size a < Suc (size_list (size_prod (\<lambda>_. 0) size) kvs)"
  by (induction kvs) auto

definition wf_map :: "('k \<times> 'v) list \<Rightarrow> bool" where
  "wf_map m \<longleftrightarrow> distinct (keys m)"

text \<open>\<open>m[k] = v\<close> for every entry of another map, in its order.\<close>

fun overlay :: "('k \<times> 'v) list \<Rightarrow> ('k \<times> 'v) list \<Rightarrow> ('k \<times> 'v) list" where
  "overlay m [] = m"
| "overlay m ((k, v) # kvs) = overlay (AList.update k v m) kvs"

definition has_key :: "('k \<times> 'v) list \<Rightarrow> 'k \<Rightarrow> bool" where
  "has_key m k \<longleftrightarrow> map_of m k \<noteq> None"

lemma has_key_iff [gomap]: "has_key m k \<longleftrightarrow> k \<in> set (keys m)"
  by (simp add: has_key_def map_of_eq_None_iff)

lemma wf_map_update [simp, gomap]: "wf_map m \<Longrightarrow> wf_map (AList.update k v m)"
  by (simp add: wf_map_def distinct_update)

lemma wf_map_overlay [simp, gomap]: "wf_map m \<Longrightarrow> wf_map (overlay m kvs)"
  by (induction m kvs rule: overlay.induct) auto

lemma map_of_update [simp, gomap]: "map_of (AList.update k v m) = (map_of m)(k \<mapsto> v)"
  by (rule update_conv')

lemma map_of_overlay_other: "k \<notin> set (keys kvs) \<Longrightarrow> map_of (overlay m kvs) k = map_of m k"
  by (induction m kvs rule: overlay.induct) auto

lemma map_of_overlay [gomap]:
  "wf_map kvs \<Longrightarrow> map_of (overlay m kvs) k = (case map_of kvs k of None \<Rightarrow> map_of m k | Some v \<Rightarrow> Some v)"
proof (induction m kvs rule: overlay.induct)
  case (2 m k' v kvs)
  then have n: "map_of kvs k' = None" and w: "wf_map kvs"
    by (auto simp: wf_map_def map_of_eq_None_iff)
  from "2.IH" [OF w] n show ?case
    by (auto split: option.splits)
qed simp

lemma keys_overlay [gomap]: "set (keys (overlay m kvs)) = set (keys m) \<union> set (keys kvs)"
  by (induction m kvs rule: overlay.induct) (auto simp: update_keys dom_update)

lemma set_overlay: "set (overlay m kvs) \<subseteq> set m \<union> set kvs"
proof (induction m kvs rule: overlay.induct)
  case (2 m k v kvs)
  have "set (AList.update k v m) \<subseteq> insert (k, v) (set m)"
    by (induction m) auto
  with 2 show ?case by auto
qed simp

lemma wf_map_lookup [gomap]: "wf_map m \<Longrightarrow> (k, v) \<in> set m \<longleftrightarrow> map_of m k = Some v"
  by (metis map_of_SomeD map_of_is_SomeI wf_map_def)

lemma wf_map_filter [gomap]: "wf_map m \<Longrightarrow> wf_map (filter P m)"
  by (auto simp: wf_map_def distinct_map_filter)

section \<open>Lists by class\<close>

text \<open>The distinct entries of a list, in the order they are first seen.\<close>

fun firsts :: "'a list \<Rightarrow> 'a list \<Rightarrow> 'a list" where
  "firsts seen [] = []"
| "firsts seen (y # ys) = (if y \<in> set seen then firsts seen ys else y # firsts (y # seen) ys)"

lemma firsts_set: "set (firsts seen ys) = set ys - set seen"
  by (induction ys arbitrary: seen) auto

lemma firsts_distinct: "distinct (firsts seen ys)"
  by (induction ys arbitrary: seen) (auto simp: firsts_set)

lemma firsts_snoc: "firsts seen (ys @ [y]) = firsts seen ys @ (if y \<in> set seen \<union> set ys then [] else [y])"
  by (induction ys arbitrary: seen) auto

text \<open>Sorting the entries of a list into classes and putting the classes back together.\<close>

lemma class_of: "distinct ks \<Longrightarrow> concat (map (\<lambda>k. if c = k then [y] else []) ks) = (if c \<in> set ks then [y] else [])"
  by (induction ks) auto

lemma mset_by_class:
  "distinct ks \<Longrightarrow> g ` set ys \<subseteq> set ks \<Longrightarrow> mset (concat (map (\<lambda>k. filter (\<lambda>y. g y = k) ys) ks)) = mset ys"
proof (induction ys)
  case (Cons y ys)
  have "mset (concat (map (\<lambda>k. filter (\<lambda>z. g z = k) (y # ys)) ks))
      = mset (concat (map (\<lambda>k. if g y = k then [y] else []) ks)) + mset (concat (map (\<lambda>k. filter (\<lambda>z. g z = k) ys) ks))"
    by (induction ks) auto
  moreover have "mset (concat (map (\<lambda>k. if g y = k then [y] else []) ks)) = {#y#}"
    using Cons.prems(1) class_of [of ks "g y" y] Cons.prems(2) by simp
  ultimately show ?case using Cons by simp
qed (induction ks; simp)

end
