(* ===== verification/Values.thy ===== *)
theory Values
  imports Prelude
begin

text \<open>
  The data the provider moves between the host and Google (internal/gcprov/ids.go, \<open>toRaw\<close>
  and \<open>fromRaw\<close>; internal/gcprov/crud.go, \<open>isEmpty\<close> and \<open>lookupPath\<close>;
  internal/gcprov/reconcile.go, \<open>isZero\<close>). \<open>any\<close> is what a Go \<open>any\<close> of this program can
  hold: JSON data as \<open>encoding/json\<close> decodes it (nil, string, bool, float64, \<open>[]any\<close>,
  \<open>map[string]any\<close>), an int64, and the two composites a \<open>value.Value\<close> holds in its \<open>Raw\<close>
  field, \<open>[]value.Value\<close> and \<open>map[string]value.Value\<close>. \<open>val\<close> is \<open>value.Value\<close> with the four
  fields the code reads and writes; \<open>Kind\<close> and \<open>Raw\<close> may disagree, as they may in Go.

  Package \<open>value\<close> of infrena is not part of this repository, so its functions are fields of
  the record \<open>ext\<close>, an argument of the definitions that call them; so are the few standard
  library conversions whose text the model never looks into (float formatting, durations,
  HTTP dates). A float64 is the rational number it denotes, which covers every number JSON
  can carry.
\<close>

section \<open>Kinds, values and data\<close>

datatype kind = KInvalid | KString | KInt | KFloat | KBool | KList | KMap

datatype source = SourceUnset | SourceProvider | SourceExplicit

datatype any =
    ANil
  | AStr string
  | ABool bool
  | AInt int
  | AFloat rat
  | AList "any list"
  | AObj "(string \<times> any) list"
  | AVals "val list"
  | AFields "(string \<times> val) list"
and val = Val (vkind: kind) (vknown: bool) (vraw: any) (vsource: source)

type_synonym json = "(string \<times> any) list"
type_synonym attrs = "(string \<times> val) list"

record ext =
  x_equal :: "val \<Rightarrow> val \<Rightarrow> bool"
  x_coerce :: "val \<Rightarrow> kind \<Rightarrow> val option"
  x_as_string :: "val \<Rightarrow> string option"
  x_kind_name :: "kind \<Rightarrow> string"
  x_sprint :: "any \<Rightarrow> string"
  x_format_float :: "rat \<Rightarrow> string"
  x_parse_duration :: "string \<Rightarrow> int option"
  x_http_time :: "string \<Rightarrow> int option"

text \<open>The values the source writes with \<open>value.String\<close>, \<open>value.Int\<close> and so on, and \<open>value.Value{}\<close>.\<close>

definition v_string :: "string \<Rightarrow> source \<Rightarrow> val" where
  "v_string s src = Val KString True (AStr s) src"

definition v_bool :: "bool \<Rightarrow> source \<Rightarrow> val" where
  "v_bool b src = Val KBool True (ABool b) src"

definition v_int :: "int \<Rightarrow> source \<Rightarrow> val" where
  "v_int i src = Val KInt True (AInt i) src"

definition v_float :: "rat \<Rightarrow> source \<Rightarrow> val" where
  "v_float f src = Val KFloat True (AFloat f) src"

definition v_list :: "val list \<Rightarrow> source \<Rightarrow> val" where
  "v_list vs src = Val KList True (AVals vs) src"

definition v_map :: "attrs \<Rightarrow> source \<Rightarrow> val" where
  "v_map kvs src = Val KMap True (AFields kvs) src"

definition zero_val :: val where
  "zero_val = Val KInvalid False ANil SourceUnset"

text \<open>A Go map read: the zero value for a missing key.\<close>

definition vget :: "attrs \<Rightarrow> string \<Rightarrow> val" where
  "vget m k = (case map_of m k of None \<Rightarrow> zero_val | Some v \<Rightarrow> v)"

text \<open>Type assertions with a discarded \<open>ok\<close>: the zero value of the asserted type.\<close>

definition any_str :: "any option \<Rightarrow> string" where
  "any_str a = (case a of Some (AStr s) \<Rightarrow> s | _ \<Rightarrow> [])"

definition any_obj :: "any option \<Rightarrow> json option" where
  "any_obj a = (case a of Some (AObj m) \<Rightarrow> Some m | _ \<Rightarrow> None)"

definition any_true :: "any option \<Rightarrow> bool" where
  "any_true a \<longleftrightarrow> a = Some (ABool True)"

definition raw_str :: "val \<Rightarrow> string" where
  "raw_str v = (case vraw v of AStr s \<Rightarrow> s | _ \<Rightarrow> [])"

definition raw_fields :: "val \<Rightarrow> attrs option" where
  "raw_fields v = (case vraw v of AFields kvs \<Rightarrow> Some kvs | _ \<Rightarrow> None)"

definition raw_vals :: "val \<Rightarrow> val list option" where
  "raw_vals v = (case vraw v of AVals vs \<Rightarrow> Some vs | _ \<Rightarrow> None)"

definition is_str_raw :: "val \<Rightarrow> bool" where
  "is_str_raw v \<longleftrightarrow> (case vraw v of AStr _ \<Rightarrow> True | _ \<Rightarrow> False)"

section \<open>Between JSON data and values (ids.go)\<close>

fun to_raw :: "val \<Rightarrow> any" where
  "to_raw (Val k kn r s) = (case k of
      KList \<Rightarrow> AList (case r of AVals vs \<Rightarrow> map to_raw vs | _ \<Rightarrow> [])
    | KMap \<Rightarrow> AObj (case r of AFields kvs \<Rightarrow> map (\<lambda>(n, v). (n, to_raw v)) kvs | _ \<Rightarrow> [])
    | _ \<Rightarrow> r)"

text \<open>
  \<open>v == float64(int64(v))\<close> for a float64: whole and in the range of int64. (Outside that
  range Go leaves the conversion to the platform; on amd64 it gives \<open>-2^63\<close>, which is how
  the comparison below comes out.)
\<close>

definition whole_int64 :: "rat \<Rightarrow> bool" where
  "whole_int64 f \<longleftrightarrow> f = of_int \<lfloor>f\<rfloor> \<and> - (2 ^ 63) \<le> \<lfloor>f\<rfloor> \<and> \<lfloor>f\<rfloor> < 2 ^ 63"

fun from_raw :: "ext \<Rightarrow> any \<Rightarrow> val" where
  "from_raw x (AStr s) = v_string s SourceProvider"
| "from_raw x (ABool b) = v_bool b SourceProvider"
| "from_raw x (AFloat f) =
     (if whole_int64 f then v_int \<lfloor>f\<rfloor> SourceProvider else v_float f SourceProvider)"
| "from_raw x (AInt i) = v_int i SourceProvider"
| "from_raw x (AList as) = v_list (map (from_raw x) as) SourceProvider"
| "from_raw x (AObj kvs) = v_map (map (\<lambda>(n, a). (n, from_raw x a)) kvs) SourceProvider"
| "from_raw x ANil = zero_val"
| "from_raw x a = v_string (x_sprint x a) SourceProvider"

section \<open>Small predicates of crud.go and reconcile.go\<close>

definition is_empty_val :: "val \<Rightarrow> bool" where
  "is_empty_val v \<longleftrightarrow> \<not> vknown v \<or> vkind v = KInvalid \<or>
     (case vraw v of AVals vs \<Rightarrow> vs = [] | AFields kvs \<Rightarrow> kvs = [] | _ \<Rightarrow> False)"

definition is_zero :: "val \<Rightarrow> bool" where
  "is_zero v \<longleftrightarrow> vknown v \<and> (case vraw v of
      ABool b \<Rightarrow> \<not> b
    | AInt i \<Rightarrow> i = 0
    | AFloat f \<Rightarrow> f = 0
    | AStr s \<Rightarrow> s = []
    | AVals vs \<Rightarrow> vs = []
    | AFields kvs \<Rightarrow> kvs = []
    | _ \<Rightarrow> False)"

fun lookup_parts :: "attrs \<Rightarrow> string list \<Rightarrow> val option" where
  "lookup_parts cur [] = None"
| "lookup_parts cur (part # rest) = (case map_of cur part of
      None \<Rightarrow> None
    | Some v \<Rightarrow>
        if \<not> vknown v then None
        else if rest = [] then Some v
        else (case raw_fields v of None \<Rightarrow> None | Some next \<Rightarrow> lookup_parts next rest))"

definition lookup_path :: "attrs \<Rightarrow> string \<Rightarrow> val option" where
  "lookup_path attrs path = lookup_parts attrs (split_on (CHR ''.'') path)"

section \<open>Lemmas\<close>

lemmas val_ctors = v_string_def v_bool_def v_int_def v_float_def v_list_def v_map_def

lemma vknown_ctors [simp]:
  "vknown (v_string s src)" "vknown (v_bool b src)" "vknown (v_int i src)"
  "vknown (v_float f src)" "vknown (v_list vs src)" "vknown (v_map kvs src)" "\<not> vknown zero_val"
  by (simp_all add: val_ctors zero_val_def)

lemma raw_str_v_string [simp]: "raw_str (v_string s src) = s"
  by (simp add: raw_str_def v_string_def)

lemma vget_update [simp, gomap]: "vget (AList.update k v m) k' = (if k' = k then v else vget m k')"
  by (simp add: vget_def)

text \<open>A datum JSON can hold, with every number one \<open>fromRaw\<close> keeps, comes back from the round trip.\<close>

fun json_datum :: "any \<Rightarrow> bool" where
  "json_datum (AStr _) = True"
| "json_datum (ABool _) = True"
| "json_datum (AFloat f) = (\<not> whole_int64 f)"
| "json_datum (AInt _) = True"
| "json_datum (AList as) = list_all json_datum as"
| "json_datum (AObj kvs) = list_all (\<lambda>(n, a). json_datum a) kvs"
| "json_datum ANil = True"
| "json_datum _ = False"

lemma to_raw_from_raw: "json_datum a \<Longrightarrow> to_raw (from_raw x a) = a"
proof (induction x a rule: from_raw.induct)
  case (5 x as)
  then show ?case by (auto simp: v_list_def list_all_iff intro: map_idI)
next
  case (6 x kvs)
  then show ?case by (fastforce simp: v_map_def list_all_iff intro: map_idI)
qed (auto simp: val_ctors zero_val_def)

text \<open>The values a JSON answer turns into: \<open>Kind\<close> and \<open>Raw\<close> agree, whole numbers are integers.\<close>

fun json_val :: "val \<Rightarrow> bool" where
  "json_val (Val k kn r s) = (s = SourceProvider \<and> kn \<and> (case r of
      AStr _ \<Rightarrow> k = KString
    | ABool _ \<Rightarrow> k = KBool
    | AInt _ \<Rightarrow> k = KInt
    | AFloat f \<Rightarrow> k = KFloat \<and> \<not> whole_int64 f
    | AVals vs \<Rightarrow> k = KList \<and> list_all json_val vs
    | AFields kvs \<Rightarrow> k = KMap \<and> list_all (\<lambda>(n, v). json_val v) kvs
    | _ \<Rightarrow> False))"

lemma from_raw_to_raw: "json_val v \<Longrightarrow> from_raw x (to_raw v) = v"
proof (induction v rule: json_val.induct)
  case (1 k kn r s)
  then show ?case
  proof (cases r)
    case (AVals vs)
    with 1 show ?thesis by (auto simp: v_list_def list_all_iff intro: map_idI)
  next
    case (AFields kvs)
    with 1 show ?thesis by (fastforce simp: v_map_def list_all_iff intro: map_idI)
  qed (auto simp: val_ctors)
qed

end
