(* ===== verification/Errors.thy ===== *)
theory Errors
  imports Values
begin

text \<open>
  What went wrong and whether it may be retried: internal/gcprov/errors.go (the error
  envelope, \<open>decodeAPIError\<close>, \<open>parseRetryAfter\<close>, \<open>ClassifyError\<close>), \<open>isNotFound\<close> of crud.go and
  \<open>operationError\<close> of await.go. \<open>errors.As\<close> is the search down a chain of \<open>Wrapf\<close>. Times are
  nanoseconds, as \<open>time.Duration\<close> counts them, and wrap as an int64 does.
\<close>

section \<open>The error envelope\<close>

record envelope =
  env_code :: int
  env_message :: string
  env_status :: string
  env_details :: "(string \<times> string) list"
  env_errors :: "string list"

text \<open>
  \<open>json.Unmarshal\<close> into a struct field: a missing or null field keeps its zero value, a field
  of another type is an error (\<open>None\<close>).
\<close>

definition decode_string :: "json \<Rightarrow> string \<Rightarrow> string option" where
  "decode_string m k = (case map_of m k of
      None \<Rightarrow> Some [] | Some ANil \<Rightarrow> Some [] | Some (AStr s) \<Rightarrow> Some s | _ \<Rightarrow> None)"

definition decode_int :: "json \<Rightarrow> string \<Rightarrow> int option" where
  "decode_int m k = (case map_of m k of
      None \<Rightarrow> Some 0 | Some ANil \<Rightarrow> Some 0
    | Some (AFloat f) \<Rightarrow> if whole_int64 f then Some \<lfloor>f\<rfloor> else None
    | Some (AInt i) \<Rightarrow> Some i | _ \<Rightarrow> None)"

fun decode_objs :: "any list \<Rightarrow> json list option" where
  "decode_objs [] = Some []"
| "decode_objs (AObj m # as) = map_option (Cons m) (decode_objs as)"
| "decode_objs (ANil # as) = map_option (Cons []) (decode_objs as)"
| "decode_objs (_ # as) = None"

definition decode_array :: "json \<Rightarrow> string \<Rightarrow> json list option" where
  "decode_array m k = (case map_of m k of
      None \<Rightarrow> Some [] | Some ANil \<Rightarrow> Some [] | Some (AList as) \<Rightarrow> decode_objs as | _ \<Rightarrow> None)"

fun decode_detail :: "json list \<Rightarrow> (string \<times> string) list option" where
  "decode_detail [] = Some []"
| "decode_detail (m # ms) = do {
     t \<leftarrow> decode_string m ''@type''; r \<leftarrow> decode_string m ''reason'';
     rest \<leftarrow> decode_detail ms; Some ((t, r) # rest) }"

fun decode_reasons :: "json list \<Rightarrow> string list option" where
  "decode_reasons [] = Some []"
| "decode_reasons (m # ms) = do {
     r \<leftarrow> decode_string m ''reason''; rest \<leftarrow> decode_reasons ms; Some (r # rest) }"

definition empty_envelope :: envelope where
  "empty_envelope = \<lparr>env_code = 0, env_message = [], env_status = [], env_details = [], env_errors = []\<rparr>"

definition decode_envelope :: "any option \<Rightarrow> envelope option" where
  "decode_envelope body = (case body of
      Some (AObj m) \<Rightarrow> (case map_of m ''error'' of
          None \<Rightarrow> Some empty_envelope
        | Some ANil \<Rightarrow> Some empty_envelope
        | Some (AObj e) \<Rightarrow> do {
            code \<leftarrow> decode_int e ''code'';
            msg \<leftarrow> decode_string e ''message'';
            st \<leftarrow> decode_string e ''status'';
            ds \<leftarrow> decode_array e ''details'';
            details \<leftarrow> decode_detail ds;
            es \<leftarrow> decode_array e ''errors'';
            errors \<leftarrow> decode_reasons es;
            Some \<lparr>env_code = code, env_message = msg, env_status = st,
              env_details = details, env_errors = errors\<rparr> }
        | _ \<Rightarrow> None)
    | Some ANil \<Rightarrow> Some empty_envelope
    | _ \<Rightarrow> None)"

definition error_info_type :: string where
  "error_info_type = ''type.googleapis.com/google.rpc.ErrorInfo''"

definition reason_of :: "envelope \<Rightarrow> string" where
  "reason_of env = (case find (\<lambda>(t, r). t = error_info_type \<and> r \<noteq> []) (env_details env) of
      Some (t, r) \<Rightarrow> r
    | None \<Rightarrow> (case find (\<lambda>r. r \<noteq> []) (env_errors env) of Some r \<Rightarrow> r | None \<Rightarrow> []))"

section \<open>Retry-After and decodeAPIError\<close>

definition wrap64 :: "int \<Rightarrow> int" where
  "wrap64 i = (i + 2 ^ 63) mod 2 ^ 64 - 2 ^ 63"

definition second :: int where "second = 1000000000"

text \<open>\<open>now\<close> is the clock \<open>time.Until\<close> reads.\<close>

definition parse_retry_after :: "ext \<Rightarrow> int \<Rightarrow> string \<Rightarrow> int" where
  "parse_retry_after x now v =
     (if v = [] then 0
      else case atoi v of
        Some secs \<Rightarrow> if secs < 0 then 0 else wrap64 (secs * second)
      | None \<Rightarrow> (case x_http_time x v of
            Some t \<Rightarrow> if t - now > 0 then t - now else 0
          | None \<Rightarrow> 0))"

definition decode_api_error :: "ext \<Rightarrow> int \<Rightarrow> int \<Rightarrow> string \<Rightarrow> string \<Rightarrow> any option \<Rightarrow> api_error" where
  "decode_api_error x now status retryAfter text body =
     (let ra = parse_retry_after x now retryAfter;
          plain = \<lparr>Status = status, Code = [], Message = text, Reason = [], RetryAfter = ra\<rparr>
      in case decode_envelope body of
           None \<Rightarrow> plain
         | Some env \<Rightarrow>
             if env_status env \<noteq> [] \<or> env_message env \<noteq> []
             then plain\<lparr>Message := (if env_message env \<noteq> [] then env_message env else text),
                    Code := env_status env, Reason := reason_of env\<rparr>
             else plain)"

text \<open>\<open>(*APIError).Error\<close>.\<close>

definition api_error_text :: "api_error \<Rightarrow> string" where
  "api_error_text e = (if Code e \<noteq> []
     then ''gcp: '' @ Message e @ '' ('' @ format_int (Status e) @ '' '' @ Code e @ '')''
     else ''gcp: '' @ Message e @ '' ('' @ format_int (Status e) @ '')'')"

section \<open>Classification\<close>

datatype retryability = SafeToRetry | NotSafeToRetry | ConditionallyRetryable

definition retryable_codes :: "string list" where
  "retryable_codes = [''RESOURCE_EXHAUSTED'', ''UNAVAILABLE'', ''ABORTED'']"

definition not_retryable_codes :: "string list" where
  "not_retryable_codes =
     [''INVALID_ARGUMENT'', ''PERMISSION_DENIED'', ''FAILED_PRECONDITION'', ''ALREADY_EXISTS'']"

definition retryable_reasons :: "string list" where
  "retryable_reasons = [''RATE_LIMIT_EXCEEDED'', ''rateLimitExceeded'']"

definition retryable_status :: "int list" where
  "retryable_status = [429, 500, 503]"

fun api_error_of :: "gerr \<Rightarrow> api_error option" where
  "api_error_of (ApiErr e) = Some e"
| "api_error_of (Wrapf f args e) = api_error_of e"
| "api_error_of _ = None"

text \<open>
  A failure of \<open>http.Client.Do\<close> is a \<open>*url.Error\<close>; \<open>context.DeadlineExceeded\<close> has the methods
  of \<open>net.Error\<close> and \<open>context.Canceled\<close> has not.
\<close>

fun is_transport_error :: "gerr \<Rightarrow> bool" where
  "is_transport_error (NetErr s) = True"
| "is_transport_error UnexpectedEOF = True"
| "is_transport_error (CtxErr DeadlineExceeded) = True"
| "is_transport_error (Wrapf f args e) = is_transport_error e"
| "is_transport_error _ = False"

definition classify_error :: "gerr \<Rightarrow> retryability" where
  "classify_error err = (case api_error_of err of
      Some ae \<Rightarrow>
        if Reason ae \<in> set retryable_reasons then SafeToRetry
        else if Code ae \<in> set retryable_codes then SafeToRetry
        else if Code ae \<in> set not_retryable_codes then NotSafeToRetry
        else if Status ae \<in> set retryable_status then SafeToRetry
        else NotSafeToRetry
    | None \<Rightarrow> if is_transport_error err then ConditionallyRetryable else NotSafeToRetry)"

definition is_not_found :: "gerr \<Rightarrow> bool" where
  "is_not_found err = (case api_error_of err of
      Some ae \<Rightarrow> Status ae = 404 \<or> Code ae = ''NOT_FOUND''
    | None \<Rightarrow> False)"

section \<open>Failed operations\<close>

text \<open>\<open>int(c)\<close> for a float64 truncates towards zero.\<close>

definition trunc :: "rat \<Rightarrow> int" where
  "trunc f = (if f < 0 then \<lceil>f\<rceil> else \<lfloor>f\<rfloor>)"

text \<open>The first code and all the messages of compute's list of sub-errors.\<close>

fun sub_errors :: "any list \<Rightarrow> string \<Rightarrow> string list \<Rightarrow> string \<times> string list" where
  "sub_errors [] code msgs = (code, msgs)"
| "sub_errors (AObj em # es) code msgs =
     sub_errors es
       (if code = [] then any_str (map_of em ''code'') else code)
       (if any_str (map_of em ''message'') \<noteq> [] then msgs @ [any_str (map_of em ''message'')] else msgs)"
| "sub_errors (_ # es) code msgs = sub_errors es code msgs"

definition operation_error :: "string \<Rightarrow> json \<Rightarrow> gerr" where
  "operation_error tyName e = (case map_of e ''errors'' of
      Some (AList es) \<Rightarrow> (case sub_errors es [] [] of (code, msgs) \<Rightarrow>
        ApiErr \<lparr>Status = 0, Code = code, Message = tyName @ '': '' @ join_with ''; '' msgs,
          Reason = [], RetryAfter = 0\<rparr>)
    | _ \<Rightarrow>
        ApiErr \<lparr>Status = 0,
          Code = (case map_of e ''code'' of Some (AFloat c) \<Rightarrow> format_int (trunc c) | _ \<Rightarrow> []),
          Message = tyName @ '': '' @ any_str (map_of e ''message''),
          Reason = [], RetryAfter = 0\<rparr>)"

section \<open>Lemmas\<close>

lemma classify_error_wrap: "classify_error (Wrapf f args e) = classify_error e"
  by (simp add: classify_error_def)

lemma is_not_found_wrap: "is_not_found (Wrapf f args e) = is_not_found e"
  by (simp add: is_not_found_def)

lemma decode_api_error_status: "Status (decode_api_error x now st ra text body) = st"
  by (simp add: decode_api_error_def Let_def split: option.splits)

text \<open>No error answer is lost: whatever its body, the classification is decided by what it carries.\<close>

lemma classify_api_total: "classify_error (ApiErr e) \<noteq> ConditionallyRetryable"
  by (simp add: classify_error_def)

end
