(* ===== verification/Backoff.thy ===== *)
theory Backoff
  imports Errors
begin

text \<open>
  The waits of internal/gcprov/backoff.go: full-jitter exponential backoff and the token
  bucket. \<open>draw n\<close> stands for the random source \<open>jitterFn(n)\<close>, which answers in \<open>[0, n)\<close>; the
  float64 arithmetic on tokens is written on the rationals, and the conversion to a duration
  truncates as Go's does.
\<close>

definition backoff_base :: int where "backoff_base = 250000000"
definition backoff_cap :: int where "backoff_cap = 30 * second"

text \<open>The ceiling: doubling in float64 is exact, and \<open>+Inf\<close> is above the cap as the exact value is.\<close>

definition backoff_ceiling :: "nat \<Rightarrow> int" where
  "backoff_ceiling n = min backoff_cap (backoff_base * 2 ^ n)"

definition backoff_delay :: "(int \<Rightarrow> int) \<Rightarrow> nat \<Rightarrow> int \<Rightarrow> int" where
  "backoff_delay draw n ra =
     (if ra > 0 then ra
      else if backoff_ceiling n \<le> 0 then 0
      else draw (backoff_ceiling n + 1))"

record limiter =
  l_qps :: rat
  l_tokens :: rat
  l_last :: int

definition new_limiter :: "rat \<Rightarrow> int \<Rightarrow> limiter" where
  "new_limiter qps now = \<lparr>l_qps = qps, l_tokens = qps, l_last = now\<rparr>"

text \<open>The bucket refilled for the time since it was last looked at, up to one second's worth.\<close>

definition refill :: "limiter \<Rightarrow> int \<Rightarrow> limiter" where
  "refill l now = l\<lparr>l_last := now,
     l_tokens := min (l_qps l) (l_tokens l + of_int (now - l_last l) / of_int second * l_qps l)\<rparr>"

definition take_token :: "limiter \<Rightarrow> int \<Rightarrow> int \<times> bool \<times> limiter" where
  "take_token l now = (let l' = refill l now in
     if l_tokens l' \<ge> 1 then (0, True, l'\<lparr>l_tokens := l_tokens l' - 1\<rparr>)
     else (trunc ((1 - l_tokens l') / l_qps l' * of_int second), False, l'))"

section \<open>Lemmas\<close>

lemma backoff_ceiling_bounds: "0 < backoff_ceiling n \<and> backoff_ceiling n \<le> backoff_cap"
  by (simp add: backoff_ceiling_def backoff_cap_def backoff_base_def second_def)

lemma refill_bound: "l_tokens (refill l now) \<le> l_qps l" "l_qps (refill l now) = l_qps l"
  by (simp_all add: refill_def)

lemma take_token_qps: "take_token l now = (wait, ok, l') \<Longrightarrow> l_qps l' = l_qps l \<and> l_last l' = now"
  by (auto simp: take_token_def Let_def refill_def split: if_splits)

text \<open>The invariant of a bucket: never negative, never above one second's worth.\<close>

definition bucket_ok :: "limiter \<Rightarrow> bool" where
  "bucket_ok l \<longleftrightarrow> 0 \<le> l_tokens l \<and> l_tokens l \<le> l_qps l"

lemma bucket_ok_new: "0 \<le> qps \<Longrightarrow> bucket_ok (new_limiter qps now)"
  by (simp add: bucket_ok_def new_limiter_def)

lemma bucket_ok_refill: "bucket_ok l \<Longrightarrow> l_last l \<le> now \<Longrightarrow> bucket_ok (refill l now)"
  by (simp add: bucket_ok_def refill_def second_def)

lemma bucket_ok_take:
  assumes "bucket_ok l" "l_last l \<le> now" "take_token l now = (wait, ok, l')"
  shows "bucket_ok l'"
proof -
  have "bucket_ok (refill l now)" by (rule bucket_ok_refill [OF assms(1,2)])
  with assms(3) show ?thesis
    by (auto simp: take_token_def Let_def bucket_ok_def split: if_splits)
qed

end
