(* ===== verification/CatalogModel.thy ===== *)
theory CatalogModel
  imports Values
begin

text \<open>
  The generated description of every served type (internal/catalog/catalog.go): attributes at
  any depth, types, setters, create bindings, the conversion to what the host is told, and
  the check that a type's create url can be filled. Go structs are records, \<open>Attr\<close> a datatype
  because it nests: its flags are the record \<open>attr_info\<close>, its \<open>Fields\<close> an association list
  and its \<open>Elem\<close> an option for the nil pointer. \<open>Sources\<close>, never serialised, is left out.
  The declarations of package \<open>schema\<close> (infrena) are the fields this code fills in.
\<close>

section \<open>Data\<close>

datatype await_kind = AwaitNone | AwaitComputeOperation | AwaitLongRunning

datatype scope = ScopeGlobal | ScopeRegional | ScopeZonal

record ref_target =
  r_type :: string
  r_attribute :: string

record attr_info =
  i_canonical :: string
  i_aliases :: "string list"
  i_kind :: kind
  i_required :: bool
  i_force_new :: bool
  i_output :: bool
  i_sensitive :: bool
  i_equivalence :: string
  i_description :: string
  i_ref :: "ref_target option"
  i_opaque :: bool
  i_create_only :: bool
  i_input_only :: bool
  i_send_with_update :: bool
  i_unordered :: bool

datatype attr = Attr (a_info: attr_info) (a_fields: "(string \<times> attr) list") (a_elem: "attr option")

type_synonym level = "(string \<times> attr) list"

abbreviation a_canonical :: "attr \<Rightarrow> string" where "a_canonical a \<equiv> i_canonical (a_info a)"
abbreviation a_kind :: "attr \<Rightarrow> kind" where "a_kind a \<equiv> i_kind (a_info a)"
abbreviation a_output :: "attr \<Rightarrow> bool" where "a_output a \<equiv> i_output (a_info a)"
abbreviation a_opaque :: "attr \<Rightarrow> bool" where "a_opaque a \<equiv> i_opaque (a_info a)"
abbreviation a_unordered :: "attr \<Rightarrow> bool" where "a_unordered a \<equiv> i_unordered (a_info a)"
abbreviation a_input_only :: "attr \<Rightarrow> bool" where "a_input_only a \<equiv> i_input_only (a_info a)"
abbreviation a_create_only :: "attr \<Rightarrow> bool" where "a_create_only a \<equiv> i_create_only (a_info a)"
abbreviation a_send_with_update :: "attr \<Rightarrow> bool" where
  "a_send_with_update a \<equiv> i_send_with_update (a_info a)"
abbreviation a_equivalence :: "attr \<Rightarrow> string" where "a_equivalence a \<equiv> i_equivalence (a_info a)"

record create_binding =
  b_attr :: string
  b_template :: string

record setter =
  s_method :: string
  s_path :: string
  s_verb :: string
  s_fields :: "string list"
  s_lock :: string

record ctype =
  t_name :: string
  t_service :: string
  t_description :: string
  t_tier :: int
  t_tier_reason :: string
  t_api_base_url :: string
  t_path_prefix :: string
  t_base_url :: string
  t_create_url :: string
  t_update_url :: string
  t_delete_url :: string
  t_self_link :: string
  t_create_wrapper :: string
  t_update_wrapper :: string
  t_update_mask_field :: string
  t_lock_field :: string
  t_setters :: "setter list"
  t_endpoint_template :: string
  t_clear_before_delete :: "string list"
  t_patch_one_field :: bool
  t_create_verb :: string
  t_update_verb :: string
  t_update_mask :: bool
  t_operation_poll_path :: string
  t_operation_param_patterns :: "(string \<times> string) list"
  t_await :: await_kind
  t_delete_await :: "await_kind option"
  t_update_await :: "await_kind option"
  t_operation_wait_path :: string
  t_timeout_seconds :: int
  t_read_via :: string
  t_import_format :: string
  t_asset_type :: string
  t_scope :: scope
  t_parent_root :: string
  t_list_field :: string
  t_create_bindings :: "(string \<times> create_binding) list"
  t_attributes :: level

record catalog =
  c_generated :: string
  c_mmv1_commit :: string
  c_types :: "ctype list"
  c_discover_default :: "string list"

section \<open>Lookups\<close>

text \<open>\<open>index\<close> writes the types one after the other, so the last of a name wins; \<open>Type\<close> reads it.\<close>

definition index_types :: "ctype list \<Rightarrow> (string \<times> ctype) list" where
  "index_types ts = overlay [] (map (\<lambda>t. (t_name t, t)) ts)"

definition catalog_type :: "catalog \<Rightarrow> string \<Rightarrow> ctype option" where
  "catalog_type c name = map_of (index_types (c_types c)) name"

definition create_template :: "ctype \<Rightarrow> string" where
  "create_template t = (if t_create_url t \<noteq> [] then t_create_url t else t_base_url t)"

text \<open>The scan of a level for a wire name: the first in iteration order.\<close>

definition find_canonical :: "level \<Rightarrow> string \<Rightarrow> (string \<times> attr) option" where
  "find_canonical lvl name = find (\<lambda>(k, a). a_canonical a = name) lvl"

definition top_level_attr :: "ctype \<Rightarrow> string \<Rightarrow> attr option" where
  "top_level_attr t name = (case map_of (t_attributes t) name of
      Some a \<Rightarrow> Some a
    | None \<Rightarrow> map_option snd (find_canonical (t_attributes t) name))"

definition setter_for :: "ctype \<Rightarrow> string \<Rightarrow> setter option" where
  "setter_for t canonical = find (\<lambda>s. canonical \<in> set (s_fields s)) (t_setters t)"

definition update_await_kind :: "ctype \<Rightarrow> await_kind" where
  "update_await_kind t = (case t_update_await t of Some k \<Rightarrow> k | None \<Rightarrow> t_await t)"

definition delete_await_kind :: "ctype \<Rightarrow> await_kind" where
  "delete_await_kind t = (case t_delete_await t of Some k \<Rightarrow> k | None \<Rightarrow> t_await t)"

section \<open>Placeholders of a url template\<close>

text \<open>
  The text from an opening brace on: the content of the placeholder, whether it is the
  double form, and the text after its closing brace; \<open>None\<close> when it is not terminated.
  \<open>cs\<close> is the text after the first \<open>{\<close>.
\<close>

definition open_placeholder :: "string \<Rightarrow> (string \<times> bool \<times> string) option" where
  "open_placeholder cs = (let double = (take 1 cs = ''{'');
       rest = (if double then drop 1 cs else cs);
       close = (if double then ''}}'' else ''}'')
     in case str_index rest close of
          None \<Rightarrow> None
        | Some i \<Rightarrow> Some (trim_space (take i rest), double, drop (i + length close) rest))"

lemma open_placeholder_shorter:
  "open_placeholder cs = Some (content, double, rest) \<Longrightarrow> length rest < Suc (length cs)"
  by (auto simp: open_placeholder_def Let_def split: option.splits if_splits)

function url_placeholders :: "string \<Rightarrow> string list" where
  "url_placeholders s = (case s of [] \<Rightarrow> []
     | c # cs \<Rightarrow>
         if c \<noteq> CHR ''{'' then url_placeholders cs
         else (case open_placeholder cs of
             None \<Rightarrow> []
           | Some (content, double, rest) \<Rightarrow>
               trim_prefix (trim_prefix content ''+'') ''%'' # url_placeholders rest))"
  by pat_completeness auto
termination
  by (relation "measure length") (auto dest: open_placeholder_shorter)

declare url_placeholders.simps [simp del]

section \<open>Can a create url be filled?\<close>

definition is_create_scope_setting :: "string \<Rightarrow> bool" where
  "is_create_scope_setting name \<longleftrightarrow> name \<in> {''project'', ''region'', ''zone'', ''location''}"

definition settable_top_level :: "ctype \<Rightarrow> string \<Rightarrow> bool" where
  "settable_top_level t name \<longleftrightarrow>
     (case top_level_attr t name of Some a \<Rightarrow> \<not> a_output a | None \<Rightarrow> False)"

lemma expanding_shrinks:
  assumes "map_of bs n = Some b" "n \<notin> set ex"
  shows "card (fst ` set bs - insert n (set ex)) < card (fst ` set bs - set ex)"
proof (rule psubset_card_mono)
  have "n \<in> fst ` set bs" using assms(1) by (force dest: map_of_SomeD)
  with assms(2) show "fst ` set bs - insert n (set ex) \<subset> fst ` set bs - set ex" by auto
qed simp

text \<open>
  The walk of \<open>UnresolvedCreatePlaceholders\<close> over the placeholders of a template: \<open>expanding\<close>
  are the placeholders whose binding is being walked, \<open>out\<close> the unresolved names so far.
\<close>

function check_placeholders :: "ctype \<Rightarrow> string list \<Rightarrow> string list \<Rightarrow> string list \<Rightarrow> string list" where
  "check_placeholders t expanding [] out = out"
| "check_placeholders t expanding (name # names) out =
     (if is_create_scope_setting name then check_placeholders t expanding names out
      else case map_of (t_create_bindings t) name of
        Some b \<Rightarrow>
          if name \<in> set expanding then
            check_placeholders t expanding names
              (if settable_top_level t name \<or> name \<in> set out then out else out @ [name])
          else if b_template b \<noteq> [] then
            check_placeholders t expanding names
              (check_placeholders t (name # expanding) (url_placeholders (b_template b)) out)
          else check_placeholders t expanding names out
      | None \<Rightarrow>
          check_placeholders t expanding names
            (if settable_top_level t name \<or> name \<in> set out then out else out @ [name]))"
  by pat_completeness auto
termination
  by (relation "measures [\<lambda>(t, ex, ns, out). card (set (keys (t_create_bindings t)) - set ex),
    \<lambda>(t, ex, ns, out). length ns]") (auto simp: expanding_shrinks)

definition unresolved_create_placeholders :: "ctype \<Rightarrow> string list" where
  "unresolved_create_placeholders t =
     sort (check_placeholders t [] (url_placeholders (create_template t)) [])"

section \<open>What the host is told\<close>

record schema_info =
  sc_kind :: kind
  sc_required :: bool
  sc_optional :: bool
  sc_computed :: bool
  sc_force_new :: bool
  sc_sensitive :: bool
  sc_description :: string
  sc_aliases :: "string list"
  sc_references :: "ref_target option"

datatype schema_attr =
  SAttr (sa_info: schema_info) (sa_fields: "(string \<times> schema_attr) list") (sa_elem: "schema_attr option")

definition schema_flags :: "attr_info \<Rightarrow> bool \<Rightarrow> schema_info" where
  "schema_flags a topLevel =
     \<lparr>sc_kind = i_kind a,
      sc_required = i_required a \<and> \<not> i_output a,
      sc_optional = \<not> i_output a \<and> \<not> i_required a,
      sc_computed = i_output a \<or> \<not> i_required a,
      sc_force_new = i_force_new a,
      sc_sensitive = i_sensitive a,
      sc_description = i_description a,
      sc_aliases = i_aliases a,
      sc_references = (if topLevel then i_ref a else None)\<rparr>"

fun attr_to_schema :: "attr \<Rightarrow> bool \<Rightarrow> schema_attr" where
  "attr_to_schema (Attr i fs e) topLevel =
     SAttr (schema_flags i topLevel)
       (map (\<lambda>(n, f). (n, attr_to_schema f False)) fs)
       (map_option (\<lambda>el. attr_to_schema el False) e)"

definition import_description :: "string \<Rightarrow> string" where
  "import_description format = join_with '' or '' (map trim_space (split_on (CHR 0x0A) format))"

record capabilities =
  cap_create :: bool
  cap_read :: bool
  cap_update :: bool
  cap_delete :: bool
  cap_import :: bool

record resource_definition =
  d_type :: string
  d_description :: string
  d_attributes :: "(string \<times> schema_attr) list"
  d_capabilities :: capabilities
  d_import_description :: string

definition definition_of :: "ctype \<Rightarrow> resource_definition" where
  "definition_of t =
     \<lparr>d_type = t_name t,
      d_description = t_description t,
      d_attributes = map (\<lambda>(n, a). (n, attr_to_schema a True)) (t_attributes t),
      d_capabilities =
        \<lparr>cap_create = (unresolved_create_placeholders t = []),
         cap_read = True,
         cap_update = (t_update_verb t \<noteq> [] \<or> t_setters t \<noteq> []),
         cap_delete = True,
         cap_import = (t_import_format t \<noteq> [])\<rparr>,
      d_import_description = import_description (t_import_format t)\<rparr>"

definition definitions :: "catalog \<Rightarrow> resource_definition list" where
  "definitions c = sort_key d_type (map definition_of (c_types c))"

section \<open>The catalog as it is embedded\<close>

text \<open>
  \<open>Encode\<close>, \<open>Decode\<close> and \<open>Load\<close>: JSON under gzip, both the standard library's. \<open>Load\<close> decodes once and
  keeps what it got, so every call answers the same.
\<close>

definition encode_catalog :: "(catalog \<Rightarrow> gerr + string) \<Rightarrow> (string \<Rightarrow> gerr + string) \<Rightarrow> catalog \<Rightarrow> gerr + string" where
  "encode_catalog marshal gzip c = (case marshal c of
      Inl e \<Rightarrow> Inl (Wrapf ''catalog: %w'' [] e)
    | Inr text \<Rightarrow> map_sum (Wrapf ''catalog: %w'' []) id (gzip text))"

definition decode_catalog :: "(string \<Rightarrow> gerr + string) \<Rightarrow> (string \<Rightarrow> gerr + catalog) \<Rightarrow> string \<Rightarrow> gerr + catalog" where
  "decode_catalog gunzip unmarshal blob = (case gunzip blob of
      Inl e \<Rightarrow> Inl (Wrapf ''catalog: %w'' [] e)
    | Inr text \<Rightarrow> map_sum (Wrapf ''catalog: %w'' []) id (unmarshal text))"

definition load_catalog :: "(string \<Rightarrow> gerr + string) \<Rightarrow> (string \<Rightarrow> gerr + catalog) \<Rightarrow> string \<Rightarrow> gerr + catalog" where
  "load_catalog gunzip unmarshal blob = decode_catalog gunzip unmarshal blob"

lemma embedded_catalog:
  assumes "encode_catalog marshal gzip c = Inr blob"
    and "\<And>text z. gzip text = Inr z \<Longrightarrow> gunzip z = Inr text" "\<And>text. marshal c = Inr text \<Longrightarrow> unmarshal text = Inr c"
  shows "load_catalog gunzip unmarshal blob = Inr c"
  using assms by (auto simp: encode_catalog_def load_catalog_def decode_catalog_def map_sum_def split: sum.splits)

end
