(* ===== verification/Urls.thy ===== *)
theory Urls
  imports CatalogModel
begin

text \<open>
  Url templates (internal/gcprov/urls.go and the template helpers of crud.go, patch.go and
  ids.go): expansion of \<open>{{x}}\<close>, \<open>{x}\<close> and \<open>{+x}\<close> placeholders from a type's attributes, the
  names a template mentions, the shape two templates share, and the addresses built from
  them. The four regular expressions of the source are written out as scanners; each comment
  quotes its expression.
\<close>

section \<open>ExpandURL\<close>

definition raw_segment :: "ext \<Rightarrow> val \<Rightarrow> gerr + string" where
  "raw_segment x v = (case vkind v of
      KString \<Rightarrow> Inr (raw_str v)
    | KInt \<Rightarrow> Inr (format_int (case vraw v of AInt i \<Rightarrow> i | _ \<Rightarrow> 0))
    | KFloat \<Rightarrow> Inr (x_format_float x (case vraw v of AFloat f \<Rightarrow> f | _ \<Rightarrow> 0))
    | KBool \<Rightarrow> Inr (if vraw v = ABool True then ''true'' else ''false'')
    | k \<Rightarrow> Inl (Errorf ''cannot appear in a url (kind %s)'' [x_kind_name x k]))"

text \<open>The name a placeholder's content asks for: without the \<open>+\<close>, and in the double form without the \<open>%\<close>.\<close>

definition placeholder_name :: "string \<Rightarrow> bool \<Rightarrow> string" where
  "placeholder_name content double =
     (let name = trim_prefix content ''+'' in if double then trim_prefix name ''%'' else name)"

definition fill_placeholder :: "ext \<Rightarrow> string \<Rightarrow> attrs \<Rightarrow> string \<Rightarrow> bool \<Rightarrow> gerr + string" where
  "fill_placeholder x tmpl attrs content double =
     (let reserved = (\<not> double \<and> has_prefix content ''+'');
          name = placeholder_name content double
      in case map_of attrs name of
           None \<Rightarrow> Inl (Errorf ''gcprov: url template %q needs %q, which is not set'' [tmpl, name])
         | Some v \<Rightarrow>
             if \<not> vknown v
             then Inl (Errorf ''gcprov: url template %q needs %q, which is not set'' [tmpl, name])
             else (case raw_segment x v of
                 Inl e \<Rightarrow> Inl (Wrapf ''gcprov: url template %q: %q: %w'' [tmpl, name] e)
               | Inr raw \<Rightarrow> Inr (if reserved then raw else path_escape raw)))"

function expand_from :: "ext \<Rightarrow> string \<Rightarrow> attrs \<Rightarrow> string \<Rightarrow> gerr + string" where
  "expand_from x tmpl attrs s = (case s of
      [] \<Rightarrow> Inr []
    | c # cs \<Rightarrow>
        if c \<noteq> CHR ''{'' then map_sum id (Cons c) (expand_from x tmpl attrs cs)
        else (case open_placeholder cs of
            None \<Rightarrow> Inl (Errorf ''gcprov: url template %q has an unterminated %s placeholder''
                     [tmpl, (if take 1 cs = ''{'' then ''{{'' else ''{'')])
          | Some (content, double, rest) \<Rightarrow>
              (case fill_placeholder x tmpl attrs content double of
                 Inl e \<Rightarrow> Inl e
               | Inr seg \<Rightarrow> map_sum id (append seg) (expand_from x tmpl attrs rest))))"
  by pat_completeness auto
termination
  by (relation "measure (\<lambda>(x, tmpl, attrs, s). length s)") (auto dest: open_placeholder_shorter)

declare expand_from.simps [simp del]

definition expand_url :: "ext \<Rightarrow> string \<Rightarrow> attrs \<Rightarrow> gerr + string" where
  "expand_url x tmpl attrs = expand_from x tmpl attrs tmpl"

section \<open>The names and the shape of a template\<close>

definition is_brace :: "char \<Rightarrow> bool" where
  "is_brace c \<longleftrightarrow> c = CHR ''{'' \<or> c = CHR ''}''"

definition brace_free :: "string \<Rightarrow> string" where
  "brace_free s = takeWhile (\<lambda>c. \<not> is_brace c) s"

text \<open>What the pattern captures of a brace-free body: it drops the optional marks, giving the optional marks back when nothing else is left.\<close>

definition capture_name :: "string \<Rightarrow> string" where
  "capture_name body = (let b1 = trim_prefix body ''+''; b2 = trim_prefix b1 ''%''
     in if b2 \<noteq> [] then b2 else if b1 \<noteq> [] then b1 else body)"

text \<open>
  One match of \<open>\{\{\+?%?([^{}]+)\}\}|\{\+?%?([^{}]+)\}\<close> at the start of the text: the
  captured name and the text after the match.
\<close>

definition match_placeholder :: "string \<Rightarrow> (string \<times> string) option" where
  "match_placeholder s =
     (let d = brace_free (drop 2 s); after_d = drop (2 + length d) s;
          b = brace_free (drop 1 s); after_b = drop (1 + length b) s
      in if take 2 s = ''{{'' \<and> d \<noteq> [] \<and> has_prefix after_d ''}}''
         then Some (capture_name d, drop 2 after_d)
         else if take 1 s = ''{'' \<and> b \<noteq> [] \<and> has_prefix after_b ''}''
         then Some (capture_name b, drop 1 after_b)
         else None)"

lemma match_placeholder_shorter: "match_placeholder s = Some (n, rest) \<Longrightarrow> length rest < length s"
  by (cases s) (auto simp: match_placeholder_def Let_def has_prefix_def split: if_splits)

function placeholder_names :: "string \<Rightarrow> string list" where
  "placeholder_names s = (case match_placeholder s of
      Some (name, rest) \<Rightarrow> trim_space name # placeholder_names rest
    | None \<Rightarrow> (case s of [] \<Rightarrow> [] | c # cs \<Rightarrow> placeholder_names cs))"
  by pat_completeness auto
termination
  by (relation "measure length") (auto dest: match_placeholder_shorter)

declare placeholder_names.simps [simp del]

text \<open>
  \<open>\{\{[^{}]+\}\}|\{[^{}+][^{}]*\}\<close>: a placeholder that is not the reserved form. The shape
  of a template has one NUL byte for each.
\<close>

definition match_plain_placeholder :: "string \<Rightarrow> string option" where
  "match_plain_placeholder s =
     (let d = brace_free (drop 2 s); after_d = drop (2 + length d) s;
          b = brace_free (drop 1 s); after_b = drop (1 + length b) s
      in if take 2 s = ''{{'' \<and> d \<noteq> [] \<and> has_prefix after_d ''}}''
         then Some (drop 2 after_d)
         else if take 1 s = ''{'' \<and> b \<noteq> [] \<and> take 1 b \<noteq> ''+'' \<and> has_prefix after_b ''}''
         then Some (drop 1 after_b)
         else None)"

lemma match_plain_shorter: "match_plain_placeholder s = Some rest \<Longrightarrow> length rest < length s"
  by (cases s) (auto simp: match_plain_placeholder_def Let_def has_prefix_def split: if_splits)

function normalize_template_shape :: "string \<Rightarrow> string" where
  "normalize_template_shape s = (case match_plain_placeholder s of
      Some rest \<Rightarrow> CHR 0x00 # normalize_template_shape rest
    | None \<Rightarrow> (case s of [] \<Rightarrow> [] | c # cs \<Rightarrow> c # normalize_template_shape cs))"
  by pat_completeness auto
termination
  by (relation "measure length") (auto dest: match_plain_shorter)

declare normalize_template_shape.simps [simp del]

text \<open>\<open>strings.LastIndex(s, "/")\<close> as the two parts around it.\<close>

definition cut_last_slash :: "string \<Rightarrow> (string \<times> string) option" where
  "cut_last_slash s = (if CHR ''/'' \<in> set s
     then Some (take (length s - length (after_last (CHR ''/'') s) - 1) s, after_last (CHR ''/'') s)
     else None)"

definition collection_matches_self_link :: "string \<Rightarrow> string \<Rightarrow> bool" where
  "collection_matches_self_link base selfLink = (case cut_last_slash selfLink of
      None \<Rightarrow> False
    | Some (parent, seg) \<Rightarrow>
        \<not> has_prefix seg ''{+'' \<and> normalize_template_shape base = normalize_template_shape parent)"

definition is_bare_capture :: "string \<Rightarrow> bool" where
  "is_bare_capture tmpl \<longleftrightarrow> length tmpl > 3 \<and> has_prefix tmpl ''{+'' \<and> has_suffix tmpl ''}''
     \<and> set (take (length tmpl - 3) (drop 2 tmpl)) \<inter> set ''{}/'' = {}"

definition self_link_ends_in_name :: "string \<Rightarrow> bool" where
  "self_link_ends_in_name tmpl \<longleftrightarrow> has_suffix tmpl ''/{{name}}'' \<or> has_suffix tmpl ''/{name}''"

definition path_part :: "string \<Rightarrow> string" where
  "path_part tmpl = takeWhile (\<lambda>c. c \<noteq> CHR ''?'') tmpl"

section \<open>Addresses\<close>

text \<open>\<open>lastPathSegment\<close> of a string; of any other datum it is the empty string (\<open>any_str\<close>).\<close>

abbreviation last_path_segment :: "string \<Rightarrow> string" where
  "last_path_segment \<equiv> after_last (CHR ''/'')"

definition base_url_for :: "ctype \<Rightarrow> string \<Rightarrow> string" where
  "base_url_for ty rel =
     (if t_endpoint_template ty = [] then t_api_base_url ty
      else case str_cut (''/'' @ trim_prefix rel ''/'') ''/locations/'' of
        (_, after, ok) \<Rightarrow>
          if \<not> ok then t_api_base_url ty
          else (let loc = fst (str_cut after ''/'')
            in if loc = [] \<or> set loc \<inter> set ''{}?'' \<noteq> {} then t_api_base_url ty
               else replace_all (t_endpoint_template ty) ''{location}'' loc))"

definition abs_url :: "ctype \<Rightarrow> string \<Rightarrow> string" where
  "abs_url ty rel = base_url_for ty rel @ t_path_prefix ty @ rel"

text \<open>\<open>withNameFallback\<close>: the id's last segment as \<open>name\<close>, unless there is one.\<close>

definition with_name_fallback :: "attrs \<Rightarrow> string \<Rightarrow> attrs" where
  "with_name_fallback attrs rid = (if has_key attrs ''name'' then attrs
     else AList.update ''name'' (v_string (last_path_segment rid) SourceProvider) attrs)"

definition item_url :: "ext \<Rightarrow> ctype \<Rightarrow> string \<Rightarrow> string \<Rightarrow> attrs \<Rightarrow> gerr + string" where
  "item_url x ty tmpl rid attrs =
     (if tmpl \<noteq> [] then map_sum (\<lambda>e. e) (abs_url ty) (expand_url x tmpl (with_name_fallback attrs rid))
      else (let from_self_link = map_sum (\<lambda>e. e) (abs_url ty) (expand_url x (t_self_link ty) attrs)
        in if collection_matches_self_link (t_base_url ty) (t_self_link ty)
           then (case expand_url x (t_base_url ty) attrs of
               Inr rel \<Rightarrow> Inr (abs_url ty (trim_suffix rel ''/'' @ ''/'' @ path_escape (last_path_segment rid)))
             | Inl _ \<Rightarrow> from_self_link)
           else from_self_link))"

text \<open>\<open>expandedURL\<close>: a collection's own address.\<close>

definition expanded_url :: "ext \<Rightarrow> ctype \<Rightarrow> string \<Rightarrow> attrs \<Rightarrow> gerr + string" where
  "expanded_url x ty tmpl attrs = map_sum (\<lambda>e. e) (abs_url ty) (expand_url x tmpl attrs)"

text \<open>\<open>maskQuery\<close>: the updateMask argument with its separator.\<close>

definition mask_query :: "string \<Rightarrow> string list \<Rightarrow> string" where
  "mask_query reqURL paths = (if str_contains reqURL ''?'' then ''&'' else ''?'')
     @ ''updateMask='' @ query_escape (join_with '','' paths)"

section \<open>Lemmas about expansion\<close>

lemma expand_from_Nil [simp]: "expand_from x tmpl attrs [] = Inr []"
  by (simp add: expand_from.simps)

lemma expand_from_other:
  "c \<noteq> CHR ''{'' \<Longrightarrow> expand_from x tmpl attrs (c # cs) = map_sum id (Cons c) (expand_from x tmpl attrs cs)"
  by (simp add: expand_from.simps [of x tmpl attrs "c # cs"])

lemma expand_from_open:
  "expand_from x tmpl attrs (CHR ''{'' # cs) = (case open_placeholder cs of
     None \<Rightarrow> Inl (Errorf ''gcprov: url template %q has an unterminated %s placeholder''
       [tmpl, (if take 1 cs = ''{'' then ''{{'' else ''{'')])
   | Some (content, double, rest) \<Rightarrow>
       (case fill_placeholder x tmpl attrs content double of
          Inl e \<Rightarrow> Inl e
        | Inr seg \<Rightarrow> map_sum id (append seg) (expand_from x tmpl attrs rest)))"
  by (simp add: expand_from.simps [of x tmpl attrs "CHR ''{'' # cs"])

lemma expand_from_literal:
  "CHR ''{'' \<notin> set s \<Longrightarrow> expand_from x tmpl attrs (s @ t) = map_sum id (append s) (expand_from x tmpl attrs t)"
proof (induction s)
  case Nil
  show ?case by (cases "expand_from x tmpl attrs t") auto
next
  case (Cons c cs)
  then show ?case
    by (cases "expand_from x tmpl attrs t") (auto simp: expand_from_other)
qed

text \<open>Every placeholder of a template that expands is filled by a known attribute.\<close>

function template_contents :: "string \<Rightarrow> (string \<times> bool) list" where
  "template_contents s = (case s of [] \<Rightarrow> []
     | c # cs \<Rightarrow> if c \<noteq> CHR ''{'' then template_contents cs
         else (case open_placeholder cs of None \<Rightarrow> []
            | Some (content, double, rest) \<Rightarrow> (content, double) # template_contents rest))"
  by pat_completeness auto
termination
  by (relation "measure length") (auto dest: open_placeholder_shorter)

declare template_contents.simps [simp del]

lemma fill_placeholder_known:
  "fill_placeholder x tmpl attrs content double = Inr seg \<Longrightarrow>
     \<exists>v. map_of attrs (placeholder_name content double) = Some v \<and> vknown v
       \<and> vkind v \<in> {KString, KInt, KFloat, KBool}"
  by (auto simp: fill_placeholder_def Let_def raw_segment_def
      split: option.splits if_splits sum.splits kind.splits)

lemma expand_from_known:
  "expand_from x tmpl attrs s = Inr r \<Longrightarrow> (content, double) \<in> set (template_contents s) \<Longrightarrow>
     \<exists>v. map_of attrs (placeholder_name content double) = Some v \<and> vknown v
       \<and> vkind v \<in> {KString, KInt, KFloat, KBool}"
proof (induction s arbitrary: r rule: template_contents.induct)
  case (1 s)
  show ?case
  proof (cases s)
    case Nil
    with 1 show ?thesis by (simp add: template_contents.simps)
  next
    case (Cons c cs)
    show ?thesis
    proof (cases "c = CHR ''{''")
      case False
      from 1(3) Cons False obtain r' where "expand_from x tmpl attrs cs = Inr r'"
        by (cases "expand_from x tmpl attrs cs") (auto simp: expand_from_other expand_from_open)
      moreover have "(content, double) \<in> set (template_contents cs)"
        using 1(4) Cons False by (simp add: template_contents.simps [of "c # cs"])
      ultimately show ?thesis using 1(1) [OF Cons False] by blast
    next
      case True
      with 1(3) Cons obtain cont d rest where o: "open_placeholder cs = Some (cont, d, rest)"
        by (auto simp: expand_from_other expand_from_open split: option.splits)
      with 1(3) Cons True obtain seg r' where
          f: "fill_placeholder x tmpl attrs cont d = Inr seg" and e: "expand_from x tmpl attrs rest = Inr r'"
        by (cases "expand_from x tmpl attrs rest")
          (auto simp: expand_from_other expand_from_open split: sum.splits)
      from 1(4) Cons True o consider "(content, double) = (cont, d)"
        | "(content, double) \<in> set (template_contents rest)"
        by (auto simp: template_contents.simps [of "CHR ''{'' # cs"])
      then show ?thesis
      proof cases
        case 1
        with fill_placeholder_known [OF f] show ?thesis by simp
      next
        case 2
        from True have "\<not> c \<noteq> CHR ''{''" by simp
        from "1.IH"(2) [OF Cons this o refl refl e 2] show ?thesis .
      qed
    qed
  qed
qed

lemma str_index_notin: "str_index s [c] = None \<longleftrightarrow> c \<notin> set s"
  by (induction s) (auto simp: has_prefix_def)

lemma str_index_append: "c \<notin> set s \<Longrightarrow> str_index (s @ c # t) [c] = Some (length s)"
  by (induction s) (auto simp: has_prefix_def)

lemma str_index_append2: "c \<notin> set s \<Longrightarrow> str_index (s @ c # c # t) [c, c] = Some (length s)"
proof (induction s)
  case (Cons a s)
  then show ?case by (cases s) (auto simp: has_prefix_def)
qed (simp add: has_prefix_def)

end
