(* ===== verification/Client.thy ===== *)
theory Client
  imports Backoff Urls
begin

text \<open>
  The REST client (internal/gcprov/client.go) and the world it acts on. Everything beyond
  the process is one value: \<open>w_srv\<close>, the state of Google as the transport sees it, acted on
  only by \<open>cl_transport\<close>, a parameter that stands for the network, the OAuth transport and the
  remote APIs: it is given the request, the clock and the deadline of the round trip and
  answers with a reply, the time it took and the next remote state. The rest of the world is
  the process's own: the clock, how many random numbers were drawn, the lines written to
  stderr, the requests sent so far (a record for the theorems), the limiter cache, the
  warnings already given, and the project numbers already resolved.

  A context is the time at which it ends and why; canceling from outside is ending at some
  time. \<open>None\<close> as the result of an operation means that a loop of it never ends. A reply
  carries both the bytes of its body and what \<open>encoding/json\<close> makes of them. Two failures
  the code handles cannot arise from the data modelled here and are left out: marshalling a
  request body, and building a request from a url that does not parse.
\<close>

section \<open>The world\<close>

record request =
  rq_method :: string
  rq_url :: string
  rq_body :: "any option"
  rq_quota_project :: string
  rq_bound :: int

datatype reply =
    Reply int string string "any option"
  | NoReply string
  | BrokenBody gerr

type_synonym 's transport = "'s \<Rightarrow> request \<Rightarrow> int \<Rightarrow> int option \<Rightarrow> reply \<times> int \<times> 's"

record project_aliases =
  pa_id :: string
  pa_number :: string

datatype log_line = Log string "string list" "gerr option"

record 's world =
  w_srv :: 's
  w_now :: int
  w_draws :: nat
  w_log :: "log_line list"
  w_sent :: "request list"
  w_limiters :: "((string \<times> string) \<times> limiter) list"
  w_seen :: "string list"
  w_projects :: "project_aliases option"

record 's client =
  cl_ext :: ext
  cl_transport :: "'s transport"
  cl_jitter :: "nat \<Rightarrow> int \<Rightarrow> int"
  cl_base :: string
  cl_quota_project :: string
  cl_qps :: rat
  cl_max_attempts :: int
  cl_timeout :: int

text \<open>The result of an operation: an error or a value.\<close>

type_synonym 'a res = "gerr + 'a"
type_synonym ('s, 'a) act = "'s world \<Rightarrow> ('a \<times> 's world) option"

definition log_err :: "string \<Rightarrow> string list \<Rightarrow> gerr option \<Rightarrow> 's world \<Rightarrow> 's world" where
  "log_err f args e w = w\<lparr>w_log := w_log w @ [Log f args e]\<rparr>"

section \<open>Contexts and sleeping\<close>

record ctx =
  ctx_end :: "int option"
  ctx_why :: ctx_err

definition background :: ctx where
  "background = \<lparr>ctx_end = None, ctx_why = Canceled\<rparr>"

definition ctx_error :: "ctx \<Rightarrow> 's world \<Rightarrow> gerr option" where
  "ctx_error c w = (case ctx_end c of
      None \<Rightarrow> None
    | Some t \<Rightarrow> if t \<le> w_now w then Some (CtxErr (ctx_why c)) else None)"

text \<open>\<open>context.WithTimeout(context.WithoutCancel(ctx), d)\<close>: the caller's end no longer counts.\<close>

definition detached :: "int \<Rightarrow> 's world \<Rightarrow> ctx" where
  "detached d w = \<lparr>ctx_end = Some (w_now w + d), ctx_why = DeadlineExceeded\<rparr>"

definition with_timeout :: "ctx \<Rightarrow> int \<Rightarrow> 's world \<Rightarrow> ctx" where
  "with_timeout c d w = (case ctx_end c of
      Some t \<Rightarrow> if t \<le> w_now w + d then c else detached d w
    | None \<Rightarrow> detached d w)"

text \<open>A timer of \<open>wait\<close> against the end of the context: the earlier of the two.\<close>

definition timer_or_done :: "ctx \<Rightarrow> int \<Rightarrow> 's world \<Rightarrow> gerr option \<times> 's world" where
  "timer_or_done c wait w = (let due = w_now w + max 0 wait in
     case ctx_end c of
       Some t \<Rightarrow> if t < due then (Some (CtxErr (ctx_why c)), w\<lparr>w_now := max (w_now w) t\<rparr>)
                 else (None, w\<lparr>w_now := due\<rparr>)
     | None \<Rightarrow> (None, w\<lparr>w_now := due\<rparr>))"

text \<open>\<open>backoffDelay\<close> drawing the next random number, where it needs one.\<close>

definition draw_delay :: "'s client \<Rightarrow> nat \<Rightarrow> int \<Rightarrow> 's world \<Rightarrow> int \<times> 's world" where
  "draw_delay cl n ra w =
     (backoff_delay (cl_jitter cl (w_draws w)) n ra,
      if ra > 0 \<or> backoff_ceiling n \<le> 0 then w else w\<lparr>w_draws := Suc (w_draws w)\<rparr>)"

text \<open>\<open>sleepBeforeRetry\<close> and \<open>sleepBackoff\<close>.\<close>

definition sleep_before_retry :: "'s client \<Rightarrow> ctx \<Rightarrow> nat \<Rightarrow> gerr \<Rightarrow> 's world \<Rightarrow> gerr option \<times> 's world" where
  "sleep_before_retry cl c attempt lastErr w =
     (let ra = (case api_error_of lastErr of Some ae \<Rightarrow> RetryAfter ae | None \<Rightarrow> 0)
      in case draw_delay cl (attempt - 1) ra w of (wait, w) \<Rightarrow>
           if wait \<le> 0 then (None, w) else timer_or_done c wait w)"

definition sleep_backoff :: "'s client \<Rightarrow> ctx \<Rightarrow> nat \<Rightarrow> 's world \<Rightarrow> gerr option \<times> 's world" where
  "sleep_backoff cl c attempt w = (case draw_delay cl attempt 0 w of (wait, w) \<Rightarrow>
     if wait \<le> 0 then (None, w) else timer_or_done c wait w)"

section \<open>Rate limiting\<close>

text \<open>The part of an authority that \<open>Hostname\<close> keeps: no user, no port, no brackets.\<close>

definition hostname :: "string \<Rightarrow> string" where
  "hostname auth = (let h = after_last (CHR ''@'') auth in
     if has_prefix h ''['' then takeWhile (\<lambda>c. c \<noteq> CHR '']'') (drop 1 h)
     else takeWhile (\<lambda>c. c \<noteq> CHR '':'') h)"

definition split_url :: "string \<Rightarrow> string \<times> string" where
  "split_url u = (case str_cut u ''://'' of (_, rest, ok) \<Rightarrow>
     let body = (if ok then rest else u);
         auth = (if ok then takeWhile (\<lambda>c. c \<notin> set ''/?#'') body else []);
         path = takeWhile (\<lambda>c. c \<notin> set ''?#'') (drop (length auth) body)
     in (hostname auth, path))"

fun project_segment :: "string list \<Rightarrow> string" where
  "project_segment (s # t # rest) =
     (if s = ''projects'' \<and> t \<noteq> [] then t else project_segment (t # rest))"
| "project_segment _ = []"

definition parse_project_and_api :: "string \<Rightarrow> string \<times> string" where
  "parse_project_and_api rawURL = (case split_url rawURL of (host, path) \<Rightarrow>
     (case path_unescape path of
        None \<Rightarrow> ([], [])
      | Some p \<Rightarrow>
          (project_segment (split_slash p),
           case str_index host ''.'' of
             Some i \<Rightarrow> if i > 0 then take i host else host
           | None \<Rightarrow> host)))"

definition limiter_for :: "'s client \<Rightarrow> string \<times> string \<Rightarrow> 's world \<Rightarrow> 's world" where
  "limiter_for cl key w =
     (if has_key (w_limiters w) key then w
      else w\<lparr>w_limiters := AList.update key (new_limiter (cl_qps cl) (w_now w)) (w_limiters w)\<rparr>)"

text \<open>\<open>(*limiter).Wait\<close> on the bucket of one key.\<close>

partial_function (option) limiter_wait :: "ctx \<Rightarrow> string \<times> string \<Rightarrow> ('s, gerr option) act" where
  "limiter_wait c key w = (case map_of (w_limiters w) key of
      None \<Rightarrow> Some (None, w)
    | Some l \<Rightarrow>
        if l_qps l \<le> 0 then Some (None, w)
        else (case take_token l (w_now w) of (wait, ok, l') \<Rightarrow>
          let w' = w\<lparr>w_limiters := AList.update key l' (w_limiters w)\<rparr>
          in if ok then Some (None, w')
             else (case timer_or_done c wait w' of (e, w'') \<Rightarrow>
               (case e of Some err \<Rightarrow> Some (Some err, w'') | None \<Rightarrow> limiter_wait c key w''))))"

section \<open>One request\<close>

definition user_project_denied :: string where
  "user_project_denied = ''USER_PROJECT_DENIED''"

definition explain_quota_project :: "'s client \<Rightarrow> api_error \<Rightarrow> gerr" where
  "explain_quota_project cl ae =
     (if cl_quota_project cl = [] \<or> Status ae \<noteq> 403 then ApiErr ae
      else if Reason ae \<noteq> user_project_denied
          \<and> \<not> str_contains (Message ae) ''serviceusage.services.use'' then ApiErr ae
      else Wrapf ''%w -- this is the quota_project setting (%q), not the permission it names''
             [cl_quota_project cl] (ApiErr ae))"

text \<open>What \<open>doOnce\<close> makes of a reply. A body of JSON \<open>null\<close> decodes to a nil map (\<open>None\<close>).\<close>

definition read_reply :: "'s client \<Rightarrow> request \<Rightarrow> int \<Rightarrow> reply \<Rightarrow> json option res" where
  "read_reply cl rq now r = (case r of
      NoReply why \<Rightarrow> Inl (Wrapf ''gcprov: %s %s: %w'' [rq_method rq, rq_url rq] (NetErr why))
    | BrokenBody e \<Rightarrow> Inl (Wrapf ''gcprov: reading the response: %w'' [] e)
    | Reply status ra text body \<Rightarrow>
        if status \<ge> 300 then
          Inl (explain_quota_project cl (decode_api_error (cl_ext cl) now status ra text body))
        else if text = [] then Inr (Some [])
        else (case body of
            Some (AObj m) \<Rightarrow> Inr (Some m)
          | Some ANil \<Rightarrow> Inr None
          | _ \<Rightarrow> Inl (Wrapf ''gcprov: parsing the response: %w'' [] (Errorf text []))))"

text \<open>\<open>bound > 0\<close> selects the long-poll client, whose own bound is the context alone.\<close>

definition do_once ::
  "'s client \<Rightarrow> ctx \<Rightarrow> string \<Rightarrow> string \<Rightarrow> any option \<Rightarrow> int \<Rightarrow> 's world \<Rightarrow> json option res \<times> 's world" where
  "do_once cl c meth full body bound w =
     (let trip = (if bound > 0 then bound else cl_timeout cl);
          rq = \<lparr>rq_method = meth, rq_url = full, rq_body = body,
                rq_quota_project = cl_quota_project cl, rq_bound = trip\<rparr>
      in case cl_transport cl (w_srv w) rq (w_now w) (ctx_end (with_timeout c trip w)) of
           (r, took, srv) \<Rightarrow>
             (let w' = w\<lparr>w_srv := srv, w_now := w_now w + max 0 took, w_sent := w_sent w @ [rq]\<rparr>
              in (read_reply cl rq (w_now w') r, w')))"

section \<open>Retrying\<close>

text \<open>The attempts left and the number of the next one.\<close>

fun do_attempts ::
  "'s client \<Rightarrow> ctx \<Rightarrow> string \<Rightarrow> string \<Rightarrow> any option \<Rightarrow> int \<Rightarrow> string \<times> string \<Rightarrow> nat \<Rightarrow> nat \<Rightarrow> gerr
     \<Rightarrow> ('s, json option res) act" where
  "do_attempts cl c meth full body bound key 0 attempt lastErr w = Some (Inl lastErr, w)"
| "do_attempts cl c meth full body bound key (Suc n) attempt lastErr w =
     (case (if attempt > 0 then sleep_before_retry cl c attempt lastErr w else (None, w)) of
        (Some e, w) \<Rightarrow> Some (Inl e, w)
      | (None, w) \<Rightarrow> do {
          (waited, w) \<leftarrow> limiter_wait c key w;
          case waited of
            Some e \<Rightarrow> Some (Inl e, w)
          | None \<Rightarrow> (case do_once cl c meth full body bound w of
                (Inr result, w) \<Rightarrow> Some (Inr result, w)
              | (Inl e, w) \<Rightarrow>
                  if classify_error e \<noteq> SafeToRetry then Some (Inl e, w)
                  else do_attempts cl c meth full body bound key n (Suc attempt) e w) })"

definition default_max_attempts :: int where "default_max_attempts = 5"

definition max_attempts :: "'s client \<Rightarrow> nat" where
  "max_attempts cl = nat (if cl_max_attempts cl \<le> 0 then default_max_attempts else cl_max_attempts cl)"

definition full_url :: "'s client \<Rightarrow> string \<Rightarrow> string" where
  "full_url cl reqURL =
     (if \<not> has_prefix reqURL ''http://'' \<and> \<not> has_prefix reqURL ''https://''
      then cl_base cl @ reqURL else reqURL)"

definition client_do_bounded ::
  "'s client \<Rightarrow> ctx \<Rightarrow> string \<Rightarrow> string \<Rightarrow> any option \<Rightarrow> int \<Rightarrow> ('s, json option res) act" where
  "client_do_bounded cl c meth reqURL body bound w =
     (let full = full_url cl reqURL; key = parse_project_and_api full
      in do_attempts cl c meth full body bound key (max_attempts cl) 0 (Errorf ''nil'' [])
           (limiter_for cl key w))"

text \<open>\<open>Do\<close> and \<open>DoLongPoll\<close>.\<close>

definition client_do ::
  "'s client \<Rightarrow> ctx \<Rightarrow> string \<Rightarrow> string \<Rightarrow> any option \<Rightarrow> ('s, json option res) act" where
  "client_do cl c meth reqURL body = client_do_bounded cl c meth reqURL body 0"

definition client_do_long_poll ::
  "'s client \<Rightarrow> ctx \<Rightarrow> string \<Rightarrow> string \<Rightarrow> any option \<Rightarrow> int \<Rightarrow> ('s, json option res) act" where
  "client_do_long_poll cl c meth reqURL body bound = client_do_bounded cl c meth reqURL body bound"

section \<open>NewClient\<close>

definition default_timeout :: int where "default_timeout = 30 * second"

text \<open>The round-trip bound: the given HTTP client's own, else the option's, else the default.\<close>

definition client_timeout :: "int option \<Rightarrow> int \<Rightarrow> int" where
  "client_timeout httpTimeout optTimeout =
     (let t0 = (case httpTimeout of Some t \<Rightarrow> t | None \<Rightarrow> 0);
          t1 = (if t0 \<le> 0 then optTimeout else t0)
      in if t1 \<le> 0 then default_timeout else t1)"

definition new_client ::
  "ext \<Rightarrow> 's transport \<Rightarrow> (nat \<Rightarrow> int \<Rightarrow> int) \<Rightarrow> string \<Rightarrow> string \<Rightarrow> rat \<Rightarrow> int \<Rightarrow> int option \<Rightarrow> int \<Rightarrow> 's client" where
  "new_client x tr jit base quotaProject qps maxAttempts httpTimeout optTimeout =
     \<lparr>cl_ext = x, cl_transport = tr, cl_jitter = jit, cl_base = base,
      cl_quota_project = quotaProject, cl_qps = qps, cl_max_attempts = maxAttempts,
      cl_timeout = client_timeout httpTimeout optTimeout\<rparr>"

end
