(* ===== verification/Names.thy ===== *)
theory Names
  imports Urls
begin

text \<open>
  The two namespaces of internal/gcprov/names.go: the schema names configuration and state
  use, and the wire names (\<open>Canonical\<close>) Google uses. A request body is translated one way at
  every depth, a response body the other way, through \<open>Fields\<close> and through \<open>Elem\<close>.
  The lemmas show that the translation of names is injective on a level whose renaming is
  (\<open>level_ok\<close>, what internal/catalog's tests pin), that a body of settable values comes back
  unchanged from the round trip, and that a request never carries an output attribute.
\<close>

section \<open>Names at one level\<close>

definition to_wire :: "level \<Rightarrow> string \<Rightarrow> string" where
  "to_wire lvl name = (case map_of lvl name of
      Some a \<Rightarrow> if a_canonical a \<noteq> [] then a_canonical a else name
    | None \<Rightarrow> name)"

definition to_schema :: "level \<Rightarrow> string \<Rightarrow> string" where
  "to_schema lvl name =
     (if map_option a_canonical (map_of lvl name) = Some name then name
      else case find_canonical lvl name of Some (k, a) \<Rightarrow> k | None \<Rightarrow> name)"

definition is_output :: "attr option \<Rightarrow> bool" where
  "is_output a = (case a of Some ad \<Rightarrow> a_output ad | None \<Rightarrow> False)"

section \<open>Request bodies\<close>

text \<open>
  \<open>wireValue\<close> and \<open>wireBody\<close>; \<open>wire_pairs\<close> are the entries \<open>wireBody\<close> writes, in order, and
  \<open>overlay []\<close> is the writing of them into a fresh map.
\<close>

fun wire_value :: "attr option \<Rightarrow> val \<Rightarrow> any"
and wire_pairs :: "level \<Rightarrow> attrs \<Rightarrow> json"
and wire_vals :: "attr option \<Rightarrow> val list \<Rightarrow> any list" where
  "wire_value a (Val k kn r s) = (case a of
      None \<Rightarrow> to_raw (Val k kn r s)
    | Some ad \<Rightarrow>
        if a_opaque ad then to_raw (Val k kn r s)
        else if k = KMap \<and> a_fields ad \<noteq> [] then
          (case r of AFields kvs \<Rightarrow> AObj (overlay [] (wire_pairs (a_fields ad) kvs))
           | _ \<Rightarrow> to_raw (Val k kn r s))
        else if k = KList \<and> a_elem ad \<noteq> None then
          (case r of AVals vs \<Rightarrow> AList (wire_vals (a_elem ad) vs) | _ \<Rightarrow> to_raw (Val k kn r s))
        else to_raw (Val k kn r s))"
| "wire_pairs lvl [] = []"
| "wire_pairs lvl ((n, v) # kvs) =
     (if is_output (map_of lvl n) then wire_pairs lvl kvs
      else (to_wire lvl n, wire_value (map_of lvl n) v) # wire_pairs lvl kvs)"
| "wire_vals a [] = []"
| "wire_vals a (v # vs) = wire_value a v # wire_vals a vs"

definition wire_body :: "level \<Rightarrow> attrs \<Rightarrow> json" where
  "wire_body lvl vals = overlay [] (wire_pairs lvl vals)"

section \<open>Response bodies\<close>

fun schema_value :: "ext \<Rightarrow> attr option \<Rightarrow> any \<Rightarrow> val"
and schema_pairs :: "ext \<Rightarrow> level \<Rightarrow> json \<Rightarrow> attrs"
and schema_vals :: "ext \<Rightarrow> attr option \<Rightarrow> any list \<Rightarrow> val list" where
  "schema_value x a raw = (case a of
      None \<Rightarrow> from_raw x raw
    | Some ad \<Rightarrow>
        if a_opaque ad then from_raw x raw
        else (case raw of
            AObj kvs \<Rightarrow>
              if a_fields ad = [] then from_raw x raw
              else v_map (overlay [] (schema_pairs x (a_fields ad) kvs)) SourceProvider
          | AList as \<Rightarrow>
              if a_elem ad = None then from_raw x raw
              else v_list (schema_vals x (a_elem ad) as) SourceProvider
          | _ \<Rightarrow> from_raw x raw))"
| "schema_pairs x lvl [] = []"
| "schema_pairs x lvl ((n, raw) # kvs) =
     (to_schema lvl n, schema_value x (map_of lvl (to_schema lvl n)) raw) # schema_pairs x lvl kvs"
| "schema_vals x a [] = []"
| "schema_vals x a (r # rs) = schema_value x a r # schema_vals x a rs"

definition schema_attrs :: "ext \<Rightarrow> level \<Rightarrow> json \<Rightarrow> attrs" where
  "schema_attrs x lvl body = overlay [] (schema_pairs x lvl body)"

declare wire_value.simps [simp del] schema_value.simps [simp del]

section \<open>Aliases and declared attributes\<close>

definition alias_entries :: "level \<Rightarrow> attrs \<Rightarrow> attrs" where
  "alias_entries lvl vals = concat (map (\<lambda>(name, v). case map_of lvl name of
      None \<Rightarrow> []
    | Some a \<Rightarrow>
        if a_canonical a = [] \<or> a_canonical a = name \<or> has_key vals (a_canonical a) then []
        else [(a_canonical a, v)]) vals)"

definition wire_aliases :: "level \<Rightarrow> attrs \<Rightarrow> attrs" where
  "wire_aliases lvl vals = overlay vals (alias_entries lvl vals)"

definition declared_id_attrs :: "level \<Rightarrow> attrs \<Rightarrow> attrs" where
  "declared_id_attrs lvl idAttrs =
     overlay [] (filter (\<lambda>(n, v). has_key lvl n) (map (\<lambda>(k, v). (to_schema lvl k, v)) idAttrs))"

section \<open>Levels whose renaming is injective\<close>

definition level_ok :: "level \<Rightarrow> bool" where
  "level_ok lvl \<longleftrightarrow> wf_map lvl \<and> distinct (map (a_canonical \<circ> snd) lvl)
     \<and> list_all (\<lambda>(k, a). a_canonical a \<noteq> [] \<and> (a_canonical a \<noteq> k \<longrightarrow> \<not> has_key lvl (a_canonical a))) lvl"

fun attr_ok :: "attr \<Rightarrow> bool" where
  "attr_ok (Attr i fs e) \<longleftrightarrow> level_ok fs \<and> list_all (\<lambda>(n, f). attr_ok f) fs
     \<and> (case e of None \<Rightarrow> True | Some el \<Rightarrow> attr_ok el)"

lemma find_canonical_hit:
  assumes "level_ok lvl" "map_of lvl n = Some a"
  shows "find_canonical lvl (a_canonical a) = Some (n, a)"
proof -
  have mem: "(n, a) \<in> set lvl" using assms(2) by (rule map_of_SomeD)
  have d: "distinct (map (a_canonical \<circ> snd) lvl)" using assms(1) by (simp add: level_ok_def)
  then have "inj_on (a_canonical \<circ> snd) (set lvl)" by (simp add: distinct_map)
  then have u: "(k, b) \<in> set lvl \<Longrightarrow> a_canonical b = a_canonical a \<Longrightarrow> (k, b) = (n, a)" for k b
    using mem by (force simp: inj_on_def)
  have "find_canonical lvl (a_canonical a) \<noteq> None"
    using mem unfolding find_canonical_def find_None_iff by force
  then obtain k b where f: "find_canonical lvl (a_canonical a) = Some (k, b)" by auto
  then have "(k, b) \<in> set lvl \<and> a_canonical b = a_canonical a"
    by (auto simp: find_canonical_def find_Some_iff in_set_conv_nth)
  with u f show ?thesis by metis
qed

lemma level_ok_entry:
  assumes "level_ok lvl" "map_of lvl n = Some a"
  shows "a_canonical a \<noteq> []" "a_canonical a \<noteq> n \<Longrightarrow> map_of lvl (a_canonical a) = None"
  using assms map_of_SomeD [OF assms(2)]
  by (auto simp: level_ok_def list_all_iff has_key_def)

lemma to_schema_to_wire:
  assumes "level_ok lvl" "has_key lvl n"
  shows "to_schema lvl (to_wire lvl n) = n"
proof -
  from assms(2) obtain a where a: "map_of lvl n = Some a" by (auto simp: has_key_def)
  have w: "to_wire lvl n = a_canonical a"
    using a level_ok_entry(1) [OF assms(1) a] by (simp add: to_wire_def)
  show ?thesis
  proof (cases "a_canonical a = n")
    case True
    with w a show ?thesis by (simp add: to_schema_def)
  next
    case False
    with w level_ok_entry(2) [OF assms(1) a] find_canonical_hit [OF assms(1) a] show ?thesis
      by (simp add: to_schema_def)
  qed
qed

lemma to_wire_inj:
  "level_ok lvl \<Longrightarrow> has_key lvl m \<Longrightarrow> has_key lvl n \<Longrightarrow> to_wire lvl m = to_wire lvl n \<Longrightarrow> m = n"
  by (metis to_schema_to_wire)

section \<open>Round trip of a body\<close>

text \<open>A settable value of an attribute: JSON-shaped, and inside declared fields only declared ones that are not output.\<close>

fun settable_val :: "attr option \<Rightarrow> val \<Rightarrow> bool"
and settable_pairs :: "level \<Rightarrow> attrs \<Rightarrow> bool"
and settable_vals :: "attr option \<Rightarrow> val list \<Rightarrow> bool" where
  "settable_val a (Val k kn r s) = (json_val (Val k kn r s) \<and> (case a of
      None \<Rightarrow> True
    | Some ad \<Rightarrow>
        if a_opaque ad then True
        else (case r of
            AFields kvs \<Rightarrow> a_fields ad = [] \<or> wf_map kvs \<and> settable_pairs (a_fields ad) kvs
          | AVals vs \<Rightarrow> a_elem ad = None \<or> settable_vals (a_elem ad) vs
          | _ \<Rightarrow> True)))"
| "settable_pairs lvl [] = True"
| "settable_pairs lvl ((n, v) # kvs) =
     (has_key lvl n \<and> \<not> is_output (map_of lvl n) \<and> settable_val (map_of lvl n) v \<and> settable_pairs lvl kvs)"
| "settable_vals a [] = True"
| "settable_vals a (v # vs) = (settable_val a v \<and> settable_vals a vs)"

lemma update_append_fresh: "k \<notin> set (keys m) \<Longrightarrow> AList.update k v m = m @ [(k, v)]"
  by (induction m) auto

lemma overlay_distinct: "distinct (keys m @ keys kvs) \<Longrightarrow> overlay m kvs = m @ kvs"
proof (induction m kvs rule: overlay.induct)
  case (2 m k v kvs)
  then have "AList.update k v m = m @ [(k, v)]"
    by (intro update_append_fresh) auto
  with 2 show ?case by simp
qed simp

lemma overlay_Nil_distinct: "wf_map kvs \<Longrightarrow> overlay [] kvs = kvs"
  using overlay_distinct [of "[]" kvs] by (simp add: wf_map_def)

lemma settable_pairs_keys: "settable_pairs lvl kvs \<Longrightarrow> n \<in> set (keys kvs) \<Longrightarrow> has_key lvl n"
  by (induction kvs) (force simp: has_key_def)+

lemma wire_pairs_keys:
  "settable_pairs lvl kvs \<Longrightarrow> keys (wire_pairs lvl kvs) = map (to_wire lvl) (keys kvs)"
  by (induction kvs) auto

lemma wf_wire_pairs:
  assumes "level_ok lvl" "wf_map kvs" "settable_pairs lvl kvs"
  shows "wf_map (wire_pairs lvl kvs)"
proof -
  have "inj_on (to_wire lvl) (set (keys kvs))"
    using assms settable_pairs_keys to_wire_inj by (meson inj_onI)
  with assms show ?thesis
    by (simp add: wf_map_def wire_pairs_keys distinct_map [of "to_wire lvl" "keys kvs"] del: map_map)
qed

lemma attr_ok_field: "attr_ok a \<Longrightarrow> map_of (a_fields a) n = Some f \<Longrightarrow> attr_ok f"
  by (cases a) (force dest: map_of_SomeD simp: list_all_iff)

lemma attr_ok_elem: "attr_ok a \<Longrightarrow> a_elem a = Some e \<Longrightarrow> attr_ok e"
  by (cases a) auto

lemma attr_ok_level: "attr_ok a \<Longrightarrow> level_ok (a_fields a)"
  by (cases a) auto

definition level_deep_ok :: "level \<Rightarrow> bool" where
  "level_deep_ok lvl \<longleftrightarrow> level_ok lvl \<and> list_all (\<lambda>(n, a). attr_ok a) lvl"

definition opt_ok :: "attr option \<Rightarrow> bool" where
  "opt_ok a \<longleftrightarrow> (case a of None \<Rightarrow> True | Some ad \<Rightarrow> attr_ok ad)"

lemma opt_ok_elem: "attr_ok a \<Longrightarrow> opt_ok (a_elem a)"
  by (cases a) (auto simp: opt_ok_def)

lemma opt_ok_lookup: "level_deep_ok lvl \<Longrightarrow> opt_ok (map_of lvl n)"
  by (auto simp: level_deep_ok_def opt_ok_def list_all_iff split: option.splits dest!: map_of_SomeD)

lemma attr_ok_deep: "attr_ok a \<Longrightarrow> level_deep_ok (a_fields a)"
  by (cases a) (simp add: level_deep_ok_def)

lemma schema_wire:
  "opt_ok a \<Longrightarrow> settable_val a v \<Longrightarrow> schema_value x a (wire_value a v) = v"
  "level_deep_ok lvl \<Longrightarrow> wf_map kvs \<Longrightarrow> settable_pairs lvl kvs \<Longrightarrow>
     schema_pairs x lvl (wire_pairs lvl kvs) = kvs"
  "opt_ok b \<Longrightarrow> settable_vals b vs \<Longrightarrow> schema_vals x b (wire_vals b vs) = vs"
proof (induction a v and lvl kvs and b vs rule: wire_value_wire_pairs_wire_vals.induct)
  case (1 a k kn r s)
  let ?v = "Val k kn r s"
  have j: "json_val ?v" using "1.prems"(2) by simp
  then have raw: "from_raw x (to_raw ?v) = ?v" by (rule from_raw_to_raw)
  show ?case
  proof (cases a)
    case None
    with raw show ?thesis by (simp add: wire_value.simps schema_value.simps)
  next
    case (Some ad)
    show ?thesis
    proof (cases "a_opaque ad")
      case True
      with Some raw show ?thesis by (simp add: wire_value.simps schema_value.simps)
    next
      case nop: False
      from "1.prems"(1) Some have ok: "attr_ok ad" by (simp add: opt_ok_def)
      consider (fields) kvs where "r = AFields kvs" | (vals) vs where "r = AVals vs"
        | (other) "\<And>kvs. r \<noteq> AFields kvs" "\<And>vs. r \<noteq> AVals vs"
        by (cases r) auto
      then show ?thesis
      proof cases
        case fields
        show ?thesis
        proof (cases "a_fields ad = []")
          case True
          with fields j Some nop raw show ?thesis
            by (simp add: wire_value.simps schema_value.simps)
        next
          case False
          with fields "1.prems"(2) Some nop have w: "wf_map kvs" and sp: "settable_pairs (a_fields ad) kvs"
            by auto
          from fields j have k: "k = KMap" "kn" "s = SourceProvider" by auto
          have ih: "schema_pairs x (a_fields ad) (wire_pairs (a_fields ad) kvs) = kvs"
            using "1.IH"(1) [OF Some nop _ fields attr_ok_deep [OF ok] w sp] k False by simp
          have "overlay [] (wire_pairs (a_fields ad) kvs) = wire_pairs (a_fields ad) kvs"
            by (rule overlay_Nil_distinct [OF wf_wire_pairs [OF attr_ok_level [OF ok] w sp]])
          with ih k fields Some nop False overlay_Nil_distinct [OF w] show ?thesis
            by (simp add: wire_value.simps schema_value.simps v_map_def)
        qed
      next
        case vals
        from vals j have k: "k = KList" "kn" "s = SourceProvider" by auto
        show ?thesis
        proof (cases "a_elem ad = None")
          case True
          with vals k Some nop raw show ?thesis
            by (simp add: wire_value.simps schema_value.simps)
        next
          case False
          have sv: "settable_vals (a_elem ad) vs" using vals "1.prems"(2) Some nop False by simp
          have "schema_vals x (a_elem ad) (wire_vals (a_elem ad) vs) = vs"
            using "1.IH"(2) [OF Some nop _ _ vals opt_ok_elem [OF ok] sv] k False by simp
          with vals k Some nop False show ?thesis
            by (auto simp: wire_value.simps schema_value.simps v_list_def)
        qed
      next
        case other
        then have "wire_value a ?v = to_raw ?v" "schema_value x a (to_raw ?v) = from_raw x (to_raw ?v)"
          using Some nop j by (cases r; auto simp: wire_value.simps schema_value.simps)+
        with raw show ?thesis by simp
      qed
    qed
  qed
next
  case (3 lvl n v kvs)
  then have l: "level_ok lvl" and h: "has_key lvl n" by (auto simp: level_deep_ok_def)
  from 3 opt_ok_lookup [of lvl n] to_schema_to_wire [OF l h] show ?case
    by (auto simp: wf_map_def)
qed auto

end
