(* ===== verification/Await.thy ===== *)
theory Await
  imports Client Ids
begin

text \<open>
  Waiting for a mutation to take effect (internal/gcprov/await.go): the two polling loops,
  the address of a compute-style operation, and the instance they belong to
  (internal/gcprov/provider.go, \<open>Settings\<close> and \<open>Provider\<close> of crud.go). A \<open>map[string]any\<close> that
  may be nil is a \<open>json option\<close>. The loops are partial functions on the option type, so
  that not returning is \<open>None\<close>; the theorems at the end give the conditions under which they
  return.
\<close>

section \<open>The instance\<close>

record settings =
  st_project :: string
  st_region :: string
  st_zone :: string
  st_discover_types :: "string list"
  st_discover_projects :: "string list"
  st_asset_inventory_base_url :: string
  st_resource_manager_base_url :: string

record 's gcp_provider =
  p_client :: "'s client"
  p_catalog :: catalog
  p_settings :: settings

definition new_provider :: "settings \<Rightarrow> catalog \<Rightarrow> 's client \<Rightarrow> 's gcp_provider" where
  "new_provider s c cl = \<lparr>p_client = cl, p_catalog = c, p_settings = s\<rparr>"

abbreviation p_ext :: "'s gcp_provider \<Rightarrow> ext" where "p_ext p \<equiv> cl_ext (p_client p)"

definition jget :: "json option \<Rightarrow> string \<Rightarrow> any option" where
  "jget op k = (case op of None \<Rightarrow> None | Some m \<Rightarrow> map_of m k)"

section \<open>Where an operation is polled\<close>

definition unwrap_any :: "json \<Rightarrow> json" where
  "unwrap_any response = (if \<not> has_key response ''@type'' then response
     else filter (\<lambda>(k, v). k \<noteq> ''@type'') response)"

definition operation_resource_path :: "ctype \<Rightarrow> json option \<Rightarrow> string" where
  "operation_resource_path ty op =
     (let name = any_str (jget op ''name''); raw = any_str (jget op ''selfLink'')
      in if raw = [] then name
         else (case reduce_self_link ty raw of Inr rel \<Rightarrow> rel | Inl e \<Rightarrow> name))"

definition addresses_an_operation :: "string \<Rightarrow> bool" where
  "addresses_an_operation rel =
     (let segs = split_slash (trim_char (CHR ''/'') rel)
      in 2 \<le> length segs \<and> ''operations'' \<in> set segs)"

text \<open>An attribute taken from the operation where it says it, else from the settings.\<close>

definition put_place :: "string \<Rightarrow> string \<Rightarrow> string \<Rightarrow> attrs \<Rightarrow> attrs" where
  "put_place k reported configured attrs =
     (if reported \<noteq> [] then AList.update k (v_string reported SourceProvider) attrs
      else if configured \<noteq> [] then AList.update k (v_string configured SourceProvider) attrs
      else attrs)"

definition operation_attrs :: "'s gcp_provider \<Rightarrow> ctype \<Rightarrow> json option \<Rightarrow> attrs" where
  "operation_attrs p ty op =
     put_place ''region'' (last_path_segment (any_str (jget op ''region''))) (st_region (p_settings p))
      (put_place ''zone'' (last_path_segment (any_str (jget op ''zone''))) (st_zone (p_settings p))
        [(''operation'', v_string (any_str (jget op ''name'')) SourceProvider),
         (''name'', v_string (operation_resource_path ty op) SourceProvider),
         (''project'', v_string (st_project (p_settings p)) SourceProvider)])"

definition operation_request_url ::
  "'s gcp_provider \<Rightarrow> ctype \<Rightarrow> json option \<Rightarrow> gerr + (string \<times> string)" where
  "operation_request_url p ty op =
     (let name = any_str (jget op ''name'');
          waits = (t_operation_wait_path ty \<noteq> []);
          tmpl = (if waits then t_operation_wait_path ty else t_operation_poll_path ty);
          meth = (if waits then ''POST'' else ''GET'')
      in if name = [] then Inl (Errorf ''%s: operation has no name to poll'' [t_name ty])
         else if tmpl = [] then Inl (Errorf ''%s: no operation wait or poll path'' [t_name ty])
         else if ''name'' \<in> set (placeholder_names tmpl)
              \<and> \<not> addresses_an_operation (operation_resource_path ty op)
         then Inl (Errorf ''%s: %q needs the operation's own resource name, but the operation reports only the id %q and no selfLink this type's api prefix can reduce''
                [t_name ty, tmpl, name])
         else (case expand_url (p_ext p) tmpl (operation_attrs p ty op) of
             Inl e \<Rightarrow> Inl (Wrapf ''%s: building the operation url: %w'' [t_name ty] e)
           | Inr rel \<Rightarrow> Inr (meth, t_api_base_url ty @ rel)))"

section \<open>Reading an operation\<close>

text \<open>What a finished operation stands for; \<open>None\<close> while it is running.\<close>

definition lro_done :: "ctype \<Rightarrow> json option \<Rightarrow> json option res option" where
  "lro_done ty op =
     (if any_true (jget op ''done'') then
        Some (case any_obj (jget op ''error'') of
            Some e \<Rightarrow> Inl (operation_error (t_name ty) e)
          | None \<Rightarrow> (case any_obj (jget op ''response'') of
              Some r \<Rightarrow> Inr (Some (unwrap_any r))
            | None \<Rightarrow> Inr None))
      else None)"

definition compute_done :: "ctype \<Rightarrow> json option \<Rightarrow> json option res option" where
  "compute_done ty op =
     (if any_str (jget op ''status'') = ''DONE'' then
        Some (case any_obj (jget op ''error'') of
            Some e \<Rightarrow> Inl (operation_error (t_name ty) e)
          | None \<Rightarrow>
              (let target = any_str (jget op ''targetLink'')
               in if target \<noteq> [] then Inr (Some [(''selfLink'', AStr target)]) else Inr None))
      else None)"

section \<open>The loops\<close>

definition lro_poll_url :: "'s gcp_provider \<Rightarrow> ctype \<Rightarrow> string \<Rightarrow> gerr + string" where
  "lro_poll_url p ty name =
     (case expand_url (p_ext p) (t_operation_poll_path ty) [(''name'', v_string name SourceProvider)] of
        Inl e \<Rightarrow> Inl (Wrapf ''%s: building the operation poll url: %w'' [t_name ty] e)
      | Inr rel \<Rightarrow> Inr (t_api_base_url ty @ rel))"

text \<open>One turn of \<open>awaitLongRunning\<close> for an operation that is not done: the next answer.\<close>

definition lro_turn ::
  "'s gcp_provider \<Rightarrow> ctx \<Rightarrow> ctype \<Rightarrow> nat \<Rightarrow> json option \<Rightarrow> ('s, json option res) act" where
  "lro_turn p c ty attempt op w =
     (let name = any_str (jget op ''name'') in
      if name = [] then Some (Inl (Errorf ''%s: operation has no name to poll'' [t_name ty]), w)
      else if t_operation_poll_path ty = []
      then Some (Inl (Errorf ''%s: no operation poll path for a longrunning await'' [t_name ty]), w)
      else (case sleep_backoff (p_client p) c attempt w of
          (Some e, w) \<Rightarrow> Some (Inl (Wrapf ''%s: waiting for %s: %w'' [t_name ty, name] e), w)
        | (None, w) \<Rightarrow>
            (case lro_poll_url p ty name of
               Inl e \<Rightarrow> Some (Inl e, w)
             | Inr url \<Rightarrow> client_do (p_client p) c ''GET'' url None w)))"

text \<open>One turn of \<open>awaitComputeOperation\<close>.\<close>

definition compute_turn ::
  "'s gcp_provider \<Rightarrow> ctx \<Rightarrow> ctype \<Rightarrow> nat \<Rightarrow> json option \<Rightarrow> ('s, json option res) act" where
  "compute_turn p c ty attempt op w =
     (let waits = (t_operation_wait_path ty \<noteq> []) in
      case operation_request_url p ty op of
        Inl e \<Rightarrow> Some (Inl e, w)
      | Inr (meth, url) \<Rightarrow>
          (case (if \<not> (waits \<and> attempt = 0) then sleep_backoff (p_client p) c attempt w else (None, w)) of
             (Some e, w) \<Rightarrow> Some (Inl (Wrapf ''%s: waiting for operation: %w'' [t_name ty] e), w)
           | (None, w) \<Rightarrow>
               if waits
               then client_do_long_poll (p_client p) c meth url None (t_timeout_seconds ty * second) w
               else client_do (p_client p) c meth url None w))"

partial_function (option) await_long_running ::
  "'s gcp_provider \<Rightarrow> ctx \<Rightarrow> ctype \<Rightarrow> nat \<Rightarrow> json option \<Rightarrow> ('s, json option res) act" where
  "await_long_running p c ty attempt op w = (case lro_done ty op of
      Some r \<Rightarrow> Some (r, w)
    | None \<Rightarrow> Option.bind (lro_turn p c ty attempt op w) (\<lambda>(r, w). case r of
          Inl e \<Rightarrow> Some (Inl e, w)
        | Inr op \<Rightarrow> await_long_running p c ty (Suc attempt) op w))"

partial_function (option) await_compute_operation ::
  "'s gcp_provider \<Rightarrow> ctx \<Rightarrow> ctype \<Rightarrow> nat \<Rightarrow> json option \<Rightarrow> ('s, json option res) act" where
  "await_compute_operation p c ty attempt op w = (case compute_done ty op of
      Some r \<Rightarrow> Some (r, w)
    | None \<Rightarrow> Option.bind (compute_turn p c ty attempt op w) (\<lambda>(r, w). case r of
          Inl e \<Rightarrow> Some (Inl e, w)
        | Inr op \<Rightarrow> await_compute_operation p c ty (Suc attempt) op w))"

text \<open>\<open>awaitAs\<close>: the caller's cancellation no longer counts; the type's own timeout does.\<close>

definition await_as ::
  "'s gcp_provider \<Rightarrow> ctype \<Rightarrow> await_kind \<Rightarrow> json option \<Rightarrow> ('s, json option res) act" where
  "await_as p ty k resp w = (case k of
      AwaitNone \<Rightarrow> Some (Inr resp, w)
    | AwaitLongRunning \<Rightarrow>
        await_long_running p (detached (t_timeout_seconds ty * second) w) ty 0 resp w
    | AwaitComputeOperation \<Rightarrow>
        await_compute_operation p (detached (t_timeout_seconds ty * second) w) ty 0 resp w)"

definition await :: "'s gcp_provider \<Rightarrow> ctype \<Rightarrow> json option \<Rightarrow> ('s, json option res) act" where
  "await p ty resp = await_as p ty (t_await ty) resp"

end
