(* ===== verification/Reconcile.thy ===== *)
theory Reconcile
  imports Await
begin

text \<open>
  Expressing Google's answer the way the reference is written (internal/gcprov/reconcile.go)
  and the two spellings of a project (internal/gcprov/projects.go). \<open>reconcile_value\<close> is the
  recursion over an attribute's schema. The source consults the project aliases lazily, at
  the cost of a request the first time; here the recursion takes the aliases as a value, and
  \<open>consults\<close> says whether the same recursion would have asked for them, so that
  \<open>reconcile_with_aliases\<close> sends the request exactly when the source does. Which leaves are
  reached does not depend on the aliases.
\<close>

section \<open>Project names\<close>

definition no_aliases :: project_aliases where
  "no_aliases = \<lparr>pa_id = [], pa_number = []\<rparr>"

definition same_project :: "project_aliases \<Rightarrow> string \<Rightarrow> string \<Rightarrow> bool" where
  "same_project a want got \<longleftrightarrow> pa_id a \<noteq> [] \<and> pa_number a \<noteq> [] \<and>
     (let w = trim_prefix want ''projects/''; g = trim_prefix got ''projects/''
      in w = pa_id a \<and> g = pa_number a \<or> w = pa_number a \<and> g = pa_id a)"

definition looks_like_a_project_name :: "string \<Rightarrow> bool" where
  "looks_like_a_project_name s = (case cut_prefix s ''projects/'' of
      None \<Rightarrow> False
    | Some rest \<Rightarrow> rest \<noteq> [] \<and> CHR ''/'' \<notin> set rest)"

definition resource_manager_base_url :: string where
  "resource_manager_base_url = ''https://cloudresourcemanager.googleapis.com/''"

text \<open>What the answer to the lookup makes of the aliases.\<close>

definition aliases_from :: "string \<Rightarrow> json option \<Rightarrow> project_aliases" where
  "aliases_from project body =
     (let number = trim_prefix (any_str (jget body ''name'')) ''projects/''
      in if number = [] \<or> number = project then no_aliases
         else \<lparr>pa_id = project, pa_number = number\<rparr>)"

text \<open>\<open>projectAliases\<close>: \<open>w_projects\<close> is the \<open>sync.Once\<close> and what it cached.\<close>

definition project_aliases_of :: "'s gcp_provider \<Rightarrow> ctx \<Rightarrow> ('s, project_aliases) act" where
  "project_aliases_of p c w =
     (let project = st_project (p_settings p);
          base = (if st_resource_manager_base_url (p_settings p) = [] then resource_manager_base_url
                  else st_resource_manager_base_url (p_settings p))
      in if project = [] then Some (no_aliases, w)
         else (case w_projects w of
             Some a \<Rightarrow> Some (a, w)
           | None \<Rightarrow> do {
               (r, w) \<leftarrow> client_do (p_client p) c ''GET'' (base @ ''v3/projects/'' @ project) None w;
               let (a, w) = (case r of
                   Inl e \<Rightarrow> (no_aliases, log_err ''gcp: could not resolve the number of project %q (%v); a resource GCP answers with projects/<number> where the configuration wrote projects/<id> will be reported as changed'' [project] (Some e) w)
                 | Inr body \<Rightarrow> (aliases_from project body, w));
               Some (a, w\<lparr>w_projects := Some a\<rparr>) }))"

section \<open>One value written two ways\<close>

definition without_key_version :: "string \<Rightarrow> string" where
  "without_key_version s = (case str_index s ''/cryptoKeyVersions/'' of
      Some i \<Rightarrow> if CHR ''/'' \<in> set (drop (i + 19) s) then s else take i s
    | None \<Rightarrow> s)"

definition from_projects :: "string \<Rightarrow> string" where
  "from_projects s = (if has_prefix s ''projects/'' then s
     else (case str_index s ''/projects/'' of Some i \<Rightarrow> drop (Suc i) s | None \<Rightarrow> []))"

abbreviation last_segment :: "string \<Rightarrow> string" where
  "last_segment \<equiv> after_last (CHR ''/'')"

definition port_range :: "string \<Rightarrow> string" where
  "port_range s = (case str_cut s ''-'' of (lo, hi, is_range) \<Rightarrow>
     (let hi = (if is_range then hi else lo)
      in if atoi lo = None \<or> atoi hi = None then [] else lo @ ''-'' @ hi))"

definition self_link_equivalent :: "string \<Rightarrow> string \<Rightarrow> bool" where
  "self_link_equivalent want got =
     (if CHR ''/'' \<notin> set want \<or> CHR ''/'' \<notin> set got
      then last_segment want = last_segment got \<and> want \<noteq> [] \<and> got \<noteq> []
      else from_projects want \<noteq> [] \<and> from_projects want = from_projects got)"

definition image_equivalent :: "string \<Rightarrow> string \<Rightarrow> bool" where
  "image_equivalent want got =
     (if self_link_equivalent want got then True
      else (let w = from_projects want; g = from_projects got
        in case str_cut w ''/images/family/'' of (pre, family, ok) \<Rightarrow>
          if \<not> ok \<or> w = [] \<or> \<not> has_prefix g (pre @ ''/images/'') then False
          else last_segment g = family \<or> has_prefix (last_segment g) (family @ ''-'')))"

definition equivalent :: "ext \<Rightarrow> string \<Rightarrow> string \<Rightarrow> string \<Rightarrow> bool" where
  "equivalent x rule want got =
     (if rule = ''port_range'' then port_range want \<noteq> [] \<and> port_range want = port_range got
      else if rule = ''self_link'' then self_link_equivalent want got
      else if rule = ''resource_name'' then want \<noteq> [] \<and> last_segment want = last_segment got
      else if rule = ''case'' then equal_fold want got
      else if rule = ''kms_key'' then
        (if without_key_version want \<noteq> want then self_link_equivalent want got
         else self_link_equivalent want (without_key_version got))
      else if rule = ''image'' then image_equivalent want got
      else if rule = ''duration'' then
        (case (x_parse_duration x want, x_parse_duration x got) of
           (Some w, Some g) \<Rightarrow> w = g | _ \<Rightarrow> False)
      else False)"

definition same_by_equivalence :: "ext \<Rightarrow> attr_info \<Rightarrow> val \<Rightarrow> val \<Rightarrow> val" where
  "same_by_equivalence x i ref inc =
     (if i_equivalence i = [] \<or> vkind ref \<noteq> KString \<or> vkind inc \<noteq> KString \<or> \<not> vknown ref then inc
      else if raw_str ref = raw_str inc then inc
      else if \<not> equivalent x (i_equivalence i) (raw_str ref) (raw_str inc) then inc
      else Val KString True (AStr (raw_str ref)) (vsource inc))"

section \<open>The reconciler\<close>

record reconciler =
  rc_ext :: ext
  rc_aliases :: "project_aliases option"
  rc_unmatched :: bool

text \<open>Whether \<open>sameProjectSpelling\<close> gets as far as calling \<open>aliases\<close>.\<close>

definition asks_project :: "val \<Rightarrow> val \<Rightarrow> bool" where
  "asks_project ref inc \<longleftrightarrow> vkind ref = KString \<and> vkind inc = KString \<and> raw_str ref \<noteq> raw_str inc
     \<and> looks_like_a_project_name (raw_str ref) \<and> looks_like_a_project_name (raw_str inc)"

definition same_project_spelling :: "reconciler \<Rightarrow> val \<Rightarrow> val \<Rightarrow> val" where
  "same_project_spelling r ref inc = (case rc_aliases r of
      None \<Rightarrow> inc
    | Some a \<Rightarrow>
        if \<not> asks_project ref inc \<or> \<not> same_project a (raw_str ref) (raw_str inc) then inc
        else Val KString True (AStr (raw_str ref)) (vsource inc))"

definition as_declared_kind :: "ext \<Rightarrow> attr_info \<Rightarrow> val \<Rightarrow> val" where
  "as_declared_kind x i inc = (if i_kind i = vkind inc then inc
     else case x_coerce x inc (i_kind i) of Some out \<Rightarrow> out | None \<Rightarrow> inc)"

text \<open>\<open>want.Equal(got)\<close> at the leaves and where \<open>Kind\<close> and \<open>Raw\<close> disagree.\<close>

fun answers_to :: "ext \<Rightarrow> val \<Rightarrow> val \<Rightarrow> bool" where
  "answers_to x (Val k kn r s) got =
     (if k = KMap \<and> vkind got = KMap then
        (case (r, vraw got) of
           (AFields wfs, AFields gfs) \<Rightarrow> list_all (\<lambda>(n, w). case map_of gfs n of
               None \<Rightarrow> False | Some g \<Rightarrow> answers_to x w g) wfs
         | _ \<Rightarrow> x_equal x (Val k kn r s) got)
      else if k = KList \<and> vkind got = KList then
        (case (r, vraw got) of
           (AVals wl, AVals gl) \<Rightarrow>
             if length wl \<noteq> length gl then x_equal x (Val k kn r s) got
             else list_all (\<lambda>(w, g). w g) (zip (map (answers_to x) wl) gl)
         | _ \<Rightarrow> x_equal x (Val k kn r s) got)
      else x_equal x (Val k kn r s) got)"

declare answers_to.simps [simp del]

text \<open>
  The reference's order for everything both sides hold, then what Google added: each
  reference element takes the first element not used yet that answers to it.
\<close>

fun pair_up :: "ext \<Rightarrow> val list \<Rightarrow> val list \<Rightarrow> val list" where
  "pair_up x [] items = items"
| "pair_up x (want # wants) items = (case List.extract (answers_to x want) items of
      None \<Rightarrow> pair_up x wants items
    | Some (before, got, after) \<Rightarrow> got # pair_up x wants (before @ after))"

definition carry_input_only :: "reconciler \<Rightarrow> attr_info \<Rightarrow> val \<Rightarrow> attrs \<Rightarrow> string \<Rightarrow> val option" where
  "carry_input_only r i ref inc name =
     (if \<not> i_input_only i \<or> rc_unmatched r \<or> \<not> vknown ref \<or> has_key inc name then None else Some ref)"

definition carry_omitted_zero :: "reconciler \<Rightarrow> val \<Rightarrow> attrs \<Rightarrow> string \<Rightarrow> val option" where
  "carry_omitted_zero r ref inc name =
     (if rc_unmatched r \<or> \<not> is_zero ref \<or> has_key inc name then None else Some ref)"

text \<open>The reference's entries, empty where it is not an object, and whether it is a known one.\<close>

definition ref_fields :: "val \<Rightarrow> attrs" where
  "ref_fields v = (case raw_fields v of Some kvs \<Rightarrow> kvs | None \<Rightarrow> [])"

definition has_ref :: "val \<Rightarrow> bool" where
  "has_ref v \<longleftrightarrow> raw_fields v \<noteq> None \<and> vknown v"

definition ref_vals :: "val \<Rightarrow> val list" where
  "ref_vals v = (case raw_vals v of Some vs \<Rightarrow> vs | None \<Rightarrow> [])"

text \<open>What becomes of a field the answer left out, and whether an answered one is dropped.\<close>

definition absent_field :: "reconciler \<Rightarrow> attr_info \<Rightarrow> val \<Rightarrow> string \<Rightarrow> attrs \<Rightarrow> val option" where
  "absent_field r i ref name inc =
     (case carry_input_only r i (vget (ref_fields ref) name) inc name of
        Some v \<Rightarrow> Some v
      | None \<Rightarrow> (case carry_omitted_zero r (vget (ref_fields ref) name) inc name of
            Some v \<Rightarrow> if has_ref ref then Some v else None
          | None \<Rightarrow> None))"

definition drop_field :: "reconciler \<Rightarrow> attr_info \<Rightarrow> val \<Rightarrow> string \<Rightarrow> bool" where
  "drop_field r i ref name \<longleftrightarrow>
     has_ref ref \<and> (if rc_unmatched r then i_output i else \<not> has_key (ref_fields ref) name)"

definition nth_or_zero :: "val list \<Rightarrow> nat \<Rightarrow> val" where
  "nth_or_zero vs j = (if j < length vs then vs ! j else zero_val)"

definition element_reconciler :: "reconciler \<Rightarrow> attr_info \<Rightarrow> reconciler" where
  "element_reconciler r i = r\<lparr>rc_unmatched := rc_unmatched r \<or> i_unordered i\<rparr>"

lemma size_field [termination_simp]:
  "(n, f) \<in> set fs \<Longrightarrow> size f < Suc (size_list (size_prod (\<lambda>_. 0) size) fs + m)"
  by (induction fs) auto

fun reconcile_value :: "reconciler \<Rightarrow> attr \<Rightarrow> val \<Rightarrow> val \<Rightarrow> val" where
  "reconcile_value r (Attr i fs e) ref inc =
     (if \<not> vknown inc \<or> i_opaque i then inc
      else if i_kind i = KMap \<and> fs \<noteq> [] then
        (case raw_fields inc of
           None \<Rightarrow> inc
         | Some kvs \<Rightarrow> Val KMap True (AFields (concat (map (\<lambda>(n, f).
             (case map_of kvs n of
                None \<Rightarrow> (case absent_field r (a_info f) ref n kvs of Some v \<Rightarrow> [(n, v)] | None \<Rightarrow> [])
              | Some v \<Rightarrow> if drop_field r (a_info f) ref n then []
                  else [(n, reconcile_value r f (vget (ref_fields ref) n) v)])) fs))) (vsource inc))
      else (case e of
          Some el \<Rightarrow>
            if i_kind i = KList then
              (case raw_vals inc of
                 None \<Rightarrow> inc
               | Some vs \<Rightarrow>
                   (let items = map (\<lambda>(j, v). reconcile_value (element_reconciler r i) el
                          (nth_or_zero (ref_vals ref) j) v) (enumerate 0 vs)
                    in Val KList True (AVals (if i_unordered i
                         then pair_up (rc_ext r) (ref_vals ref) items else items)) (vsource inc)))
            else same_by_equivalence (rc_ext r) i ref
                   (same_project_spelling r ref (as_declared_kind (rc_ext r) i inc))
        | None \<Rightarrow> same_by_equivalence (rc_ext r) i ref
                   (same_project_spelling r ref (as_declared_kind (rc_ext r) i inc))))"

declare reconcile_value.simps [simp del]

definition reconcile_opt :: "reconciler \<Rightarrow> attr option \<Rightarrow> val \<Rightarrow> val \<Rightarrow> val" where
  "reconcile_opt r a ref inc = (case a of None \<Rightarrow> inc | Some ad \<Rightarrow> reconcile_value r ad ref inc)"

text \<open>The package function \<open>Reconcile\<close>, which has no aliases to consult.\<close>

definition reconcile :: "ext \<Rightarrow> attr option \<Rightarrow> val \<Rightarrow> val \<Rightarrow> val" where
  "reconcile x = reconcile_opt \<lparr>rc_ext = x, rc_aliases = None, rc_unmatched = False\<rparr>"

section \<open>Labels\<close>

definition reserved_label_prefix :: string where "reserved_label_prefix = ''goog-''"

definition is_label_map :: "attr_info \<Rightarrow> bool" where
  "is_label_map i \<longleftrightarrow> i_canonical i = ''labels'' \<and> i_kind i = KMap"

fun without_reserved_labels :: "attr option \<Rightarrow> val \<Rightarrow> val" where
  "without_reserved_labels a (Val k kn r s) = (case a of
      None \<Rightarrow> Val k kn r s
    | Some ad \<Rightarrow>
        if \<not> kn then Val k kn r s
        else if is_label_map (a_info ad) then
          (case r of
             AFields kvs \<Rightarrow> Val k True (AFields (filter (\<lambda>(n, v). \<not> has_prefix n reserved_label_prefix) kvs)) s
           | _ \<Rightarrow> Val k kn r s)
        else if a_fields ad \<noteq> [] then
          (case r of
             AFields kvs \<Rightarrow> Val k True (AFields (map (\<lambda>(n, v).
               (n, without_reserved_labels (map_of (a_fields ad) n) v)) kvs)) s
           | _ \<Rightarrow> Val k kn r s)
        else if a_elem ad \<noteq> None then
          (case r of
             AVals vs \<Rightarrow> Val k True (AVals (map (without_reserved_labels (a_elem ad)) vs)) s
           | _ \<Rightarrow> Val k kn r s)
        else Val k kn r s)"

declare without_reserved_labels.simps [simp del]

definition labels_in :: "ext \<Rightarrow> val \<Rightarrow> (string \<times> string) list" where
  "labels_in x v = (case raw_fields v of
      None \<Rightarrow> []
    | Some kvs \<Rightarrow> if \<not> vknown v then []
        else concat (map (\<lambda>(k, item).
          if has_prefix k reserved_label_prefix then []
          else (case x_as_string x item of Some s \<Rightarrow> [(k, s)] | None \<Rightarrow> [])) kvs))"

definition labels_out :: "(string \<times> string) list \<Rightarrow> val" where
  "labels_out m = (if m = [] then zero_val
     else v_map (map (\<lambda>(k, s). (k, v_string s SourceProvider)) m) SourceProvider)"

section \<open>A whole answer\<close>

definition carried :: "reconciler \<Rightarrow> string \<times> attr \<Rightarrow> attrs \<Rightarrow> attrs \<Rightarrow> attrs \<Rightarrow> attrs" where
  "carried r = (\<lambda>(name, a) ref inc out.
     case carry_input_only r (a_info a) (vget ref name) inc name of
       Some v \<Rightarrow> AList.update name v out
     | None \<Rightarrow> (case carry_omitted_zero r (vget ref name) inc name of
           Some v \<Rightarrow> AList.update name v out
         | None \<Rightarrow> out))"

definition reconcile_level :: "reconciler \<Rightarrow> level \<Rightarrow> attrs \<Rightarrow> attrs \<Rightarrow> attrs" where
  "reconcile_level r lvl ref inc =
     fold (\<lambda>na out. carried r na ref inc out) lvl
       (map (\<lambda>(n, v). (n, without_reserved_labels (map_of lvl n)
          (reconcile_opt r (map_of lvl n) (vget ref n) v))) inc)"

definition reconcile_attrs :: "ext \<Rightarrow> level \<Rightarrow> attrs \<Rightarrow> attrs \<Rightarrow> attrs" where
  "reconcile_attrs x = reconcile_level \<lparr>rc_ext = x, rc_aliases = None, rc_unmatched = False\<rparr>"

section \<open>Asking for the aliases\<close>

text \<open>Whether reconciling reaches a pair of project names that differ.\<close>

fun consults :: "reconciler \<Rightarrow> attr \<Rightarrow> val \<Rightarrow> val \<Rightarrow> bool" where
  "consults r (Attr i fs e) ref inc =
     (if \<not> vknown inc \<or> i_opaque i then False
      else if i_kind i = KMap \<and> fs \<noteq> [] then
        (case raw_fields inc of
           None \<Rightarrow> False
         | Some kvs \<Rightarrow> list_ex (\<lambda>(n, f). case map_of kvs n of
             None \<Rightarrow> False
           | Some v \<Rightarrow> \<not> drop_field r (a_info f) ref n
               \<and> consults r f (vget (ref_fields ref) n) v) fs)
      else (case e of
          Some el \<Rightarrow>
            if i_kind i = KList then
              (case raw_vals inc of
                 None \<Rightarrow> False
               | Some vs \<Rightarrow> list_ex (\<lambda>(j, v). consults (element_reconciler r i) el
                   (nth_or_zero (ref_vals ref) j) v) (enumerate 0 vs))
            else asks_project ref (as_declared_kind (rc_ext r) i inc)
        | None \<Rightarrow> asks_project ref (as_declared_kind (rc_ext r) i inc)))"

declare consults.simps [simp del]

definition consults_level :: "reconciler \<Rightarrow> level \<Rightarrow> attrs \<Rightarrow> attrs \<Rightarrow> bool" where
  "consults_level r lvl ref inc \<longleftrightarrow> list_ex (\<lambda>(n, v). case map_of lvl n of
     None \<Rightarrow> False | Some a \<Rightarrow> consults r a (vget ref n) v) inc"

text \<open>\<open>p.reconciler(ctx).attrs(...)\<close>.\<close>

definition reconcile_with_aliases ::
  "'s gcp_provider \<Rightarrow> ctx \<Rightarrow> level \<Rightarrow> attrs \<Rightarrow> attrs \<Rightarrow> ('s, attrs) act" where
  "reconcile_with_aliases p c lvl ref inc w =
     (let r = \<lparr>rc_ext = p_ext p, rc_aliases = Some no_aliases, rc_unmatched = False\<rparr>
      in if consults_level r lvl ref inc then do {
           (a, w) \<leftarrow> project_aliases_of p c w;
           Some (reconcile_level (r\<lparr>rc_aliases := Some a\<rparr>) lvl ref inc, w) }
         else Some (reconcile_level r lvl ref inc, w))"

end
