(* ===== verification/Mask.thy ===== *)
theory Mask
  imports Reconcile
begin

text \<open>
  What an update sends (the pure part of internal/gcprov/patch.go and of
  internal/gcprov/setters.go): the patch body and its updateMask from a diff, the request
  options that travel unmasked, the merge for a PUT, the lock, and the setters a change needs.
  A walk over \<open>sortedAttrNames\<close> is the walk over \<open>sorted_attrs\<close>, the level sorted by name.
\<close>

section \<open>BuildMask\<close>

definition sorted_attrs :: "level \<Rightarrow> level" where
  "sorted_attrs lvl = sort_key fst lvl"

lemma set_sorted_attrs [simp]: "set (sorted_attrs lvl) = set lvl"
  by (simp add: sorted_attrs_def)

definition url_identifying :: "ctype \<Rightarrow> string list" where
  "url_identifying ty = placeholder_names (t_self_link ty) @ placeholder_names (t_update_url ty)
     @ placeholder_names (t_base_url ty)"

text \<open>
  One changed attribute: its wire name, what the body says for it, and its mask entries. The
  body and the mask of a level are collected from its entries in order.
\<close>

type_synonym change = "string \<times> any \<times> string list"

definition change_body :: "change list \<Rightarrow> json" where
  "change_body cs = overlay [] (map (\<lambda>(k, v, m). (k, v)) cs)"

definition change_mask :: "change list \<Rightarrow> string list" where
  "change_mask cs = concat (map (\<lambda>(k, v, m). m) cs)"

text \<open>Whether both sides are objects whose declared leaves can be compared.\<close>

definition walks_into :: "attr \<Rightarrow> val \<Rightarrow> val \<Rightarrow> bool" where
  "walks_into a want have_v \<longleftrightarrow>
     a_fields a \<noteq> [] \<and> vkind want = KMap \<and> vkind have_v = KMap \<and> vknown have_v"

fun build_nested :: "ext \<Rightarrow> attr \<Rightarrow> string \<Rightarrow> val \<Rightarrow> val \<Rightarrow> change list" where
  "build_nested x (Attr i fs e) path have_v want = concat (map (\<lambda>(name, f).
     if a_output f then []
     else (case map_of (ref_fields want) name of
         None \<Rightarrow> []
       | Some w \<Rightarrow>
           (let h = vget (ref_fields have_v) name; child = path @ ''.'' @ a_canonical f in
            if \<not> vknown w \<or> x_equal x h w then []
            else if walks_into f w h then
              (let sub = build_nested x f child h w
               in if change_mask sub = [] then []
                  else [(a_canonical f, AObj (change_body sub), change_mask sub)])
            else [(a_canonical f, wire_value (Some f) w, [child])]))) (sorted_attrs fs))"

declare build_nested.simps [simp del]

text \<open>The attributes the walk passes over whatever the diff says.\<close>

definition never_masked :: "ctype \<Rightarrow> string \<Rightarrow> attr \<Rightarrow> bool" where
  "never_masked ty name a \<longleftrightarrow> a_output a \<or> setter_for ty (a_canonical a) \<noteq> None
     \<or> name \<in> set (url_identifying ty) \<or> a_canonical a \<in> set (url_identifying ty)"

definition mask_entry :: "ext \<Rightarrow> ctype \<Rightarrow> attrs \<Rightarrow> attrs \<Rightarrow> string \<times> attr \<Rightarrow> change list" where
  "mask_entry x ty current desired = (\<lambda>(name, a).
     if never_masked ty name a then []
     else (case map_of desired name of
         None \<Rightarrow> []
       | Some want \<Rightarrow>
           (let have_v = vget current name in
            if \<not> vknown want \<or> x_equal x have_v want then []
            else if walks_into a want have_v then
              (let sub = build_nested x a (a_canonical a) have_v want
               in if change_mask sub = [] then []
                  else [(a_canonical a, AObj (change_body sub), change_mask sub)])
            else [(a_canonical a, wire_value (Some a) want, [a_canonical a])])))"

definition mask_entries :: "ext \<Rightarrow> ctype \<Rightarrow> attrs \<Rightarrow> attrs \<Rightarrow> change list" where
  "mask_entries x ty current desired =
     concat (map (mask_entry x ty current desired) (sorted_attrs (t_attributes ty)))"

lemma size_a_fields: "(n, a) \<in> set lvl \<Longrightarrow>
  size_list (size_prod (\<lambda>_. 0) size) (a_fields a) < size_list (size_prod (\<lambda>_. 0) size) lvl"
proof (induction lvl)
  case (Cons b lvl)
  then show ?case by (cases a) auto
qed simp

function add_request_options :: "level \<Rightarrow> attrs \<Rightarrow> json \<Rightarrow> json" where
  "add_request_options lvl desired body = fold (\<lambda>(name, a) body.
     case map_of desired name of
       None \<Rightarrow> body
     | Some want \<Rightarrow>
         if \<not> vknown want then body
         else if a_send_with_update a then AList.update (a_canonical a) (wire_value (Some a) want) body
         else if a_fields a = [] then body
         else (case raw_fields want of
             None \<Rightarrow> body
           | Some inner \<Rightarrow>
               (let sub = add_request_options (a_fields a) inner
                      (case any_obj (map_of body (a_canonical a)) of Some m \<Rightarrow> m | None \<Rightarrow> [])
                in if sub \<noteq> [] then AList.update (a_canonical a) (AObj sub) body else body)))
     (sorted_attrs lvl) body"
  by pat_completeness auto
termination
  by (relation "measure (\<lambda>(lvl, d, b). size_list (size_prod (\<lambda>_. 0) size) lvl)")
    (auto simp: size_a_fields)

declare add_request_options.simps [simp del]

definition build_mask :: "ext \<Rightarrow> ctype \<Rightarrow> attrs \<Rightarrow> attrs \<Rightarrow> json \<times> string list" where
  "build_mask x ty current desired =
     (let cs = mask_entries x ty current desired;
          body = change_body cs; paths = change_mask cs
      in (if paths \<noteq> [] then add_request_options (t_attributes ty) desired body else body, paths))"

section \<open>Around the patch\<close>

text \<open>\<open>topLevelFields\<close>: the distinct fields, in the order they are first named.\<close>

definition top_level_fields :: "string list \<Rightarrow> string list" where
  "top_level_fields paths = firsts [] (map (\<lambda>m. fst (str_cut m ''.'')) paths)"

text \<open>The part of a mask one top-level field owns.\<close>

definition mask_of_field :: "string \<Rightarrow> string list \<Rightarrow> string list" where
  "mask_of_field f paths = filter (\<lambda>m. m = f \<or> has_prefix m (f @ ''.'')) paths"


function merge_changed :: "json \<Rightarrow> json \<Rightarrow> json" where
  "merge_changed base [] = base"
| "merge_changed base ((k, v) # kvs) = merge_changed (AList.update k
     (case v of
        AObj sub \<Rightarrow> (case any_obj (map_of base k) of
            Some have_m \<Rightarrow> AObj (merge_changed have_m sub) | None \<Rightarrow> v)
      | _ \<Rightarrow> v) base) kvs"
  by pat_completeness auto
termination
  by (relation "measure (\<lambda>(b, c). size_list (size_prod (\<lambda>_. 0) size) c)") auto

definition lock_value :: "ctype \<Rightarrow> attrs \<Rightarrow> attr option \<times> val" where
  "lock_value ty state =
     (case find (\<lambda>(name, a). a_canonical a = t_lock_field ty \<or> name = t_lock_field ty) (t_attributes ty) of
        Some (name, a) \<Rightarrow> (Some a, vget state name)
      | None \<Rightarrow> (None, zero_val))"

section \<open>Setters\<close>

definition attr_by_canonical :: "ctype \<Rightarrow> string \<Rightarrow> (string \<times> attr) option" where
  "attr_by_canonical ty canonical = find_canonical (t_attributes ty) canonical"

definition setter_field_changed :: "ext \<Rightarrow> ctype \<Rightarrow> attrs \<Rightarrow> attrs \<Rightarrow> string \<Rightarrow> bool" where
  "setter_field_changed x ty current desired f = (case attr_by_canonical ty f of
      None \<Rightarrow> False
    | Some (name, a) \<Rightarrow> (case map_of desired name of
          None \<Rightarrow> False
        | Some want \<Rightarrow> vknown want \<and> \<not> x_equal x (vget current name) want))"

definition changed_setters :: "ext \<Rightarrow> ctype \<Rightarrow> attrs \<Rightarrow> attrs \<Rightarrow> setter list" where
  "changed_setters x ty current desired =
     filter (\<lambda>s. list_ex (setter_field_changed x ty current desired) (s_fields s)) (t_setters ty)"

definition sendable :: "val option \<Rightarrow> val option" where
  "sendable v = (case v of
      None \<Rightarrow> None
    | Some u \<Rightarrow> if vknown u \<and> vkind u \<noteq> KInvalid then Some u else None)"

text \<open>Configuration's value where it says one, else the one the resource has.\<close>

definition setter_value :: "attrs \<Rightarrow> attrs \<Rightarrow> string \<Rightarrow> val option" where
  "setter_value current desired name = sendable (case map_of desired name of
      Some v \<Rightarrow> if vknown v then Some v else map_of current name
    | None \<Rightarrow> map_of current name)"

definition setter_fields_body :: "ctype \<Rightarrow> string list \<Rightarrow> attrs \<Rightarrow> attrs \<Rightarrow> json" where
  "setter_fields_body ty fs current desired = fold (\<lambda>f body. case attr_by_canonical ty f of
      None \<Rightarrow> body
    | Some (name, a) \<Rightarrow> (case setter_value current desired name of
          Some v \<Rightarrow> AList.update f (wire_value (Some a) v) body
        | None \<Rightarrow> body)) fs []"

definition setter_body :: "ctype \<Rightarrow> setter \<Rightarrow> attrs \<Rightarrow> attrs \<Rightarrow> json" where
  "setter_body ty s current desired =
     (let body = setter_fields_body ty (s_fields s) current desired
      in if s_lock s = [] then body
         else (case attr_by_canonical ty (s_lock s) of
             None \<Rightarrow> body
           | Some (name, a) \<Rightarrow> (case sendable (map_of current name) of
                 Some v \<Rightarrow> AList.update (s_lock s) (wire_value (Some a) v) body
               | None \<Rightarrow> body)))"

end
