(* ===== verification/Reading.thy ===== *)
theory Reading
  imports Reconcile
begin

text \<open>
  The read path: the instance's scope (internal/gcprov/discover.go, \<open>scopeAttrs\<close> and
  \<open>withScope\<close>), reads through a parent's listing (internal/gcprov/listread.go), and \<open>Read\<close>,
  \<open>stateFrom\<close>, \<open>declaredOnly\<close> and \<open>Import\<close> of internal/gcprov/crud.go. \<open>Inr None\<close> is the
  source's \<open>(nil, nil)\<close>: believed absent.
\<close>

record rstate =
  rs_address :: string
  rs_type :: string
  rs_provider_id :: string
  rs_attributes :: attrs

section \<open>The instance's scope\<close>

definition scope_attrs :: "'s gcp_provider \<Rightarrow> string \<Rightarrow> attrs" where
  "scope_attrs p project =
     [(''project'', v_string project SourceProvider)]
     @ (let r = st_region (p_settings p) in
        if r \<noteq> [] then [(''region'', v_string r SourceProvider), (''location'', v_string r SourceProvider)]
        else [])
     @ (let z = st_zone (p_settings p) in if z \<noteq> [] then [(''zone'', v_string z SourceProvider)] else [])"

text \<open>The scope filled in underneath what the attributes already say.\<close>

definition with_scope :: "'s gcp_provider \<Rightarrow> attrs \<Rightarrow> attrs" where
  "with_scope p attrs = fold (\<lambda>(k, v) out.
     if raw_str v = [] \<or> vknown (vget out k) then out else AList.update k v out)
     (scope_attrs p (st_project (p_settings p))) attrs"

section \<open>Reading through a parent's listing\<close>

definition read_via_list_by_parent :: string where
  "read_via_list_by_parent = ''list_by_parent''"

fun object_items :: "any list \<Rightarrow> json list" where
  "object_items [] = []"
| "object_items (AObj m # as) = m # object_items as"
| "object_items (_ # as) = object_items as"

definition list_items :: "json option \<Rightarrow> string \<Rightarrow> json list" where
  "list_items body field = (case jget body field of Some (AList as) \<Rightarrow> object_items as | _ \<Rightarrow> [])"

definition names_same_resource :: "json \<Rightarrow> string \<Rightarrow> bool" where
  "names_same_resource item rid = list_ex (\<lambda>field.
     let v = any_str (map_of item field)
     in v \<noteq> [] \<and> (v = rid \<or> last_path_segment v = last_path_segment rid)) [''name'', ''selfLink'']"

definition full_name_of_segment :: "string \<Rightarrow> string option" where
  "full_name_of_segment seg =
     (if \<not> str_contains seg ''%2F'' \<and> \<not> str_contains seg ''%2f'' then None
      else (case path_unescape seg of
          None \<Rightarrow> None
        | Some d \<Rightarrow> if \<not> has_prefix d ''//'' \<or> count_char (CHR ''/'') d < 3 then None else Some d))"

fun first_some :: "('a \<Rightarrow> 'b option) \<Rightarrow> 'a list \<Rightarrow> 'b option" where
  "first_some f [] = None"
| "first_some f (y # ys) = (case f y of Some z \<Rightarrow> Some z | None \<Rightarrow> first_some f ys)"

definition full_resource_name_in :: "string \<Rightarrow> string option" where
  "full_resource_name_in rid = first_some full_name_of_segment (split_slash rid)"

definition hierarchy_parent :: "'s gcp_provider \<Rightarrow> ctype \<Rightarrow> gerr + string" where
  "hierarchy_parent p ty = (case str_cut (t_asset_type ty) ''/'' of (service, _, ok) \<Rightarrow>
     if \<not> ok \<or> service = [] then
       Inl (Errorf ''gcp: %s: no asset type, so its parent's full resource name cannot be built'' [t_name ty])
     else if t_parent_root ty \<noteq> [] \<and> t_parent_root ty \<noteq> ''projects'' then
       Inl (Errorf ''gcp: %s: is rooted at %s, which this instance's settings do not name''
         [t_name ty, t_parent_root ty])
     else if st_project (p_settings p) = [] then
       Inl (Errorf ''gcp: %s: no project is configured to list its bindings under'' [t_name ty])
     else Inr (''//'' @ service @ ''/projects/'' @ st_project (p_settings p)))"

definition list_parent :: "'s gcp_provider \<Rightarrow> ctype \<Rightarrow> string \<Rightarrow> gerr + string" where
  "list_parent p ty rid = (case full_resource_name_in rid of
      Some parent \<Rightarrow> Inr parent | None \<Rightarrow> hierarchy_parent p ty)"

text \<open>The pages of the parent's list, from the page of \<open>token\<close> on. Nothing bounds their number.\<close>

partial_function (option) list_parent_pages ::
  "'s gcp_provider \<Rightarrow> ctx \<Rightarrow> ctype \<Rightarrow> string \<Rightarrow> string \<Rightarrow> string \<Rightarrow> ('s, json option res) act" where
  "list_parent_pages p c ty rid url token w = Option.bind
     (client_do (p_client p) c ''GET''
        (if token \<noteq> [] then url @ ''&pageToken='' @ query_escape token else url) None w)
     (\<lambda>(r, w). case r of
        Inl e \<Rightarrow> Some (Inl e, w)
      | Inr body \<Rightarrow>
          (case find (\<lambda>item. names_same_resource item rid) (list_items body (t_list_field ty)) of
             Some item \<Rightarrow> Some (Inr (Some item), w)
           | None \<Rightarrow>
               let next = any_str (jget body ''nextPageToken'')
               in if next = [] then Some (Inr None, w)
                  else list_parent_pages p c ty rid url next w))"

definition read_by_listing_parent ::
  "'s gcp_provider \<Rightarrow> ctx \<Rightarrow> ctype \<Rightarrow> string \<Rightarrow> ('s, json option res) act" where
  "read_by_listing_parent p c ty rid w =
     (if t_list_field ty = [] then
        Some (Inl (Errorf ''gcp: %s: read_via is %q but the catalog names no list field for it''
          [t_name ty, t_read_via ty]), w)
      else case list_parent p ty rid of
        Inl e \<Rightarrow> Some (Inl e, w)
      | Inr parent \<Rightarrow>
          (case expand_url (p_ext p) (t_base_url ty) (scope_attrs p (st_project (p_settings p))) of
             Inl e \<Rightarrow> Some (Inl (Wrapf ''gcp: %s: building the parent listing url: %w'' [t_name ty] e), w)
           | Inr rel \<Rightarrow>
               list_parent_pages p c ty rid (abs_url ty rel @ ''?parent='' @ query_escape parent) [] w))"

section \<open>The state a read reports\<close>

text \<open>Dropping what the schema does not declare, warning once per type and field.\<close>

definition drop_undeclared :: "ctype \<Rightarrow> string \<Rightarrow> 's world \<Rightarrow> 's world" where
  "drop_undeclared ty name w =
     (let key = t_name ty @ ''.'' @ name
      in if key \<in> set (w_seen w) then w
         else log_err ''gcp: %s: Google answered with %q, which this catalog does not declare; leaving it out of state''
                [t_name ty, name] None (w\<lparr>w_seen := key # w_seen w\<rparr>))"

definition declared_only :: "ctype \<Rightarrow> attrs \<Rightarrow> 's world \<Rightarrow> attrs \<times> 's world" where
  "declared_only ty attrs w =
     (filter (\<lambda>(n, v). has_key (t_attributes ty) n) attrs,
      fold (drop_undeclared ty) (filter (\<lambda>n. \<not> has_key (t_attributes ty) n) (keys attrs)) w)"

text \<open>\<open>shortNameFromOwnID\<close>.\<close>

definition last_two :: "string list \<Rightarrow> string list" where
  "last_two segs = drop (length segs - 2) segs"

definition short_name_from_own_id :: "ctype \<Rightarrow> string \<Rightarrow> attrs \<Rightarrow> val \<Rightarrow> attrs" where
  "short_name_from_own_id ty rid attrs ref =
     (case map_of (t_attributes ty) ''name'' of
        None \<Rightarrow> attrs
      | Some a \<Rightarrow>
          if a_output a then attrs
          else if \<not> self_link_ends_in_name (t_self_link ty)
             \<and> (\<not> is_bare_capture (t_self_link ty) \<or> \<not> vknown ref \<or> \<not> is_str_raw ref
                \<or> raw_str ref = [] \<or> CHR ''/'' \<in> set (raw_str ref)) then attrs
          else (case map_of attrs ''name'' of
              None \<Rightarrow> attrs
            | Some v \<Rightarrow>
                if \<not> vknown v \<or> \<not> is_str_raw v \<or> CHR ''/'' \<notin> set (raw_str v) then attrs
                else (let got = split_slash (raw_str v); want = split_slash rid
                  in if length got < 2 \<or> length want < 2 \<or> last_two got \<noteq> last_two want then attrs
                     else AList.update ''name'' (Val (vkind v) True (AStr (List.last got)) (vsource v)) attrs)))"

text \<open>A create-only attribute the answer does not carry is taken from the state read at.\<close>

definition keep_create_only :: "ctype \<Rightarrow> attrs \<Rightarrow> attrs \<Rightarrow> attrs" where
  "keep_create_only ty prior attrs = fold (\<lambda>(name, a) out.
     if \<not> a_create_only a \<or> has_key out name then out
     else (case map_of prior name of Some v \<Rightarrow> AList.update name v out | None \<Rightarrow> out))
     (t_attributes ty) attrs"

definition state_from ::
  "'s gcp_provider \<Rightarrow> ctx \<Rightarrow> ctype \<Rightarrow> rstate \<Rightarrow> attrs \<Rightarrow> json option \<Rightarrow> ('s, rstate) act" where
  "state_from p c ty current idAttrs body w =
     (let x = p_ext p; b = (case body of Some m \<Rightarrow> m | None \<Rightarrow> []);
          (rid, w) = (case provider_id x ty b (with_scope p idAttrs) of
              Inr r \<Rightarrow> (r, w)
            | Inl e \<Rightarrow> (rs_provider_id current,
                log_err ''gcp: %s: the response's identity could not be reduced to a provider id (%v); keeping the id this resource was read at''
                  [t_name ty] (Some e) w));
          attrs = overlay [] (declared_id_attrs (t_attributes ty) idAttrs)
      in do {
        (rec, w) \<leftarrow> reconcile_with_aliases p c (t_attributes ty) (rs_attributes current)
                       (schema_attrs x (t_attributes ty) b) w;
        let attrs = keep_create_only ty (rs_attributes current) (overlay attrs rec);
        let attrs = short_name_from_own_id ty rid attrs (vget (rs_attributes current) ''name'');
        let (attrs, w) = declared_only ty attrs w;
        Some (\<lparr>rs_address = [], rs_type = rs_type current, rs_provider_id = rid,
               rs_attributes = attrs\<rparr>, w) })"

definition state_from_listing ::
  "'s gcp_provider \<Rightarrow> ctx \<Rightarrow> ctype \<Rightarrow> rstate \<Rightarrow> attrs \<Rightarrow> json option \<Rightarrow> ('s, rstate) act" where
  "state_from_listing p c ty current idAttrs body w = do {
     (st, w) \<leftarrow> state_from p c ty current idAttrs body w;
     Some (st\<lparr>rs_provider_id := rs_provider_id current\<rparr>, w) }"

section \<open>Read and Import\<close>

definition not_found_patience :: int where "not_found_patience = 4 * second"

partial_function (option) read_loop ::
  "'s gcp_provider \<Rightarrow> ctx \<Rightarrow> ctype \<Rightarrow> rstate \<Rightarrow> attrs \<Rightarrow> string \<Rightarrow> int \<Rightarrow> nat \<Rightarrow> ('s, rstate option res) act" where
  "read_loop p c ty current attrs url deadline attempt w = Option.bind
     (client_do (p_client p) c ''GET'' url None w)
     (\<lambda>(r, w). case r of
        Inr body \<Rightarrow> Option.bind (state_from p c ty current attrs body w)
          (\<lambda>(st, w). Some (Inr (Some st), w))
      | Inl e \<Rightarrow>
          if \<not> is_not_found e then Some (Inl e, w)
          else if w_now w > deadline then Some (Inr None, w)
          else (case sleep_backoff (p_client p) c attempt w of
              (Some e, w) \<Rightarrow> Some (Inl e, w)
            | (None, w) \<Rightarrow> read_loop p c ty current attrs url deadline (Suc attempt) w))"

definition unknown_type :: "string \<Rightarrow> gerr" where
  "unknown_type name = Errorf ''gcp: unknown type %q'' [name]"

definition read_resource :: "'s gcp_provider \<Rightarrow> ctx \<Rightarrow> rstate \<Rightarrow> ('s, rstate option res) act" where
  "read_resource p c current w = (case catalog_type (p_catalog p) (rs_type current) of
      None \<Rightarrow> Some (Inl (unknown_type (rs_type current)), w)
    | Some ty \<Rightarrow> (case parse_provider_id (p_ext p) ty (rs_provider_id current) of
        Inl e \<Rightarrow> Some (Inl e, w)
      | Inr attrs \<Rightarrow>
          if t_read_via ty = read_via_list_by_parent then do {
            (r, w) \<leftarrow> read_by_listing_parent p c ty (rs_provider_id current) w;
            case r of
              Inl e \<Rightarrow> Some (Inl e, w)
            | Inr None \<Rightarrow> Some (Inr None, w)
            | Inr (Some body) \<Rightarrow> do {
                (st, w) \<leftarrow> state_from_listing p c ty current attrs (Some body) w;
                Some (Inr (Some st), w) } }
          else (case item_url (p_ext p) ty [] (rs_provider_id current) attrs of
              Inl e \<Rightarrow> Some (Inl e, w)
            | Inr url \<Rightarrow> read_loop p c ty current attrs url (w_now w + not_found_patience) 0 w)))"

definition import_resource :: "'s gcp_provider \<Rightarrow> ctx \<Rightarrow> string \<Rightarrow> string \<Rightarrow> ('s, rstate option res) act" where
  "import_resource p c resourceType rid w = (case catalog_type (p_catalog p) resourceType of
      None \<Rightarrow> Some (Inl (unknown_type resourceType), w)
    | Some ty \<Rightarrow> (case parse_provider_id (p_ext p) ty rid of
        Inl e \<Rightarrow> Some (Inl e, w)
      | Inr attrs \<Rightarrow> read_resource p c \<lparr>rs_address = [], rs_type = resourceType,
          rs_provider_id = rid, rs_attributes = attrs\<rparr> w))"

end
