(* ===== verification/Update.thy ===== *)
theory Update
  imports Mask Reading
begin

text \<open>
  Changing an existing resource (the effects of internal/gcprov/patch.go and
  internal/gcprov/setters.go): \<open>Update\<close> with its patch, PUT, one-field-at-a-time and setter
  forms, and the read that follows each. A result \<open>Inl\<close> is the error the host sees.
\<close>

record desired_resource =
  ds_type :: string
  ds_attrs :: attrs

definition type_timeout :: "ctype \<Rightarrow> int" where
  "type_timeout ty = t_timeout_seconds ty * second"

section \<open>Sending\<close>

definition send_patch ::
  "'s gcp_provider \<Rightarrow> ctx \<Rightarrow> ctype \<Rightarrow> string \<Rightarrow> json \<Rightarrow> string list \<Rightarrow> ('s, json option res) act" where
  "send_patch p c ty url body paths =
     (let body' = (if t_update_wrapper ty \<noteq> []
            then overlay [] [(t_update_wrapper ty, AObj body),
                             (t_update_mask_field ty, AStr (join_with '','' paths))]
            else body);
          url' = (if t_update_wrapper ty = [] \<and> t_update_mask ty then url @ mask_query url paths else url)
      in client_do (p_client p) c (t_update_verb ty) url' (Some (AObj body')))"

definition fresh_lock :: "'s gcp_provider \<Rightarrow> ctype \<Rightarrow> string \<Rightarrow> attrs \<Rightarrow> ('s, any res) act" where
  "fresh_lock p ty rid attrs w = (case item_url (p_ext p) ty [] rid attrs of
      Inl e \<Rightarrow> Some (Inl e, w)
    | Inr url \<Rightarrow> do {
        (r, w) \<leftarrow> client_do (p_client p) (detached (type_timeout ty) w) ''GET'' url None w;
        Some (case r of
            Inl e \<Rightarrow> Inl e
          | Inr got \<Rightarrow> Inr (case jget got (t_lock_field ty) of Some v \<Rightarrow> v | None \<Rightarrow> ANil), w) })"

definition read_for_put :: "'s gcp_provider \<Rightarrow> ctx \<Rightarrow> ctype \<Rightarrow> string \<Rightarrow> attrs \<Rightarrow> ('s, json option res) act" where
  "read_for_put p c ty rid attrs w = (case item_url (p_ext p) ty [] rid attrs of
      Inl e \<Rightarrow> Some (Inl e, w)
    | Inr url \<Rightarrow> do {
        (r, w) \<leftarrow> client_do (p_client p) c ''GET'' url None w;
        Some (case r of
            Inl e \<Rightarrow> Inl (Wrapf ''gcp: %s: reading the resource to update it whole: %w'' [t_name ty] e)
          | Inr fresh \<Rightarrow> Inr fresh, w) })"

text \<open>\<open>callSetter\<close>: whether the request reached Google, and the error.\<close>

definition call_setter ::
  "'s gcp_provider \<Rightarrow> ctx \<Rightarrow> ctype \<Rightarrow> setter \<Rightarrow> string \<Rightarrow> attrs \<Rightarrow> attrs \<Rightarrow> ('s, bool \<times> gerr option) act" where
  "call_setter p c ty s rid current desired w = (case parse_provider_id (p_ext p) ty rid of
      Inl e \<Rightarrow> Some ((False, Some e), w)
    | Inr idAttrs \<Rightarrow> (case item_url (p_ext p) ty (s_path s) rid idAttrs of
        Inl e \<Rightarrow> Some ((False, Some e), w)
      | Inr url \<Rightarrow> do {
          (r, w) \<leftarrow> client_do (p_client p) c (s_verb s) url
                      (Some (AObj (setter_body ty s current desired))) w;
          case r of
            Inl e \<Rightarrow> Some ((False, Some e), w)
          | Inr resp \<Rightarrow> do {
              (a, w) \<leftarrow> await p ty resp w;
              Some ((True, case a of Inl e \<Rightarrow> Some e | Inr _ \<Rightarrow> None), w) } }))"

section \<open>After the patch\<close>

definition read_after_patch :: "'s gcp_provider \<Rightarrow> ctype \<Rightarrow> rstate \<Rightarrow> attrs \<Rightarrow> ('s, rstate option res) act" where
  "read_after_patch p ty current desired w =
     read_resource p (detached (type_timeout ty) w) (current\<lparr>rs_attributes := desired\<rparr>) w"

text \<open>
  The loop of \<open>updateThroughSetters\<close>: \<open>Inl\<close> is its early return, \<open>Inr\<close> the error it leaves
  the loop with. \<open>patched\<close> is whether anything was sent.
\<close>

fun run_setters ::
  "'s gcp_provider \<Rightarrow> ctx \<Rightarrow> ctype \<Rightarrow> rstate \<Rightarrow> attrs \<Rightarrow> setter list \<Rightarrow> bool \<Rightarrow> gerr option
     \<Rightarrow> ('s, gerr option res) act" where
  "run_setters p c ty current desired [] patched awaitErr w = Some (Inr awaitErr, w)"
| "run_setters p c ty current desired (s # ss) patched awaitErr w =
     (case ctx_error c w of
        Some e \<Rightarrow> Some (if \<not> patched then Inl e else Inr awaitErr, w)
      | None \<Rightarrow> do {
          ((sent, err), w) \<leftarrow> call_setter p c ty s (rs_provider_id current) (rs_attributes current) desired w;
          case err of
            None \<Rightarrow> run_setters p c ty current desired ss (patched \<or> sent) awaitErr w
          | Some e \<Rightarrow>
              if \<not> sent \<and> \<not> patched then Some (Inl e, w)
              else Some (Inr (case awaitErr of None \<Rightarrow> Some e | Some a \<Rightarrow> Some a),
                     log_err ''gcp: %s: %s failed, reading back what exists: %v''
                       [t_name ty, s_method s] (Some e) w) })"

definition report_update ::
  "ctype \<Rightarrow> rstate \<Rightarrow> gerr option \<Rightarrow> rstate option res \<Rightarrow> rstate option res" where
  "report_update ty current awaitErr r = (case r of
      Inr (Some st) \<Rightarrow> Inr (Some st)
    | _ \<Rightarrow> (case awaitErr of
        Some e \<Rightarrow> Inl e
      | None \<Rightarrow> (case r of
          Inl e \<Rightarrow> Inl (Wrapf ''gcp: %s: patched, but the resource cannot be read back: %w'' [t_name ty] e)
        | Inr _ \<Rightarrow> Inl (Errorf ''gcp: %s: patched, but %s is no longer there''
                     [t_name ty, rs_provider_id current]))))"

definition update_through_setters ::
  "'s gcp_provider \<Rightarrow> ctx \<Rightarrow> ctype \<Rightarrow> rstate \<Rightarrow> attrs \<Rightarrow> setter list \<Rightarrow> bool \<Rightarrow> gerr option
     \<Rightarrow> ('s, rstate option res) act" where
  "update_through_setters p c ty current desired ss patched awaitErr w = do {
     (r, w) \<leftarrow> run_setters p c ty current desired ss patched awaitErr w;
     case r of
       Inl e \<Rightarrow> Some (Inl e, w)
     | Inr awaitErr \<Rightarrow> do {
         (st, w) \<leftarrow> read_after_patch p ty current desired w;
         Some (report_update ty current awaitErr st, w) } }"

section \<open>One field at a time\<close>

definition lock_now :: "ctype \<Rightarrow> attrs \<Rightarrow> any" where
  "lock_now ty state =
     (if t_lock_field ty = [] then ANil
      else (case lock_value ty state of (a, v) \<Rightarrow> if vknown v then wire_value a v else ANil))"

definition field_part :: "ctype \<Rightarrow> json \<Rightarrow> string \<Rightarrow> any \<Rightarrow> json" where
  "field_part ty body f lock =
     (let part = [(f, case map_of body f of Some v \<Rightarrow> v | None \<Rightarrow> ANil)]
      in if lock \<noteq> ANil then AList.update (t_lock_field ty) lock part else part)"

text \<open>The lock to send with the next field, or why the loop stops before sending it.\<close>

definition lock_for_field ::
  "'s gcp_provider \<Rightarrow> ctype \<Rightarrow> rstate \<Rightarrow> attrs \<Rightarrow> bool \<Rightarrow> any \<Rightarrow> ('s, any res) act" where
  "lock_for_field p ty current attrs first lock w =
     (if first \<or> t_lock_field ty = [] then Some (Inr lock, w)
      else fresh_lock p ty (rs_provider_id current) attrs w)"

fun patch_fields ::
  "'s gcp_provider \<Rightarrow> ctx \<Rightarrow> ctype \<Rightarrow> rstate \<Rightarrow> attrs \<Rightarrow> string \<Rightarrow> json \<Rightarrow> string list \<Rightarrow> string list
     \<Rightarrow> bool \<Rightarrow> any \<Rightarrow> ('s, gerr option res) act" where
  "patch_fields p c ty current attrs url body paths [] first lock w = Some (Inr None, w)"
| "patch_fields p c ty current attrs url body paths (f # fs) first lock w =
     (case (if first then ctx_error c w else None) of
        Some e \<Rightarrow> Some (Inl e, w)
      | None \<Rightarrow> do {
          (l, w) \<leftarrow> lock_for_field p ty current attrs first lock w;
          case l of
            Inl e \<Rightarrow> Some (Inr (Some e), w)
          | Inr lock \<Rightarrow> do {
              (r, w) \<leftarrow> send_patch p background ty url (field_part ty body f lock) (mask_of_field f paths) w;
              case r of
                Inl e \<Rightarrow> Some (if first then Inl e else Inr (Some e), w)
              | Inr resp \<Rightarrow> do {
                  (a, w) \<leftarrow> await_as p ty (update_await_kind ty) resp w;
                  case a of
                    Inl e \<Rightarrow> Some (Inr (Some e), w)
                  | Inr _ \<Rightarrow> patch_fields p c ty current attrs url body paths fs False lock w } } })"

definition patch_one_field_at_a_time ::
  "'s gcp_provider \<Rightarrow> ctx \<Rightarrow> ctype \<Rightarrow> rstate \<Rightarrow> attrs \<Rightarrow> attrs \<Rightarrow> string \<Rightarrow> json \<Rightarrow> string list \<Rightarrow> string list
     \<Rightarrow> setter list \<Rightarrow> ('s, rstate option res) act" where
  "patch_one_field_at_a_time p c ty current desired attrs url body paths fs ss w = do {
     (r, w) \<leftarrow> patch_fields p c ty current attrs url body paths fs True
                 (lock_now ty (rs_attributes current)) w;
     case r of
       Inl e \<Rightarrow> Some (Inl e, w)
     | Inr failure \<Rightarrow>
         update_through_setters p c ty current desired ss True failure
           (case failure of
              Some e \<Rightarrow> log_err ''gcp: %s: a one-field patch failed after an earlier one applied, reading back what exists: %v''
                          [t_name ty] (Some e) w
            | None \<Rightarrow> w) }"

section \<open>Update\<close>

text \<open>The body the one patch sends: merged into the resource for a PUT, else with the lock.\<close>

definition patch_body ::
  "'s gcp_provider \<Rightarrow> ctx \<Rightarrow> ctype \<Rightarrow> rstate \<Rightarrow> attrs \<Rightarrow> json \<Rightarrow> ('s, json res) act" where
  "patch_body p c ty current attrs body w =
     (if t_update_verb ty = ''PUT'' then do {
        (r, w) \<leftarrow> read_for_put p c ty (rs_provider_id current) attrs w;
        Some (case r of
            Inl e \<Rightarrow> Inl e
          | Inr fresh \<Rightarrow> Inr (merge_changed (case fresh of Some m \<Rightarrow> m | None \<Rightarrow> []) body), w) }
      else if t_lock_field ty \<noteq> [] then
        Some (Inr (case lock_value ty (rs_attributes current) of (a, v) \<Rightarrow>
          if vknown v then AList.update (t_lock_field ty) (wire_value a v) body else body), w)
      else Some (Inr body, w))"

definition patch_whole ::
  "'s gcp_provider \<Rightarrow> ctx \<Rightarrow> ctype \<Rightarrow> rstate \<Rightarrow> attrs \<Rightarrow> attrs \<Rightarrow> string \<Rightarrow> json \<Rightarrow> string list
     \<Rightarrow> setter list \<Rightarrow> ('s, rstate option res) act" where
  "patch_whole p c ty current desired attrs url body paths ss w = do {
     (b, w) \<leftarrow> patch_body p c ty current attrs body w;
     case b of
       Inl e \<Rightarrow> Some (Inl e, w)
     | Inr body \<Rightarrow> (case ctx_error c w of
         Some e \<Rightarrow> Some (Inl e, w)
       | None \<Rightarrow> do {
           (r, w) \<leftarrow> send_patch p c ty url body paths w;
           case r of
             Inl e \<Rightarrow> Some (Inl e, w)
           | Inr resp \<Rightarrow> do {
               (a, w) \<leftarrow> await_as p ty (update_await_kind ty) resp w;
               (case a of
                  Inl e \<Rightarrow> update_through_setters p c ty current desired ss True (Some e)
                    (log_err ''gcp: %s: update reported a failure, reading back what exists: %v''
                       [t_name ty] (Some e) w)
                | Inr _ \<Rightarrow> update_through_setters p c ty current desired ss True None w) } }) }"

definition update_resource ::
  "'s gcp_provider \<Rightarrow> ctx \<Rightarrow> rstate \<Rightarrow> desired_resource \<Rightarrow> ('s, rstate option res) act" where
  "update_resource p c current desired w = (case catalog_type (p_catalog p) (ds_type desired) of
      None \<Rightarrow> Some (Inl (unknown_type (ds_type desired)), w)
    | Some ty \<Rightarrow>
        if t_update_verb ty = [] \<and> t_setters ty = [] then
          Some (Inl (Errorf ''gcp: %s: publishes no update method; every change to it replaces the resource''
            [t_name ty]), w)
        else (case build_mask (p_ext p) ty (rs_attributes current) (ds_attrs desired) of (body, paths) \<Rightarrow>
          let ss = changed_setters (p_ext p) ty (rs_attributes current) (ds_attrs desired) in
          if paths = [] \<and> ss = [] then Some (Inr (Some current), w)
          else if paths \<noteq> [] \<and> t_update_verb ty = [] then
            Some (Inl (Errorf ''gcp: %s: %s can only change by replacing the resource''
              [t_name ty, join_with '', '' paths]), w)
          else if paths = [] then update_through_setters p c ty current (ds_attrs desired) ss False None w
          else (case parse_provider_id (p_ext p) ty (rs_provider_id current) of
              Inl e \<Rightarrow> Some (Inl e, w)
            | Inr attrs \<Rightarrow>
                (case item_url (p_ext p) ty (t_update_url ty) (rs_provider_id current) attrs of
                   Inl e \<Rightarrow> Some (Inl e, w)
                 | Inr url \<Rightarrow>
                     if t_patch_one_field ty \<and> length (top_level_fields paths) > 1 then
                       patch_one_field_at_a_time p c ty current (ds_attrs desired) attrs url body paths
                         (top_level_fields paths) ss w
                     else patch_whole p c ty current (ds_attrs desired) attrs url body paths ss w))))"

end
