(* ===== verification/Lifecycle.thy ===== *)
theory Lifecycle
  imports Update
begin

text \<open>
  Making and destroying a resource (internal/gcprov/crud.go): \<open>Create\<close> with the identity it
  reports, the setters sent after it (\<open>setAfterCreate\<close>, setters.go), and \<open>Delete\<close> with what it
  clears first and how it confirms that the resource is gone.
\<close>

section \<open>The request a create sends\<close>

definition bind_placeholder :: "ext \<Rightarrow> string \<times> create_binding \<Rightarrow> attrs \<Rightarrow> attrs" where
  "bind_placeholder x = (\<lambda>(name, b) out.
     if vknown (vget out name) then out
     else if b_attr b \<noteq> [] then
       (case lookup_path out (b_attr b) of Some v \<Rightarrow> AList.update name v out | None \<Rightarrow> out)
     else if b_template b \<noteq> [] then
       (case expand_url x (b_template b) out of
          Inr rel \<Rightarrow> AList.update name (v_string rel SourceProvider) out | Inl e \<Rightarrow> out)
     else out)"

text \<open>Two passes over the bindings.\<close>

definition with_create_bindings :: "ext \<Rightarrow> ctype \<Rightarrow> attrs \<Rightarrow> attrs" where
  "with_create_bindings x ty attrs =
     fold (bind_placeholder x) (t_create_bindings ty @ t_create_bindings ty) attrs"

text \<open>The attributes a body carries, with the place each goes to: in the wrapper or beside it.\<close>

definition in_body :: "ctype \<Rightarrow> string \<Rightarrow> string \<Rightarrow> bool" where
  "in_body ty tmpl name \<longleftrightarrow> name \<notin> set (placeholder_names tmpl) \<and>
     (case map_of (t_attributes ty) name of
        None \<Rightarrow> True
      | Some a \<Rightarrow> a_canonical a \<notin> set (placeholder_names tmpl) \<and> \<not> a_output a)"

definition in_wrapper :: "ctype \<Rightarrow> string \<Rightarrow> bool" where
  "in_wrapper ty name \<longleftrightarrow> t_create_wrapper ty \<noteq> [] \<and>
     (case map_of (t_attributes ty) name of None \<Rightarrow> True | Some a \<Rightarrow> \<not> a_create_only a)"

definition body_entries :: "ctype \<Rightarrow> attrs \<Rightarrow> json" where
  "body_entries ty attrs = map (\<lambda>(name, v).
     (to_wire (t_attributes ty) name, wire_value (map_of (t_attributes ty) name) v)) attrs"

definition request_body :: "ctype \<Rightarrow> string \<Rightarrow> attrs \<Rightarrow> json" where
  "request_body ty tmpl attrs =
     (let sent = filter (\<lambda>(name, v). in_body ty tmpl name) attrs;
          body = overlay [] (body_entries ty (filter (\<lambda>(name, v). \<not> in_wrapper ty name) sent));
          inner = overlay [] (body_entries ty (filter (\<lambda>(name, v). in_wrapper ty name) sent))
      in if t_create_wrapper ty \<noteq> [] then AList.update (t_create_wrapper ty) (AObj inner) body else body)"

section \<open>The identity of what was made\<close>

definition outside_created_collection ::
  "ext \<Rightarrow> ctype \<Rightarrow> string \<Rightarrow> attrs \<Rightarrow> (string \<times> string list) option" where
  "outside_created_collection x ty rid attrs =
     (let tmpl = path_part (create_template ty)
      in case expand_url x tmpl attrs of
           Inl e \<Rightarrow> None
         | Inr rel \<Rightarrow>
             (let coll = trim_suffix rel ''/''
              in if rid = coll then None
                 else (let coll = unescape_or_same coll
                   in case cut_prefix rid (coll @ ''/'') of
                        None \<Rightarrow> Some (''names %q, which is not in %q, the collection this create posted to'', [rid, coll])
                      | Some rest \<Rightarrow>
                          if CHR ''/'' \<in> set rest \<and> collection_matches_self_link tmpl (t_self_link ty)
                          then Some (''names %q, which is deeper than one resource inside %q, the collection this create posted to'', [rid, coll])
                          else None)))"

definition created_id :: "ext \<Rightarrow> ctype \<Rightarrow> json option \<Rightarrow> attrs \<Rightarrow> 's world \<Rightarrow> (gerr + string) \<times> 's world" where
  "created_id x ty awaited attrs w = (case awaited of
      None \<Rightarrow> (provider_id x ty [] attrs, w)
    | Some body \<Rightarrow>
        (case provider_id x ty body attrs of
           Inl e \<Rightarrow> (provider_id x ty [] attrs,
             log_err ''gcp: %s: the operation's target could not be reduced to a provider id (%v); using the attributes this create was given instead''
               [t_name ty] (Some e) w)
         | Inr rid \<Rightarrow>
             (case outside_created_collection x ty rid attrs of
                None \<Rightarrow> (Inr rid, w)
              | Some (why, args) \<Rightarrow> (provider_id x ty [] attrs,
                  log_err ''gcp: %s: the operation's target %s; using the attributes this create was given instead''
                    (t_name ty # why # args) None w))))"

definition read_after_create ::
  "'s gcp_provider \<Rightarrow> ctype \<Rightarrow> attrs \<Rightarrow> attrs \<Rightarrow> json option \<Rightarrow> ('s, rstate option res) act" where
  "read_after_create p ty desired scoped awaited w =
     (case created_id (p_ext p) ty awaited (with_create_bindings (p_ext p) ty scoped) w of
        (Inl e, w) \<Rightarrow> Some (Inl e, w)
      | (Inr rid, w) \<Rightarrow> read_resource p (detached (type_timeout ty) w)
          \<lparr>rs_address = [], rs_type = t_name ty, rs_provider_id = rid, rs_attributes = desired\<rparr> w)"

definition best_effort_state ::
  "'s gcp_provider \<Rightarrow> ctx \<Rightarrow> ctype \<Rightarrow> desired_resource \<Rightarrow> attrs \<Rightarrow> json option \<Rightarrow> ('s, rstate option res) act" where
  "best_effort_state p c ty desired scoped awaited w =
     (case created_id (p_ext p) ty awaited (with_create_bindings (p_ext p) ty scoped) w of
        (Inl e, w) \<Rightarrow> Some (Inl (Wrapf ''gcp: %s: created, but the resource cannot be read back: %w''
            [ds_type desired] e), w)
      | (Inr rid, w) \<Rightarrow> do {
          (rec, w) \<leftarrow> reconcile_with_aliases p c (t_attributes ty) (ds_attrs desired)
            (schema_attrs (p_ext p) (t_attributes ty) (case awaited of Some m \<Rightarrow> m | None \<Rightarrow> [])) w;
          let attrs = short_name_from_own_id ty rid (overlay (ds_attrs desired) rec)
                        (vget (ds_attrs desired) ''name'');
          let (attrs, w) = declared_only ty attrs w;
          Some (Inr (Some \<lparr>rs_address = [], rs_type = t_name ty, rs_provider_id = rid,
                  rs_attributes = attrs\<rparr>), w) })"

section \<open>Create\<close>

text \<open>The setters of \<open>setAfterCreate\<close>, up to the first that fails.\<close>

fun created_setters ::
  "'s gcp_provider \<Rightarrow> ctx \<Rightarrow> ctype \<Rightarrow> rstate \<Rightarrow> attrs \<Rightarrow> setter list \<Rightarrow> ('s, unit) act" where
  "created_setters p c ty st desired [] w = Some ((), w)"
| "created_setters p c ty st desired (s # ss) w = do {
     ((sent, err), w) \<leftarrow> call_setter p c ty s (rs_provider_id st) (rs_attributes st) desired w;
     case err of
       None \<Rightarrow> created_setters p c ty st desired ss w
     | Some e \<Rightarrow> Some ((), log_err ''gcp: %s: created, but %s failed; the next plan will propose it again: %v''
         [t_name ty, s_method s] (Some e) w) }"

definition set_after_create ::
  "'s gcp_provider \<Rightarrow> ctx \<Rightarrow> ctype \<Rightarrow> rstate \<Rightarrow> attrs \<Rightarrow> ('s, rstate) act" where
  "set_after_create p c ty st desired w =
     (let due = changed_setters (p_ext p) ty (rs_attributes st) desired
      in if due = [] \<or> ctx_error c w \<noteq> None then Some (st, w)
         else do {
           (u, w) \<leftarrow> created_setters p c ty st desired due w;
           (r, w) \<leftarrow> read_after_patch p ty st desired w;
           Some (case r of Inr (Some fresh) \<Rightarrow> fresh | _ \<Rightarrow> st, w) })"

text \<open>What \<open>Create\<close> reports once the POST was accepted.\<close>

definition report_created ::
  "'s gcp_provider \<Rightarrow> ctx \<Rightarrow> ctype \<Rightarrow> desired_resource \<Rightarrow> attrs \<Rightarrow> json option res \<Rightarrow> ('s, rstate option res) act" where
  "report_created p c ty desired scoped await_r w =
     (let w = (case await_r of
          Inl e \<Rightarrow> log_err ''gcp: %s: create reported a failure, reading back what exists: %v''
                    [ds_type desired] (Some e) w
        | Inr _ \<Rightarrow> w);
        awaited = (case await_r of Inl _ \<Rightarrow> None | Inr m \<Rightarrow> m)
      in do {
        (r, w) \<leftarrow> read_after_create p ty (ds_attrs desired) scoped awaited w;
        case r of
          Inr (Some st) \<Rightarrow> do {
            (st, w) \<leftarrow> set_after_create p c ty st (ds_attrs desired) w;
            Some (Inr (Some st), w) }
        | _ \<Rightarrow> (case await_r of
            Inl e \<Rightarrow> Some (Inl e, w)
          | Inr _ \<Rightarrow> (case r of
              Inl e \<Rightarrow> Some (Inl (Wrapf ''gcp: %s: created, but the resource cannot be read back: %w''
                         [ds_type desired] e), w)
            | Inr _ \<Rightarrow> best_effort_state p c ty desired scoped awaited
                (log_err ''gcp: %s: created, but not yet readable; reporting the awaited identity''
                   [ds_type desired] None w))) })"

definition create_resource :: "'s gcp_provider \<Rightarrow> ctx \<Rightarrow> desired_resource \<Rightarrow> ('s, rstate option res) act" where
  "create_resource p c desired w = (case catalog_type (p_catalog p) (ds_type desired) of
      None \<Rightarrow> Some (Inl (unknown_type (ds_type desired)), w)
    | Some ty \<Rightarrow>
        (let blocked = unresolved_create_placeholders ty; scoped = with_scope p (ds_attrs desired) in
         if blocked \<noteq> [] then
           Some (Inl (Errorf ''gcp: %s cannot be created by this plugin: its create url %q needs %s, which no provider setting and no attribute of the type supplies; it can still be read, imported and deleted''
             [t_name ty, create_template ty, join_with '', '' blocked]), w)
         else (case expanded_url (p_ext p) ty (create_template ty)
                      (with_create_bindings (p_ext p) ty scoped) of
             Inl e \<Rightarrow> Some (Inl e, w)
           | Inr url \<Rightarrow>
               (case ctx_error c w of
                  Some e \<Rightarrow> Some (Inl e, w)
                | None \<Rightarrow> do {
                    (r, w) \<leftarrow> client_do (p_client p) c
                      (if t_create_verb ty = [] then ''POST'' else t_create_verb ty) url
                      (Some (AObj (request_body ty (create_template ty) (ds_attrs desired)))) w;
                    case r of
                      Inl e \<Rightarrow> Some (Inl e, w)
                    | Inr resp \<Rightarrow> do {
                        (a, w) \<leftarrow> await p ty resp w;
                        report_created p c ty desired scoped a w } }))))"

section \<open>Delete\<close>

definition clear_body :: "ctype \<Rightarrow> attrs \<Rightarrow> string \<Rightarrow> json" where
  "clear_body ty state f =
     (if t_lock_field ty = [] then [(f, ANil)]
      else (case lock_value ty state of (a, v) \<Rightarrow>
        if vknown v then AList.update (t_lock_field ty) (wire_value a v) [(f, ANil)] else [(f, ANil)]))"

fun clear_fields ::
  "'s gcp_provider \<Rightarrow> ctx \<Rightarrow> ctype \<Rightarrow> rstate \<Rightarrow> string \<Rightarrow> string list \<Rightarrow> ('s, gerr option) act" where
  "clear_fields p c ty current url [] w = Some (None, w)"
| "clear_fields p c ty current url (f # fs) w =
     (case attr_by_canonical ty f of
        None \<Rightarrow> clear_fields p c ty current url fs w
      | Some (name, a) \<Rightarrow>
          if is_empty_val (vget (rs_attributes current) name) then clear_fields p c ty current url fs w
          else do {
            (r, w) \<leftarrow> send_patch p c ty url (clear_body ty (rs_attributes current) f) [f] w;
            case r of
              Inl e \<Rightarrow> Some (Some (Wrapf ''gcp: %s: clearing %s before the delete: %w'' [t_name ty, f] e), w)
            | Inr resp \<Rightarrow> do {
                (a, w) \<leftarrow> await_as p ty (update_await_kind ty) resp w;
                case a of
                  Inl e \<Rightarrow> Some (Some (Wrapf ''gcp: %s: clearing %s before the delete: %w'' [t_name ty, f] e), w)
                | Inr _ \<Rightarrow> clear_fields p c ty current url fs w } })"

definition clear_before_delete ::
  "'s gcp_provider \<Rightarrow> ctx \<Rightarrow> ctype \<Rightarrow> rstate \<Rightarrow> attrs \<Rightarrow> ('s, gerr option) act" where
  "clear_before_delete p c ty current attrs w =
     (if t_clear_before_delete ty = [] \<or> t_update_verb ty = [] then Some (None, w)
      else (case item_url (p_ext p) ty (t_update_url ty) (rs_provider_id current) attrs of
          Inl e \<Rightarrow> Some (Some e, w)
        | Inr url \<Rightarrow> clear_fields p c ty current url (t_clear_before_delete ty) w))"

definition confirm_gone ::
  "'s gcp_provider \<Rightarrow> ctype \<Rightarrow> string \<Rightarrow> attrs \<Rightarrow> gerr \<Rightarrow> ('s, gerr option) act" where
  "confirm_gone p ty rid attrs awaitErr w = (case item_url (p_ext p) ty [] rid attrs of
      Inl e \<Rightarrow> Some (Some awaitErr, w)
    | Inr url \<Rightarrow> do {
        (r, w) \<leftarrow> client_do (p_client p) (detached (type_timeout ty) w) ''GET'' url None w;
        Some (case r of
            Inl e \<Rightarrow> if is_not_found e then None else
              Some (Wrapf ''gcp: %s: the delete's operation could not be followed, and %s is still there: %w''
                [t_name ty, rid] awaitErr)
          | Inr _ \<Rightarrow>
              Some (Wrapf ''gcp: %s: the delete's operation could not be followed, and %s is still there: %w''
                [t_name ty, rid] awaitErr), w) })"

definition delete_resource :: "'s gcp_provider \<Rightarrow> ctx \<Rightarrow> rstate \<Rightarrow> ('s, gerr option) act" where
  "delete_resource p c current w = (case catalog_type (p_catalog p) (rs_type current) of
      None \<Rightarrow> Some (Some (unknown_type (rs_type current)), w)
    | Some ty \<Rightarrow> (case parse_provider_id (p_ext p) ty (rs_provider_id current) of
        Inl e \<Rightarrow> Some (Some e, w)
      | Inr attrs \<Rightarrow> (case item_url (p_ext p) ty (t_delete_url ty) (rs_provider_id current) attrs of
          Inl e \<Rightarrow> Some (Some e, w)
        | Inr url \<Rightarrow> (case ctx_error c w of
            Some e \<Rightarrow> Some (Some e, w)
          | None \<Rightarrow> do {
              (cleared, w) \<leftarrow> clear_before_delete p c ty current attrs w;
              case cleared of
                Some e \<Rightarrow> Some (Some e, w)
              | None \<Rightarrow> do {
                  (r, w) \<leftarrow> client_do (p_client p) c ''DELETE'' url None w;
                  case r of
                    Inl e \<Rightarrow> Some (if is_not_found e then None else Some e, w)
                  | Inr resp \<Rightarrow> do {
                      (a, w) \<leftarrow> await_as p ty (delete_await_kind ty) resp w;
                      case a of
                        Inr _ \<Rightarrow> Some (None, w)
                      | Inl e \<Rightarrow>
                          if is_not_found e then confirm_gone p ty (rs_provider_id current) attrs e w
                          else Some (Some e, w) } } }))))"

end
