(* ===== verification/Discovery.thy ===== *)
theory Discovery
  imports Lifecycle "HOL-Library.Product_Lexorder"
begin

text \<open>
  Discovery (internal/gcprov/discover.go) and which resources Google manages itself
  (internal/gcprov/systemowned.go): the search through Cloud Asset Inventory, the fallback to
  listing type by type, the attribution of an asset to the one type it belongs to, and the
  sorted result. \<open>sort.Slice\<close> is not stable; two results it could leave in either order have
  the same id and the same type.
\<close>

record discovered =
  dr_type :: string
  dr_provider_id :: string
  dr_attributes :: attrs
  dr_system_owned :: bool
  dr_reason :: string

section \<open>System-owned resources\<close>

definition google_label_prefix :: string where "google_label_prefix = ''goog-''"
definition cnrm_label :: string where "cnrm_label = ''managed-by-cnrm''"

definition default_allow_rules :: "string list" where
  "default_allow_rules = [''default-allow-internal'', ''default-allow-ssh'',
     ''default-allow-rdp'', ''default-allow-icmp'']"

definition label_keys :: "json \<Rightarrow> string list" where
  "label_keys body = sort (concat (map (\<lambda>field.
     case any_obj (map_of body field) of Some labels \<Rightarrow> keys labels | None \<Rightarrow> [])
     [''labels'', ''resourceLabels'']))"

text \<open>\<open>%q\<close> of a text with nothing to escape, which label keys and resource names are.\<close>

definition quoted :: "string \<Rightarrow> string" where
  "quoted s = CHR 0x22 # s @ [CHR 0x22]"

fun owned_by_label :: "string list \<Rightarrow> string option" where
  "owned_by_label [] = None"
| "owned_by_label (k # ks) =
     (if has_prefix k google_label_prefix then
        Some (''carries the label '' @ quoted k @ '', which Google's own services apply to resources they create and manage'')
      else if k = cnrm_label then
        Some (''carries the label '' @ quoted k @ '', so Config Connector is already reconciling it'')
      else owned_by_label ks)"

definition system_owned :: "ctype \<Rightarrow> json \<Rightarrow> bool \<times> string" where
  "system_owned ty body =
     (let name = last_path_segment (any_str (map_of body ''name'')) in
      case owned_by_label (label_keys body) of
        Some why \<Rightarrow> (True, why)
      | None \<Rightarrow>
          if name = ''default'' \<and> any_true (map_of body ''autoCreateSubnetworks'') then
            (True, ''named '' @ quoted ''default'' @ '' and has autoCreateSubnetworks set, which is the auto mode network Google creates with a project'')
          else if name \<in> set default_allow_rules then
            (True, ''named '' @ quoted name @ '', one of the firewall rules Google creates alongside an auto mode network'')
          else (False, []))"

section \<open>Which type an asset belongs to\<close>

definition relative_resource_name :: "string \<Rightarrow> string" where
  "relative_resource_name full = (case cut_prefix full ''//'' of
      None \<Rightarrow> full
    | Some rest \<Rightarrow> drop 1 (dropWhile (\<lambda>c. c \<noteq> CHR ''/'') rest))"

definition first_path_segment :: "string \<Rightarrow> string" where
  "first_path_segment s = takeWhile (\<lambda>c. c \<noteq> CHR ''/'') s"

definition parses_against :: "ctype \<Rightarrow> string \<Rightarrow> string \<Rightarrow> bool" where
  "parses_against ty tmpl rel \<longleftrightarrow>
     (case parse_against_template ty tmpl rel of Inr a \<Rightarrow> True | Inl e \<Rightarrow> False)"

definition matches_id_shape :: "ctype \<Rightarrow> string \<Rightarrow> bool" where
  "matches_id_shape ty rel =
     (if t_self_link ty = [] then False
      else if parses_against ty (t_self_link ty) rel then True
      else if t_parent_root ty = [] \<or> \<not> has_prefix rel (t_parent_root ty @ ''/'') then False
      else (let tmplSegs = split_slash (t_self_link ty); relSegs = split_slash rel in
        if length tmplSegs < 2 then False
        else (case parse_placeholder_segment (hd tmplSegs) of
            Some (n, False) \<Rightarrow>
              (if length relSegs + 1 < length tmplSegs + 2 then False
               else (let head = length relSegs - (length tmplSegs - 1)
                 in parses_against ty (join_slash (tl tmplSegs)) (join_slash (drop head relSegs))))
          | _ \<Rightarrow> False)))"

definition candidates_matching :: "ctype list \<Rightarrow> string \<Rightarrow> ctype list" where
  "candidates_matching candidates rel = filter (\<lambda>ty.
     (t_parent_root ty = [] \<or> first_path_segment rel = t_parent_root ty)
     \<and> matches_id_shape ty rel) candidates"

definition add_to_index :: "ctype \<Rightarrow> (string \<times> ctype list) list \<Rightarrow> (string \<times> ctype list) list" where
  "add_to_index ty ix = (if t_asset_type ty = [] then ix
     else AList.update (t_asset_type ty)
       ((case map_of ix (t_asset_type ty) of Some ts \<Rightarrow> ts | None \<Rightarrow> []) @ [ty]) ix)"

definition asset_type_index :: "catalog \<Rightarrow> (string \<times> ctype list) list" where
  "asset_type_index c = map (\<lambda>(k, ts). (k, sort_key t_name ts)) (fold add_to_index (c_types c) [])"

definition asset_types_for :: "(string \<times> ctype list) list \<Rightarrow> string list \<Rightarrow> string list" where
  "asset_types_for byAsset wanted = (if wanted = [] then []
     else sort (map fst (filter (\<lambda>(k, ts). list_ex (\<lambda>ty. t_name ty \<in> set wanted) ts) byAsset)))"

section \<open>What a result says\<close>

definition id_attributes :: "ext \<Rightarrow> ctype \<Rightarrow> string \<Rightarrow> attrs" where
  "id_attributes x ty rid = (case parse_provider_id x ty rid of
      Inl e \<Rightarrow> [] | Inr parsed \<Rightarrow> declared_id_attrs (t_attributes ty) parsed)"

definition listed_attributes :: "ext \<Rightarrow> ctype \<Rightarrow> string \<Rightarrow> json \<Rightarrow> 's world \<Rightarrow> attrs \<times> 's world" where
  "listed_attributes x ty rid body w =
     declared_only ty (overlay (id_attributes x ty rid) (schema_attrs x (t_attributes ty) body)) w"

definition discovered_from_asset ::
  "ext \<Rightarrow> (string \<times> ctype list) list \<Rightarrow> string list \<Rightarrow> json \<Rightarrow> 's world \<Rightarrow> discovered option \<times> 's world" where
  "discovered_from_asset x byAsset wanted result w =
     (let assetType = any_str (map_of result ''assetType''); full = any_str (map_of result ''name'');
          candidates = (case map_of byAsset assetType of Some ts \<Rightarrow> ts | None \<Rightarrow> []);
          rel = relative_resource_name full; matched = candidates_matching candidates rel
      in if candidates = [] then (None, w)
         else (case matched of
             [ty] \<Rightarrow>
               if wanted \<noteq> [] \<and> t_name ty \<notin> set wanted then (None, w)
               else (Some \<lparr>dr_type = t_name ty, dr_provider_id = rel,
                       dr_attributes = id_attributes x ty rel,
                       dr_system_owned = fst (system_owned ty result),
                       dr_reason = snd (system_owned ty result)\<rparr>, w)
           | _ \<Rightarrow> (None, log_err ''gcp: discover: %q (%s) matches %d of the %d types that serve that asset type (%s); skipping it rather than labelling it as one of them''
                 [full, assetType, format_int (int (length matched)),
                  format_int (int (length candidates)), join_with '', '' (map t_name candidates)] None w)))"

fun assets_found ::
  "ext \<Rightarrow> (string \<times> ctype list) list \<Rightarrow> string list \<Rightarrow> json list \<Rightarrow> 's world \<Rightarrow> discovered list \<times> 's world" where
  "assets_found x byAsset wanted [] w = ([], w)"
| "assets_found x byAsset wanted (r # rs) w =
     (case discovered_from_asset x byAsset wanted r w of (found, w) \<Rightarrow>
        (case assets_found x byAsset wanted rs w of (rest, w) \<Rightarrow>
           ((case found of Some d \<Rightarrow> d # rest | None \<Rightarrow> rest), w)))"

section \<open>Through Cloud Asset Inventory\<close>

definition cloud_asset_base_url :: string where
  "cloud_asset_base_url = ''https://cloudasset.googleapis.com/''"

definition search_all_resources_path :: string where
  "search_all_resources_path = ''v1/{+scope}:searchAllResources''"

text \<open>\<open>url.Values.Encode\<close> of the asset types and the page token, in key order.\<close>

definition asset_query :: "string list \<Rightarrow> string \<Rightarrow> string" where
  "asset_query types token =
     (let parts = map (\<lambda>t. ''assetTypes='' @ query_escape t) types
            @ (if token \<noteq> [] then [''pageToken='' @ query_escape token] else [])
      in if parts = [] then [] else ''?'' @ join_with ''&'' parts)"

partial_function (option) cai_pages ::
  "'s gcp_provider \<Rightarrow> ctx \<Rightarrow> (string \<times> ctype list) list \<Rightarrow> string list \<Rightarrow> string \<Rightarrow> string \<Rightarrow> discovered list
     \<Rightarrow> ('s, discovered list res) act" where
  "cai_pages p c byAsset wanted url token out w = Option.bind
     (client_do (p_client p) c ''GET'' (url @ asset_query (asset_types_for byAsset wanted) token) None w)
     (\<lambda>(r, w). case r of
        Inl e \<Rightarrow> Some (Inl e, w)
      | Inr body \<Rightarrow>
          (case assets_found (p_ext p) byAsset wanted (list_items body ''results'') w of (found, w) \<Rightarrow>
             let next = any_str (jget body ''nextPageToken'')
             in if next = [] then Some (Inr (out @ found), w)
                else if next = token then
                  Some (Inl (Errorf ''cloud asset search returned the same page token twice; stopping'' []), w)
                else cai_pages p c byAsset wanted url next (out @ found) w))"

definition discover_via_cai ::
  "'s gcp_provider \<Rightarrow> ctx \<Rightarrow> string \<Rightarrow> string list \<Rightarrow> ('s, discovered list res) act" where
  "discover_via_cai p c project want w =
     (let base = (if st_asset_inventory_base_url (p_settings p) = [] then cloud_asset_base_url
                  else st_asset_inventory_base_url (p_settings p))
      in case expand_url (p_ext p) search_all_resources_path
                [(''scope'', v_string (''projects/'' @ project) SourceProvider)] of
           Inl e \<Rightarrow> Some (Inl e, w)
         | Inr rel \<Rightarrow> cai_pages p c (asset_type_index (p_catalog p)) want (base @ rel) [] [] w)"

section \<open>Type by type\<close>

definition user_metric_prefixes :: "string list" where
  "user_metric_prefixes = [''custom.googleapis.com/'', ''external.googleapis.com/'',
     ''workload.googleapis.com/'', ''logging.googleapis.com/user/'', ''prometheus.googleapis.com/'']"

definition google_defined_metric :: "ctype \<Rightarrow> json \<Rightarrow> bool" where
  "google_defined_metric ty item \<longleftrightarrow> t_list_field ty = ''metricDescriptors'' \<and>
     \<not> list_ex (\<lambda>pre. has_prefix (any_str (map_of item ''type'')) pre) user_metric_prefixes"

fun items_found :: "ext \<Rightarrow> ctype \<Rightarrow> attrs \<Rightarrow> json list \<Rightarrow> 's world \<Rightarrow> discovered list \<times> 's world" where
  "items_found x ty scope_as [] w = ([], w)"
| "items_found x ty scope_as (item # items) w =
     (if google_defined_metric ty item then items_found x ty scope_as items w
      else (case provider_id x ty item scope_as of
          Inl e \<Rightarrow> items_found x ty scope_as items
            (log_err ''gcp: discover: %s: a listed resource has no usable id (%v)'' [t_name ty] (Some e) w)
        | Inr rid \<Rightarrow>
            (case listed_attributes x ty rid item w of (attrs, w) \<Rightarrow>
               (case items_found x ty scope_as items w of (rest, w) \<Rightarrow>
                  (\<lparr>dr_type = t_name ty, dr_provider_id = rid, dr_attributes = attrs,
                    dr_system_owned = fst (system_owned ty item),
                    dr_reason = snd (system_owned ty item)\<rparr> # rest, w)))))"

definition page_url :: "string \<Rightarrow> string \<Rightarrow> string" where
  "page_url collection token = (if token = [] then collection
     else collection @ (if str_contains collection ''?'' then ''&'' else ''?'')
       @ ''pageToken='' @ query_escape token)"

partial_function (option) list_type_pages ::
  "'s gcp_provider \<Rightarrow> ctx \<Rightarrow> ctype \<Rightarrow> attrs \<Rightarrow> string \<Rightarrow> string \<Rightarrow> string list \<Rightarrow> discovered list
     \<Rightarrow> ('s, discovered list res) act" where
  "list_type_pages p c ty scope_as collection token seen out w = Option.bind
     (client_do (p_client p) c ''GET'' (page_url collection token) None w)
     (\<lambda>(r, w). case r of
        Inl e \<Rightarrow> Some (Inl e, w)
      | Inr body \<Rightarrow>
          (case items_found (p_ext p) ty scope_as (list_items body (t_list_field ty)) w of (found, w) \<Rightarrow>
             let next = any_str (jget body ''nextPageToken'')
             in if next = [] then Some (Inr (out @ found), w)
                else if next \<in> set seen then
                  Some (Inl (Errorf ''%s: the list returned the same page token twice; stopping'' [t_name ty]), w)
                else list_type_pages p c ty scope_as collection next (next # seen) (out @ found) w))"

definition list_one_type ::
  "'s gcp_provider \<Rightarrow> ctx \<Rightarrow> string \<Rightarrow> ctype \<Rightarrow> ('s, discovered list res) act" where
  "list_one_type p c project ty w =
     (case expand_url (p_ext p) (t_base_url ty) (scope_attrs p project) of
        Inl e \<Rightarrow> Some (Inl e, w)
      | Inr rel \<Rightarrow> list_type_pages p c ty (scope_attrs p project) (abs_url ty rel) [] [] [] w)"

fun list_types ::
  "'s gcp_provider \<Rightarrow> ctx \<Rightarrow> string \<Rightarrow> string list \<Rightarrow> ('s, discovered list) act" where
  "list_types p c project [] w = Some ([], w)"
| "list_types p c project (name # names) w =
     (case catalog_type (p_catalog p) name of
        None \<Rightarrow> list_types p c project names (log_err ''gcp: discover: no such type %q'' [name] None w)
      | Some ty \<Rightarrow>
          if t_list_field ty = [] then
            list_types p c project names (log_err ''gcp: discover: %s cannot be listed; skipping'' [name] None w)
          else do {
            (r, w) \<leftarrow> list_one_type p c project ty w;
            case r of
              Inl e \<Rightarrow> list_types p c project names (log_err ''gcp: discover: %s: %v'' [name] (Some e) w)
            | Inr found \<Rightarrow> do {
                (rest, w) \<leftarrow> list_types p c project names w;
                Some (found @ rest, w) } })"

text \<open>\<open>discoverViaList\<close>, which never fails as a whole.\<close>

definition discover_via_list ::
  "'s gcp_provider \<Rightarrow> ctx \<Rightarrow> string \<Rightarrow> string list \<Rightarrow> ('s, discovered list) act" where
  "discover_via_list p c project want w =
     (let types = (if want \<noteq> [] then want
          else if st_discover_types (p_settings p) \<noteq> [] then st_discover_types (p_settings p)
          else c_discover_default (p_catalog p))
      in list_types p c project types w)"

section \<open>Discover\<close>

fun discover_projects ::
  "'s gcp_provider \<Rightarrow> ctx \<Rightarrow> string list \<Rightarrow> string list \<Rightarrow> ('s, discovered list) act" where
  "discover_projects p c want [] w = Some ([], w)"
| "discover_projects p c want (project # projects) w =
     (if project = [] then
        discover_projects p c want projects (log_err ''gcp: discover: no project is configured to scan'' [] None w)
      else do {
        (r, w) \<leftarrow> discover_via_cai p c project want w;
        (found, w) \<leftarrow> (case r of
            Inr found \<Rightarrow> Some (found, w)
          | Inl e \<Rightarrow> discover_via_list p c project want
              (log_err ''gcp: %s: Cloud Asset Inventory unavailable (%v); falling back to per-type listing, which covers only the configured types''
                 [project] (Some e) w));
        (rest, w) \<leftarrow> discover_projects p c want projects w;
        Some (found @ rest, w) })"

definition discover :: "'s gcp_provider \<Rightarrow> ctx \<Rightarrow> string list \<Rightarrow> ('s, discovered list) act" where
  "discover p c want w = do {
     (out, w) \<leftarrow> discover_projects p c want
        (if st_discover_projects (p_settings p) = [] then [st_project (p_settings p)]
         else st_discover_projects (p_settings p)) w;
     Some (sort_key (\<lambda>d. (dr_provider_id d, dr_type d)) out, w) }"

end
