(* ===== verification/Samples.thy ===== *)
theory Samples
  imports Discovery
begin

text \<open>
  Concrete instances on which the witnesses of the properties run: a package \<open>value\<close> whose
  equality is structural, two catalog types shaped like served ones (a Pub/Sub topic, whose
  create returns the resource, and a network, whose mutations return compute operations), and
  a remote that answers from a list of replies, taking one nanosecond for each.
\<close>

definition sample_ext :: ext where
  "sample_ext = \<lparr>x_equal = (\<lambda>a b. a = b), x_coerce = (\<lambda>v k. None),
     x_as_string = (\<lambda>v. if vkind v = KString \<and> vknown v then Some (raw_str v) else None),
     x_kind_name = (\<lambda>k. ''kind''), x_sprint = (\<lambda>a. []), x_format_float = (\<lambda>f. []),
     x_parse_duration = (\<lambda>s. None), x_http_time = (\<lambda>s. None)\<rparr>"

definition plain_info :: "string \<Rightarrow> kind \<Rightarrow> attr_info" where
  "plain_info canonical k = \<lparr>i_canonical = canonical, i_aliases = [], i_kind = k, i_required = False,
     i_force_new = False, i_output = False, i_sensitive = False, i_equivalence = [],
     i_description = [], i_ref = None, i_opaque = False, i_create_only = False,
     i_input_only = False, i_send_with_update = False, i_unordered = False\<rparr>"

definition leaf :: "string \<Rightarrow> kind \<Rightarrow> attr" where
  "leaf canonical k = Attr (plain_info canonical k) [] None"

definition output_leaf :: "string \<Rightarrow> kind \<Rightarrow> attr" where
  "output_leaf canonical k = Attr ((plain_info canonical k)\<lparr>i_output := True\<rparr>) [] None"

definition labels_attr :: attr where
  "labels_attr = Attr ((plain_info ''labels'' KMap)\<lparr>i_opaque := True\<rparr>) [] None"

definition sample_type :: "string \<Rightarrow> level \<Rightarrow> ctype" where
  "sample_type name lvl = \<lparr>t_name = name, t_service = [], t_description = [], t_tier = 1,
     t_tier_reason = [], t_api_base_url = ''https://api.example.com/'', t_path_prefix = ''v1/'',
     t_base_url = ''projects/{{project}}/topics'', t_create_url = [], t_update_url = [],
     t_delete_url = [], t_self_link = ''projects/{{project}}/topics/{{topic}}'',
     t_create_wrapper = [], t_update_wrapper = [], t_update_mask_field = [], t_lock_field = [],
     t_setters = [], t_endpoint_template = [], t_clear_before_delete = [], t_patch_one_field = False,
     t_create_verb = [], t_update_verb = ''PATCH'', t_update_mask = True,
     t_operation_poll_path = ''v1/{+name}'', t_operation_param_patterns = [], t_await = AwaitNone,
     t_delete_await = None, t_update_await = None, t_operation_wait_path = [],
     t_timeout_seconds = 60, t_read_via = [], t_import_format = [], t_asset_type = ''api.example.com/Topic'',
     t_scope = ScopeGlobal, t_parent_root = [], t_list_field = ''topics'', t_create_bindings = [],
     t_attributes = lvl\<rparr>"

lemma sample_type_sel [simp]:
  "t_name (sample_type name lvl) = name"
  "t_service (sample_type name lvl) = []"
  "t_description (sample_type name lvl) = []"
  "t_tier (sample_type name lvl) = 1"
  "t_tier_reason (sample_type name lvl) = []"
  "t_api_base_url (sample_type name lvl) = ''https://api.example.com/''"
  "t_path_prefix (sample_type name lvl) = ''v1/''"
  "t_base_url (sample_type name lvl) = ''projects/{{project}}/topics''"
  "t_create_url (sample_type name lvl) = []"
  "t_update_url (sample_type name lvl) = []"
  "t_delete_url (sample_type name lvl) = []"
  "t_self_link (sample_type name lvl) = ''projects/{{project}}/topics/{{topic}}''"
  "t_create_wrapper (sample_type name lvl) = []"
  "t_update_wrapper (sample_type name lvl) = []"
  "t_update_mask_field (sample_type name lvl) = []"
  "t_lock_field (sample_type name lvl) = []"
  "t_setters (sample_type name lvl) = []"
  "t_endpoint_template (sample_type name lvl) = []"
  "t_clear_before_delete (sample_type name lvl) = []"
  "t_patch_one_field (sample_type name lvl) = False"
  "t_create_verb (sample_type name lvl) = []"
  "t_update_verb (sample_type name lvl) = ''PATCH''"
  "t_update_mask (sample_type name lvl) = True"
  "t_operation_poll_path (sample_type name lvl) = ''v1/{+name}''"
  "t_operation_param_patterns (sample_type name lvl) = []"
  "t_await (sample_type name lvl) = AwaitNone"
  "t_delete_await (sample_type name lvl) = None"
  "t_update_await (sample_type name lvl) = None"
  "t_operation_wait_path (sample_type name lvl) = []"
  "t_timeout_seconds (sample_type name lvl) = 60"
  "t_read_via (sample_type name lvl) = []"
  "t_import_format (sample_type name lvl) = []"
  "t_asset_type (sample_type name lvl) = ''api.example.com/Topic''"
  "t_scope (sample_type name lvl) = ScopeGlobal"
  "t_parent_root (sample_type name lvl) = []"
  "t_list_field (sample_type name lvl) = ''topics''"
  "t_create_bindings (sample_type name lvl) = []"
  "t_attributes (sample_type name lvl) = lvl"
  by (simp_all only: sample_type_def ctype.select_convs)

definition topic_level :: level where
  "topic_level = [(''topic'', leaf ''topic'' KString), (''type_value'', leaf ''type'' KString),
     (''etag'', output_leaf ''etag'' KString), (''labels'', labels_attr)]"

definition topic_type :: ctype where
  "topic_type = sample_type ''gcp.topic'' topic_level"

lemmas topic_type_sel [simp] = sample_type_sel [of "''gcp.topic''" topic_level, folded topic_type_def]

lemma topic_url_identifying [simp]: "url_identifying topic_type = [''project'', ''topic'', ''project'']"
  by (simp add: url_identifying_def placeholder_names.simps match_placeholder_def
      brace_free_def is_brace_def capture_name_def trim_prefix_def has_prefix_def trim_space_def is_space_def)

definition sample_catalog :: catalog where
  "sample_catalog = \<lparr>c_generated = [], c_mmv1_commit = [], c_types = [topic_type], c_discover_default = []\<rparr>"

definition sample_settings :: settings where
  "sample_settings = \<lparr>st_project = ''p'', st_region = [], st_zone = [], st_discover_types = [],
     st_discover_projects = [], st_asset_inventory_base_url = [], st_resource_manager_base_url = []\<rparr>"

text \<open>The remote: the replies still to give; a round trip that is already over gets none.\<close>

definition scripted :: "reply list transport" where
  "scripted rs rq now deadline =
     (case deadline of
        Some d \<Rightarrow> if d \<le> now then (NoReply ''context ended'', 1, rs)
          else (case rs of [] \<Rightarrow> (NoReply ''no route'', 1, []) | r # rest \<Rightarrow> (r, 1, rest))
      | None \<Rightarrow> (case rs of [] \<Rightarrow> (NoReply ''no route'', 1, []) | r # rest \<Rightarrow> (r, 1, rest)))"

definition sample_client :: "reply list client" where
  "sample_client = new_client sample_ext scripted (\<lambda>n m. 0) [] [] 0 0 None 0"

definition sample_provider :: "reply list gcp_provider" where
  "sample_provider = new_provider sample_settings sample_catalog sample_client"

definition start :: "reply list \<Rightarrow> reply list world" where
  "start rs = \<lparr>w_srv = rs, w_now = 0, w_draws = 0, w_log = [], w_sent = [], w_limiters = [],
     w_seen = [], w_projects = None\<rparr>"

definition ok_json :: "json \<Rightarrow> reply" where
  "ok_json m = Reply 200 [] ''{}'' (Some (AObj m))"

definition error_reply :: "int \<Rightarrow> string \<Rightarrow> reply" where
  "error_reply status code = Reply status [] ''error''
     (Some (AObj [(''error'', AObj [(''status'', AStr code), (''message'', AStr ''no'')])]))"

lemmas sample_attrs = plain_info_def leaf_def output_leaf_def labels_attr_def topic_level_def

text \<open>What evaluates a url template on concrete attributes.\<close>

lemmas eval_template = expand_url_def expand_from.simps open_placeholder_def trim_space_def is_space_def
  has_prefix_def fill_placeholder_def placeholder_name_def trim_prefix_def raw_segment_def v_string_def
  raw_str_def Let_def path_escape_def keep_in_segment_def is_unreserved_def is_alnum_def

section \<open>The sample id\<close>

lemma topic_template_split:
  "split_slash ''projects/{{project}}/topics/{{topic}}'' = [''projects'', ''{{project}}'', ''topics'', ''{{topic}}'']"
  "split_slash ''projects/p/topics/t'' = [''projects'', ''p'', ''topics'', ''t'']"
  by simp_all

lemma topic_segment:
  "parse_placeholder_segment ''{{project}}'' = Some (''project'', False)"
  "parse_placeholder_segment ''{{topic}}'' = Some (''topic'', False)"
  "parse_placeholder_segment ''projects'' = None"
  "parse_placeholder_segment ''topics'' = None"
  by (simp_all add: parse_placeholder_segment_def has_prefix_def has_suffix_def trim_prefix_def)

lemma parse_topic_id:
  "parse_against_template ty ''projects/{{project}}/topics/{{topic}}'' ''projects/p/topics/t'' =
     Inr [(''project'', v_string ''p'' SourceProvider), (''topic'', v_string ''t'' SourceProvider)]"
  by (simp add: parse_against_template_def topic_template_split topic_segment unescape_or_same_def)

lemma topic_not_bare: "\<not> is_bare_capture ''projects/{{project}}/topics/{{topic}}''"
  by (simp add: is_bare_capture_def has_prefix_def)

end
