(* ===== verification/Identity.thy ===== *)
theory Identity
  imports Samples
begin

text \<open>
  Properties of names and identities: url templates, provider ids, the two namespaces, and
  what the host is told about a type.
\<close>

section \<open>Templates\<close>

text \<open>A template as its segments: literal text or one placeholder in either spelling.\<close>

datatype segment = Lit string | Double string | Single string

fun render :: "segment \<Rightarrow> string" where
  "render (Lit s) = s"
| "render (Double n) = ''{{'' @ n @ ''}}''"
| "render (Single n) = ''{'' @ n @ ''}''"

fun filled :: "(string \<Rightarrow> string) \<Rightarrow> segment \<Rightarrow> string" where
  "filled f (Lit s) = s"
| "filled f (Double n) = path_escape (f n)"
| "filled f (Single n) = path_escape (f n)"

definition plain_name :: "string \<Rightarrow> bool" where
  "plain_name n \<longleftrightarrow> n \<noteq> [] \<and> list_all is_word_char n"

fun plain_segment :: "segment \<Rightarrow> bool" where
  "plain_segment (Lit s) = (set s \<inter> set ''{}/'' = {})"
| "plain_segment (Double n) = plain_name n"
| "plain_segment (Single n) = plain_name n"

definition segment_names :: "segment list \<Rightarrow> string list" where
  "segment_names segs = concat (map (\<lambda>s. case s of Lit _ \<Rightarrow> [] | Double n \<Rightarrow> [n] | Single n \<Rightarrow> [n]) segs)"

lemma word_char_facts:
  "is_word_char c \<Longrightarrow> c \<noteq> CHR ''{'' \<and> c \<noteq> CHR ''}'' \<and> c \<noteq> CHR ''/'' \<and> c \<noteq> CHR ''+'' \<and> c \<noteq> CHR ''%'' \<and> \<not> is_space c"
  by (auto simp: is_word_char_def is_alnum_def is_space_def Let_def)

lemma plain_name_facts:
  assumes "plain_name n"
  shows "CHR ''{'' \<notin> set n" "CHR ''}'' \<notin> set n" "CHR ''/'' \<notin> set n" "trim_space n = n"
    "trim_prefix n ''+'' = n" "trim_prefix n ''%'' = n" "\<not> has_prefix n ''+''" "n \<noteq> []"
proof -
  have w: "c \<in> set n \<Longrightarrow> c \<noteq> CHR ''{'' \<and> c \<noteq> CHR ''}'' \<and> c \<noteq> CHR ''/'' \<and> c \<noteq> CHR ''+'' \<and> c \<noteq> CHR ''%'' \<and> \<not> is_space c" for c
    using assms word_char_facts by (auto simp: plain_name_def list_all_iff)
  show "CHR ''{'' \<notin> set n" "CHR ''}'' \<notin> set n" "CHR ''/'' \<notin> set n" using w by blast+
  show "n \<noteq> []" using assms by (simp add: plain_name_def)
  then obtain a m where n: "n = a # m" by (cases n) auto
  have d: "dropWhile is_space n = n" using w by (simp add: n)
  have "dropWhile is_space (rev n) = rev n"
    using w by (metis dropWhile_eq_self_iff hd_in_set set_rev)
  with d show "trim_space n = n" by (simp add: trim_space_def)
  show "\<not> has_prefix n ''+''" using w by (auto simp: n has_prefix_def)
  show "trim_prefix n ''+'' = n" "trim_prefix n ''%'' = n"
    using w by (auto simp: n trim_prefix_def has_prefix_def)
qed

lemma open_double:
  "plain_name n \<Longrightarrow> open_placeholder (CHR ''{'' # n @ ''}}'' @ t) = Some (n, True, t)"
  using str_index_append2 [of "CHR ''}''" n t] plain_name_facts
  by (simp add: open_placeholder_def Let_def)

lemma open_single:
  "plain_name n \<Longrightarrow> open_placeholder (n @ ''}'' @ t) = Some (n, False, t)"
  using str_index_append [of "CHR ''}''" n t] plain_name_facts [of n]
  by (cases n) (auto simp: open_placeholder_def Let_def)

lemma fill_string:
  assumes "plain_name n" "map_of attrs n = Some (v_string s src)"
  shows "fill_placeholder x tmpl attrs n d = Inr (path_escape s)"
  using assms plain_name_facts [OF assms(1)]
  by (simp add: fill_placeholder_def placeholder_name_def Let_def raw_segment_def v_string_def raw_str_def)

text \<open>The attributes give every placeholder of the template a string.\<close>

definition names_strings :: "attrs \<Rightarrow> (string \<Rightarrow> string) \<Rightarrow> segment list \<Rightarrow> bool" where
  "names_strings attrs f segs \<longleftrightarrow>
     list_all (\<lambda>n. map_of attrs n = Some (v_string (f n) SourceProvider)) (segment_names segs)"

lemma expand_segment:
  assumes "plain_segment s" "names_strings attrs f [s]"
  shows "expand_from x tmpl attrs (render s @ t) = map_sum id (append (filled f s)) (expand_from x tmpl attrs t)"
proof (cases s)
  case (Lit l)
  then show ?thesis using assms expand_from_literal [of l] by auto
next
  case (Double n)
  with assms have p: "plain_name n" and m: "map_of attrs n = Some (v_string (f n) SourceProvider)"
    by (simp_all add: names_strings_def segment_names_def)
  have e: "render s @ t = CHR ''{'' # CHR ''{'' # n @ ''}}'' @ t" by (simp add: Double)
  have o: "open_placeholder (CHR ''{'' # n @ ''}}'' @ t) = Some (n, True, t)" by (rule open_double [OF p])
  show ?thesis
    unfolding e expand_from_open o by (simp add: fill_string [OF p m] Double)
next
  case (Single n)
  with assms have p: "plain_name n" and m: "map_of attrs n = Some (v_string (f n) SourceProvider)"
    by (simp_all add: names_strings_def segment_names_def)
  have e: "render s @ t = CHR ''{'' # n @ ''}'' @ t" by (simp add: Single)
  have o: "open_placeholder (n @ ''}'' @ t) = Some (n, False, t)" by (rule open_single [OF p])
  show ?thesis
    unfolding e expand_from_open o by (simp add: fill_string [OF p m] Single)
qed

lemma expand_segments:
  "list_all plain_segment segs \<Longrightarrow> names_strings attrs f segs \<Longrightarrow>
     expand_from x tmpl attrs (join_slash (map render segs)) = Inr (join_slash (map (filled f) segs))"
proof (induction segs rule: induct_list012)
  case (2 a)
  then show ?case using expand_segment [of a attrs f x tmpl "[]"] by simp
next
  case (3 a b segs)
  have s: "names_strings attrs f [a]" "names_strings attrs f (b # segs)"
    using 3(4) by (auto simp: names_strings_def segment_names_def)
  have ih: "expand_from x tmpl attrs (join_slash (map render (b # segs))) = Inr (join_slash (map (filled f) (b # segs)))"
    using 3(2) 3(3) s(2) by simp
  have "expand_from x tmpl attrs (render a @ ''/'' @ join_slash (map render (b # segs)))
      = Inr (filled f a @ ''/'' @ join_slash (map (filled f) (b # segs)))"
    using expand_segment [OF _ s(1), of x tmpl "''/'' @ join_slash (map render (b # segs))"] 3(3) ih
    by (simp add: expand_from_other)
  then show ?case by simp
qed simp

lemma parse_render:
  "plain_segment s \<Longrightarrow> parse_placeholder_segment (render s) =
     (case s of Lit _ \<Rightarrow> None | Double n \<Rightarrow> Some (n, False) | Single n \<Rightarrow> Some (n, False))"
proof (cases s)
  case (Lit l)
  moreover assume "plain_segment s"
  ultimately have "\<not> has_prefix l ''{''" by (cases l) (auto simp: has_prefix_def)
  then have "\<not> has_prefix l ''{''" "\<not> has_prefix l ''{{''" by (auto simp: has_prefix_iff)
  then show ?thesis by (simp add: Lit parse_placeholder_segment_def)
next
  case (Double n)
  moreover assume "plain_segment s"
  ultimately have p: "plain_name n" by simp
  have "has_suffix (''{{'' @ n @ ''}}'') ''}}''" unfolding has_suffix_iff by (metis append.assoc)
  then show ?thesis using plain_name_facts [OF p]
    by (simp add: Double parse_placeholder_segment_def has_prefix_def)
next
  case (Single n)
  moreover assume "plain_segment s"
  ultimately have p: "plain_name n" by simp
  obtain a m where n: "n = a # m" using plain_name_facts(8) [OF p] by (cases n) auto
  have "has_suffix (''{'' @ n @ ''}'') ''}''" unfolding has_suffix_iff by (metis append.assoc)
  moreover have "a \<noteq> CHR ''{''" using plain_name_facts(1) [OF p] n by auto
  ultimately show ?thesis using plain_name_facts [OF p]
    by (simp add: Single parse_placeholder_segment_def has_prefix_def n)
qed

definition bind_names :: "(string \<Rightarrow> string) \<Rightarrow> string list \<Rightarrow> attrs \<Rightarrow> attrs" where
  "bind_names f ns out = fold (\<lambda>n. AList.update n (v_string (f n) SourceProvider)) ns out"

lemma map_of_bind_names:
  "map_of (bind_names f ns out) n = (if n \<in> set ns then Some (v_string (f n) SourceProvider) else map_of out n)"
  by (induction ns arbitrary: out) (auto simp: bind_names_def)

lemma match_rendered:
  "list_all plain_segment segs \<Longrightarrow> match_segments ty tmpl rid j (map render segs) (map (filled f) segs) out
     = Inr (bind_names f (segment_names segs) out)"
proof (induction segs arbitrary: j out)
  case (Cons s segs)
  with parse_render [of s] show ?case
    by (cases s) (simp_all add: segment_names_def bind_names_def unescape_or_same_def)
qed (simp add: segment_names_def bind_names_def)

lemma rendered_no_slash: "plain_segment s \<Longrightarrow> CHR ''/'' \<notin> set (render s) \<and> CHR ''/'' \<notin> set (filled f s)"
  using plain_name_facts by (cases s) auto

text \<open>
  C1. Round trip of an identity: a template made of literal segments and plain placeholders,
  expanded from attributes that give each placeholder a string, gives an id that parses back
  against the same template into exactly those attributes.
\<close>

theorem expand_parse_roundtrip:
  assumes "segs \<noteq> []" "list_all plain_segment segs" "names_strings attrs f segs"
  shows "\<exists>rid out. expand_url x (join_slash (map render segs)) attrs = Inr rid
    \<and> parse_against_template ty (join_slash (map render segs)) rid = Inr out
    \<and> (\<forall>n. map_of out n = (if n \<in> set (segment_names segs) then map_of attrs n else None))"
proof -
  let ?t = "join_slash (map render segs)" and ?r = "join_slash (map (filled f) segs)"
  have e: "expand_url x ?t attrs = Inr ?r"
    using expand_segments [OF assms(2,3)] by (simp add: expand_url_def)
  have "split_slash ?t = map render segs" "split_slash ?r = map (filled f) segs"
    using assms(1,2) rendered_no_slash by (auto simp: list_all_iff intro!: split_join)
  then have "parse_against_template ty ?t ?r = Inr (bind_names f (segment_names segs) [])"
    by (simp add: parse_against_template_def match_rendered [OF assms(2)])
  moreover have "map_of (bind_names f (segment_names segs) []) n
      = (if n \<in> set (segment_names segs) then map_of attrs n else None)" for n
    using assms(3) by (auto simp: map_of_bind_names names_strings_def list_all_iff)
  ultimately show ?thesis using e by blast
qed

theorem expand_parse_roundtrip_witness:
  "\<forall>x ty. \<exists>rid out. expand_url x ''projects/{{project}}/topics/{topic}''
        [(''project'', v_string ''p q'' SourceProvider), (''topic'', v_string ''a/b'' SourceProvider)] = Inr rid
     \<and> parse_against_template ty ''projects/{{project}}/topics/{topic}'' rid = Inr out
     \<and> map_of out ''topic'' = Some (v_string ''a/b'' SourceProvider)"
proof (intro allI)
  fix x ty
  let ?segs = "[Lit ''projects'', Double ''project'', Lit ''topics'', Single ''topic'']"
  let ?attrs = "[(''project'', v_string ''p q'' SourceProvider), (''topic'', v_string ''a/b'' SourceProvider)]"
  let ?f = "\<lambda>n. if n = ''project'' then ''p q'' else ''a/b''"
  have s: "?segs \<noteq> []" "list_all plain_segment ?segs" "names_strings ?attrs ?f ?segs"
    by (simp_all add: plain_name_def is_word_char_def is_alnum_def names_strings_def segment_names_def)
  from expand_parse_roundtrip [OF s, of x ty] show "\<exists>rid out. expand_url x ''projects/{{project}}/topics/{topic}''
        [(''project'', v_string ''p q'' SourceProvider), (''topic'', v_string ''a/b'' SourceProvider)] = Inr rid
     \<and> parse_against_template ty ''projects/{{project}}/topics/{topic}'' rid = Inr out
     \<and> map_of out ''topic'' = Some (v_string ''a/b'' SourceProvider)"
    by (auto simp: segment_names_def)
qed

text \<open>
  A url template expands only when every placeholder it opens is given a known value that
  can stand in a url: a string, an integer, a float or a boolean. An unset or unknown
  attribute is an error, never an empty segment.
\<close>

theorem expand_url_known:
  assumes "expand_url x tmpl attrs = Inr rel" "(content, double) \<in> set (template_contents tmpl)"
  shows "\<exists>v. map_of attrs (placeholder_name content double) = Some v \<and> vknown v
    \<and> vkind v \<in> {KString, KInt, KFloat, KBool}"
  using expand_from_known [OF assms(1) [unfolded expand_url_def] assms(2)] .

lemma sample_contents: "template_contents ''a/{+x}'' = [(''+x'', False)]"
  by (simp add: template_contents.simps open_placeholder_def trim_space_def is_space_def has_prefix_def)

theorem expand_url_known_witness:
  "\<exists>v. map_of [(''x'', v_string ''b/c'' SourceProvider)] ''x'' = Some v \<and> vknown v"
proof -
  let ?attrs = "[(''x'', v_string ''b/c'' SourceProvider)]"
  have "expand_url sample_ext ''a/{+x}'' ?attrs = Inr ''a/b/c''"
    by (simp add: expand_url_def expand_from.simps open_placeholder_def trim_space_def is_space_def
        has_prefix_def fill_placeholder_def placeholder_name_def trim_prefix_def raw_segment_def
        v_string_def raw_str_def Let_def)
  from expand_url_known [OF this, of "''+x''" False] show ?thesis
    by (simp add: sample_contents placeholder_name_def trim_prefix_def has_prefix_def)
qed

section \<open>Reducing a link\<close>

text \<open>
  The search behind a self link's reduction is exact: it answers the first position at
  which the prefix starts a path segment, and nothing when there is no such position.
\<close>

theorem first_anchored_exact:
  assumes "pre \<noteq> []"
  shows "first_anchored_index path pre = Some i \<longleftrightarrow>
    anchored path pre i \<and> (\<forall>j < i. \<not> anchored path pre j)"
proof
  assume "first_anchored_index path pre = Some i"
  with anchored_from_Some [OF assms, of path 0 i]
  show "anchored path pre i \<and> (\<forall>j < i. \<not> anchored path pre j)"
    by (simp add: first_anchored_index_def)
next
  assume a: "anchored path pre i \<and> (\<forall>j < i. \<not> anchored path pre j)"
  show "first_anchored_index path pre = Some i"
  proof (cases "first_anchored_index path pre")
    case None
    with anchored_from_None [OF assms, of path 0 i] a show ?thesis
      by (simp add: first_anchored_index_def)
  next
    case (Some k)
    with anchored_from_Some [OF assms, of path 0 k] a show ?thesis
      by (metis first_anchored_index_def le0 linorder_neqE_nat)
  qed
qed

theorem first_anchored_exact_witness:
  "first_anchored_index ''apis/v1/projects/v1/x'' ''v1/'' = Some 5"
proof -
  have "anchored ''apis/v1/projects/v1/x'' ''v1/'' 5" by (simp add: anchored_def has_prefix_def)
  moreover have "\<not> anchored ''apis/v1/projects/v1/x'' ''v1/'' j" if "j < 5" for j
    using that by (auto simp: anchored_def has_prefix_def less_Suc_eq numeral_eq_Suc)
  ultimately show ?thesis using first_anchored_exact [of "''v1/''" "''apis/v1/projects/v1/x''" 5] by simp
qed

lemma first_anchored_start:
  assumes "pre \<noteq> []"
  shows "first_anchored_index (pre @ rest) pre = Some 0"
proof -
  have a: "anchored (pre @ rest) pre 0" using assms by (simp add: anchored_def)
  show ?thesis
  proof (cases "anchored_from (pre @ rest) pre 0")
    case None
    from anchored_from_None [OF assms this, of 0] a show ?thesis by simp
  next
    case (Some i)
    from anchored_from_Some [OF assms Some] a have "i = 0" by auto
    with Some show ?thesis by (simp add: first_anchored_index_def)
  qed
qed

text \<open>
  C17. A self link built from a type's own api base and path prefix reduces to the relative
  name it was built from, whatever that name is.
\<close>

theorem reduce_own_link:
  assumes base: "t_api_base_url ty = ''https://'' @ host @ ''/'' @ p"
    and host: "CHR ''/'' \<notin> set host" and pre: "p @ t_path_prefix ty \<noteq> []"
  shows "reduce_self_link ty (t_api_base_url ty @ t_path_prefix ty @ rid) = Inr rid"
proof -
  have u: "url_path (''https://'' @ host @ ''/'' @ q) = q" for q
    using host by (simp add: url_path_def Let_def has_prefix_def trim_prefix_def dropWhile_append)
  have "url_path (t_api_base_url ty) @ t_path_prefix ty = p @ t_path_prefix ty"
    using u by (simp add: base)
  moreover have "url_path (t_api_base_url ty @ t_path_prefix ty @ rid) = (p @ t_path_prefix ty) @ rid"
    using u [of "p @ t_path_prefix ty @ rid"] by (simp add: base)
  moreover have "first_anchored_index ((p @ t_path_prefix ty) @ rid) (p @ t_path_prefix ty) = Some 0"
    by (rule first_anchored_start [OF pre])
  ultimately show ?thesis
    using pre by (simp add: reduce_self_link_def Let_def)
qed

theorem reduce_own_link_witness:
  "reduce_self_link topic_type ''https://api.example.com/v1/projects/p/topics/t'' = Inr ''projects/p/topics/t''"
  using reduce_own_link [of topic_type "''api.example.com''" "[]" "''projects/p/topics/t''"]
  by (simp add: topic_type_def)

text \<open>
  When an answer's own name is taken as the provider id, that id is one
  ParseProviderID accepts for the type.
\<close>

theorem answered_name_parses:
  assumes "name_is_already_the_id ty body = Some rid"
  shows "\<exists>attrs. parse_provider_id x ty rid = Inr attrs"
proof -
  obtain a where "parse_against_template ty (t_self_link ty) rid = Inr a"
    using assms by (auto simp: name_is_already_the_id_def Let_def split: if_splits sum.splits)
  then show ?thesis by (simp add: parse_provider_id_def import_templates_def)
qed

theorem answered_name_parses_witness:
  "\<exists>attrs. parse_provider_id sample_ext topic_type ''projects/p/topics/t'' = Inr attrs"
proof -
  have "name_is_already_the_id topic_type [(''name'', AStr ''projects/p/topics/t'')] = Some ''projects/p/topics/t''"
    by (simp add: name_is_already_the_id_def any_str_def topic_type_def parse_topic_id topic_not_bare)
  from answered_name_parses [OF this] show ?thesis .
qed

section \<open>The two namespaces\<close>

text \<open>
  C18. Round trip of the namespaces: a settable value translated to the wire at every depth
  comes back from the wire unchanged, for every attribute whose levels rename injectively.
\<close>

theorem wire_roundtrip:
  assumes "opt_ok a" "settable_val a v"
  shows "schema_value x a (wire_value a v) = v"
  using schema_wire(1) [OF assms] .

definition rule_attr :: attr where
  "rule_attr = Attr (plain_info ''rules'' KList) []
     (Some (Attr (plain_info [] KMap) [(''type_value'', leaf ''type'' KString), (''port'', leaf ''port'' KInt)] None))"

definition rule_value :: val where
  "rule_value = v_list [v_map [(''port'', v_int 80 SourceProvider), (''type_value'', v_string ''tcp'' SourceProvider)]
     SourceProvider] SourceProvider"

theorem wire_roundtrip_witness:
  "wire_value (Some rule_attr) rule_value
      = AList [AObj [(''port'', AInt 80), (''type'', AStr ''tcp'')]]
   \<and> schema_value sample_ext (Some rule_attr) (wire_value (Some rule_attr) rule_value) = rule_value"
proof
  show "wire_value (Some rule_attr) rule_value = AList [AObj [(''port'', AInt 80), (''type'', AStr ''tcp'')]]"
    by (simp add: rule_attr_def rule_value_def leaf_def plain_info_def val_ctors wire_value.simps to_wire_def is_output_def)
  show "schema_value sample_ext (Some rule_attr) (wire_value (Some rule_attr) rule_value) = rule_value"
  proof (rule wire_roundtrip)
    show "opt_ok (Some rule_attr)"
      by (simp add: opt_ok_def rule_attr_def leaf_def plain_info_def level_ok_def wf_map_def has_key_def)
    show "settable_val (Some rule_attr) rule_value"
      by (simp add: rule_attr_def rule_value_def leaf_def plain_info_def val_ctors wf_map_def has_key_def is_output_def)
  qed
qed

text \<open>A value whose kinds and raws agree, inside declared fields only declared ones, as the host sends.\<close>

fun declared_val :: "attr option \<Rightarrow> val \<Rightarrow> bool"
and declared_pairs :: "level \<Rightarrow> attrs \<Rightarrow> bool"
and declared_vals :: "attr option \<Rightarrow> val list \<Rightarrow> bool" where
  "declared_val a (Val k kn r s) = (case r of
      AFields kvs \<Rightarrow> k = KMap \<and> (case a of None \<Rightarrow> True
        | Some ad \<Rightarrow> a_opaque ad \<or> a_fields ad = [] \<or> declared_pairs (a_fields ad) kvs)
    | AVals vs \<Rightarrow> k = KList \<and> (case a of None \<Rightarrow> True
        | Some ad \<Rightarrow> a_opaque ad \<or> a_elem ad = None \<or> declared_vals (a_elem ad) vs)
    | AObj m \<Rightarrow> False
    | AList m \<Rightarrow> False
    | _ \<Rightarrow> k \<noteq> KMap \<and> k \<noteq> KList)"
| "declared_pairs lvl [] = True"
| "declared_pairs lvl ((n, v) # kvs) =
     (has_key lvl n \<and> declared_val (map_of lvl n) v \<and> declared_pairs lvl kvs)"
| "declared_vals a [] = True"
| "declared_vals a (v # vs) = (declared_val a v \<and> declared_vals a vs)"

text \<open>A wire datum with no output attribute of the schema in it, at any depth the schema describes.\<close>

fun output_free :: "attr option \<Rightarrow> any \<Rightarrow> bool"
and output_free_pairs :: "level \<Rightarrow> json \<Rightarrow> bool"
and output_free_items :: "attr option \<Rightarrow> any list \<Rightarrow> bool" where
  "output_free a d = (case a of None \<Rightarrow> True
    | Some ad \<Rightarrow> a_opaque ad \<or> (case d of
          AObj kvs \<Rightarrow> a_fields ad = [] \<or> output_free_pairs (a_fields ad) kvs
        | AList ds \<Rightarrow> a_elem ad = None \<or> output_free_items (a_elem ad) ds
        | _ \<Rightarrow> True))"
| "output_free_pairs lvl [] = True"
| "output_free_pairs lvl ((k, d) # kvs) =
     (\<not> is_output (map_of lvl (to_schema lvl k)) \<and> output_free (map_of lvl (to_schema lvl k)) d
      \<and> output_free_pairs lvl kvs)"
| "output_free_items a [] = True"
| "output_free_items a (d # ds) = (output_free a d \<and> output_free_items a ds)"

lemma output_free_pairs_iff:
  "output_free_pairs lvl kvs \<longleftrightarrow> (\<forall>(k, d) \<in> set kvs.
     \<not> is_output (map_of lvl (to_schema lvl k)) \<and> output_free (map_of lvl (to_schema lvl k)) d)"
  by (induction kvs) (auto simp del: output_free.simps)

lemma output_free_overlay: "output_free_pairs lvl kvs \<Longrightarrow> output_free_pairs lvl (overlay [] kvs)"
  using set_overlay [of "[]" kvs] by (fastforce simp: output_free_pairs_iff simp del: output_free.simps)

lemma wire_output_free:
  "opt_ok a \<Longrightarrow> declared_val a v \<Longrightarrow> output_free a (wire_value a v)"
  "level_deep_ok lvl \<Longrightarrow> declared_pairs lvl kvs \<Longrightarrow> output_free_pairs lvl (wire_pairs lvl kvs)"
  "opt_ok b \<Longrightarrow> declared_vals b vs \<Longrightarrow> output_free_items b (wire_vals b vs)"
proof (induction a v and lvl kvs and b vs rule: wire_value_wire_pairs_wire_vals.induct)
  case (1 a k kn r s)
  show ?case
  proof (cases a)
    case (Some ad)
    from "1.prems"(1) Some have ok: "attr_ok ad" by (simp add: opt_ok_def)
    show ?thesis
    proof (cases "a_opaque ad")
      case nop: False
      consider (fields) kvs where "r = AFields kvs" "k = KMap" | (vals) vs where "r = AVals vs" "k = KList"
        | (other) "k \<noteq> KMap" "k \<noteq> KList" "\<And>m. r \<noteq> AObj m" "\<And>m. r \<noteq> AList m"
        using "1.prems"(2) by (cases r) auto
      then show ?thesis
      proof cases
        case fields
        then show ?thesis
          using "1.prems"(2) Some nop "1.IH"(1) [OF Some nop _ fields(1) attr_ok_deep [OF ok]]
          by (cases "a_fields ad = []") (auto simp: wire_value.simps intro: output_free_overlay)
      next
        case vals
        then show ?thesis
          using "1.prems"(2) Some nop "1.IH"(2) [OF Some nop _ _ vals(1) opt_ok_elem [OF ok]]
          by (cases "a_elem ad") (auto simp: wire_value.simps)
      next
        case other
        then show ?thesis using Some nop by (cases r; cases k) (auto simp: wire_value.simps)
      qed
    qed (simp add: Some)
  qed simp
next
  case (3 lvl n v kvs)
  then have l: "level_ok lvl" and h: "has_key lvl n" by (auto simp: level_deep_ok_def)
  from 3 opt_ok_lookup [of lvl n] to_schema_to_wire [OF l h] show ?case by auto
qed auto

text \<open>
  C13. A request never carries a field Google owns: the wire form of a declared value has no
  output attribute in it, at any depth the schema describes.
\<close>

theorem request_values_output_free:
  assumes "opt_ok a" "declared_val a v"
  shows "output_free a (wire_value a v)"
  using wire_output_free(1) [OF assms] .

definition disk_attr :: attr where
  "disk_attr = Attr (plain_info ''disk'' KMap)
     [(''size'', leaf ''size'' KInt), (''fingerprint'', output_leaf ''fingerprint'' KString)] None"

definition disk_value :: val where
  "disk_value = v_map [(''size'', v_int 10 SourceExplicit), (''fingerprint'', v_string ''f'' SourceExplicit)] SourceExplicit"

theorem request_values_output_free_witness:
  "wire_value (Some disk_attr) disk_value = AObj [(''size'', AInt 10)]
   \<and> output_free (Some disk_attr) (wire_value (Some disk_attr) disk_value)"
proof
  show "wire_value (Some disk_attr) disk_value = AObj [(''size'', AInt 10)]"
    by (simp add: disk_attr_def disk_value_def leaf_def output_leaf_def plain_info_def val_ctors
        wire_value.simps to_wire_def is_output_def)
  show "output_free (Some disk_attr) (wire_value (Some disk_attr) disk_value)"
    by (rule request_values_output_free)
      (simp_all add: opt_ok_def disk_attr_def disk_value_def leaf_def output_leaf_def plain_info_def
        level_ok_def wf_map_def has_key_def val_ctors)
qed

section \<open>What the host is told\<close>

text \<open>
  A declaration the host accepts: an attribute is settable (required or optional) or computed
  only, required excludes computed and optional, and nothing nested is a reference.
\<close>

fun schema_ok :: "bool \<Rightarrow> schema_attr \<Rightarrow> bool" where
  "schema_ok tp (SAttr i fs e) \<longleftrightarrow>
     (sc_required i \<longrightarrow> \<not> sc_computed i \<and> \<not> sc_optional i)
     \<and> (sc_required i \<or> sc_optional i \<or> sc_computed i)
     \<and> (tp \<or> sc_references i = None)
     \<and> list_all (\<lambda>(n, f). schema_ok False f) fs
     \<and> (case e of None \<Rightarrow> True | Some el \<Rightarrow> schema_ok False el)"

fun outputs_computed :: "attr \<Rightarrow> schema_attr \<Rightarrow> bool" where
  "outputs_computed (Attr i fs e) (SAttr j gs f) \<longleftrightarrow>
     (i_output i \<longrightarrow> sc_computed j \<and> \<not> sc_required j \<and> \<not> sc_optional j)
     \<and> list_all (\<lambda>(p, q). p q) (zip (map (\<lambda>(n, a). outputs_computed a) fs) (map snd gs))
     \<and> (case (e, f) of (Some el, Some s) \<Rightarrow> outputs_computed el s | (None, None) \<Rightarrow> True | _ \<Rightarrow> False)"

lemma zip_maps: "zip (map f xs) (map g xs) = map (\<lambda>y. (f y, g y)) xs"
  by (induction xs) auto

text \<open>
  C19. Every attribute, at every depth, is declared to the host in one of the shapes it
  accepts, an output attribute is computed and never settable, and only a tp-level attribute
  is projected as a reference.
\<close>

theorem declared_schema_ok:
  "schema_ok tp (attr_to_schema a tp) \<and> outputs_computed a (attr_to_schema a tp)"
proof
  show "schema_ok tp (attr_to_schema a tp)"
    by (induction a tp rule: attr_to_schema.induct)
      (auto simp: schema_flags_def list_all_iff split: option.splits)
  show "outputs_computed a (attr_to_schema a tp)"
    by (induction a tp rule: attr_to_schema.induct)
      (auto simp: schema_flags_def list_all_iff zip_maps split: option.splits)
qed

section \<open>Which types can be created\<close>

text \<open>
  A placeholder of a create url that something supplies: an instance setting, a settable
  attribute, or a binding whose own placeholders are all supplied.
\<close>

inductive supplied :: "ctype \<Rightarrow> string \<Rightarrow> bool" for t where
  setting: "is_create_scope_setting n \<Longrightarrow> supplied t n"
| attribute: "settable_top_level t n \<Longrightarrow> supplied t n"
| nested: "map_of (t_create_bindings t) n = Some b \<Longrightarrow> b_template b = [] \<Longrightarrow> supplied t n"
| path: "map_of (t_create_bindings t) n = Some b \<Longrightarrow> b_template b \<noteq> [] \<Longrightarrow>
    \<forall>m \<in> set (url_placeholders (b_template b)). supplied t m \<Longrightarrow> supplied t n"

inductive_cases supplied_cases: "supplied t n"

lemma check_placeholders_grows: "set out \<subseteq> set (check_placeholders t ex ns out)"
proof (induction t ex ns out rule: check_placeholders.induct)
  case (2 t ex name names out)
  then show ?case by (auto split: option.splits if_splits; blast)
qed simp

lemma check_placeholders_supplied:
  "check_placeholders t ex ns out = [] \<Longrightarrow> \<forall>n \<in> set ns. supplied t n"
proof (induction t ex ns out rule: check_placeholders.induct)
  case (2 t ex name names out)
  show ?case
  proof (cases "is_create_scope_setting name")
    case True
    with 2 show ?thesis by (auto intro: setting)
  next
    case ns: False
    show ?thesis
    proof (cases "map_of (t_create_bindings t) name")
      case None
      let ?out = "if settable_top_level t name \<or> name \<in> set out then out else out @ [name]"
      from "2.prems" ns None have c: "check_placeholders t ex names ?out = []" by simp
      with check_placeholders_grows [of ?out t ex names] have "?out = []" by simp
      then have "settable_top_level t name" by (auto split: if_splits)
      with 2 ns None c show ?thesis by (auto intro: attribute)
    next
      case (Some b)
      consider (cyc) "name \<in> set ex" | (tmpl) "name \<notin> set ex" "b_template b \<noteq> []"
        | (attr) "name \<notin> set ex" "b_template b = []" by blast
      then show ?thesis
      proof cases
        case cyc
        let ?out = "if settable_top_level t name \<or> name \<in> set out then out else out @ [name]"
        from "2.prems" ns Some cyc have c: "check_placeholders t ex names ?out = []" by simp
        with check_placeholders_grows [of ?out t ex names] have "?out = []" by simp
        then have "settable_top_level t name" by (auto split: if_splits)
        with 2 ns Some cyc c show ?thesis by (auto intro: attribute)
      next
        case tmpl
        let ?in = "check_placeholders t (name # ex) (url_placeholders (b_template b)) out"
        from "2.prems" ns Some tmpl have c: "check_placeholders t ex names ?in = []" by simp
        with check_placeholders_grows [of ?in t ex names] have i: "?in = []" by simp
        have "\<forall>m \<in> set (url_placeholders (b_template b)). supplied t m"
          using "2.IH"(4) [OF ns Some tmpl i] .
        then have "supplied t name" using path [OF Some tmpl(2)] by blast
        moreover have "\<forall>n \<in> set names. supplied t n"
          using "2.IH"(5) [OF ns Some tmpl] c i by simp
        ultimately show ?thesis by simp
      next
        case attr
        then have "supplied t name" using nested [OF Some] by blast
        moreover have "\<forall>n \<in> set names. supplied t n"
          using "2.prems" ns Some attr "2.IH"(6) [OF ns Some attr(1)] by simp
        ultimately show ?thesis by simp
      qed
    qed
  qed
qed simp

text \<open>
  C20. A type advertised as creatable can be created: every placeholder of its create url is
  supplied, through any depth of bindings.
\<close>

theorem creatable_is_supplied:
  "cap_create (d_capabilities (definition_of t)) \<longrightarrow>
     (\<forall>n \<in> set (url_placeholders (create_template t)). supplied t n)"
  using check_placeholders_supplied [of t "[]" "url_placeholders (create_template t)" "[]"]
  by (auto simp: definition_of_def unresolved_create_placeholders_def dest: arg_cong [where f = set])

lemma sample_placeholders: "url_placeholders ''projects/{{project}}/topics'' = [''project'']"
  by (simp add: url_placeholders.simps open_placeholder_def has_prefix_def trim_space_def is_space_def trim_prefix_def)

theorem creatable_is_supplied_witness:
  "cap_create (d_capabilities (definition_of topic_type))
   \<and> url_placeholders (create_template topic_type) = [''project''] \<and> supplied topic_type ''project''"
proof -
  have p: "url_placeholders (create_template topic_type) = [''project'']"
    by (simp add: create_template_def topic_type_def sample_placeholders)
  then have c: "cap_create (d_capabilities (definition_of topic_type))"
    by (simp add: definition_of_def unresolved_create_placeholders_def is_create_scope_setting_def)
  with creatable_is_supplied [of topic_type] p show ?thesis by simp
qed

end
