(* ===== verification/Drift.thy ===== *)
theory Drift
  imports Samples
begin

text \<open>
  Properties of reconciliation and of the diff: an answer that agrees with everything the
  reference says is reported exactly as the reference, so the next plan has nothing to
  change; what reconciliation may drop and may reorder; what an update may and must mask.
\<close>

section \<open>Values up to their source\<close>

fun unsourced :: "val \<Rightarrow> val" where
  "unsourced (Val k kn r s) = Val k kn (case r of
      AVals vs \<Rightarrow> AVals (map unsourced vs)
    | AFields kvs \<Rightarrow> AFields (map (\<lambda>(n, v). (n, unsourced v)) kvs)
    | _ \<Rightarrow> r) SourceUnset"

lemma unsourced_facts:
  "unsourced v = unsourced w \<Longrightarrow> vkind v = vkind w \<and> vknown v = vknown w \<and> raw_str v = raw_str w"
  by (cases v; cases w) (auto simp: raw_str_def split: any.splits)

section \<open>Agreement\<close>

text \<open>
  An answer that agrees with the reference. An object says everything the reference says and
  may say more; a key the reference sets may be missing only where it is input-only or holds
  a zero; an ordered list agrees element by element; a leaf is the same value, or the same
  value written another way under its equivalence rule or as a project's other name. A
  reference lists its keys in the order of the schema.
\<close>

definition leaf_agrees :: "reconciler \<Rightarrow> attr_info \<Rightarrow> val \<Rightarrow> val \<Rightarrow> bool" where
  "leaf_agrees r i ref inc \<longleftrightarrow>
     (let v = as_declared_kind (rc_ext r) i inc in
      unsourced v = unsourced ref
      \<or> (vkind v = KString \<and> ref = Val KString True (AStr (raw_str ref)) (vsource ref) \<and>
          (raw_str ref \<noteq> raw_str v \<and> i_equivalence i \<noteq> [] \<and> equivalent (rc_ext r) (i_equivalence i) (raw_str ref) (raw_str v)
             \<and> same_project_spelling r ref v = v
           \<or> (\<exists>a. rc_aliases r = Some a \<and> asks_project ref v \<and> same_project a (raw_str ref) (raw_str v)))))"

fun agrees :: "reconciler \<Rightarrow> attr \<Rightarrow> val \<Rightarrow> val \<Rightarrow> bool" where
  "agrees r (Attr i fs e) ref inc \<longleftrightarrow>
     (if i_opaque i then unsourced inc = unsourced ref
      else if i_kind i = KMap \<and> fs \<noteq> [] then
        (case (raw_fields ref, raw_fields inc) of
           (Some rk, Some ik) \<Rightarrow> vknown inc \<and> vknown ref \<and> vkind ref = KMap \<and> wf_map fs
             \<and> keys rk = filter (has_key rk) (keys fs)
             \<and> list_all (\<lambda>(n, f). case map_of rk n of
                  None \<Rightarrow> True
                | Some rv \<Rightarrow> (case map_of ik n of
                      Some iv \<Rightarrow> agrees r f rv iv
                    | None \<Rightarrow> vknown rv \<and> (i_input_only (a_info f) \<or> is_zero rv))) fs
         | _ \<Rightarrow> False)
      else (case e of
          Some el \<Rightarrow>
            if i_kind i = KList then
              (case (raw_vals ref, raw_vals inc) of
                 (Some rv, Some iv) \<Rightarrow> vknown inc \<and> vknown ref \<and> vkind ref = KList
                   \<and> \<not> i_unordered i \<and> length rv = length iv
                   \<and> list_all (\<lambda>(u, v). agrees r el u v) (zip rv iv)
               | _ \<Rightarrow> False)
            else vknown inc \<and> leaf_agrees r i ref inc
        | None \<Rightarrow> vknown inc \<and> leaf_agrees r i ref inc))"

declare agrees.simps [simp del]

lemma leaf_reconciled:
  assumes "leaf_agrees r i ref inc"
  shows "unsourced (same_by_equivalence (rc_ext r) i ref
    (same_project_spelling r ref (as_declared_kind (rc_ext r) i inc))) = unsourced ref"
proof -
  let ?v = "as_declared_kind (rc_ext r) i inc"
  let ?p = "same_project_spelling r ref ?v"
  consider (same) "unsourced ?v = unsourced ref"
    | (rule) "vkind ?v = KString" "ref = Val KString True (AStr (raw_str ref)) (vsource ref)"
        "raw_str ref \<noteq> raw_str ?v" "i_equivalence i \<noteq> []" "equivalent (rc_ext r) (i_equivalence i) (raw_str ref) (raw_str ?v)" "?p = ?v"
    | (project) a where "ref = Val KString True (AStr (raw_str ref)) (vsource ref)"
        "rc_aliases r = Some a" "asks_project ref ?v" "same_project a (raw_str ref) (raw_str ?v)"
    using assms unfolding leaf_agrees_def Let_def by blast
  then show ?thesis
  proof cases
    case same
    then have "raw_str ref = raw_str ?v" using unsourced_facts by metis
    then have "?p = ?v" by (simp add: same_project_spelling_def asks_project_def split: option.splits)
    with same \<open>raw_str ref = raw_str ?v\<close> show ?thesis by (simp add: same_by_equivalence_def)
  next
    case rule
    have u: "unsourced (Val KString True (AStr (raw_str ref)) s) = unsourced ref" for s
      by (subst (2) rule(2)) simp
    from rule u show ?thesis
      by (simp add: same_by_equivalence_def) (metis val.sel(1,2))
  next
    case project
    have u: "unsourced (Val KString True (AStr (raw_str ref)) s) = unsourced ref" for s
      by (subst (2) project(1)) simp
    have "?p = Val KString True (AStr (raw_str ref)) (vsource ?v)"
      using project by (simp add: same_project_spelling_def)
    with u show ?thesis by (simp add: same_by_equivalence_def raw_str_def)
  qed
qed

lemma keys_of_map_filter:
  "map fst (concat (map (\<lambda>(n, f). case g n f of Some v \<Rightarrow> [(n, v)] | None \<Rightarrow> []) fs))
     = map fst (filter (\<lambda>(n, f). g n f \<noteq> None) fs)"
  by (induction fs) (auto split: option.splits)

lemma concat_map_cong: "(\<And>z. z \<in> set zs \<Longrightarrow> f z = g z) \<Longrightarrow> concat (map f zs) = concat (map g zs)"
  by (metis map_cong)

text \<open>A map listed in the order of a level is the walk over the level.\<close>

lemma walk_level:
  assumes "wf_map fs" "keys rk = filter (has_key rk) (keys fs)"
  shows "concat (map (\<lambda>(n, f). case map_of rk n of None \<Rightarrow> [] | Some v \<Rightarrow> [(n, v)]) fs) = rk"
proof -
  have d: "distinct (keys rk)" using assms by (metis distinct_filter wf_map_def)
  let ?l = "concat (map (\<lambda>(n, f). case map_of rk n of None \<Rightarrow> [] | Some v \<Rightarrow> [(n, v)]) fs)"
  have "keys ?l = filter (has_key rk) (keys fs)"
    by (induction fs) (auto simp: has_key_def split: option.splits)
  then have k: "keys ?l = keys rk" using assms(2) by simp
  have "map_of rk (fst z) = Some (snd z)" if "z \<in> set ?l" for z
    using that by (auto split: option.splits)
  then have "map snd ?l = map (\<lambda>n. the (map_of rk n)) (keys ?l)"
    unfolding map_map by (intro map_cong) simp_all
  moreover have "map_of rk (fst z) = Some (snd z)" if "z \<in> set rk" for z
    using map_of_is_SomeI [OF d, of "fst z" "snd z"] that by simp
  then have "map snd rk = map (\<lambda>n. the (map_of rk n)) (keys rk)"
    unfolding map_map by (intro map_cong) simp_all
  ultimately have "map snd ?l = map snd rk" by (simp only: k)
  with k show ?thesis by (rule pair_list_eqI)
qed

definition uns :: "string \<times> val \<Rightarrow> string \<times> val" where
  "uns = (\<lambda>(n, v). (n, unsourced v))"

lemma unsourced_fields: "unsourced (Val k kn (AFields kvs) s) = Val k kn (AFields (map uns kvs)) SourceUnset"
  by (simp add: uns_def)

lemma unsourced_vals: "unsourced (Val k kn (AVals vs) s) = Val k kn (AVals (map unsourced vs)) SourceUnset"
  by simp

lemma reconcile_agreeing:
  "\<not> rc_unmatched r \<Longrightarrow> agrees r a ref inc \<Longrightarrow>
     unsourced (reconcile_value r a ref inc) = unsourced ref"
proof (induction r a ref inc rule: agrees.induct)
  case (1 r i fs e ref inc)
  show ?case
  proof (cases "i_opaque i")
    case True
    with "1.prems" show ?thesis by (simp add: agrees.simps reconcile_value.simps)
  next
    case nop: False
    show ?thesis
    proof (cases "i_kind i = KMap \<and> fs \<noteq> []")
      case True
      note ag = "1.prems"(2) [unfolded agrees.simps if_not_P [OF nop] if_P [OF True]]
      obtain rk ik where rk: "raw_fields ref = Some rk" and ik: "raw_fields inc = Some ik"
        using ag by (cases "raw_fields ref"; cases "raw_fields inc") simp_all
      with ag have kn: "vknown inc" "vknown ref" "vkind ref = KMap" and wf: "wf_map fs"
          and order: "keys rk = filter (has_key rk) (keys fs)"
          and al: "list_all (\<lambda>(n, f). case map_of rk n of None \<Rightarrow> True
            | Some rv \<Rightarrow> (case map_of ik n of Some iv \<Rightarrow> agrees r f rv iv
               | None \<Rightarrow> vknown rv \<and> (i_input_only (a_info f) \<or> is_zero rv))) fs"
        by simp_all
      have each: "case map_of rk n of None \<Rightarrow> True
            | Some rv \<Rightarrow> (case map_of ik n of Some iv \<Rightarrow> agrees r f rv iv
               | None \<Rightarrow> vknown rv \<and> (i_input_only (a_info f) \<or> is_zero rv))" if "(n, f) \<in> set fs" for n f
        using al that by (auto simp: list_all_iff)
      let ?step = "\<lambda>(n, f). case map_of ik n of
          None \<Rightarrow> (case absent_field r (a_info f) ref n ik of Some v \<Rightarrow> [(n, v)] | None \<Rightarrow> [])
        | Some v \<Rightarrow> if drop_field r (a_info f) ref n then []
            else [(n, reconcile_value r f (vget (ref_fields ref) n) v)]"
      let ?walk = "\<lambda>(n, f :: attr). case map_of rk n of None \<Rightarrow> [] | Some v \<Rightarrow> [(n, v)]"
      have rf: "ref_fields ref = rk" "has_ref ref" using rk kn by (simp_all add: ref_fields_def has_ref_def)
      have step: "map uns (?step z) = map uns (?walk z)" if z: "z \<in> set fs" for z
      proof -
        obtain n f where nf: "z = (n, f)" by (cases z)
        show ?thesis
        proof (cases "map_of rk n")
          case None
          then have "vget rk n = zero_val" by (simp add: vget_def)
          then show ?thesis using None "1.prems"(1)
            by (auto simp: nf absent_field_def carry_input_only_def carry_omitted_zero_def rf is_zero_def
                zero_val_def drop_field_def has_key_def split: option.splits)
        next
          case rv: (Some rv)
          then have g: "vget rk n = rv" by (simp add: vget_def)
          show ?thesis
          proof (cases "map_of ik n")
            case None
            with each [of n f] z nf rv have "vknown rv \<and> (i_input_only (a_info f) \<or> is_zero rv)" by simp
            with None rv g "1.prems"(1) show ?thesis
              by (auto simp: nf absent_field_def carry_input_only_def carry_omitted_zero_def rf has_key_def)
          next
            case (Some iv)
            with each [of n f] z nf rv have ag: "agrees r f rv iv" by simp
            have "unsourced (reconcile_value r f rv iv) = unsourced rv"
              using "1.IH"(1) [OF nop True _ _ _ z _ rv Some "1.prems"(1) ag] rk ik nf by auto
            with Some rv g "1.prems"(1) show ?thesis
              by (simp add: nf drop_field_def rf has_key_def uns_def)
          qed
        qed
      qed
      have w: "concat (map ?walk fs) = rk" by (rule walk_level [OF wf order])
      have "map uns (concat (map ?step fs)) = concat (map (\<lambda>z. map uns (?step z)) fs)"
        by (simp add: map_concat comp_def)
      also have "\<dots> = concat (map (\<lambda>z. map uns (?walk z)) fs)"
        by (rule concat_map_cong) (rule step)
      also have "\<dots> = map uns (concat (map ?walk fs))" by (simp add: map_concat comp_def)
      also have "\<dots> = map uns rk" by (simp only: w)
      finally have m: "map uns (concat (map ?step fs)) = map uns rk" .
      have "reconcile_value r (Attr i fs e) ref inc = Val KMap True (AFields (concat (map ?step fs))) (vsource inc)"
        using nop True kn ik by (simp add: reconcile_value.simps)
      moreover have "ref = Val KMap True (AFields rk) (vsource ref)"
        using rk kn by (cases ref) (auto simp: raw_fields_def split: any.splits)
      then have "unsourced ref = Val KMap True (AFields (map uns rk)) SourceUnset"
        by (metis unsourced_fields)
      ultimately show ?thesis by (simp only: unsourced_fields m)
    next
      case nmap: False
      show ?thesis
      proof (cases "i_kind i = KList \<and> e \<noteq> None")
        case True
        then obtain el where el: "e = Some el" and k: "i_kind i = KList" by auto
        note ag = "1.prems"(2) [unfolded agrees.simps if_not_P [OF nop] if_not_P [OF nmap] el option.case if_P [OF k]]
        obtain rv iv where rv: "raw_vals ref = Some rv" and iv: "raw_vals inc = Some iv"
          using ag by (cases "raw_vals ref"; cases "raw_vals inc") simp_all
        with ag have kn: "vknown inc" "vknown ref" "vkind ref = KList" and uo: "\<not> i_unordered i"
            and len: "length rv = length iv" and al: "list_all (\<lambda>(u, v). agrees r el u v) (zip rv iv)"
          by simp_all
        have each: "agrees r el u v" if "(u, v) \<in> set (zip rv iv)" for u v
          using al that by (auto simp: list_all_iff)
        let ?f = "\<lambda>(j, v). reconcile_value r el (nth_or_zero rv j) v"
        have er: "element_reconciler r i = r" using uo "1.prems"(1) by (simp add: element_reconciler_def)
        have "map unsourced (map ?f (enumerate 0 iv)) = map unsourced rv"
        proof (rule nth_equalityI)
          fix j assume j: "j < length (map unsourced (map ?f (enumerate 0 iv)))"
          then have j': "j < length iv" "j < length rv" using len by simp_all
          then have z: "(rv ! j, iv ! j) \<in> set (zip rv iv)" by (metis in_set_zip fst_conv snd_conv)
          have "unsourced (reconcile_value r el (rv ! j) (iv ! j)) = unsourced (rv ! j)"
            using "1.IH"(2) [OF nop nmap el k _ _ _ z _ "1.prems"(1) each [OF z]] rv iv by auto
          with j' show "map unsourced (map ?f (enumerate 0 iv)) ! j = map unsourced rv ! j"
            by (simp add: nth_enumerate_eq nth_or_zero_def)
        qed (simp add: len)
        moreover have "reconcile_value r (Attr i fs e) ref inc = Val KList True (AVals (map ?f (enumerate 0 iv))) (vsource inc)"
          using nop nmap k el kn iv rv uo by (simp add: reconcile_value.simps er ref_vals_def Let_def)
        moreover have "ref = Val KList True (AVals rv) (vsource ref)"
          using rv kn by (cases ref) (auto simp: raw_vals_def split: any.splits)
        then have "unsourced ref = Val KList True (AVals (map unsourced rv)) SourceUnset"
          by (metis unsourced_vals)
        ultimately show ?thesis by (simp only: unsourced_vals)
      next
        case False
        with nmap nop "1.prems" have kn: "vknown inc" and ag: "leaf_agrees r i ref inc"
          by (auto simp: agrees.simps split: option.splits if_splits)
        have "reconcile_value r (Attr i fs e) ref inc = same_by_equivalence (rc_ext r) i ref
            (same_project_spelling r ref (as_declared_kind (rc_ext r) i inc))"
          using False nmap nop kn by (auto simp: reconcile_value.simps split: option.splits)
        with leaf_reconciled [OF ag] show ?thesis by simp
      qed
    qed
  qed
qed

text \<open>
  C4. No drift: an answer that agrees with everything the reference says is reconciled to
  exactly the reference, up to where the values came from, whatever else Google added to its
  objects, left out as a default, or spelled another way.
\<close>

theorem no_drift:
  assumes "\<not> rc_unmatched r" "agrees r a ref inc"
  shows "unsourced (reconcile_value r a ref inc) = unsourced ref"
  using reconcile_agreeing [OF assms] .

definition volume_attr :: attr where
  "volume_attr = Attr (plain_info ''volume'' KMap)
     [(''size'', leaf ''size'' KInt), (''auto_delete'', leaf ''autoDelete'' KBool),
      (''network'', Attr ((plain_info ''network'' KString)\<lparr>i_equivalence := ''self_link''\<rparr>) [] None),
      (''mode'', leaf ''mode'' KString)] None"

definition volume_config :: val where
  "volume_config = v_map [(''size'', v_int 10 SourceExplicit), (''auto_delete'', v_bool False SourceExplicit),
     (''network'', v_string ''projects/p/global/networks/n'' SourceExplicit)] SourceExplicit"

definition volume_answer :: val where
  "volume_answer = v_map [(''mode'', v_string ''RW'' SourceProvider), (''kind'', v_string ''k'' SourceProvider),
     (''network'', v_string ''https://x/v1/projects/p/global/networks/n'' SourceProvider),
     (''size'', v_int 10 SourceProvider)] SourceProvider"

definition plain_reconciler :: reconciler where
  "plain_reconciler = \<lparr>rc_ext = sample_ext, rc_aliases = None, rc_unmatched = False\<rparr>"

lemma volume_links: "self_link_equivalent ''projects/p/global/networks/n'' ''https://x/v1/projects/p/global/networks/n''"
  by (simp add: self_link_equivalent_def from_projects_def has_prefix_def)

theorem no_drift_witness:
  "unsourced (reconcile_value plain_reconciler volume_attr volume_config volume_answer) = unsourced volume_config
   \<and> volume_config \<noteq> volume_answer"
proof
  have "agrees plain_reconciler volume_attr volume_config volume_answer"
    by (simp add: agrees.simps volume_attr_def volume_config_def volume_answer_def leaf_def plain_info_def
        val_ctors raw_fields_def wf_map_def has_key_def leaf_agrees_def as_declared_kind_def
        plain_reconciler_def is_zero_def raw_str_def equivalent_def volume_links same_project_spelling_def)
  moreover have "\<not> rc_unmatched plain_reconciler" by (simp add: plain_reconciler_def)
  ultimately show "unsourced (reconcile_value plain_reconciler volume_attr volume_config volume_answer) = unsourced volume_config"
    using no_drift by blast
  show "volume_config \<noteq> volume_answer" by (simp add: volume_config_def volume_answer_def val_ctors)
qed

section \<open>What reconciliation may change\<close>

lemma extract_mset: "List.extract P xs = Some (ys, y, zs) \<Longrightarrow> mset xs = add_mset y (mset (ys @ zs))"
  by (auto simp: extract_Some_iff)

lemma mset_pair_up: "mset (pair_up x ws items) = mset items"
proof (induction x ws items rule: pair_up.induct)
  case (2 x want wants items)
  show ?case
  proof (cases "List.extract (answers_to x want) items")
    case (Some t)
    obtain ys y zs where "t = (ys, y, zs)" by (cases t)
    with Some 2(2) extract_mset show ?thesis by fastforce
  qed (use 2(1) in simp)
qed simp

text \<open>
  C21. Reordering an unordered list never changes an element: the result holds exactly the
  elements Google answered, each reconciled, as a multiset.
\<close>

theorem unordered_list_permuted:
  assumes "vknown inc" "\<not> i_opaque i" "i_kind i = KList" "raw_vals inc = Some vs"
  shows "\<exists>out. raw_vals (reconcile_value r (Attr i fs (Some el)) ref inc) = Some out
    \<and> mset out = mset (map (\<lambda>(j, v). reconcile_value (element_reconciler r i) el
        (nth_or_zero (ref_vals ref) j) v) (enumerate 0 vs))"
  using assms by (simp add: reconcile_value.simps Let_def raw_vals_def mset_pair_up)

definition set_attr :: attr where
  "set_attr = Attr ((plain_info ''zones'' KList)\<lparr>i_unordered := True\<rparr>) [] (Some (leaf [] KString))"

theorem unordered_list_permuted_witness:
  "\<exists>out. raw_vals (reconcile_value plain_reconciler set_attr
       (v_list [v_string ''a'' SourceProvider, v_string ''b'' SourceProvider] SourceProvider)
       (v_list [v_string ''c'' SourceProvider, v_string ''b'' SourceProvider] SourceProvider)) = Some out
     \<and> mset out = {# v_string ''b'' SourceProvider, v_string ''c'' SourceProvider #}"
proof -
  let ?i = "(plain_info ''zones'' KList)\<lparr>i_unordered := True\<rparr>"
  let ?vs = "[v_string ''c'' SourceProvider, v_string ''b'' SourceProvider]"
  have "vknown (v_list ?vs SourceProvider)" "\<not> i_opaque ?i" "i_kind ?i = KList"
      "raw_vals (v_list ?vs SourceProvider) = Some ?vs"
    by (simp_all add: plain_info_def raw_vals_def v_list_def)
  from unordered_list_permuted [OF this, of plain_reconciler "[]" "leaf [] KString"
      "v_list [v_string ''a'' SourceProvider, v_string ''b'' SourceProvider] SourceProvider"]
  show ?thesis
    by (simp add: set_attr_def leaf_def plain_info_def reconcile_value.simps v_string_def
        as_declared_kind_def same_project_spelling_def same_by_equivalence_def element_reconciler_def
        plain_reconciler_def add_mset_commute)
qed

text \<open>
  Inside an object, reconciliation reports declared keys only; and against a known
  reference object, outside an unordered list, only keys the reference itself sets.
\<close>

theorem nested_keys_reported:
  assumes "vknown inc" "\<not> i_opaque i" "i_kind i = KMap" "fs \<noteq> []" "raw_fields inc = Some kvs"
  shows "\<exists>out. raw_fields (reconcile_value r (Attr i fs e) ref inc) = Some out
    \<and> set (keys out) \<subseteq> set (keys fs)
    \<and> (has_ref ref \<and> \<not> rc_unmatched r \<longrightarrow> set (keys out) \<subseteq> set (keys (ref_fields ref)))"
proof -
  have k: "vknown (vget m n) \<Longrightarrow> n \<in> fst ` set m" for m :: attrs and n
    by (auto simp: vget_def zero_val_def split: option.splits dest!: map_of_SomeD) force
  have z: "is_zero (vget m n) \<Longrightarrow> n \<in> fst ` set m" for m :: attrs and n
    by (rule k) (simp add: is_zero_def)
  let ?step = "\<lambda>(n, f). case map_of kvs n of
      None \<Rightarrow> (case absent_field r (a_info f) ref n kvs of Some v \<Rightarrow> [(n, v)] | None \<Rightarrow> [])
    | Some v \<Rightarrow> if drop_field r (a_info f) ref n then []
        else [(n, reconcile_value r f (vget (ref_fields ref) n) v)]"
  have res: "raw_fields (reconcile_value r (Attr i fs e) ref inc) = Some (concat (map ?step fs))"
    using assms by (simp add: reconcile_value.simps) (simp add: raw_fields_def)
  have ab: "vget (ref_fields ref) n = v \<and> (vknown v \<or> is_zero v)"
    if "absent_field r i' ref n kvs = Some v" for i' n v
    using that by (auto simp: absent_field_def carry_input_only_def carry_omitted_zero_def
        split: option.splits if_splits)
  have "n \<in> fst ` set fs \<and> (has_ref ref \<and> \<not> rc_unmatched r \<longrightarrow> n \<in> fst ` set (ref_fields ref))"
    if nv: "(n, v) \<in> set (concat (map ?step fs))" for n v
  proof -
    from nv obtain m f where mf: "(m, f) \<in> set fs" and st: "(n, v) \<in> set (?step (m, f))" by auto
    from st have m: "m = n" by (auto split: option.splits if_splits)
    have "n \<in> fst ` set fs" using mf m by force
    moreover have "n \<in> fst ` set (ref_fields ref)" if h: "has_ref ref \<and> \<not> rc_unmatched r"
    proof (cases "map_of kvs n")
      case None
      with st m have "absent_field r (a_info f) ref n kvs = Some v" by (auto split: option.splits)
      with ab k z show ?thesis by blast
    next
      case (Some w)
      with st m have "\<not> drop_field r (a_info f) ref n" by (auto split: if_splits)
      with h show ?thesis by (simp add: drop_field_def has_key_iff)
    qed
    ultimately show ?thesis by blast
  qed
  then have "set (keys (concat (map ?step fs))) \<subseteq> set (keys fs)"
      "has_ref ref \<and> \<not> rc_unmatched r \<longrightarrow> set (keys (concat (map ?step fs))) \<subseteq> set (keys (ref_fields ref))"
    by (auto simp only: set_map image_subset_iff split_paired_All fst_conv simp_thms)
  with res show ?thesis by blast
qed

theorem nested_keys_reported_witness:
  "\<exists>out. raw_fields (reconcile_value plain_reconciler volume_attr volume_config volume_answer) = Some out
     \<and> set (keys out) \<subseteq> {''size'', ''auto_delete'', ''network''}"
proof -
  let ?fs = "a_fields volume_attr"
  have "vknown volume_answer" "\<not> a_opaque volume_attr" "a_kind volume_attr = KMap" "?fs \<noteq> []"
      "raw_fields volume_answer = Some (the (raw_fields volume_answer))"
    by (simp_all add: volume_answer_def volume_attr_def plain_info_def raw_fields_def v_map_def)
  from nested_keys_reported [OF this, of plain_reconciler "a_elem volume_attr" volume_config]
  moreover have "has_ref volume_config" "\<not> rc_unmatched plain_reconciler"
      "keys (ref_fields volume_config) = [''size'', ''auto_delete'', ''network'']"
    by (simp_all add: plain_reconciler_def has_ref_def ref_fields_def volume_config_def raw_fields_def v_map_def)
  ultimately show ?thesis by (metis attr.collapse set_simps)
qed

section \<open>Labels Google keeps for itself\<close>

fun label_clean :: "attr option \<Rightarrow> val \<Rightarrow> bool" where
  "label_clean a (Val k kn r s) \<longleftrightarrow> (case a of None \<Rightarrow> True
    | Some ad \<Rightarrow> \<not> kn \<or>
        (if is_label_map (a_info ad) then
          (case r of AFields kvs \<Rightarrow> list_all (\<lambda>(n, v). \<not> has_prefix n reserved_label_prefix) kvs | _ \<Rightarrow> True)
         else if a_fields ad \<noteq> [] then
          (case r of AFields kvs \<Rightarrow> list_all (\<lambda>(n, v). label_clean (map_of (a_fields ad) n) v) kvs | _ \<Rightarrow> True)
         else if a_elem ad \<noteq> None then
          (case r of AVals vs \<Rightarrow> list_all (label_clean (a_elem ad)) vs | _ \<Rightarrow> True)
         else True))"

declare label_clean.simps [simp del]

lemma without_reserved_clean: "label_clean a (without_reserved_labels a v)"
proof (induction a v rule: without_reserved_labels.induct)
  case (1 a k kn r s)
  then show ?case
    by (auto simp: without_reserved_labels.simps label_clean.simps list_all_iff split: option.splits any.splits)
qed

lemma clean_kept: "label_clean a v \<Longrightarrow> without_reserved_labels a v = v"
proof (induction a v rule: without_reserved_labels.induct)
  case (1 a k kn r s)
  show ?case
  proof (cases a)
    case (Some ad)
    show ?thesis
    proof (cases r)
      case (AFields kvs)
      have "map (\<lambda>(n, v). (n, without_reserved_labels (map_of (a_fields ad) n) v)) kvs = kvs"
        if "kn" "\<not> is_label_map (a_info ad)" "a_fields ad \<noteq> []"
        using that 1 Some AFields by (intro map_idI) (auto simp: label_clean.simps list_all_iff)
      moreover have "filter (\<lambda>(n, v). \<not> has_prefix n reserved_label_prefix) kvs = kvs"
        if "kn" "is_label_map (a_info ad)"
        using that 1(3) Some AFields by (simp add: label_clean.simps list_all_iff filter_id_conv)
      ultimately show ?thesis using Some AFields by (auto simp: without_reserved_labels.simps)
    next
      case (AVals vs)
      have "map (without_reserved_labels (a_elem ad)) vs = vs"
        if "kn" "\<not> is_label_map (a_info ad)" "a_fields ad = []" "a_elem ad \<noteq> None"
        using that 1 Some AVals by (intro map_idI) (auto simp: label_clean.simps list_all_iff)
      then show ?thesis using Some AVals by (auto simp: without_reserved_labels.simps)
    qed (use Some in \<open>simp_all add: without_reserved_labels.simps\<close>)
  qed (simp add: without_reserved_labels.simps)
qed

text \<open>
  A place inside a value, and what stands there: its kind, whether it is known, its source and,
  for a scalar, the value itself.
\<close>

datatype place = Field string | Item nat

fun value_at :: "place list \<Rightarrow> val \<Rightarrow> val option" where
  "value_at [] v = Some v"
| "value_at (Field n # p) v = (case raw_fields v of
     None \<Rightarrow> None | Some kvs \<Rightarrow> Option.bind (map_of kvs n) (value_at p))"
| "value_at (Item i # p) v = (case raw_vals v of
     None \<Rightarrow> None | Some vs \<Rightarrow> if i < length vs then value_at p (vs ! i) else None)"

definition stands_there :: "val \<Rightarrow> kind \<times> bool \<times> source \<times> any" where
  "stands_there v = (vkind v, vknown v, vsource v, case vraw v of AVals vs \<Rightarrow> AVals [] | AFields kvs \<Rightarrow> AFields [] | r \<Rightarrow> r)"

text \<open>The place lies in a label Google keeps for itself, in a known labels map the schema reaches.\<close>

fun in_reserved_label :: "attr option \<Rightarrow> val \<Rightarrow> place list \<Rightarrow> bool" where
  "in_reserved_label a v [] \<longleftrightarrow> False"
| "in_reserved_label a v (Field n # p) \<longleftrightarrow> (\<exists>ad kvs. a = Some ad \<and> vknown v \<and> raw_fields v = Some kvs
     \<and> (if a_canonical ad = ''labels'' \<and> a_kind ad = KMap then has_prefix n ''goog-''
        else \<exists>u. map_of kvs n = Some u \<and> in_reserved_label (map_of (a_fields ad) n) u p))"
| "in_reserved_label a v (Item i # p) \<longleftrightarrow> (\<exists>ad vs. a = Some ad \<and> vknown v \<and> raw_vals v = Some vs \<and> i < length vs
     \<and> \<not> (a_canonical ad = ''labels'' \<and> a_kind ad = KMap) \<and> a_fields ad = [] \<and> in_reserved_label (a_elem ad) (vs ! i) p)"

lemma map_of_keyed: "map_of (map (\<lambda>(n, v). (n, f n v)) kvs) n = map_option (f n) (map_of kvs n)"
  by (induction kvs) auto

lemma map_of_kept_keys: "map_of (filter (\<lambda>(n, v). P n) m) n = (if P n then map_of m n else None)"
  by (induction m) auto

lemma bind_keyed: "map_option g (Option.bind (map_option f x) h) = Option.bind x (\<lambda>u. map_option g (h (f u)))"
  by (cases x) auto

lemma outside_schema [simp]: "\<not> in_reserved_label None v p"
  by (cases p; cases "hd p") auto

lemma in_no_fields: "a_fields ad = [] \<Longrightarrow> \<not> is_label_map (a_info ad) \<Longrightarrow> \<not> in_reserved_label (Some ad) v (Field n # p)"
  by (cases ad) (auto simp: is_label_map_def)

lemma stands_where_kept:
  "map_option stands_there (value_at p (without_reserved_labels a v))
     = (if in_reserved_label a v p then None else map_option stands_there (value_at p v))"
proof (induction p arbitrary: a v)
  case Nil
  obtain k kn r s where "v = Val k kn r s" by (cases v)
  then show ?case by (cases a; cases r) (auto simp: without_reserved_labels.simps stands_there_def)
next
  case (Cons q p)
  have gone: "in_reserved_label b u p \<Longrightarrow> value_at p (without_reserved_labels b u) = None" for b u
    using Cons.IH [of b u] by simp
  obtain k kn r s where v: "v = Val k kn r s" by (cases v)
  show ?case
  proof (cases "a = None \<or> \<not> kn")
    case True
    then have "without_reserved_labels a v = v" "\<not> in_reserved_label a v (q # p)"
      by (auto simp: v without_reserved_labels.simps split: option.splits) (cases q; auto)+
    then show ?thesis by simp
  next
    case False
    then obtain ad where a: "a = Some ad" and kn: "kn" by auto
    have lm: "is_label_map (a_info ad) \<longleftrightarrow> a_canonical ad = ''labels'' \<and> a_kind ad = KMap"
      by (cases ad) (simp add: is_label_map_def)
    show ?thesis
    proof (cases q)
      case (Field n)
      show ?thesis
      proof (cases r)
        case (AFields kvs)
        show ?thesis using kn Cons.IH gone
          by (auto simp: Field v a AFields without_reserved_labels.simps raw_fields_def map_of_keyed map_of_kept_keys
              reserved_label_prefix_def lm bind_keyed split: option.split bind_split)
      qed (use kn in \<open>auto simp: Field v a without_reserved_labels.simps raw_fields_def\<close>)
    next
      case (Item i)
      show ?thesis
      proof (cases r)
        case (AVals vs)
        show ?thesis using kn Cons.IH gone
          by (auto simp: Item v a AVals without_reserved_labels.simps raw_vals_def lm split: option.split)
      qed (use kn in \<open>auto simp: Item v a without_reserved_labels.simps raw_vals_def\<close>)
    qed
  qed
qed

text \<open>
  C22. State never carries a label Google keeps for itself, in any labels map the schema reaches,
  and dropping them touches nothing else: at every place of the value, at every depth, the same
  stands there as before, unless the place lies in such a label, and then nothing does.
\<close>

theorem reserved_labels_dropped:
  "label_clean a (without_reserved_labels a v) \<and> (label_clean a v \<longrightarrow> without_reserved_labels a v = v)
   \<and> (\<forall>p. map_option stands_there (value_at p (without_reserved_labels a v))
        = (if in_reserved_label a v p then None else map_option stands_there (value_at p v)))"
  using without_reserved_clean clean_kept stands_where_kept by blast

theorem reserved_labels_dropped_witness:
  "without_reserved_labels (Some labels_attr)
       (v_map [(''goog-managed-by'', v_string ''gke'' SourceProvider), (''team'', v_string ''x'' SourceProvider)] SourceProvider)
     = v_map [(''team'', v_string ''x'' SourceProvider)] SourceProvider
   \<and> without_reserved_labels (Some labels_attr) (v_map [(''team'', v_string ''x'' SourceProvider)] SourceProvider)
     = v_map [(''team'', v_string ''x'' SourceProvider)] SourceProvider"
proof
  show "without_reserved_labels (Some labels_attr)
       (v_map [(''goog-managed-by'', v_string ''gke'' SourceProvider), (''team'', v_string ''x'' SourceProvider)] SourceProvider)
     = v_map [(''team'', v_string ''x'' SourceProvider)] SourceProvider"
    by (simp add: without_reserved_labels.simps v_map_def labels_attr_def plain_info_def is_label_map_def
        reserved_label_prefix_def has_prefix_def)
  have "label_clean (Some labels_attr) (v_map [(''team'', v_string ''x'' SourceProvider)] SourceProvider)"
    by (simp add: label_clean.simps v_map_def labels_attr_def plain_info_def is_label_map_def
        reserved_label_prefix_def has_prefix_def)
  with reserved_labels_dropped show "without_reserved_labels (Some labels_attr)
      (v_map [(''team'', v_string ''x'' SourceProvider)] SourceProvider)
     = v_map [(''team'', v_string ''x'' SourceProvider)] SourceProvider" by blast
qed

end
