(* ===== verification/Changes.thy ===== *)
theory Changes
  imports Drift
begin

text \<open>
  Properties of what an update sends: which attributes a mask may name and which it must, the
  merge under a PUT, and the division of a mask into one patch per field.
\<close>

section \<open>Masks\<close>

text \<open>A mask path that names settable attributes all the way down.\<close>

inductive settable_path :: "level \<Rightarrow> string \<Rightarrow> bool" where
  here: "(n, a) \<in> set lvl \<Longrightarrow> \<not> a_output a \<Longrightarrow> settable_path lvl (a_canonical a)"
| below: "(n, a) \<in> set lvl \<Longrightarrow> \<not> a_output a \<Longrightarrow> settable_path (a_fields a) m \<Longrightarrow>
    settable_path lvl (a_canonical a @ ''.'' @ m)"

inductive_cases settable_path_cases: "settable_path lvl m"

lemma change_mask_mem: "m \<in> set (change_mask cs) \<longleftrightarrow> (\<exists>k v ms. (k, v, ms) \<in> set cs \<and> m \<in> set ms)"
  by (force simp: change_mask_def)

lemma change_mask_append [simp]: "change_mask (cs @ ds) = change_mask cs @ change_mask ds"
  by (simp add: change_mask_def)

lemma change_mask_concat: "change_mask (concat css) = concat (map change_mask css)"
  by (induction css) (auto simp: change_mask_def)

lemma size_of_field: "(n, f) \<in> set (a_fields a) \<Longrightarrow> size f < size a"
  by (cases a) (auto dest: size_field [of _ _ _ 0] simp: less_Suc_eq_le)

text \<open>One field of the walk below an attribute: the body of the loop of \<open>build_nested\<close>.\<close>

definition nested_entry :: "ext \<Rightarrow> string \<Rightarrow> val \<Rightarrow> val \<Rightarrow> string \<times> attr \<Rightarrow> change list" where
  "nested_entry x path have_v want = (\<lambda>(name, f).
     if a_output f then []
     else (case map_of (ref_fields want) name of
         None \<Rightarrow> []
       | Some w \<Rightarrow>
           (let h = vget (ref_fields have_v) name; child = path @ ''.'' @ a_canonical f in
            if \<not> vknown w \<or> x_equal x h w then []
            else if walks_into f w h then
              (let sub = build_nested x f child h w
               in if change_mask sub = [] then []
                  else [(a_canonical f, AObj (change_body sub), change_mask sub)])
            else [(a_canonical f, wire_value (Some f) w, [child])])))"

lemma build_nested_entries:
  "build_nested x a path h w = concat (map (nested_entry x path h w) (sorted_attrs (a_fields a)))"
  by (cases a) (simp add: build_nested.simps nested_entry_def)

lemma change_mask_simps [simp]: "change_mask [] = []" "change_mask [(k, v, ms)] = ms"
  by (simp_all add: change_mask_def)

lemma nested_entry_cases:
  assumes "m \<in> set (change_mask (nested_entry x path h w (name, f)))"
  obtains u where "map_of (ref_fields w) name = Some u" "\<not> a_output f"
    "m = path @ ''.'' @ a_canonical f
       \<or> m \<in> set (change_mask (build_nested x f (path @ ''.'' @ a_canonical f) (vget (ref_fields h) name) u))"
proof (cases "map_of (ref_fields w) name")
  case None
  then show ?thesis using assms by (simp add: nested_entry_def split: if_splits)
next
  case (Some u)
  then show ?thesis using assms that [of u] by (simp add: nested_entry_def Let_def split: if_splits)
qed

lemma build_nested_paths:
  "m \<in> set (change_mask (build_nested x a path h w)) \<Longrightarrow>
     \<exists>rest. m = path @ ''.'' @ rest \<and> settable_path (a_fields a) rest"
proof (induction "size a" arbitrary: a path h w rule: less_induct)
  case less
  from less.prems obtain name f where nf: "(name, f) \<in> set (a_fields a)"
      and m: "m \<in> set (change_mask (nested_entry x path h w (name, f)))"
    by (auto simp: build_nested_entries [of x a] change_mask_concat)
  from m obtain u where out: "\<not> a_output f" and
      c: "m = path @ ''.'' @ a_canonical f
       \<or> m \<in> set (change_mask (build_nested x f (path @ ''.'' @ a_canonical f) (vget (ref_fields h) name) u))"
    by (rule nested_entry_cases)
  from c show ?case
  proof
    assume "m = path @ ''.'' @ a_canonical f"
    then show ?thesis using here [OF nf out] by blast
  next
    assume s: "m \<in> set (change_mask (build_nested x f (path @ ''.'' @ a_canonical f) (vget (ref_fields h) name) u))"
    obtain rest where r: "m = (path @ ''.'' @ a_canonical f) @ ''.'' @ rest" "settable_path (a_fields f) rest"
      using less.hyps [OF size_of_field [OF nf] s] by blast
    show ?thesis
      using below [OF nf out r(2)] r(1) by (intro exI [of _ "a_canonical f @ ''.'' @ rest"]) simp
  qed
qed

lemma mask_entry_mem:
  assumes m: "m \<in> set (change_mask (mask_entry x ty current desired (name, a)))"
  shows "\<exists>want. map_of desired name = Some want \<and> vknown want \<and> \<not> x_equal x (vget current name) want
    \<and> \<not> never_masked ty name a
    \<and> (m = a_canonical a \<or> (\<exists>rest. m = a_canonical a @ ''.'' @ rest \<and> settable_path (a_fields a) rest))"
proof (cases "map_of desired name")
  case None
  then show ?thesis using m by (simp add: mask_entry_def split: if_splits)
next
  case (Some want)
  then show ?thesis
    using m build_nested_paths [of m x a "a_canonical a" "vget current name" want]
    by (simp add: mask_entry_def Let_def split: if_splits)
qed

text \<open>
  An update never touches what it may not: every entry of the mask names, from the top
  level down, attributes that are not Google's own, of a top-level attribute that the url does
  not say, no setter carries, configuration sets to a known value, and the resource holds
  another value for. An attribute absent from configuration is never masked.
\<close>

theorem mask_sound:
  "\<forall>m \<in> set (snd (build_mask x ty current desired)). \<exists>name a want.
     (name, a) \<in> set (t_attributes ty) \<and> \<not> never_masked ty name a
     \<and> map_of desired name = Some want \<and> vknown want \<and> \<not> x_equal x (vget current name) want
     \<and> (m = a_canonical a \<or> has_prefix m (a_canonical a @ ''.'')) \<and> settable_path (t_attributes ty) m"
proof
  fix m
  assume "m \<in> set (snd (build_mask x ty current desired))"
  then obtain name a where na: "(name, a) \<in> set (t_attributes ty)"
      and m: "m \<in> set (change_mask (mask_entry x ty current desired (name, a)))"
    by (auto simp: build_mask_def Let_def mask_entries_def change_mask_concat)
  from mask_entry_mem [OF m] obtain want where w: "map_of desired name = Some want" "vknown want"
      "\<not> x_equal x (vget current name) want" "\<not> never_masked ty name a"
      and p: "m = a_canonical a \<or> (\<exists>rest. m = a_canonical a @ ''.'' @ rest \<and> settable_path (a_fields a) rest)"
    by blast
  have out: "\<not> a_output a" using w(4) by (simp add: never_masked_def)
  from p have "settable_path (t_attributes ty) m \<and> (m = a_canonical a \<or> has_prefix m (a_canonical a @ ''.''))"
    using here [OF na out] below [OF na out] by (auto simp: has_prefix_iff)
  with na w show "\<exists>name a want. (name, a) \<in> set (t_attributes ty) \<and> \<not> never_masked ty name a
     \<and> map_of desired name = Some want \<and> vknown want \<and> \<not> x_equal x (vget current name) want
     \<and> (m = a_canonical a \<or> has_prefix m (a_canonical a @ ''.'')) \<and> settable_path (t_attributes ty) m"
    by blast
qed

definition changed_config :: attrs where
  "changed_config = [(''type_value'', v_string ''B'' SourceExplicit), (''topic'', v_string ''t2'' SourceExplicit),
     (''etag'', v_string ''e'' SourceExplicit)]"

theorem mask_sound_witness:
  "\<exists>name a want. (name, a) \<in> set (t_attributes topic_type) \<and> map_of changed_config name = Some want
     \<and> (''type'' = a_canonical a \<or> has_prefix ''type'' (a_canonical a @ ''.''))"
proof -
  have "''type'' \<in> set (snd (build_mask sample_ext topic_type [] changed_config))"
    by (simp add: build_mask_def mask_entries_def Let_def mask_entry_def never_masked_def setter_for_def
        sample_attrs sorted_attrs_def changed_config_def walks_into_def change_mask_def
        v_string_def sample_ext_def vget_def zero_val_def)
  from bspec [OF mask_sound this] show ?thesis by blast
qed

text \<open>
  What a mask is to name, written as a relation: walking down the declared attributes Google
  does not set itself, the paths at which configuration's value differs from the resource's,
  where two objects whose parts are declared differ at their parts and not as wholes.
\<close>

inductive changed_path :: "ext \<Rightarrow> level \<Rightarrow> attrs \<Rightarrow> attrs \<Rightarrow> string \<Rightarrow> bool" for x :: ext where
  whole: "(n, a) \<in> set lvl \<Longrightarrow> \<not> a_output a \<Longrightarrow> map_of desired n = Some u \<Longrightarrow> vknown u \<Longrightarrow>
    \<not> x_equal x (vget current n) u \<Longrightarrow> \<not> walks_into a u (vget current n) \<Longrightarrow>
    changed_path x lvl current desired (a_canonical a)"
| part: "(n, a) \<in> set lvl \<Longrightarrow> \<not> a_output a \<Longrightarrow> map_of desired n = Some u \<Longrightarrow> vknown u \<Longrightarrow>
    \<not> x_equal x (vget current n) u \<Longrightarrow> walks_into a u (vget current n) \<Longrightarrow>
    changed_path x (a_fields a) (ref_fields (vget current n)) (ref_fields u) m \<Longrightarrow>
    changed_path x lvl current desired (a_canonical a @ ''.'' @ m)"

inductive_simps changed_path_iff: "changed_path x lvl current desired m"

text \<open>One attribute of the walk, its path prefixed.\<close>

definition changed_below :: "ext \<Rightarrow> attr \<Rightarrow> val option \<Rightarrow> val \<Rightarrow> string \<Rightarrow> bool" where
  "changed_below x a want have_v m \<longleftrightarrow> (case want of
      None \<Rightarrow> False
    | Some u \<Rightarrow> vknown u \<and> \<not> x_equal x have_v u \<and>
        (if walks_into a u have_v
         then (\<exists>r. m = a_canonical a @ ''.'' @ r \<and> changed_path x (a_fields a) (ref_fields have_v) (ref_fields u) r)
         else m = a_canonical a))"

lemma changed_path_below:
  "changed_path x lvl current desired m \<longleftrightarrow>
     (\<exists>n a. (n, a) \<in> set lvl \<and> \<not> a_output a \<and> changed_below x a (map_of desired n) (vget current n) m)"
proof
  assume "changed_path x lvl current desired m"
  then show "\<exists>n a. (n, a) \<in> set lvl \<and> \<not> a_output a \<and> changed_below x a (map_of desired n) (vget current n) m"
    by (cases rule: changed_path.cases) (intro exI conjI, assumption, assumption, simp add: changed_below_def)+
next
  assume "\<exists>n a. (n, a) \<in> set lvl \<and> \<not> a_output a \<and> changed_below x a (map_of desired n) (vget current n) m"
  then obtain n a where na: "(n, a) \<in> set lvl" "\<not> a_output a"
      and c: "changed_below x a (map_of desired n) (vget current n) m" by blast
  from c obtain u where u: "map_of desired n = Some u" "vknown u" "\<not> x_equal x (vget current n) u"
    by (cases "map_of desired n") (simp_all add: changed_below_def)
  show "changed_path x lvl current desired m"
  proof (cases "walks_into a u (vget current n)")
    case True
    with c u obtain r where "m = a_canonical a @ ''.'' @ r"
        "changed_path x (a_fields a) (ref_fields (vget current n)) (ref_fields u) r"
      by (auto simp: changed_below_def)
    then show ?thesis using part [OF na u True] by simp
  next
    case False
    with c u have "m = a_canonical a" by (simp add: changed_below_def)
    then show ?thesis using whole [OF na u False] by simp
  qed
qed

lemma nested_entry_exact:
  assumes "\<And>path h w m. m \<in> set (change_mask (build_nested x f path h w)) \<longleftrightarrow>
    (\<exists>r. m = path @ ''.'' @ r \<and> changed_path x (a_fields f) (ref_fields h) (ref_fields w) r)"
  shows "m \<in> set (change_mask (nested_entry x path h w (name, f))) \<longleftrightarrow>
    \<not> a_output f \<and> (\<exists>r. m = path @ ''.'' @ r \<and>
      changed_below x f (map_of (ref_fields w) name) (vget (ref_fields h) name) r)"
proof (cases "map_of (ref_fields w) name")
  case None
  then show ?thesis by (simp add: nested_entry_def changed_below_def)
next
  case (Some u)
  let ?h = "vget (ref_fields h) name"
  have b: "(if change_mask sub = [] then [] else [(k, v, change_mask sub)]) =
      (if set (change_mask sub) = {} then [] else [(k, v, change_mask sub)])" for sub k v by simp
  have "m \<in> set (change_mask (nested_entry x path h w (name, f))) \<longleftrightarrow> \<not> a_output f \<and> vknown u \<and> \<not> x_equal x ?h u
     \<and> (if walks_into f u ?h
        then m \<in> set (change_mask (build_nested x f (path @ ''.'' @ a_canonical f) ?h u))
        else m = path @ ''.'' @ a_canonical f)"
    by (auto simp: nested_entry_def Some Let_def)
  then show ?thesis unfolding assms by (auto simp: changed_below_def Some)
qed

lemma build_nested_exact:
  "m \<in> set (change_mask (build_nested x a path h w)) \<longleftrightarrow>
     (\<exists>r. m = path @ ''.'' @ r \<and> changed_path x (a_fields a) (ref_fields h) (ref_fields w) r)"
proof (induction "size a" arbitrary: a path h w m rule: less_induct)
  case less
  have ih: "(name, f) \<in> set (a_fields a) \<Longrightarrow>
    m \<in> set (change_mask (nested_entry x path h w (name, f))) \<longleftrightarrow> \<not> a_output f \<and>
      (\<exists>r. m = path @ ''.'' @ r \<and> changed_below x f (map_of (ref_fields w) name) (vget (ref_fields h) name) r)" for name f
    by (rule nested_entry_exact [OF less.hyps [OF size_of_field]])
  have "m \<in> set (change_mask (build_nested x a path h w)) \<longleftrightarrow>
      (\<exists>name f. (name, f) \<in> set (a_fields a) \<and> m \<in> set (change_mask (nested_entry x path h w (name, f))))"
    by (auto simp: build_nested_entries [of x a] change_mask_concat)
  also have "\<dots> \<longleftrightarrow> (\<exists>r. m = path @ ''.'' @ r \<and> changed_path x (a_fields a) (ref_fields h) (ref_fields w) r)"
    unfolding changed_path_below using ih by blast
  finally show ?case .
qed

lemma mask_entry_exact:
  "m \<in> set (change_mask (mask_entry x ty current desired (name, a))) \<longleftrightarrow>
     \<not> never_masked ty name a \<and> changed_below x a (map_of desired name) (vget current name) m"
proof (cases "map_of desired name")
  case None
  then show ?thesis by (simp add: mask_entry_def changed_below_def)
next
  case (Some u)
  have "m \<in> set (change_mask (mask_entry x ty current desired (name, a))) \<longleftrightarrow>
     \<not> never_masked ty name a \<and> vknown u \<and> \<not> x_equal x (vget current name) u
     \<and> (if walks_into a u (vget current name)
        then m \<in> set (change_mask (build_nested x a (a_canonical a) (vget current name) u))
        else m = a_canonical a)"
    by (auto simp: mask_entry_def Some Let_def)
  then show ?thesis unfolding build_nested_exact by (auto simp: changed_below_def Some)
qed

text \<open>The attributes a mask may name at the top.\<close>

definition maskable :: "ctype \<Rightarrow> level" where
  "maskable ty = filter (\<lambda>(n, a). \<not> never_masked ty n a) (t_attributes ty)"

lemma mask_changed:
  "m \<in> set (snd (build_mask x ty current desired)) \<longleftrightarrow> changed_path x (maskable ty) current desired m"
proof -
  have "m \<in> set (snd (build_mask x ty current desired)) \<longleftrightarrow>
      (\<exists>n a. (n, a) \<in> set (t_attributes ty) \<and> m \<in> set (change_mask (mask_entry x ty current desired (n, a))))" for m
    by (auto simp: build_mask_def Let_def mask_entries_def change_mask_concat)
  moreover have "\<not> never_masked ty n a \<and> \<not> a_output a \<longleftrightarrow> \<not> never_masked ty n a" for n a
    by (auto simp: never_masked_def)
  ultimately have "m \<in> set (snd (build_mask x ty current desired)) \<longleftrightarrow>
      changed_path x (maskable ty) current desired m" for m
    unfolding mask_entry_exact changed_path_below maskable_def by (simp add: conj_assoc) metis
  then show ?thesis .
qed


section \<open>Dividing a mask\<close>

lemma str_cut_char: "fst (str_cut s [c]) = takeWhile (\<lambda>d. d \<noteq> c) s"
  by (induction s) (auto simp: str_cut_def has_prefix_def split: option.splits)

lemma mask_of_field_char:
  assumes "CHR ''.'' \<notin> set f"
  shows "(m = f \<or> has_prefix m (f @ ''.'')) \<longleftrightarrow> takeWhile (\<lambda>d. d \<noteq> CHR ''.'') m = f"
proof
  have w: "takeWhile (\<lambda>d. d \<noteq> CHR ''.'') (f @ r) = f @ takeWhile (\<lambda>d. d \<noteq> CHR ''.'') r" for r
    using assms by (intro takeWhile_append2) auto
  assume "m = f \<or> has_prefix m (f @ ''.'')"
  then obtain r where "m = f @ r" "r = [] \<or> (\<exists>t. r = ''.'' @ t)" by (auto simp: has_prefix_iff)
  then show "takeWhile (\<lambda>d. d \<noteq> CHR ''.'') m = f" using w [of r] by auto
next
  assume t: "takeWhile (\<lambda>d. d \<noteq> CHR ''.'') m = f"
  have d: "m = f @ dropWhile (\<lambda>d. d \<noteq> CHR ''.'') m" using t by (metis takeWhile_dropWhile_id)
  show "m = f \<or> has_prefix m (f @ ''.'')"
  proof (cases "dropWhile (\<lambda>d. d \<noteq> CHR ''.'') m")
    case Nil
    then have "m = f" using d by (simp only: append_Nil2)
    then show ?thesis by simp
  next
    case (Cons a rest)
    then have "a = CHR ''.''" using hd_dropWhile [of "\<lambda>d. d \<noteq> CHR ''.''" m] by simp
    with d Cons have "m = (f @ ''.'') @ rest" by simp
    then show ?thesis by (auto simp only: has_prefix_append)
  qed
qed

text \<open>
  On a type that takes one field at a time, the patches divide the mask: the fields are
  distinct, and the masks they carry together are the mask, every entry exactly once.
\<close>

theorem one_field_patches_divide:
  "distinct (top_level_fields paths)
     \<and> mset (concat (map (\<lambda>f. mask_of_field f paths) (top_level_fields paths))) = mset paths"
proof
  let ?top = "takeWhile (\<lambda>d. d \<noteq> CHR ''.'')"
  have t: "top_level_fields paths = firsts [] (map ?top paths)"
    by (simp add: top_level_fields_def str_cut_char)
  show "distinct (top_level_fields paths)" by (simp add: t firsts_distinct)
  have "f \<in> set (top_level_fields paths) \<Longrightarrow> mask_of_field f paths = filter (\<lambda>m. ?top m = f) paths" for f
    using mask_of_field_char [of f] set_takeWhileD
    by (fastforce simp: t firsts_set mask_of_field_def intro: filter_cong)
  then have "map (\<lambda>f. mask_of_field f paths) (top_level_fields paths)
      = map (\<lambda>f. filter (\<lambda>m. ?top m = f) paths) (top_level_fields paths)" by simp
  then show "mset (concat (map (\<lambda>f. mask_of_field f paths) (top_level_fields paths))) = mset paths"
    using mset_by_class [of "top_level_fields paths" ?top paths]
    by (simp only: t firsts_distinct) (simp add: t firsts_set firsts_distinct)
qed

section \<open>The merge under a PUT\<close>

text \<open>The value at a path of keys, and the paths a body leaves alone.\<close>

fun at_path :: "any \<Rightarrow> string list \<Rightarrow> any option" where
  "at_path v [] = Some v"
| "at_path (AObj m) (k # ks) = (case map_of m k of None \<Rightarrow> None | Some v \<Rightarrow> at_path v ks)"
| "at_path v (k # ks) = None"

fun leaves_alone :: "any \<Rightarrow> string list \<Rightarrow> bool" where
  "leaves_alone (AObj m) (k # ks) = (case map_of m k of None \<Rightarrow> True | Some v \<Rightarrow> leaves_alone v ks)"
| "leaves_alone v ks = False"

text \<open>Objects as Go's maps are: at every depth no key twice.\<close>

inductive keys_once :: "any \<Rightarrow> bool" where
  obj: "wf_map m \<Longrightarrow> (\<And>k v. map_of m k = Some v \<Longrightarrow> keys_once v) \<Longrightarrow> keys_once (AObj m)"
| leaf: "any_obj (Some v) = None \<Longrightarrow> keys_once v"

lemma keys_once_objE:
  assumes "keys_once (AObj m)"
  obtains "wf_map m" "\<And>k v. map_of m k = Some v \<Longrightarrow> keys_once v"
  using assms by (cases rule: keys_once.cases) (auto simp: any_obj_def)

definition merged_value :: "any option \<Rightarrow> any \<Rightarrow> any" where
  "merged_value have_v v = (case v of
      AObj sub \<Rightarrow> (case any_obj have_v of Some m \<Rightarrow> AObj (merge_changed m sub) | None \<Rightarrow> v)
    | _ \<Rightarrow> v)"

lemma merge_changed_Cons:
  "merge_changed base ((k, v) # kvs) = merge_changed (AList.update k (merged_value (map_of base k) v) base) kvs"
  by (simp add: merged_value_def)

lemma merge_changed_lookup:
  "wf_map c \<Longrightarrow> map_of (merge_changed base c) k = (case map_of c k of
     None \<Rightarrow> map_of base k | Some v \<Rightarrow> Some (merged_value (map_of base k) v))"
proof (induction c arbitrary: base)
  case (Cons kv c)
  obtain k' v where kv: "kv = (k', v)" by (cases kv)
  from Cons.prems have w: "wf_map c" "map_of c k' = None" by (auto simp: kv wf_map_def map_of_eq_None_iff)
  show ?case
    unfolding kv merge_changed_Cons Cons.IH [OF w(1)] using w(2) by (auto split: option.splits)
qed simp

lemma any_obj_Some: "any_obj a = Some m \<longleftrightarrow> a = Some (AObj m)"
  by (auto simp: any_obj_def split: option.splits any.splits)

lemma leaves_alone_nothing: "leaves_alone v ks \<Longrightarrow> at_path v ks = None"
  by (induction v ks rule: leaves_alone.induct) (auto split: option.splits)

lemma merge_keeps:
  "keys_once (AObj c) \<Longrightarrow> leaves_alone (AObj c) p \<Longrightarrow>
     at_path (AObj (merge_changed base c)) p = at_path (AObj base) p"
proof (induction p arbitrary: base c)
  case (Cons k ks)
  from Cons.prems(1) have w: "wf_map c" "\<And>v. map_of c k = Some v \<Longrightarrow> keys_once v"
    by (blast elim: keys_once_objE)+
  show ?case
  proof (cases "map_of c k")
    case None
    then show ?thesis by (simp add: merge_changed_lookup [OF w(1)])
  next
    case (Some v)
    with Cons.prems(2) have la: "leaves_alone v ks" by simp
    then obtain sub where v: "v = AObj sub" by (cases v; cases ks) auto
    show ?thesis
    proof (cases "any_obj (map_of base k)")
      case None
      then have "(case map_of base k of None \<Rightarrow> None | Some u \<Rightarrow> at_path u ks) = None"
        using la v by (cases ks; cases "map_of base k") (auto simp: any_obj_def split: any.splits)
      then show ?thesis using None Some leaves_alone_nothing [OF la]
        by (simp add: merge_changed_lookup [OF w(1)] merged_value_def v)
    next
      case (Some m)
      then have b: "map_of base k = Some (AObj m)" by (simp add: any_obj_Some)
      show ?thesis using \<open>map_of c k = Some v\<close> Cons.IH [of sub m] w(2) la v
        by (simp add: merge_changed_lookup [OF w(1)] merged_value_def b any_obj_def)
    qed
  qed
qed simp

lemma merge_sets:
  "keys_once (AObj c) \<Longrightarrow> p \<noteq> [] \<Longrightarrow> at_path (AObj c) p = Some v \<Longrightarrow> any_obj (Some v) = None \<Longrightarrow>
     at_path (AObj (merge_changed base c)) p = Some v"
proof (induction p arbitrary: base c)
  case (Cons k ks)
  from Cons.prems(1) have w: "wf_map c" "\<And>v. map_of c k = Some v \<Longrightarrow> keys_once v"
    by (auto elim: keys_once_objE)+
  from Cons.prems(3) obtain u where u: "map_of c k = Some u" "at_path u ks = Some v"
    by (auto split: option.splits)
  show ?case
  proof (cases "\<exists>sub m. u = AObj sub \<and> any_obj (map_of base k) = Some m")
    case True
    then obtain sub m where s: "u = AObj sub" "any_obj (map_of base k) = Some m" by blast
    have "ks \<noteq> []" using s u Cons.prems(4) by (auto simp: any_obj_def)
    then show ?thesis using Cons.IH [of sub m] w(2) u s Cons.prems(4)
      by (simp add: merge_changed_lookup [OF w(1)] merged_value_def)
  next
    case False
    then have "merged_value (map_of base k) u = u"
      by (auto simp: merged_value_def split: any.splits option.splits)
    then show ?thesis using u by (simp add: merge_changed_lookup [OF w(1)])
  qed
qed simp

text \<open>
  C12. The body of a PUT is the resource with the changes written into it: at every path where
  the changes hold a value that is not an object, so does the body, and at every path the
  changes leave alone the body holds what the resource held.
\<close>

theorem put_body_merges:
  assumes "keys_once (AObj changed)"
  shows "(p \<noteq> [] \<and> at_path (AObj changed) p = Some v \<and> any_obj (Some v) = None \<longrightarrow>
      at_path (AObj (merge_changed base changed)) p = Some v)
    \<and> (leaves_alone (AObj changed) p \<longrightarrow> at_path (AObj (merge_changed base changed)) p = at_path (AObj base) p)"
  using merge_sets [OF assms] merge_keeps [OF assms] by blast

theorem put_body_merges_witness:
  "at_path (AObj (merge_changed [(''a'', AObj [(''x'', AInt 1), (''y'', AInt 2)])]
       [(''a'', AObj [(''x'', AInt 9)])])) [''a'', ''x''] = Some (AInt 9)
   \<and> at_path (AObj (merge_changed [(''a'', AObj [(''x'', AInt 1), (''y'', AInt 2)])]
       [(''a'', AObj [(''x'', AInt 9)])])) [''a'', ''y''] = Some (AInt 2)"
proof -
  have "keys_once (AObj [(''a'', AObj [(''x'', AInt 9)])])"
    by (auto intro!: keys_once.obj keys_once.leaf [of "AInt i" for i] simp: wf_map_def any_obj_def split: if_splits)
  note put_body_merges [OF this, of "[''a'', ''x'']" "AInt 9" "[(''a'', AObj [(''x'', AInt 1), (''y'', AInt 2)])]"]
    put_body_merges [OF this, of "[''a'', ''y'']" ANil "[(''a'', AObj [(''x'', AInt 1), (''y'', AInt 2)])]"]
  then show ?thesis by (simp add: any_obj_def)
qed

end
