(* ===== verification/Plugin.thy ===== *)
theory Plugin
  imports Discovery
begin

text \<open>
  One instance's configuration (internal/gcpplugin/config.go, \<open>ParseConfig\<close>) and the settings
  \<open>Plugin.New\<close> builds from it (internal/gcpplugin/plugin.go). \<open>cf_value\<close> is \<open>Config.Value\<close> of
  infrena, which is not part of this repository; \<open>cf_keys\<close> are the keys of \<open>Config.Values\<close>.
\<close>

record config =
  cf_instance :: string
  cf_keys :: "string list"
  cf_value :: "string \<Rightarrow> val option"

record plugin_instance =
  in_project :: string
  in_region :: string
  in_zone :: string
  in_credentials_file :: string
  in_impersonate :: string
  in_quota_project :: string
  in_discover_types :: "string list"
  in_discover_projects :: "string list"
  in_name :: string

definition known_keys :: "string list" where
  "known_keys = [''project'', ''region'', ''zone'', ''credentials_file'', ''impersonate_service_account'',
     ''quota_project'', ''discover_types'', ''discover_projects'']"

text \<open>\<open>%v\<close> of a slice of strings.\<close>

definition show_list :: "string list \<Rightarrow> string" where
  "show_list xs = ''['' @ join_with '' '' xs @ '']''"

definition config_string :: "ext \<Rightarrow> config \<Rightarrow> string \<Rightarrow> gerr + string" where
  "config_string x cfg key = (case cf_value cfg key of
      None \<Rightarrow> Inr []
    | Some v \<Rightarrow> if vkind v \<noteq> KString
        then Inl (Errorf ''provider %q: %s must be a string, got %s''
               [cf_instance cfg, key, x_kind_name x (vkind v)])
        else Inr (raw_str v))"

fun config_items :: "ext \<Rightarrow> config \<Rightarrow> string \<Rightarrow> nat \<Rightarrow> val list \<Rightarrow> gerr + string list" where
  "config_items x cfg key j [] = Inr []"
| "config_items x cfg key j (v # vs) =
     (if vkind v \<noteq> KString
      then Inl (Errorf ''provider %q: %s[%d] must be a string, got %s''
             [cf_instance cfg, key, format_int (int j), x_kind_name x (vkind v)])
      else map_sum id (Cons (raw_str v)) (config_items x cfg key (Suc j) vs))"

definition config_list :: "ext \<Rightarrow> config \<Rightarrow> string \<Rightarrow> gerr + string list" where
  "config_list x cfg key = (case cf_value cfg key of
      None \<Rightarrow> Inr []
    | Some v \<Rightarrow> if vkind v \<noteq> KList
        then Inl (Errorf ''provider %q: %s must be a list, got %s''
               [cf_instance cfg, key, x_kind_name x (vkind v)])
        else config_items x cfg key 0 (ref_vals v))"

fun config_strings :: "ext \<Rightarrow> config \<Rightarrow> string list \<Rightarrow> gerr + string list" where
  "config_strings x cfg [] = Inr []"
| "config_strings x cfg (k # ks) = (case config_string x cfg k of
      Inl e \<Rightarrow> Inl e
    | Inr s \<Rightarrow> map_sum id (Cons s) (config_strings x cfg ks))"

definition parse_config :: "ext \<Rightarrow> config \<Rightarrow> gerr + plugin_instance" where
  "parse_config x cfg =
     (let unknown = sort (filter (\<lambda>k. k \<notin> set known_keys) (cf_keys cfg))
      in if unknown \<noteq> [] then
           Inl (Errorf ''provider %q: unknown configuration %v; accepted keys are %v''
             [cf_instance cfg, show_list unknown, show_list (sort known_keys)])
         else (case config_strings x cfg [''project'', ''region'', ''zone'', ''credentials_file'',
                      ''impersonate_service_account'', ''quota_project''] of
             Inr [pr, re, zo, cr, im, qu] \<Rightarrow>
               (case config_list x cfg ''discover_types'' of
                  Inl e \<Rightarrow> Inl e
                | Inr ts \<Rightarrow> (case config_list x cfg ''discover_projects'' of
                    Inl e \<Rightarrow> Inl e
                  | Inr ps \<Rightarrow> Inr \<lparr>in_project = pr, in_region = re, in_zone = zo,
                      in_credentials_file = cr, in_impersonate = im, in_quota_project = qu,
                      in_discover_types = ts, in_discover_projects = ps, in_name = cf_instance cfg\<rparr>))
           | Inr _ \<Rightarrow> Inl (Errorf ''unreachable'' [])
           | Inl e \<Rightarrow> Inl e))"

text \<open>The settings of an instance that talks to Google itself.\<close>

definition settings_of :: "plugin_instance \<Rightarrow> settings" where
  "settings_of inst = \<lparr>st_project = in_project inst, st_region = in_region inst, st_zone = in_zone inst,
     st_discover_types = in_discover_types inst, st_discover_projects = in_discover_projects inst,
     st_asset_inventory_base_url = [], st_resource_manager_base_url = []\<rparr>"

end
