(* ===== verification/Effects.thy ===== *)
theory Effects
  imports Plugin
begin

text \<open>
  What every operation does to the world, proved once for any relation the primitive effects
  respect. \<open>world_order\<close> is the interface: a preorder on worlds that holds across a line on
  stderr, the clock moving on, a random number drawn, a bucket updated, an allowed request
  sent, a warning remembered and the aliases resolved. Its lemmas carry the relation through
  the client, the polling loops and every provider operation. It is interpreted twice on the
  model: for the order in which the trace, the log and the clock only grow, and for the
  requests being \<open>GET\<close>s.
\<close>

section \<open>Running from a world\<close>

definition runs :: "('w \<Rightarrow> 'w \<Rightarrow> bool) \<Rightarrow> 'w \<Rightarrow> ('a \<times> 'w) option \<Rightarrow> bool" where
  "runs R w0 m \<longleftrightarrow> (\<forall>a w. m = Some (a, w) \<longrightarrow> R w0 w)"

lemma runs_ret [simp]: "runs R w0 (Some (a, w)) \<longleftrightarrow> R w0 w"
  by (simp add: runs_def)

lemma runs_None [simp]: "runs R w0 None"
  by (simp add: runs_def)

lemma runs_bind:
  "runs R w0 m \<Longrightarrow> (\<And>a w. R w0 w \<Longrightarrow> runs R w0 (f (a, w))) \<Longrightarrow> runs R w0 (Option.bind m f)"
  by (cases m) (auto simp: runs_def)

lemma runs_bind_eq:
  "runs R w0 m \<Longrightarrow> (\<And>a w. m = Some (a, w) \<Longrightarrow> R w0 w \<Longrightarrow> runs R w0 (f (a, w))) \<Longrightarrow>
     runs R w0 (Option.bind m f)"
  by (cases m) (auto simp: runs_def)

lemma runs_snd: "runs R w0 m \<Longrightarrow> m = Some y \<Longrightarrow> R w0 (snd y)"
  by (cases y) (simp add: runs_def)

lemma runs_of_snd: "(\<And>y. m = Some y \<Longrightarrow> R w0 (snd y)) \<Longrightarrow> runs R w0 m"
  by (auto simp: runs_def)

lemma runs_D: "runs R w0 m \<Longrightarrow> m = Some (a, w) \<Longrightarrow> R w0 w"
  by (simp add: runs_def)

section \<open>The interface of the client\<close>

locale client_order =
  fixes R :: "'s world \<Rightarrow> 's world \<Rightarrow> bool" and allowed :: "string \<Rightarrow> bool"
  assumes refl: "R w w"
    and log: "R w0 w \<Longrightarrow> R w0 (w\<lparr>w_log := w_log w @ [l]\<rparr>)"
    and tick: "R w0 w \<Longrightarrow> w_now w \<le> t \<Longrightarrow> R w0 (w\<lparr>w_now := t\<rparr>)"
    and draw: "R w0 w \<Longrightarrow> R w0 (w\<lparr>w_draws := Suc (w_draws w)\<rparr>)"
    and bucket: "R w0 w \<Longrightarrow> R w0 (w\<lparr>w_limiters := ls\<rparr>)"
    and sent: "R w0 w \<Longrightarrow> w_now w \<le> t \<Longrightarrow> allowed (rq_method rq) \<Longrightarrow>
      R w0 (w\<lparr>w_srv := s, w_now := t, w_sent := w_sent w @ [rq]\<rparr>)"
begin

lemma log_err: "R w0 w \<Longrightarrow> R w0 (log_err f args e w)"
  by (simp add: log_err_def log)

lemma timer_or_done: "R w0 w \<Longrightarrow> timer_or_done c wait w = (e, w') \<Longrightarrow> R w0 w'"
  by (auto simp: timer_or_done_def Let_def split: option.splits if_splits intro!: tick)

lemma timer_or_done_snd: "R w0 w \<Longrightarrow> R w0 (snd (timer_or_done c wait w))"
  by (metis timer_or_done prod.collapse)

lemma draw_delay: "R w0 w \<Longrightarrow> draw_delay cl n ra w = (d, w') \<Longrightarrow> R w0 w'"
  by (auto simp: draw_delay_def split: if_splits intro: draw)

lemma sleep_backoff: "R w0 w \<Longrightarrow> sleep_backoff cl c n w = (e, w') \<Longrightarrow> R w0 w'"
  by (auto simp: sleep_backoff_def split: prod.splits if_splits dest: draw_delay timer_or_done)

lemma sleep_before_retry: "R w0 w \<Longrightarrow> sleep_before_retry cl c n le w = (e, w') \<Longrightarrow> R w0 w'"
  by (auto simp: sleep_before_retry_def Let_def split: prod.splits if_splits dest: draw_delay timer_or_done)

lemma limiter_for: "R w0 w \<Longrightarrow> R w0 (limiter_for cl key w)"
  by (simp add: limiter_for_def bucket)

lemma limiter_wait: "limiter_wait c key w = Some y \<Longrightarrow> R w0 w \<longrightarrow> R w0 (snd y)"
proof (rule limiter_wait.raw_induct [where P = "\<lambda>c key w y. R w0 w \<longrightarrow> R w0 (snd y)"])
  fix lw c key w and y :: "gerr option \<times> 's world"
  assume IH: "\<And>c key w y. lw c key w = Some y \<Longrightarrow> R w0 w \<longrightarrow> R w0 (snd y)"
    and step: "(case map_of (w_limiters w) key of
      None \<Rightarrow> Some (None, w)
    | Some l \<Rightarrow>
        if l_qps l \<le> 0 then Some (None, w)
        else (case take_token l (w_now w) of (wait, ok, l') \<Rightarrow>
          let w' = w\<lparr>w_limiters := AList.update key l' (w_limiters w)\<rparr>
          in if ok then Some (None, w')
             else (case timer_or_done c wait w' of (e, w'') \<Rightarrow>
               (case e of Some err \<Rightarrow> Some (Some err, w'') | None \<Rightarrow> lw c key w'')))) = Some y"
  show "R w0 w \<longrightarrow> R w0 (snd y)"
    using step by (auto simp: Let_def split: option.splits if_splits prod.splits
        intro: bucket timer_or_done_snd dest: timer_or_done [OF bucket] dest!: IH)
qed assumption

lemma limiter_wait_runs: "R w0 w \<Longrightarrow> runs R w0 (limiter_wait c key w)"
  by (auto simp: runs_def dest!: limiter_wait)

lemma do_once:
  "R w0 w \<Longrightarrow> allowed meth \<Longrightarrow> do_once cl c meth full body bound w = (r, w') \<Longrightarrow> R w0 w'"
  by (auto simp: do_once_def Let_def split: prod.splits intro!: sent)

lemma do_attempts_runs:
  "R w0 w \<Longrightarrow> allowed meth \<Longrightarrow>
     runs R w0 (do_attempts cl c meth full body bound key n attempt le w)"
proof (induction n arbitrary: attempt le w)
  case (Suc n)
  show ?case
  proof (cases "if attempt > 0 then sleep_before_retry cl c attempt le w else (None, w)")
    case (Pair e w1)
    then have R1: "R w0 w1" using Suc.prems(1) by (auto split: if_splits dest: sleep_before_retry)
    show ?thesis
    proof (cases e)
      case None
      have "runs R w0 (case do_once cl c meth full body bound w2 of
          (Inr result, w) \<Rightarrow> Some (Inr result, w)
        | (Inl e, w) \<Rightarrow> if classify_error e \<noteq> SafeToRetry then Some (Inl e, w)
            else do_attempts cl c meth full body bound key n (Suc attempt) e w)" if "R w0 w2" for w2
        using do_once [OF that Suc.prems(2)] Suc.IH Suc.prems(2)
        by (auto split: prod.splits sum.splits)
      then show ?thesis
        using Pair None
        by (auto split: option.splits intro!: runs_bind limiter_wait_runs [OF R1])
    next
      case (Some err)
      with Pair R1 show ?thesis by simp
    qed
  qed
qed simp

lemma client_do_bounded_runs:
  "R w0 w \<Longrightarrow> allowed meth \<Longrightarrow> runs R w0 (client_do_bounded cl c meth url body bound w)"
  by (simp add: client_do_bounded_def Let_def do_attempts_runs limiter_for)

lemma client_do_runs: "R w0 w \<Longrightarrow> allowed meth \<Longrightarrow> runs R w0 (client_do cl c meth url body w)"
  by (simp add: client_do_def client_do_bounded_runs)

lemma client_do_long_poll_runs:
  "R w0 w \<Longrightarrow> allowed meth \<Longrightarrow> runs R w0 (client_do_long_poll cl c meth url body bound w)"
  by (simp add: client_do_long_poll_def client_do_bounded_runs)

end

section \<open>The client keeps the aliases\<close>

definition same_projects :: "'s world \<Rightarrow> 's world \<Rightarrow> bool" where
  "same_projects w w' \<longleftrightarrow> w_projects w' = w_projects w"

interpretation keeps: client_order same_projects "\<lambda>m. True"
  by unfold_locales (simp_all add: same_projects_def)

lemma client_do_keeps_projects:
  "client_do cl c meth url b w = Some (r, w') \<Longrightarrow> w_projects w' = w_projects w"
  using keeps.client_do_runs [of w w] by (auto simp: runs_def same_projects_def)

section \<open>The interface of the provider\<close>

locale world_order = client_order +
  assumes seen: "R w0 w \<Longrightarrow> R w0 (w\<lparr>w_seen := k # w_seen w\<rparr>)"
    and resolved: "R w0 w \<Longrightarrow> w_projects w = None \<Longrightarrow> R w0 (w\<lparr>w_projects := Some a\<rparr>)"
begin

lemma aliases_runs:
  assumes "R w0 w" "allowed ''GET''"
  shows "runs R w0 (project_aliases_of p c w)"
proof -
  have "runs R w0 (do {
      (r, w) \<leftarrow> client_do (p_client p) c ''GET'' u None w;
      let (a, w) = (case r of Inl e \<Rightarrow> (no_aliases, log_err f args (Some e) w)
        | Inr body \<Rightarrow> (aliases_from pr body, w));
      Some (a, w\<lparr>w_projects := Some a\<rparr>) })" if n: "w_projects w = None" for u pr f args
  proof (rule runs_bind_eq [OF client_do_runs [OF assms]])
    fix r w1
    assume e: "client_do (p_client p) c ''GET'' u None w = Some (r, w1)" and R1: "R w0 w1"
    have n1: "w_projects w1 = None" using client_do_keeps_projects [OF e] n by simp
    have n2: "w_projects (log_err f args x w1) = None" for x by (simp add: log_err_def n1)
    show "runs R w0 (case (r, w1) of (r, w) \<Rightarrow>
      let (a, w) = (case r of Inl e \<Rightarrow> (no_aliases, log_err f args (Some e) w)
        | Inr body \<Rightarrow> (aliases_from pr body, w))
      in Some (a, w\<lparr>w_projects := Some a\<rparr>))"
      using resolved [OF R1 n1] resolved [OF log_err [OF R1] n2] by (cases r) simp_all
  qed
  then show ?thesis
    using assms(1) by (auto simp: project_aliases_of_def Let_def split: option.splits)
qed

lemma reconcile_runs:
  "R w0 w \<Longrightarrow> allowed ''GET'' \<Longrightarrow> runs R w0 (reconcile_with_aliases p c lvl ref inc w)"
  by (auto simp: reconcile_with_aliases_def Let_def intro!: runs_bind aliases_runs)

lemma drop_undeclared: "R w0 w \<Longrightarrow> R w0 (drop_undeclared ty n w)"
  by (auto simp: drop_undeclared_def Let_def intro: log_err seen)

lemma fold_drop: "R w0 w \<Longrightarrow> R w0 (fold (drop_undeclared ty) ns w)"
  by (induction ns arbitrary: w) (auto intro: drop_undeclared)

lemma declared_only: "R w0 w \<Longrightarrow> declared_only ty attrs w = (a, w') \<Longrightarrow> R w0 w'"
  by (auto simp: declared_only_def fold_drop)

lemma state_from_runs:
  assumes "R w0 w" "allowed ''GET''"
  shows "runs R w0 (state_from p c ty current idAttrs body w)"
  using assms
  by (auto simp: state_from_def Let_def log_err split: sum.splits prod.splits option.splits
      intro!: runs_bind reconcile_runs dest: declared_only)

lemma state_from_listing_runs:
  "R w0 w \<Longrightarrow> allowed ''GET'' \<Longrightarrow> runs R w0 (state_from_listing p c ty current idAttrs body w)"
  by (auto simp: state_from_listing_def intro!: runs_bind state_from_runs)

lemma list_parent_pages_runs:
  assumes "R w0 w" "allowed ''GET''"
  shows "runs R w0 (list_parent_pages p c ty rid url token w)"
proof (rule runs_of_snd)
  fix y
  assume "list_parent_pages p c ty rid url token w = Some y"
  moreover have "list_parent_pages p c ty rid url token w = Some y \<Longrightarrow> R w0 w \<longrightarrow> R w0 (snd y)"
  proof (rule list_parent_pages.raw_induct [where P = "\<lambda>p c ty rid url token w y. R w0 w \<longrightarrow> R w0 (snd y)"], goal_cases)
    case (1 f p c ty rid url token w y)
    have IH: "R w0 w \<Longrightarrow> runs R w0 (f p c ty rid url token w)" for p c ty rid url token w
      using 1(2) by (blast intro: runs_of_snd)
    show ?case
      by (rule impI, rule runs_snd [OF _ 1(3)])
        (auto simp: Let_def split: sum.splits option.splits intro!: runs_bind client_do_runs assms(2) IH)
  qed assumption
  ultimately show "R w0 (snd y)" using assms(1) by simp
qed

lemma read_by_listing_parent_runs:
  "R w0 w \<Longrightarrow> allowed ''GET'' \<Longrightarrow> runs R w0 (read_by_listing_parent p c ty rid w)"
  by (auto simp: read_by_listing_parent_def split: sum.splits intro!: list_parent_pages_runs)

lemma read_loop_runs:
  assumes "R w0 w" "allowed ''GET''"
  shows "runs R w0 (read_loop p c ty current attrs url d n w)"
proof (rule runs_of_snd)
  fix y
  assume "read_loop p c ty current attrs url d n w = Some y"
  moreover have "read_loop p c ty current attrs url d n w = Some y \<Longrightarrow> R w0 w \<longrightarrow> R w0 (snd y)"
  proof (rule read_loop.raw_induct [where P = "\<lambda>p c ty current attrs url d n w y. R w0 w \<longrightarrow> R w0 (snd y)"], goal_cases)
    case (1 f p c ty current attrs url d n w y)
    have IH: "R w0 w \<Longrightarrow> runs R w0 (f p c ty current attrs url d n w)" for p c ty current attrs url d n w
      using 1(2) by (blast intro: runs_of_snd)
    show ?case
      by (rule impI, rule runs_snd [OF _ 1(3)])
        (auto split: sum.splits option.splits prod.splits
          intro!: runs_bind client_do_runs state_from_runs assms(2) IH dest: sleep_backoff)
  qed assumption
  ultimately show "R w0 (snd y)" using assms(1) by simp
qed

lemma read_resource_runs:
  "R w0 w \<Longrightarrow> allowed ''GET'' \<Longrightarrow> runs R w0 (read_resource p c current w)"
  by (auto simp: read_resource_def split: option.splits sum.splits
      intro!: runs_bind read_by_listing_parent_runs state_from_listing_runs read_loop_runs)

lemma import_resource_runs:
  "R w0 w \<Longrightarrow> allowed ''GET'' \<Longrightarrow> runs R w0 (import_resource p c ty rid w)"
  by (auto simp: import_resource_def split: option.splits sum.splits intro!: read_resource_runs)

lemma lro_turn_runs:
  "R w0 w \<Longrightarrow> allowed ''GET'' \<Longrightarrow> runs R w0 (lro_turn p c ty n op w)"
  by (auto simp: lro_turn_def Let_def split: option.splits prod.splits sum.splits
      intro!: client_do_runs dest: sleep_backoff)

lemma operation_method: "operation_request_url p ty op = Inr (m, u) \<Longrightarrow> m = ''GET'' \<or> m = ''POST''"
  by (auto simp: operation_request_url_def Let_def split: if_splits sum.splits)

lemma compute_turn_runs:
  assumes "R w0 w" "allowed ''GET''" "allowed ''POST''"
  shows "runs R w0 (compute_turn p c ty n op w)"
proof -
  have "allowed m" if "operation_request_url p ty op = Inr (m, u)" for m u
    using operation_method [OF that] assms by auto
  then show ?thesis
    using assms(1)
    by (auto simp: compute_turn_def Let_def split: option.splits prod.splits sum.splits if_splits
        intro!: client_do_runs client_do_long_poll_runs dest: sleep_backoff)
qed

lemma await_long_running_runs:
  assumes "R w0 w" "allowed ''GET''"
  shows "runs R w0 (await_long_running p c ty n op w)"
proof (rule runs_of_snd)
  fix y
  assume "await_long_running p c ty n op w = Some y"
  moreover have "await_long_running p c ty n op w = Some y \<Longrightarrow> R w0 w \<longrightarrow> R w0 (snd y)"
  proof (rule await_long_running.raw_induct [where P = "\<lambda>p c ty n op w y. R w0 w \<longrightarrow> R w0 (snd y)"], goal_cases)
    case (1 f p c ty n op w y)
    have IH: "R w0 w \<Longrightarrow> runs R w0 (f p c ty n op w)" for p c ty n op w
      using 1(2) by (blast intro: runs_of_snd)
    show ?case
      by (rule impI, rule runs_snd [OF _ 1(3)])
        (auto split: option.splits sum.splits intro!: runs_bind lro_turn_runs assms(2) IH)
  qed assumption
  ultimately show "R w0 (snd y)" using assms(1) by simp
qed

lemma await_compute_operation_runs:
  assumes "R w0 w" "allowed ''GET''" "allowed ''POST''"
  shows "runs R w0 (await_compute_operation p c ty n op w)"
proof (rule runs_of_snd)
  fix y
  assume "await_compute_operation p c ty n op w = Some y"
  moreover have "await_compute_operation p c ty n op w = Some y \<Longrightarrow> R w0 w \<longrightarrow> R w0 (snd y)"
  proof (rule await_compute_operation.raw_induct [where P = "\<lambda>p c ty n op w y. R w0 w \<longrightarrow> R w0 (snd y)"], goal_cases)
    case (1 f p c ty n op w y)
    have IH: "R w0 w \<Longrightarrow> runs R w0 (f p c ty n op w)" for p c ty n op w
      using 1(2) by (blast intro: runs_of_snd)
    show ?case
      by (rule impI, rule runs_snd [OF _ 1(3)])
        (auto split: option.splits sum.splits intro!: runs_bind compute_turn_runs assms(2,3) IH)
  qed assumption
  ultimately show "R w0 (snd y)" using assms(1) by simp
qed

lemma await_as_runs:
  "R w0 w \<Longrightarrow> allowed ''GET'' \<Longrightarrow> allowed ''POST'' \<Longrightarrow> runs R w0 (await_as p ty k resp w)"
  by (auto simp: await_as_def split: await_kind.splits intro!: await_long_running_runs await_compute_operation_runs)

lemma await_runs:
  "R w0 w \<Longrightarrow> allowed ''GET'' \<Longrightarrow> allowed ''POST'' \<Longrightarrow> runs R w0 (await p ty resp w)"
  by (simp add: await_def await_as_runs)

lemma discovered_from_asset:
  "R w0 w \<Longrightarrow> discovered_from_asset x ix wanted r w = (d, w') \<Longrightarrow> R w0 w'"
  by (auto simp: discovered_from_asset_def Let_def split: if_splits list.splits intro: log_err)

lemma assets_found: "R w0 w \<Longrightarrow> assets_found x ix wanted rs w = (ds, w') \<Longrightarrow> R w0 w'"
  by (induction rs arbitrary: w ds) (auto split: prod.splits dest: discovered_from_asset)

lemma listed_attributes: "R w0 w \<Longrightarrow> listed_attributes x ty rid b w = (a, w') \<Longrightarrow> R w0 w'"
  by (auto simp: listed_attributes_def dest: declared_only)

lemma items_found: "R w0 w \<Longrightarrow> items_found x ty sc items w = (ds, w') \<Longrightarrow> R w0 w'"
proof (induction items arbitrary: w ds)
  case (Cons item items)
  show ?case
    using Cons.prems by (auto split: if_splits sum.splits prod.splits
      dest: listed_attributes intro: Cons.IH log_err Cons.IH [OF log_err])
qed simp

lemma cai_pages_runs:
  assumes "R w0 w" "allowed ''GET''"
  shows "runs R w0 (cai_pages p c ix wanted url token out w)"
proof (rule runs_of_snd)
  fix y
  assume "cai_pages p c ix wanted url token out w = Some y"
  moreover have "cai_pages p c ix wanted url token out w = Some y \<Longrightarrow> R w0 w \<longrightarrow> R w0 (snd y)"
  proof (rule cai_pages.raw_induct [where P = "\<lambda>p c ix wanted url token out w y. R w0 w \<longrightarrow> R w0 (snd y)"], goal_cases)
    case (1 f p c ix wanted url token out w y)
    have IH: "R w0 w \<Longrightarrow> runs R w0 (f p c ix wanted url token out w)" for p c ix wanted url token out w
      using 1(2) by (blast intro: runs_of_snd)
    show ?case
      by (rule impI, rule runs_snd [OF _ 1(3)])
        (auto simp: Let_def split: sum.splits prod.splits intro!: runs_bind client_do_runs assms(2) IH dest: assets_found)
  qed assumption
  ultimately show "R w0 (snd y)" using assms(1) by simp
qed

lemma list_type_pages_runs:
  assumes "R w0 w" "allowed ''GET''"
  shows "runs R w0 (list_type_pages p c ty sc coll token sn out w)"
proof (rule runs_of_snd)
  fix y
  assume "list_type_pages p c ty sc coll token sn out w = Some y"
  moreover have "list_type_pages p c ty sc coll token sn out w = Some y \<Longrightarrow> R w0 w \<longrightarrow> R w0 (snd y)"
  proof (rule list_type_pages.raw_induct [where P = "\<lambda>p c ty sc coll token sn out w y. R w0 w \<longrightarrow> R w0 (snd y)"], goal_cases)
    case (1 f p c ty sc coll token sn out w y)
    have IH: "R w0 w \<Longrightarrow> runs R w0 (f p c ty sc coll token sn out w)" for p c ty sc coll token sn out w
      using 1(2) by (blast intro: runs_of_snd)
    show ?case
      by (rule impI, rule runs_snd [OF _ 1(3)])
        (auto simp: Let_def split: sum.splits prod.splits intro!: runs_bind client_do_runs assms(2) IH dest: items_found)
  qed assumption
  ultimately show "R w0 (snd y)" using assms(1) by simp
qed

lemma discover_via_cai_runs:
  "R w0 w \<Longrightarrow> allowed ''GET'' \<Longrightarrow> runs R w0 (discover_via_cai p c project want w)"
  by (auto simp: discover_via_cai_def Let_def split: sum.splits intro!: cai_pages_runs)

lemma list_one_type_runs:
  "R w0 w \<Longrightarrow> allowed ''GET'' \<Longrightarrow> runs R w0 (list_one_type p c project ty w)"
  by (auto simp: list_one_type_def split: sum.splits intro!: list_type_pages_runs)

lemma list_types_runs:
  "R w0 w \<Longrightarrow> allowed ''GET'' \<Longrightarrow> runs R w0 (list_types p c project names w)"
proof (induction names arbitrary: w)
  case (Cons name names)
  show ?case
    using Cons.prems
    by (auto split: option.splits sum.splits intro!: runs_bind list_one_type_runs log_err Cons.IH)
qed simp

lemma discover_via_list_runs:
  "R w0 w \<Longrightarrow> allowed ''GET'' \<Longrightarrow> runs R w0 (discover_via_list p c project want w)"
  by (simp add: discover_via_list_def Let_def list_types_runs)

lemma discover_projects_runs:
  "R w0 w \<Longrightarrow> allowed ''GET'' \<Longrightarrow> runs R w0 (discover_projects p c want projects w)"
proof (induction projects arbitrary: w)
  case (Cons project projects)
  then show ?case
    by (auto split: sum.splits intro!: runs_bind discover_via_cai_runs discover_via_list_runs log_err)
qed simp

lemma discover_runs: "R w0 w \<Longrightarrow> allowed ''GET'' \<Longrightarrow> runs R w0 (discover p c want w)"
  by (auto simp: discover_def simp del: discover_projects.simps intro!: runs_bind discover_projects_runs)

lemma send_patch_runs:
  "R w0 w \<Longrightarrow> allowed (t_update_verb ty) \<Longrightarrow> runs R w0 (send_patch p c ty url b paths w)"
  by (simp add: send_patch_def Let_def client_do_runs)

lemma fresh_lock_runs: "R w0 w \<Longrightarrow> allowed ''GET'' \<Longrightarrow> runs R w0 (fresh_lock p ty rid attrs w)"
  by (auto simp: fresh_lock_def split: sum.splits intro!: runs_bind client_do_runs)

lemma read_for_put_runs: "R w0 w \<Longrightarrow> allowed ''GET'' \<Longrightarrow> runs R w0 (read_for_put p c ty rid attrs w)"
  by (auto simp: read_for_put_def split: sum.splits intro!: runs_bind client_do_runs)

lemma read_after_patch_runs:
  "R w0 w \<Longrightarrow> allowed ''GET'' \<Longrightarrow> runs R w0 (read_after_patch p ty current desired w)"
  by (simp add: read_after_patch_def read_resource_runs)

lemma call_setter_runs:
  "R w0 w \<Longrightarrow> \<forall>m. allowed m \<Longrightarrow> runs R w0 (call_setter p c ty s rid cur des w)"
  by (auto simp: call_setter_def split: sum.splits intro!: runs_bind client_do_runs await_runs)

lemma run_setters_runs:
  "R w0 w \<Longrightarrow> \<forall>m. allowed m \<Longrightarrow> runs R w0 (run_setters p c ty cur des ss patched ae w)"
proof (induction ss arbitrary: patched w)
  case (Cons s ss)
  show ?case
    using Cons.prems
    by (auto split: option.splits intro!: runs_bind call_setter_runs log_err Cons.IH)
qed simp

lemma update_through_setters_runs:
  "R w0 w \<Longrightarrow> \<forall>m. allowed m \<Longrightarrow> runs R w0 (update_through_setters p c ty cur des ss patched ae w)"
  by (auto simp: update_through_setters_def split: sum.splits
      intro!: runs_bind run_setters_runs read_after_patch_runs)

lemma patch_fields_runs:
  "R w0 w \<Longrightarrow> \<forall>m. allowed m \<Longrightarrow>
     runs R w0 (patch_fields p c ty cur attrs url b paths fs first lock w)"
proof (induction fs arbitrary: first lock w)
  case (Cons f fs)
  show ?case
    using Cons.prems
    by (auto simp: lock_for_field_def split: option.splits sum.splits
        intro!: runs_bind send_patch_runs await_as_runs fresh_lock_runs Cons.IH)
qed simp

lemma patch_one_field_runs:
  "R w0 w \<Longrightarrow> \<forall>m. allowed m \<Longrightarrow>
     runs R w0 (patch_one_field_at_a_time p c ty cur des attrs url b paths fs ss w)"
  by (auto simp: patch_one_field_at_a_time_def split: sum.splits option.splits
      intro!: runs_bind patch_fields_runs update_through_setters_runs log_err)

lemma patch_body_runs: "R w0 w \<Longrightarrow> \<forall>m. allowed m \<Longrightarrow> runs R w0 (patch_body p c ty cur attrs b w)"
  by (auto simp: patch_body_def split: sum.splits intro!: runs_bind read_for_put_runs)

lemma patch_whole_runs:
  "R w0 w \<Longrightarrow> \<forall>m. allowed m \<Longrightarrow> runs R w0 (patch_whole p c ty cur des attrs url b paths ss w)"
  by (auto simp: patch_whole_def split: sum.splits option.splits
      intro!: runs_bind patch_body_runs send_patch_runs await_as_runs update_through_setters_runs log_err)

lemma update_resource_runs:
  "R w0 w \<Longrightarrow> \<forall>m. allowed m \<Longrightarrow> runs R w0 (update_resource p c cur des w)"
  by (auto simp: update_resource_def Let_def split: option.splits prod.splits sum.splits
      intro!: update_through_setters_runs patch_one_field_runs patch_whole_runs)

lemma created_id: "R w0 w \<Longrightarrow> created_id x ty a attrs w = (r, w') \<Longrightarrow> R w0 w'"
  by (auto simp: created_id_def split: option.splits sum.splits prod.splits intro: log_err)

lemma read_after_create_runs:
  "R w0 w \<Longrightarrow> allowed ''GET'' \<Longrightarrow> runs R w0 (read_after_create p ty des sc a w)"
  by (auto simp: read_after_create_def split: prod.splits sum.splits
      intro!: read_resource_runs dest: created_id)

lemma best_effort_state_runs:
  "R w0 w \<Longrightarrow> allowed ''GET'' \<Longrightarrow> runs R w0 (best_effort_state p c ty des sc a w)"
  by (auto simp: best_effort_state_def Let_def split: prod.splits sum.splits
      intro!: runs_bind reconcile_runs dest: created_id declared_only)

lemma created_setters_runs:
  "R w0 w \<Longrightarrow> \<forall>m. allowed m \<Longrightarrow> runs R w0 (created_setters p c ty st des ss w)"
proof (induction ss arbitrary: w)
  case (Cons s ss)
  show ?case
    using Cons.prems by (auto split: option.splits intro!: runs_bind call_setter_runs log_err Cons.IH)
qed simp

lemma set_after_create_runs:
  "R w0 w \<Longrightarrow> \<forall>m. allowed m \<Longrightarrow> runs R w0 (set_after_create p c ty st des w)"
  by (auto simp: set_after_create_def Let_def intro!: runs_bind created_setters_runs read_after_patch_runs)

lemma report_created_runs:
  "R w0 w \<Longrightarrow> \<forall>m. allowed m \<Longrightarrow> runs R w0 (report_created p c ty des sc a w)"
  by (auto simp: report_created_def Let_def split: sum.splits option.splits
      intro!: runs_bind read_after_create_runs set_after_create_runs best_effort_state_runs log_err)

lemma create_resource_runs:
  "R w0 w \<Longrightarrow> \<forall>m. allowed m \<Longrightarrow> runs R w0 (create_resource p c des w)"
  by (auto simp: create_resource_def Let_def split: option.splits sum.splits
      intro!: runs_bind client_do_runs await_runs report_created_runs)

lemma clear_fields_runs:
  "R w0 w \<Longrightarrow> \<forall>m. allowed m \<Longrightarrow> runs R w0 (clear_fields p c ty cur url fs w)"
proof (induction fs arbitrary: w)
  case (Cons f fs)
  show ?case
    using Cons.prems
    by (auto split: option.splits sum.splits prod.splits
        intro!: runs_bind send_patch_runs await_as_runs Cons.IH)
qed simp

lemma delete_resource_runs:
  "R w0 w \<Longrightarrow> \<forall>m. allowed m \<Longrightarrow> runs R w0 (delete_resource p c cur w)"
  by (auto simp: delete_resource_def clear_before_delete_def confirm_gone_def
      split: option.splits sum.splits
      intro!: runs_bind client_do_runs await_as_runs clear_fields_runs)

end

section \<open>The interpretations\<close>

text \<open>
  What only grows: the requests sent, the lines on stderr and the clock; the project aliases,
  once resolved, stay.
\<close>

definition world_grows :: "'s world \<Rightarrow> 's world \<Rightarrow> bool" where
  "world_grows w w' \<longleftrightarrow> (\<exists>ts. w_sent w' = w_sent w @ ts) \<and> (\<exists>ls. w_log w' = w_log w @ ls)
     \<and> w_now w \<le> w_now w' \<and> (w_projects w \<noteq> None \<longrightarrow> w_projects w' = w_projects w)"

interpretation grows: world_order world_grows "\<lambda>m. True"
  by unfold_locales (auto simp: world_grows_def)

text \<open>The requests sent since a world are all of a set of methods.\<close>

definition sent_only :: "string list \<Rightarrow> 's world \<Rightarrow> 's world \<Rightarrow> bool" where
  "sent_only ms w w' \<longleftrightarrow> (\<exists>ts. w_sent w' = w_sent w @ ts \<and> list_all (\<lambda>rq. rq_method rq \<in> set ms) ts)"

interpretation only: world_order "sent_only ms" "\<lambda>m. m \<in> set ms" for ms
  by unfold_locales (auto simp: sent_only_def)

lemma grows_clock: "runs world_grows w m \<Longrightarrow> m = Some (a, w') \<Longrightarrow> w_now w \<le> w_now w'"
  by (simp add: runs_def world_grows_def)

end
