(* ===== verification/Progress.thy ===== *)
theory Progress
  imports Effects
begin

text \<open>
  When the loops end. The contract of the two polling loops is the locale \<open>polling\<close>; both are
  instances. Under documented behaviour of the transport (a round trip takes time, and one
  whose context has already ended gets no reply: \<open>timely\<close>) and with the client-side limiter off, as
  the plugin configures it, every request returns, so does every await within the type's
  timeout, and so do the reads and the mutations built from them.
\<close>

section \<open>Returning with an invariant\<close>

definition returns :: "('w \<Rightarrow> bool) \<Rightarrow> ('a \<times> 'w) option \<Rightarrow> bool" where
  "returns I m \<longleftrightarrow> (\<exists>a w. m = Some (a, w) \<and> I w)"

lemma returns_ret [simp]: "returns I (Some (a, w)) \<longleftrightarrow> I w"
  by (simp add: returns_def)

lemma returns_bind:
  "returns I m \<Longrightarrow> (\<And>a w. I w \<Longrightarrow> returns I (f (a, w))) \<Longrightarrow> returns I (Option.bind m f)"
  by (auto simp: returns_def)

lemma returns_Some: "returns I m \<Longrightarrow> \<exists>a w. m = Some (a, w)"
  by (auto simp: returns_def)

section \<open>The polling loops\<close>

locale polling =
  fixes finished :: "json option \<Rightarrow> json option res option"
    and turn :: "nat \<Rightarrow> json option \<Rightarrow> ('s, json option res) act"
    and loop :: "nat \<Rightarrow> json option \<Rightarrow> ('s, json option res) act"
  assumes unfold_loop: "loop n op w = (case finished op of
      Some r \<Rightarrow> Some (r, w)
    | None \<Rightarrow> Option.bind (turn n op w) (\<lambda>(r, w). case r of
          Inl e \<Rightarrow> Some (Inl e, w) | Inr op \<Rightarrow> loop (Suc n) op w))"
begin

text \<open>An operation that is done needs no turn.\<close>

lemma already_done: "finished op = Some r \<Longrightarrow> loop n op w = Some (r, w)"
  by (subst unfold_loop) simp

text \<open>A loop whose turns return and shrink a measure returns.\<close>

lemma loop_returns:
  assumes I: "I w"
    and turns: "\<And>n op w. I w \<Longrightarrow> returns I (turn n op w)"
    and shrinks: "\<And>n op w op' w'. I w \<Longrightarrow> turn n op w = Some (Inr op', w') \<Longrightarrow> \<mu> w' < (\<mu> w :: nat)"
  shows "returns I (loop n op w)"
  using I
proof (induction "\<mu> w" arbitrary: n op w rule: less_induct)
  case less
  show ?case
  proof (cases "finished op")
    case (Some r)
    with less.prems show ?thesis by (simp add: already_done)
  next
    case None
    from turns [OF less.prems, of n op] obtain r w1 where
        t: "turn n op w = Some (r, w1)" and I1: "I w1" by (auto simp: returns_def)
    show ?thesis
    proof (cases r)
      case (Inl e)
      with None t I1 show ?thesis by (subst unfold_loop) simp
    next
      case (Inr op')
      with shrinks [OF less.prems] t have "\<mu> w1 < \<mu> w" by auto
      from less.hyps [OF this I1, of "Suc n" op'] None t Inr show ?thesis
        by (subst unfold_loop) simp
    qed
  qed
qed

end

interpretation lro: polling "lro_done ty" "lro_turn p c ty" "await_long_running p c ty" for p c ty
  by unfold_locales (rule await_long_running.simps)

interpretation compute: polling "compute_done ty" "compute_turn p c ty" "await_compute_operation p c ty" for p c ty
  by unfold_locales (rule await_compute_operation.simps)

section \<open>Requests return\<close>

definition timely :: "'s transport \<Rightarrow> bool" where
  "timely tr \<longleftrightarrow> (\<forall>s rq t d r took s'. tr s rq t d = (r, took, s') \<longrightarrow>
     1 \<le> took \<and> (case d of None \<Rightarrow> True | Some e \<Rightarrow> e \<le> t \<longrightarrow> (\<exists>why. r = NoReply why)))"

definition limiters_off :: "'s world \<Rightarrow> bool" where
  "limiters_off w \<longleftrightarrow> list_all (\<lambda>(k, l). l_qps l \<le> 0) (w_limiters w)"

definition unlimited :: "'s client \<Rightarrow> bool" where
  "unlimited cl \<longleftrightarrow> cl_qps cl \<le> 0 \<and> 0 \<le> cl_timeout cl \<and> timely (cl_transport cl)"

lemma limiters_off_update [simp]:
  "limiters_off (w\<lparr>w_now := t\<rparr>) = limiters_off w" "limiters_off (w\<lparr>w_draws := n\<rparr>) = limiters_off w"
  "limiters_off (w\<lparr>w_log := l\<rparr>) = limiters_off w" "limiters_off (w\<lparr>w_sent := ts\<rparr>) = limiters_off w"
  "limiters_off (w\<lparr>w_srv := s\<rparr>) = limiters_off w" "limiters_off (w\<lparr>w_seen := ks\<rparr>) = limiters_off w"
  "limiters_off (w\<lparr>w_projects := a\<rparr>) = limiters_off w" "limiters_off (log_err f args e w) = limiters_off w"
  by (simp_all add: limiters_off_def log_err_def)

lemma limiters_off_for: "unlimited cl \<Longrightarrow> limiters_off w \<Longrightarrow> limiters_off (limiter_for cl key w)"
  by (auto simp: limiter_for_def limiters_off_def unlimited_def new_limiter_def has_key_iff
      update_append_fresh)

lemma limiter_wait_off: "limiters_off w \<Longrightarrow> limiter_wait c key w = Some (None, w)"
  by (subst limiter_wait.simps)
    (auto simp: limiters_off_def list_all_iff split: option.splits dest!: map_of_SomeD)

lemma sleep_off:
  "sleep_backoff cl c n w = (e, w') \<Longrightarrow> limiters_off w' = limiters_off w \<and> w_now w \<le> w_now w'"
  "sleep_before_retry cl c n le w = (e, w') \<Longrightarrow> limiters_off w' = limiters_off w \<and> w_now w \<le> w_now w'"
  by (auto simp: sleep_backoff_def sleep_before_retry_def draw_delay_def timer_or_done_def Let_def
      split: prod.splits if_splits option.splits)

lemma do_once_timely:
  assumes "unlimited cl" "do_once cl c meth full body bound w = (r, w')"
  shows "limiters_off w' = limiters_off w" "w_now w + 1 \<le> w_now w'"
    "\<And>d. ctx_end c = Some d \<Longrightarrow> d \<le> w_now w \<Longrightarrow> \<exists>e. r = Inl e \<and> classify_error e \<noteq> SafeToRetry"
proof -
  let ?trip = "if bound > 0 then bound else cl_timeout cl"
  let ?rq = "\<lparr>rq_method = meth, rq_url = full, rq_body = body,
    rq_quota_project = cl_quota_project cl, rq_bound = ?trip\<rparr>"
  obtain rep took srv where
      t: "cl_transport cl (w_srv w) ?rq (w_now w) (ctx_end (with_timeout c ?trip w)) = (rep, took, srv)"
    by (cases "cl_transport cl (w_srv w) ?rq (w_now w) (ctx_end (with_timeout c ?trip w))")
  have w': "w' = w\<lparr>w_srv := srv, w_now := w_now w + max 0 took, w_sent := w_sent w @ [?rq]\<rparr>"
    and r: "r = read_reply cl ?rq (w_now w + max 0 took) rep"
    using assms(2) t by (simp_all add: do_once_def Let_def split: if_splits)
  have ti: "timely (cl_transport cl)" and pos: "0 \<le> ?trip"
    using assms(1) by (simp_all add: unlimited_def)
  show "limiters_off w' = limiters_off w" by (simp add: w')
  have "1 \<le> took" using ti t unfolding timely_def by blast
  then show "w_now w + 1 \<le> w_now w'" by (simp add: w')
  fix d
  assume "ctx_end c = Some d" "d \<le> w_now w"
  then have "ctx_end (with_timeout c ?trip w) = Some d"
    using pos by (auto simp: with_timeout_def)
  then obtain why where "rep = NoReply why"
    using ti t \<open>d \<le> w_now w\<close> unfolding timely_def by fastforce
  then show "\<exists>e. r = Inl e \<and> classify_error e \<noteq> SafeToRetry"
    by (simp add: r read_reply_def classify_error_def)
qed

lemma do_attempts_returns:
  assumes u: "unlimited cl" and off: "limiters_off w"
  shows "\<exists>r w'. do_attempts cl c meth full body bound key n attempt le w = Some (r, w') \<and>
    limiters_off w' \<and> (\<forall>b. r = Inr b \<longrightarrow> w_now w < w_now w' \<and>
      (\<forall>d. ctx_end c = Some d \<longrightarrow> w_now w < d))"
  using off
proof (induction n arbitrary: attempt le w)
  case (Suc n)
  obtain e w1 where s: "(if attempt > 0 then sleep_before_retry cl c attempt le w else (None, w)) = (e, w1)"
    by (cases "if attempt > 0 then sleep_before_retry cl c attempt le w else (None, w)")
  with Suc.prems have off1: "limiters_off w1" and now1: "w_now w \<le> w_now w1"
    using sleep_off(2) [of cl c attempt le w] by (auto split: if_splits)
  show ?case
  proof (cases e)
    case (Some err)
    with s off1 show ?thesis by simp
  next
    case None
    obtain r w2 where d: "do_once cl c meth full body bound w1 = (r, w2)"
      by (cases "do_once cl c meth full body bound w1")
    note ti = do_once_timely [OF u d]
    have off2: "limiters_off w2" using ti(1) off1 by simp
    have late: "\<exists>e. r = Inl e \<and> classify_error e \<noteq> SafeToRetry"
      if "ctx_end c = Some d" "d \<le> w_now w" for d
      using ti(3) [OF that(1)] that(2) now1 by simp
    show ?thesis
    proof (cases "\<exists>e. r = Inl e \<and> classify_error e = SafeToRetry")
      case True
      then obtain e2 where r: "r = Inl e2" and sr: "classify_error e2 = SafeToRetry" by auto
      have early: "w_now w < d" if "ctx_end c = Some d" for d
        using late [OF that] r sr by (cases "w_now w < d") auto
      from Suc.IH [OF off2, of "Suc attempt" e2] obtain r3 w3 where
          "do_attempts cl c meth full body bound key n (Suc attempt) e2 w2 = Some (r3, w3)"
          "limiters_off w3" "\<And>b. r3 = Inr b \<Longrightarrow> w_now w2 < w_now w3" by blast
      moreover have "w_now w < w_now w2" using ti(2) now1 by simp
      ultimately show ?thesis
        using s None d r sr limiter_wait_off [OF off1] early by (auto intro: less_trans)
    next
      case False
      have early: "w_now w < d" if "ctx_end c = Some d" "r = Inr b" for d b
        using late [OF that(1)] that(2) by (cases "w_now w < d") auto
      from False show ?thesis
        using s None d limiter_wait_off [OF off1] ti(2) now1 off2 early
        by (cases r) auto
    qed
  qed
qed simp

lemma client_do_bounded_returns:
  assumes "unlimited cl" "limiters_off w"
  shows "\<exists>r w'. client_do_bounded cl c meth url body bound w = Some (r, w') \<and>
    limiters_off w' \<and> (\<forall>b. r = Inr b \<longrightarrow> w_now w < w_now w' \<and>
      (\<forall>d. ctx_end c = Some d \<longrightarrow> w_now w < d))"
proof -
  have "w_now (limiter_for cl key w) = w_now w" for key by (simp add: limiter_for_def)
  then show ?thesis
    using do_attempts_returns [OF assms(1) limiters_off_for [OF assms]]
    by (simp add: client_do_bounded_def Let_def)
qed

lemma client_do_returns:
  assumes "unlimited cl" "limiters_off w"
  shows "returns limiters_off (client_do cl c meth url body w)"
    "returns limiters_off (client_do_long_poll cl c meth url body bound w)"
  using client_do_bounded_returns [OF assms]
  by (fastforce simp: returns_def client_do_def client_do_long_poll_def)+

lemma client_do_advances:
  assumes "unlimited cl" "limiters_off w"
    "client_do cl c meth url body w = Some (Inr b, w') \<or>
     client_do_long_poll cl c meth url body bound w = Some (Inr b, w')"
  shows "w_now w < w_now w' \<and> (\<forall>d. ctx_end c = Some d \<longrightarrow> w_now w < d)"
  using client_do_bounded_returns [OF assms(1,2), of c meth url body 0]
    client_do_bounded_returns [OF assms(1,2), of c meth url body bound] assms(3)
  by (auto simp: client_do_def client_do_long_poll_def)

section \<open>Awaits return\<close>

lemma lro_turn_returns:
  "unlimited (p_client p) \<Longrightarrow> limiters_off w \<Longrightarrow> returns limiters_off (lro_turn p c ty n op w)"
  by (auto simp: lro_turn_def Let_def split: prod.splits option.splits sum.splits
      intro!: client_do_returns dest!: sleep_off(1))

lemma compute_turn_returns:
  "unlimited (p_client p) \<Longrightarrow> limiters_off w \<Longrightarrow> returns limiters_off (compute_turn p c ty n op w)"
  by (auto simp: compute_turn_def Let_def split: prod.splits option.splits sum.splits if_splits
      intro!: client_do_returns dest!: sleep_off(1))

lemma turn_advances:
  assumes "unlimited (p_client p)" "limiters_off w" "ctx_end c = Some d"
    and t: "lro_turn p c ty n op w = Some (Inr op', w') \<or> compute_turn p c ty n op w = Some (Inr op', w')"
  shows "w_now w < w_now w' \<and> w_now w < d"
proof -
  have go: "w_now w < w_now w' \<and> w_now w < d"
    if "client_do (p_client p) c m u b w1 = Some (Inr op', w') \<or>
       client_do_long_poll (p_client p) c m u b bd w1 = Some (Inr op', w')"
      "limiters_off w1" "w_now w \<le> w_now w1" for w1 m u b bd
    using client_do_advances [OF assms(1) that(2) that(1)] that(3) assms(3) by force
  note go1 = go [OF disjI1] and go2 = go [OF disjI2]
  from t show ?thesis
    using assms(2)
    by (elim disjE)
      (auto simp: lro_turn_def compute_turn_def Let_def split: prod.splits option.splits sum.splits if_splits
        dest: sleep_off(1) go1 go2)
qed

lemma await_as_returns:
  assumes "unlimited (p_client p)" "limiters_off w"
  shows "returns limiters_off (await_as p ty k resp w)"
proof -
  let ?c = "detached (t_timeout_seconds ty * second) w"
  obtain d where d: "ctx_end ?c = Some d" by (simp add: detached_def)
  have m: "nat (d - w_now w2) < nat (d - w_now w1)"
    if "limiters_off w1" "lro_turn p ?c ty n op w1 = Some (Inr op', w2)
        \<or> compute_turn p ?c ty n op w1 = Some (Inr op', w2)" for n op op' w1 w2
    using turn_advances [OF assms(1) that(1) d that(2)] by simp
  have "returns limiters_off (await_long_running p ?c ty 0 resp w)"
    by (rule lro.loop_returns [where \<mu> = "\<lambda>w. nat (d - w_now w)"])
      (rule assms(2), erule lro_turn_returns [OF assms(1)], erule m, erule disjI1)
  moreover have "returns limiters_off (await_compute_operation p ?c ty 0 resp w)"
    by (rule compute.loop_returns [where \<mu> = "\<lambda>w. nat (d - w_now w)"])
      (rule assms(2), erule compute_turn_returns [OF assms(1)], erule m, erule disjI2)
  ultimately show ?thesis using assms(2) by (cases k) (simp_all add: await_as_def)
qed

section \<open>Reads return\<close>

lemma sleep_error_ctx:
  "sleep_before_retry cl c n le w = (Some e, w') \<Longrightarrow> e = CtxErr (ctx_why c)"
  "sleep_backoff cl c n w = (Some e, w') \<Longrightarrow> e = CtxErr (ctx_why c)"
  by (auto simp: sleep_before_retry_def sleep_backoff_def timer_or_done_def Let_def
      split: prod.splits if_splits option.splits)

lemma do_attempts_not_found:
  assumes u: "unlimited cl" and off: "limiters_off w"
    and d: "do_attempts cl c meth full body bound key (Suc n) attempt le w = Some (Inl e, w')"
    and nf: "is_not_found e"
  shows "w_now w < w_now w'"
proof -
  obtain s w1 where s: "(if attempt > 0 then sleep_before_retry cl c attempt le w else (None, w)) = (s, w1)"
    by (cases "if attempt > 0 then sleep_before_retry cl c attempt le w else (None, w)")
  then have off1: "limiters_off w1" and now1: "w_now w \<le> w_now w1"
    using off sleep_off(2) [of cl c attempt le w] by (auto split: if_splits)
  have s0: "s = None"
  proof (rule ccontr)
    assume "s \<noteq> None"
    then obtain e' where s': "s = Some e'" by auto
    with s have "e' = CtxErr (ctx_why c)" using sleep_error_ctx(1) by (auto split: if_splits)
    moreover have "e = e'" using d s s' by simp
    ultimately show False using nf by (auto simp: is_not_found_def)
  qed
  obtain r w2 where o: "do_once cl c meth full body bound w1 = (r, w2)"
    by (cases "do_once cl c meth full body bound w1")
  have now2: "w_now w < w_now w2" using do_once_timely(2) [OF u o] now1 by simp
  have "w_now w2 \<le> w_now w'"
    using d s s0 o limiter_wait_off [OF off1]
    by (auto split: sum.splits if_splits intro: grows_clock [OF grows.do_attempts_runs [OF grows.refl]])
  with now2 show ?thesis by simp
qed

lemma client_do_not_found:
  assumes "unlimited cl" "limiters_off w" "client_do cl c meth url body w = Some (Inl e, w')" "is_not_found e"
  shows "w_now w < w_now w'"
proof -
  have m: "max_attempts cl = Suc (max_attempts cl - 1)"
    by (simp add: max_attempts_def default_max_attempts_def)
  have n: "w_now (limiter_for cl key w) = w_now w" for key by (simp add: limiter_for_def)
  from assms(3) obtain key full bound where
      "do_attempts cl c meth full body bound key (Suc (max_attempts cl - 1)) 0 (Errorf ''nil'' [])
         (limiter_for cl key w) = Some (Inl e, w')"
    unfolding client_do_def client_do_bounded_def Let_def using m by metis
  from do_attempts_not_found [OF assms(1) limiters_off_for [OF assms(1,2)] this assms(4)] n
  show ?thesis by simp
qed

lemma aliases_returns:
  assumes "unlimited (p_client p)" "limiters_off w"
  shows "returns limiters_off (project_aliases_of p c w)"
  using assms
  by (auto simp: project_aliases_of_def Let_def split: option.splits sum.splits prod.splits
      intro!: returns_bind client_do_returns)

lemma reconcile_returns:
  "unlimited (p_client p) \<Longrightarrow> limiters_off w \<Longrightarrow>
     returns limiters_off (reconcile_with_aliases p c lvl ref inc w)"
  by (auto simp: reconcile_with_aliases_def Let_def intro!: returns_bind aliases_returns)

lemma drop_undeclared_off: "limiters_off (drop_undeclared ty n w) = limiters_off w"
  by (simp add: drop_undeclared_def Let_def)

lemma declared_only_off: "declared_only ty attrs w = (a, w') \<Longrightarrow> limiters_off w' = limiters_off w"
proof -
  have "limiters_off (fold (drop_undeclared ty) ns w) = limiters_off w" for ns
    by (induction ns arbitrary: w) (simp_all add: drop_undeclared_off)
  then show "declared_only ty attrs w = (a, w') \<Longrightarrow> limiters_off w' = limiters_off w"
    by (auto simp: declared_only_def)
qed

lemma state_from_returns:
  "unlimited (p_client p) \<Longrightarrow> limiters_off w \<Longrightarrow>
     returns limiters_off (state_from p c ty current idAttrs body w)"
  by (auto simp: state_from_def Let_def split: sum.splits prod.splits option.splits
      intro!: returns_bind reconcile_returns dest: declared_only_off)

lemma read_loop_returns:
  assumes u: "unlimited (p_client p)" and "limiters_off w"
  shows "returns limiters_off (read_loop p c ty current attrs url d n w)"
  using assms(2)
proof (induction "nat (d + 1 - w_now w)" arbitrary: n w rule: less_induct)
  case less
  from client_do_returns(1) [OF u less.prems, of c "''GET''" url None] obtain r w1 where
      c: "client_do (p_client p) c ''GET'' url None w = Some (r, w1)" and off1: "limiters_off w1"
    by (auto simp: returns_def)
  show ?case
  proof (cases r)
    case (Inr body)
    have "returns limiters_off (Option.bind (state_from p c ty current attrs body w1)
        (\<lambda>(st, w). Some (Inr (Some st), w)))"
      by (rule returns_bind [OF state_from_returns [OF u off1]]) simp
    with c Inr show ?thesis by (subst read_loop.simps) simp
  next
    case (Inl e)
    show ?thesis
    proof (cases "is_not_found e \<and> \<not> w_now w1 > d")
      case False
      with c Inl off1 show ?thesis by (subst read_loop.simps) auto
    next
      case True
      obtain s w2 where s: "sleep_backoff (p_client p) c n w1 = (s, w2)"
        by (cases "sleep_backoff (p_client p) c n w1")
      note so = sleep_off(1) [OF s]
      have "w_now w < w_now w1" using client_do_not_found [OF u less.prems] c Inl True by simp
      with so True have "nat (d + 1 - w_now w2) < nat (d + 1 - w_now w)" by linarith
      with less.hyps [of w2 "Suc n"] so off1 c Inl True s show ?thesis
        by (subst read_loop.simps) (auto split: option.splits)
    qed
  qed
qed

text \<open>A type read through its parent's listing is the exception: nothing bounds the pages.\<close>

definition reads_directly :: "'s gcp_provider \<Rightarrow> string \<Rightarrow> bool" where
  "reads_directly p name \<longleftrightarrow> (case catalog_type (p_catalog p) name of
     None \<Rightarrow> True | Some ty \<Rightarrow> t_read_via ty \<noteq> read_via_list_by_parent)"

lemma read_resource_returns:
  "unlimited (p_client p) \<Longrightarrow> limiters_off w \<Longrightarrow> reads_directly p (rs_type current) \<Longrightarrow>
     returns limiters_off (read_resource p c current w)"
  by (auto simp: read_resource_def reads_directly_def split: option.splits sum.splits
      intro!: read_loop_returns)

section \<open>Mutations return\<close>

lemma await_returns:
  "unlimited (p_client p) \<Longrightarrow> limiters_off w \<Longrightarrow> returns limiters_off (await p ty resp w)"
  by (simp add: await_def await_as_returns)

lemma send_patch_returns:
  "unlimited (p_client p) \<Longrightarrow> limiters_off w \<Longrightarrow> returns limiters_off (send_patch p c ty url b paths w)"
  by (simp add: send_patch_def Let_def client_do_returns)

lemma fresh_lock_returns:
  "unlimited (p_client p) \<Longrightarrow> limiters_off w \<Longrightarrow> returns limiters_off (fresh_lock p ty rid attrs w)"
  by (auto simp: fresh_lock_def split: sum.splits intro!: returns_bind client_do_returns)

lemma call_setter_returns:
  "unlimited (p_client p) \<Longrightarrow> limiters_off w \<Longrightarrow> returns limiters_off (call_setter p c ty s rid cur des w)"
  by (auto simp: call_setter_def split: sum.splits intro!: returns_bind client_do_returns await_returns)

lemma run_setters_returns:
  assumes "unlimited (p_client p)"
  shows "limiters_off w \<Longrightarrow> returns limiters_off (run_setters p c ty cur des ss patched ae w)"
proof (induction ss arbitrary: patched w)
  case (Cons s ss)
  show ?case
    using Cons.prems
    by (auto split: option.splits intro!: returns_bind call_setter_returns assms Cons.IH)
qed simp

lemma read_after_patch_returns:
  "unlimited (p_client p) \<Longrightarrow> limiters_off w \<Longrightarrow> reads_directly p (rs_type current) \<Longrightarrow>
     returns limiters_off (read_after_patch p ty current des w)"
  by (simp add: read_after_patch_def read_resource_returns)

lemma update_through_setters_returns:
  "unlimited (p_client p) \<Longrightarrow> limiters_off w \<Longrightarrow> reads_directly p (rs_type cur) \<Longrightarrow>
     returns limiters_off (update_through_setters p c ty cur des ss patched ae w)"
  by (auto simp: update_through_setters_def split: sum.splits
      intro!: returns_bind run_setters_returns read_after_patch_returns)

lemma patch_fields_returns:
  assumes "unlimited (p_client p)"
  shows "limiters_off w \<Longrightarrow>
    returns limiters_off (patch_fields p c ty cur attrs url b paths fs first lock w)"
proof (induction fs arbitrary: first lock w)
  case (Cons f fs)
  show ?case
    using Cons.prems
    by (auto simp: lock_for_field_def split: option.splits sum.splits
        intro!: returns_bind send_patch_returns await_as_returns fresh_lock_returns assms Cons.IH)
qed simp

lemma patch_one_field_returns:
  "unlimited (p_client p) \<Longrightarrow> limiters_off w \<Longrightarrow> reads_directly p (rs_type cur) \<Longrightarrow>
     returns limiters_off (patch_one_field_at_a_time p c ty cur des attrs url b paths fs ss w)"
  by (auto simp: patch_one_field_at_a_time_def split: sum.splits option.splits
      intro!: returns_bind patch_fields_returns update_through_setters_returns)

lemma patch_whole_returns:
  "unlimited (p_client p) \<Longrightarrow> limiters_off w \<Longrightarrow> reads_directly p (rs_type cur) \<Longrightarrow>
     returns limiters_off (patch_whole p c ty cur des attrs url b paths ss w)"
  by (auto simp: patch_whole_def patch_body_def read_for_put_def split: sum.splits option.splits
      intro!: returns_bind client_do_returns send_patch_returns await_as_returns
        update_through_setters_returns)

lemma update_resource_returns:
  "unlimited (p_client p) \<Longrightarrow> limiters_off w \<Longrightarrow> reads_directly p (rs_type cur) \<Longrightarrow>
     returns limiters_off (update_resource p c cur des w)"
  by (auto simp: update_resource_def Let_def split: option.splits prod.splits sum.splits
      intro!: update_through_setters_returns patch_one_field_returns patch_whole_returns)

lemma created_id_off: "created_id x ty a attrs w = (r, w') \<Longrightarrow> limiters_off w' = limiters_off w"
  by (auto simp: created_id_def split: option.splits sum.splits prod.splits)

lemma read_after_create_returns:
  "unlimited (p_client p) \<Longrightarrow> limiters_off w \<Longrightarrow> reads_directly p (t_name ty) \<Longrightarrow>
     returns limiters_off (read_after_create p ty des sc a w)"
  by (auto simp: read_after_create_def split: prod.splits sum.splits
      intro!: read_resource_returns dest: created_id_off)

lemma best_effort_state_returns:
  "unlimited (p_client p) \<Longrightarrow> limiters_off w \<Longrightarrow> returns limiters_off (best_effort_state p c ty des sc a w)"
  by (auto simp: best_effort_state_def Let_def split: prod.splits sum.splits
      intro!: returns_bind reconcile_returns dest: created_id_off declared_only_off)

lemma created_setters_returns:
  assumes "unlimited (p_client p)"
  shows "limiters_off w \<Longrightarrow> returns limiters_off (created_setters p c ty st des ss w)"
proof (induction ss arbitrary: w)
  case (Cons s ss)
  show ?case
    using Cons.prems
    by (auto split: option.splits intro!: returns_bind call_setter_returns assms Cons.IH)
qed simp

lemma delete_resource_returns:
  assumes u: "unlimited (p_client p)"
  shows "limiters_off w \<Longrightarrow> returns limiters_off (delete_resource p c cur w)"
proof -
  have "limiters_off w \<Longrightarrow> returns limiters_off (clear_fields p c ty cur url fs w)" for ty url fs w
  proof (induction fs arbitrary: w)
    case (Cons f fs)
    show ?case
      using Cons.prems
      by (auto split: option.splits sum.splits prod.splits
          intro!: returns_bind send_patch_returns await_as_returns u Cons.IH)
  qed simp
  with u show "limiters_off w \<Longrightarrow> returns limiters_off (delete_resource p c cur w)"
    by (auto simp: delete_resource_def clear_before_delete_def confirm_gone_def
        split: option.splits sum.splits
        intro!: returns_bind client_do_returns await_as_returns)
qed

end
