(* ===== verification/Outcomes.thy ===== *)
theory Outcomes
  imports Progress
begin

text \<open>
  What the operations report: a state carries only attributes its schema declares and keeps
  the type it was read at; \<open>Update\<close> never reports nothing; what each operation refuses before
  it sends anything.
\<close>

section \<open>Results\<close>

definition gives :: "('a \<Rightarrow> bool) \<Rightarrow> ('a \<times> 'w) option \<Rightarrow> bool" where
  "gives P m \<longleftrightarrow> (\<forall>x w. m = Some (x, w) \<longrightarrow> P x)"

lemma gives_ret [simp]: "gives P (Some (x, w)) \<longleftrightarrow> P x"
  by (simp add: gives_def)

lemma gives_bind:
  "gives Q m \<Longrightarrow> (\<And>a w. Q a \<Longrightarrow> gives P (f (a, w))) \<Longrightarrow> gives P (Option.bind m f)"
  unfolding gives_def by (cases m) force+

lemma gives_any: "gives (\<lambda>x. True) m"
  by (simp add: gives_def)

lemma gives_then: "(\<And>a w. gives P (f (a, w))) \<Longrightarrow> gives P (Option.bind m f)"
  by (rule gives_bind [OF gives_any])

lemma gives_mono: "gives P m \<Longrightarrow> (\<And>x. P x \<Longrightarrow> Q x) \<Longrightarrow> gives Q m"
  by (simp add: gives_def)

lemma gives_D: "gives P m \<Longrightarrow> m = Some (x, w) \<Longrightarrow> P x"
  by (simp add: gives_def)

section \<open>The state a read reports\<close>

text \<open>Every attribute declared by the type's schema, and the type as asked.\<close>

definition declared_state :: "ctype \<Rightarrow> string \<Rightarrow> rstate \<Rightarrow> bool" where
  "declared_state ty name st \<longleftrightarrow> rs_type st = name
     \<and> set (keys (rs_attributes st)) \<subseteq> set (keys (t_attributes ty))"

text \<open>Of a result: if it is a state, it is one of those.\<close>

definition declared_result :: "ctype \<Rightarrow> string \<Rightarrow> rstate option res \<Rightarrow> bool" where
  "declared_result ty name r \<longleftrightarrow> (case r of Inr (Some st) \<Rightarrow> declared_state ty name st | _ \<Rightarrow> True)"

lemma declared_result_simps [simp]:
  "declared_result ty name (Inl e)" "declared_result ty name (Inr None)"
  "declared_result ty name (Inr (Some st)) = declared_state ty name st"
  by (simp_all add: declared_result_def)

lemma declared_only_keys:
  "declared_only ty attrs w = (a, w') \<Longrightarrow> (n, v) \<in> set a \<Longrightarrow> n \<in> fst ` set (t_attributes ty)"
  by (auto simp: declared_only_def has_key_iff)

lemma state_from_declared:
  "gives (declared_state ty (rs_type current)) (state_from p c ty current idAttrs body w)"
  by (auto simp: state_from_def Let_def declared_state_def split: prod.splits
      intro!: gives_then declared_only_keys)

lemma state_from_listing_declared:
  "gives (declared_state ty (rs_type current)) (state_from_listing p c ty current idAttrs body w)"
  unfolding state_from_listing_def
  by (rule gives_bind [OF state_from_declared]) (simp add: declared_state_def)

lemma read_loop_declared:
  "gives (declared_result ty (rs_type current)) (read_loop p c ty current attrs url d n w)"
proof -
  have "read_loop p c ty current attrs url d n w = Some y \<Longrightarrow> declared_result ty (rs_type current) (fst y)" for y
  proof (rule read_loop.raw_induct [where P =
      "\<lambda>p c ty current attrs url d n w y. declared_result ty (rs_type current) (fst y)"], goal_cases)
    case (1 f p c ty current attrs url d n w y)
    have IH: "gives (declared_result ty (rs_type current)) (f p c ty current attrs url d n w)"
      for p c ty current attrs url d n w
      using 1(2) by (fastforce simp: gives_def)
    have "gives (declared_result ty (rs_type current)) (Some y)"
      unfolding 1(3) [symmetric]
      by (auto split: sum.splits option.splits prod.splits
          intro!: gives_then IH gives_bind [OF state_from_declared])
    then show ?case by (cases y) simp
  qed assumption
  then show ?thesis by (fastforce simp: gives_def)
qed

lemma read_resource_declared:
  assumes "catalog_type (p_catalog p) (rs_type current) = Some ty"
  shows "gives (declared_result ty (rs_type current)) (read_resource p c current w)"
  using assms
  by (auto simp: read_resource_def split: sum.splits option.splits
      intro!: gives_then read_loop_declared gives_bind [OF state_from_listing_declared])

section \<open>Create\<close>

text \<open>The type a catalog lookup gives is the one asked for.\<close>

lemma overlay_names:
  "map_of (overlay m (map (\<lambda>t. (t_name t, t)) ts)) name = Some ty \<Longrightarrow>
     (\<forall>k t. map_of m k = Some t \<longrightarrow> t_name t = k) \<Longrightarrow> t_name ty = name"
proof (induction ts arbitrary: m)
  case (Cons t ts)
  show ?case
    by (rule Cons.IH [of "AList.update (t_name t) t m"]) (use Cons.prems in auto)
qed simp

lemma catalog_type_name: "catalog_type c name = Some ty \<Longrightarrow> t_name ty = name"
  using overlay_names [of "[]"] by (simp add: catalog_type_def index_types_def)

lemma read_after_create_declared:
  "catalog_type (p_catalog p) (t_name ty) = Some ty \<Longrightarrow>
     gives (declared_result ty (t_name ty)) (read_after_create p ty des sc a w)"
  using read_resource_declared [of p "\<lparr>rs_address = [], rs_type = t_name ty, rs_provider_id = rid,
    rs_attributes = des\<rparr>" ty for rid]
  by (auto simp: read_after_create_def split: prod.splits sum.splits)

lemma read_after_patch_declared:
  "catalog_type (p_catalog p) (rs_type st) = Some ty \<Longrightarrow>
     gives (declared_result ty (rs_type st)) (read_after_patch p ty st des w)"
  using read_resource_declared [of p "st\<lparr>rs_attributes := des\<rparr>" ty]
  by (simp add: read_after_patch_def)

lemma best_effort_declared:
  "gives (declared_result ty (t_name ty)) (best_effort_state p c ty des sc a w)"
  by (auto simp: best_effort_state_def Let_def declared_state_def split: prod.splits sum.splits
      intro!: gives_then declared_only_keys)

lemma set_after_create_declared:
  assumes "declared_state ty (t_name ty) st" "catalog_type (p_catalog p) (t_name ty) = Some ty"
  shows "gives (declared_state ty (t_name ty)) (set_after_create p c ty st des w)"
proof -
  have t: "rs_type st = t_name ty" using assms(1) by (simp add: declared_state_def)
  have r: "gives (declared_result ty (t_name ty)) (read_after_patch p ty st des w)" for w
    using read_after_patch_declared [of p st ty des w] assms(2) t by simp
  show ?thesis
    using assms(1)
    by (auto simp: set_after_create_def Let_def split: sum.splits option.splits
        intro!: gives_then gives_bind [OF r])
qed

lemma report_created_declared:
  assumes "catalog_type (p_catalog p) (t_name ty) = Some ty"
  shows "gives (declared_result ty (t_name ty)) (report_created p c ty des sc a w)"
  unfolding report_created_def Let_def
  by (rule gives_bind [OF read_after_create_declared [OF assms]])
    (auto split: sum.splits option.splits
      intro!: best_effort_declared gives_bind [OF set_after_create_declared [OF _ assms]])

lemma create_resource_declared:
  assumes "catalog_type (p_catalog p) (ds_type des) = Some ty"
  shows "gives (declared_result ty (ds_type des)) (create_resource p c des w)"
proof -
  have n: "t_name ty = ds_type des" using catalog_type_name [OF assms] .
  with assms show ?thesis
    using report_created_declared [of p ty]
    by (auto simp: create_resource_def Let_def split: sum.splits option.splits intro!: gives_then)
qed

text \<open>Create returns.\<close>

lemma reads_directly_type: "declared_state ty name st \<Longrightarrow> reads_directly p name \<Longrightarrow> reads_directly p (rs_type st)"
  by (simp add: declared_state_def)

lemma set_after_create_returns:
  "unlimited (p_client p) \<Longrightarrow> limiters_off w \<Longrightarrow> reads_directly p (rs_type st) \<Longrightarrow>
     returns limiters_off (set_after_create p c ty st des w)"
  by (auto simp: set_after_create_def Let_def
      intro!: returns_bind created_setters_returns read_after_patch_returns)

lemma report_created_returns:
  assumes "unlimited (p_client p)" "limiters_off w" "reads_directly p (t_name ty)"
    "catalog_type (p_catalog p) (t_name ty) = Some ty"
  shows "returns limiters_off (report_created p c ty des sc a w)"
proof -
  define w1 where "w1 = (case a of
      Inl e \<Rightarrow> log_err ''gcp: %s: create reported a failure, reading back what exists: %v'' [ds_type des] (Some e) w
    | Inr _ \<Rightarrow> w)"
  define m where "m = (case a of Inl _ \<Rightarrow> None | Inr m \<Rightarrow> m)"
  have off1: "limiters_off w1" using assms(2) by (simp add: w1_def split: sum.splits)
  obtain r w2 where r: "read_after_create p ty (ds_attrs des) sc m w1 = Some (r, w2)" and off2: "limiters_off w2"
    using read_after_create_returns [OF assms(1) off1 assms(3), of "ds_attrs des" sc m]
    by (auto simp: returns_def)
  have d: "declared_result ty (t_name ty) r"
    by (rule gives_D [OF read_after_create_declared [OF assms(4)] r])
  have st: "returns limiters_off (set_after_create p c ty st (ds_attrs des) w2)" if "r = Inr (Some st)" for st
    using set_after_create_returns [OF assms(1) off2] d that assms(3) by (simp add: declared_state_def)
  show ?thesis
    unfolding report_created_def Let_def w1_def [symmetric] m_def [symmetric] r
    using off2 st assms(1)
    by (auto split: sum.splits option.splits intro!: returns_bind best_effort_state_returns)
qed

lemma create_resource_returns:
  assumes "unlimited (p_client p)" "limiters_off w" "reads_directly p (ds_type des)"
  shows "returns limiters_off (create_resource p c des w)"
proof (cases "catalog_type (p_catalog p) (ds_type des)")
  case None
  with assms(2) show ?thesis by (simp add: create_resource_def)
next
  case (Some ty)
  have n: "t_name ty = ds_type des" using catalog_type_name [OF Some] .
  have "returns limiters_off (report_created p c ty des sc a w1)" if "limiters_off w1" for sc a w1
    using report_created_returns [OF assms(1) that] assms(3) Some n by simp
  with Some assms(1,2) show ?thesis
    by (auto simp: create_resource_def Let_def split: sum.splits option.splits
        intro!: returns_bind client_do_returns await_returns)
qed

section \<open>Update\<close>

definition reports :: "rstate option res \<Rightarrow> bool" where
  "reports r \<longleftrightarrow> r \<noteq> Inr None"

lemma report_update_reports: "reports (report_update ty cur ae r)"
  by (auto simp: reports_def report_update_def split: sum.splits option.splits)

lemma update_through_setters_reports:
  "gives reports (update_through_setters p c ty cur des ss patched ae w)"
  by (auto simp: update_through_setters_def report_update_reports split: sum.splits intro!: gives_then)
    (simp_all add: reports_def)

lemma update_resource_reports: "gives reports (update_resource p c cur des w)"
proof -
  have e: "reports (Inl e)" "reports (Inr (Some st))" for e st by (simp_all add: reports_def)
  show ?thesis
    by (auto simp: update_resource_def patch_one_field_at_a_time_def patch_whole_def Let_def e
        split: option.splits sum.splits prod.splits
        intro!: gives_then update_through_setters_reports)
qed

end
