(* ===== verification/Requests.thy ===== *)
theory Requests
  imports Samples Outcomes
begin

text \<open>
  Properties of the REST client: the rate a bucket grants, the waits before a retry, when a
  request is repeated and how often, and what an operation's response is passed on as.
\<close>

section \<open>The token bucket\<close>

text \<open>The tokens granted when a bucket is asked at a list of times.\<close>

fun grants :: "limiter \<Rightarrow> int list \<Rightarrow> nat" where
  "grants l [] = 0"
| "grants l (t # ts) = (case take_token l t of (wait, ok, l') \<Rightarrow> (if ok then 1 else 0) + grants l' ts)"

text \<open>
  A resource that is refilled over time and asked for units: the interface of the argument
  that what is granted over a stretch of time is bounded by the stock at its start and the
  refill, the stock being the potential.
\<close>

locale stocked =
  fixes ask :: "'l \<Rightarrow> int \<Rightarrow> bool \<times> 'l" and stock :: "'l \<Rightarrow> rat" and rate :: "'l \<Rightarrow> rat"
    and seen_at :: "'l \<Rightarrow> int" and sound :: "'l \<Rightarrow> bool"
  assumes keeps_sound: "sound l \<Longrightarrow> seen_at l \<le> t \<Longrightarrow> ask l t = (ok, l') \<Longrightarrow>
      sound l' \<and> rate l' = rate l \<and> seen_at l' = t"
    and stock_pays: "sound l \<Longrightarrow> seen_at l \<le> t \<Longrightarrow> ask l t = (ok, l') \<Longrightarrow>
      (if ok then 1 else 0) + stock l' \<le> stock l + of_int (t - seen_at l) * rate l"
    and stock_nonneg: "sound l \<Longrightarrow> 0 \<le> stock l"
    and rate_nonneg: "sound l \<Longrightarrow> 0 \<le> rate l"
begin

fun granted :: "'l \<Rightarrow> int list \<Rightarrow> nat" where
  "granted l [] = 0"
| "granted l (t # ts) = (case ask l t of (ok, l') \<Rightarrow> (if ok then 1 else 0) + granted l' ts)"

lemma granted_bound:
  "sound l \<Longrightarrow> sorted ts \<Longrightarrow> \<forall>t \<in> set ts. seen_at l \<le> t \<and> t \<le> u \<Longrightarrow> seen_at l \<le> u \<Longrightarrow>
     of_nat (granted l ts) \<le> stock l + of_int (u - seen_at l) * rate l"
proof (induction ts arbitrary: l)
  case Nil
  then show ?case using stock_nonneg rate_nonneg by simp
next
  case (Cons t ts)
  obtain ok l' where a: "ask l t = (ok, l')" by fastforce
  have t: "seen_at l \<le> t" "t \<le> u" using Cons.prems(3) by auto
  from keeps_sound [OF Cons.prems(1) t(1) a] have k: "sound l'" "rate l' = rate l" "seen_at l' = t" by auto
  from Cons.prems(2,3) k(3) t have "of_nat (granted l' ts) \<le> stock l' + of_int (u - t) * rate l"
    using Cons.IH [OF k(1)] by (simp add: k)
  moreover note stock_pays [OF Cons.prems(1) t(1) a]
  moreover have "of_int (t - seen_at l) * rate l + of_int (u - t) * rate l = of_int (u - seen_at l) * rate l"
    by (simp add: algebra_simps)
  ultimately show ?case by (cases ok) (simp_all add: a)
qed

end

definition bucket_ask :: "limiter \<Rightarrow> int \<Rightarrow> bool \<times> limiter" where
  "bucket_ask l t = snd (take_token l t)"

interpretation bucket: stocked bucket_ask l_tokens "\<lambda>l. l_qps l / of_int second" l_last bucket_ok
proof
  fix l t ok l'
  assume b: "bucket_ok l" "l_last l \<le> t" "bucket_ask l t = (ok, l')"
  then obtain wait where t: "take_token l t = (wait, ok, l')"
    by (cases "take_token l t") (simp add: bucket_ask_def)
  show "bucket_ok l' \<and> l_qps l' / of_int second = l_qps l / of_int second \<and> l_last l' = t"
    using bucket_ok_take [OF b(1,2) t] take_token_qps [OF t] by simp
  show "(if ok then 1 else 0) + l_tokens l' \<le> l_tokens l + of_int (t - l_last l) * (l_qps l / of_int second)"
    using t by (auto simp: take_token_def Let_def refill_def min_def split: if_splits)
qed (simp_all add: bucket_ok_def second_def)

lemma grants_granted: "grants l ts = bucket.granted l ts"
  by (induction ts arbitrary: l) (auto simp: bucket_ask_def split: prod.splits)

text \<open>
  C30. The rate limit holds: whenever a bucket is asked between two instants, at any times and
  any number of times, it grants no more than the tokens it had at the first instant plus the
  configured rate times the seconds between them.
\<close>

theorem bucket_rate:
  assumes "bucket_ok l" "sorted ts" "\<forall>t \<in> set ts. l_last l \<le> t \<and> t \<le> u" "l_last l \<le> u"
  shows "of_nat (grants l ts) \<le> l_tokens l + of_int (u - l_last l) * (l_qps l / of_int second)"
  unfolding grants_granted using assms by (rule bucket.granted_bound)

theorem bucket_rate_witness:
  "of_nat (grants (new_limiter 2 0) [0, 0, 0, 500000000, 500000000]) \<le> (3 :: rat)"
proof -
  let ?l = "new_limiter 2 0"
  have b: "bucket_ok ?l" by (simp add: bucket_ok_new)
  have "of_nat (grants ?l [0, 0, 0, 500000000, 500000000])
      \<le> l_tokens ?l + of_int (500000000 - l_last ?l) * (l_qps ?l / of_int second)"
    by (rule bucket_rate [OF b]) (simp_all add: new_limiter_def)
  also have "\<dots> = 3" by (simp add: new_limiter_def second_def)
  finally show ?thesis .
qed

section \<open>A rate below one\<close>

lemma take_token_below_one:
  assumes "l_qps l < 1" "take_token l t = (wait, ok, l')"
  shows "\<not> ok \<and> l_qps l' = l_qps l"
proof -
  have "\<not> 1 \<le> l_tokens (refill l t)" using refill_bound(1) [of l t] assms(1) by linarith
  with assms(2) have "\<not> ok" "l' = refill l t" by (simp_all add: take_token_def Let_def)
  then show ?thesis by (simp add: refill_bound)
qed

definition slow_bucket :: "string \<times> string \<Rightarrow> 's world \<Rightarrow> bool" where
  "slow_bucket key w \<longleftrightarrow> (\<exists>l. map_of (w_limiters w) key = Some l \<and> 0 < l_qps l \<and> l_qps l < 1)"

lemma timer_keeps_limiters: "timer_or_done c wait w = (e, w') \<Longrightarrow> w_limiters w' = w_limiters w"
  by (auto simp: timer_or_done_def Let_def split: option.splits if_splits)

lemma limiter_wait_slow:
  "limiter_wait c key w = Some y \<Longrightarrow> slow_bucket key w \<longrightarrow> fst y \<noteq> None"
proof (rule limiter_wait.raw_induct [where P = "\<lambda>c key w y. slow_bucket key w \<longrightarrow> fst y \<noteq> None"], goal_cases)
  case (1 lw c key w y)
  show ?case
  proof
    assume "slow_bucket key w"
    then obtain l where l: "map_of (w_limiters w) key = Some l" "0 < l_qps l" "l_qps l < 1"
      by (auto simp: slow_bucket_def)
    obtain wait ok l' where t: "take_token l (w_now w) = (wait, ok, l')" by (cases "take_token l (w_now w)")
    have n: "\<not> ok" "l_qps l' = l_qps l" using take_token_below_one [OF l(3) t] by auto
    let ?w = "w\<lparr>w_limiters := AList.update key l' (w_limiters w)\<rparr>"
    obtain e w2 where d: "timer_or_done c wait ?w = (e, w2)" by fastforce
    have s: "slow_bucket key w2"
      using timer_keeps_limiters [OF d] l n by (simp add: slow_bucket_def)
    have y: "(case e of Some err \<Rightarrow> Some (Some err, w2) | None \<Rightarrow> lw c key w2) = Some y"
      using 1(3) l t n(1) d by (simp add: Let_def)
    show "fst y \<noteq> None"
    proof (cases e)
      case None
      with y 1(2) [of c key w2 y] s show ?thesis by simp
    next
      case (Some err)
      with y show ?thesis by auto
    qed
  qed
qed assumption

text \<open>
  A configured rate above zero and below one request per second lets no request through:
  waiting on such a bucket never grants, it ends with the context's error or not at all.
\<close>

theorem slow_bucket_starves:
  assumes "slow_bucket key w" "limiter_wait c key w = Some (granted, w')"
  shows "granted \<noteq> None"
  using limiter_wait_slow [OF assms(2)] assms(1) by simp

theorem slow_bucket_starves_witness:
  "\<exists>g w'. limiter_wait \<lparr>ctx_end = Some 5, ctx_why = DeadlineExceeded\<rparr> ([], [])
      ((start [])\<lparr>w_limiters := [(([], []), new_limiter (1 / 2) 0)]\<rparr>) = Some (g, w') \<and> g \<noteq> None"
proof -
  let ?c = "\<lparr>ctx_end = Some 5, ctx_why = DeadlineExceeded\<rparr>"
    and ?w = "(start [])\<lparr>w_limiters := [(([], []), new_limiter (1 / 2) 0)]\<rparr>"
  have "\<exists>g w'. limiter_wait ?c ([], []) ?w = Some (g, w')"
    by (subst limiter_wait.simps)
      (simp add: start_def new_limiter_def take_token_def refill_def Let_def trunc_def second_def timer_or_done_def)
  then obtain g w' where g: "limiter_wait ?c ([], []) ?w = Some (g, w')" by blast
  have "slow_bucket ([], []) ?w" by (simp add: slow_bucket_def new_limiter_def)
  from slow_bucket_starves [OF this g] g show ?thesis by blast
qed

section \<open>Waits before a retry\<close>

text \<open>The random source answers in range, as \<open>rand.Int63n\<close> does.\<close>

definition in_range :: "(int \<Rightarrow> int) \<Rightarrow> bool" where
  "in_range draw \<longleftrightarrow> (\<forall>n > 0. 0 \<le> draw n \<and> draw n < n)"

text \<open>
  A wait before a retry is the one Google asked for when it asked for one, and otherwise
  lies between zero and the ceiling of its attempt: a quarter of a second doubled at each
  attempt, and never above thirty seconds.
\<close>

theorem backoff_delay_bounds:
  assumes "in_range draw"
  shows "(ra > 0 \<longrightarrow> backoff_delay draw n ra = ra)
    \<and> (ra \<le> 0 \<longrightarrow> 0 \<le> backoff_delay draw n ra \<and> backoff_delay draw n ra \<le> 250000000 * 2 ^ n
        \<and> backoff_delay draw n ra \<le> 30000000000)"
proof -
  have "0 \<le> draw (backoff_ceiling n + 1) \<and> draw (backoff_ceiling n + 1) \<le> backoff_ceiling n"
    using assms [unfolded in_range_def, rule_format, of "backoff_ceiling n + 1"] backoff_ceiling_bounds [of n]
    by simp
  then show ?thesis using backoff_ceiling_bounds [of n]
    by (auto simp: backoff_delay_def backoff_ceiling_def backoff_cap_def backoff_base_def second_def)
qed

theorem backoff_delay_bounds_witness:
  "backoff_delay (\<lambda>n. n - 1) 3 0 = 2000000000 \<and> backoff_delay (\<lambda>n. n - 1) 9 0 \<le> 30000000000"
proof
  show "backoff_delay (\<lambda>n. n - 1) 3 0 = 2000000000"
    by (simp add: backoff_delay_def backoff_ceiling_def backoff_cap_def backoff_base_def second_def)
  have "in_range (\<lambda>n. n - 1)" by (simp add: in_range_def)
  from backoff_delay_bounds [OF this, of 0 9] show "backoff_delay (\<lambda>n. n - 1) 9 0 \<le> 30000000000" by simp
qed

lemma atoi_examples:
  "atoi ''120'' = Some 120" "atoi ''9223372037'' = Some 9223372037"
  by (simp_all add: atoi_def digits_value_def is_digit_def Let_def)

text \<open>
  A Retry-After given in seconds is read exactly up to the longest duration an int64 of
  nanoseconds can hold, and the next larger value is read as a negative wait, which is then
  not honoured at all.
\<close>

theorem retry_after_seconds:
  "(\<forall>secs. atoi v = Some secs \<and> 0 \<le> secs \<and> secs \<le> 9223372036 \<longrightarrow>
      parse_retry_after x now v = secs * 1000000000)
   \<and> parse_retry_after x now ''9223372037'' < 0"
proof
  have "wrap64 (secs * second) = secs * 1000000000" if "0 \<le> secs" "secs \<le> 9223372036" for secs
    using that by (simp add: wrap64_def second_def)
  then show "\<forall>secs. atoi v = Some secs \<and> 0 \<le> secs \<and> secs \<le> 9223372036 \<longrightarrow>
      parse_retry_after x now v = secs * 1000000000"
    by (auto simp: parse_retry_after_def atoi_def split: if_splits)
  show "parse_retry_after x now ''9223372037'' < 0"
    by (simp add: parse_retry_after_def atoi_examples wrap64_def second_def)
qed

theorem retry_after_seconds_witness: "parse_retry_after sample_ext 0 ''120'' = 120000000000"
  using retry_after_seconds [of "''120''" sample_ext 0] by (simp add: atoi_examples)

section \<open>Repeating a request\<close>

text \<open>Between two requests the trace of requests stands still: the client's interface with no method allowed.\<close>

definition same_sent :: "'s world \<Rightarrow> 's world \<Rightarrow> bool" where
  "same_sent w w' \<longleftrightarrow> w_sent w' = w_sent w"

interpretation quiet: client_order same_sent "\<lambda>m. False"
  by unfold_locales (simp_all add: same_sent_def)

definition request_of :: "'s client \<Rightarrow> string \<Rightarrow> string \<Rightarrow> any option \<Rightarrow> int \<Rightarrow> request" where
  "request_of cl meth full body bound = \<lparr>rq_method = meth, rq_url = full, rq_body = body,
     rq_quota_project = cl_quota_project cl, rq_bound = (if bound > 0 then bound else cl_timeout cl)\<rparr>"

definition repeated :: "nat \<Rightarrow> request \<Rightarrow> 's world \<Rightarrow> 's world \<Rightarrow> bool" where
  "repeated n rq w w' \<longleftrightarrow> (\<exists>k \<le> n. w_sent w' = w_sent w @ replicate k rq)"

lemma repeated_same: "same_sent w w' \<Longrightarrow> repeated n rq w w'"
  unfolding same_sent_def repeated_def by (rule exI [of _ 0]) simp

lemma repeated_step:
  "same_sent w w1 \<Longrightarrow> w_sent w2 = w_sent w1 @ [rq] \<Longrightarrow> repeated n rq w2 w' \<Longrightarrow> repeated (Suc n) rq w w'"
proof -
  assume "same_sent w w1" "w_sent w2 = w_sent w1 @ [rq]" "repeated n rq w2 w'"
  then obtain k where "k \<le> n" "w_sent w' = w_sent w @ rq # replicate k rq"
    by (auto simp: same_sent_def repeated_def)
  then show ?thesis unfolding repeated_def by (intro exI [of _ "Suc k"]) simp
qed

lemma do_once_sent:
  "do_once cl c meth full body bound w = (r, w') \<Longrightarrow> w_sent w' = w_sent w @ [request_of cl meth full body bound]"
  by (auto simp: do_once_def Let_def request_of_def split: prod.splits)

lemma do_attempts_repeats:
  "runs (repeated n (request_of cl meth full body bound)) w
     (do_attempts cl c meth full body bound key n attempt le w)"
proof (induction n arbitrary: attempt le w)
  case 0
  then show ?case by (simp add: repeated_same quiet.refl)
next
  case (Suc n)
  let ?rq = "request_of cl meth full body bound"
  obtain e w1 where p: "(if attempt > 0 then sleep_before_retry cl c attempt le w else (None, w)) = (e, w1)"
    by fastforce
  then have q1: "same_sent w w1"
    by (auto simp: quiet.refl split: if_splits dest: quiet.sleep_before_retry [OF quiet.refl])
  have tail: "runs (repeated (Suc n) ?rq) w (case do_once cl c meth full body bound w2 of
        (Inr result, w) \<Rightarrow> Some (Inr result, w)
      | (Inl e, w) \<Rightarrow> if classify_error e \<noteq> SafeToRetry then Some (Inl e, w)
          else do_attempts cl c meth full body bound key n (Suc attempt) e w)" if q2: "same_sent w w2" for w2
  proof -
    obtain r w3 where o: "do_once cl c meth full body bound w2 = (r, w3)" by fastforce
    have s: "repeated n ?rq w3 w' \<Longrightarrow> repeated (Suc n) ?rq w w'" for w'
      using repeated_step [OF q2 do_once_sent [OF o]] .
    have i: "runs (repeated (Suc n) ?rq) w (do_attempts cl c meth full body bound key n (Suc attempt) e w3)" for e
      using Suc.IH [unfolded runs_def] s unfolding runs_def by blast
    show ?thesis using o i s [OF repeated_same [OF quiet.refl]] by (cases r) auto
  qed
  show ?case
  proof (cases e)
    case None
    show ?thesis
    proof (cases "limiter_wait c key w1")
      case (Some y)
      obtain waited w2 where y: "y = (waited, w2)" by (cases y)
      have q2: "same_sent w w2" using runs_D [OF quiet.limiter_wait_runs [OF q1] Some [unfolded y]] .
      show ?thesis using p None Some y tail [OF q2] repeated_same [OF q2] by (cases waited) simp_all
    qed (use p None in simp)
  qed (use p q1 in \<open>simp add: repeated_same\<close>)
qed

text \<open>
  A call of the client sends one request, and when it is retried it sends that very
  request again: what is added to the trace are at most as many copies of it as there are
  attempts.
\<close>

theorem retries_repeat:
  "runs (repeated (max_attempts cl) (request_of cl meth (full_url cl url) body 0)) w
     (client_do cl c meth url body w)"
proof -
  let ?key = "parse_project_and_api (full_url cl url)"
  have "same_sent w (limiter_for cl ?key w)" by (rule quiet.limiter_for [OF quiet.refl])
  then show ?thesis
    using do_attempts_repeats [of "max_attempts cl" cl meth "full_url cl url" body 0
        "limiter_for cl ?key w" c ?key 0 "Errorf ''nil'' []"]
    by (simp add: client_do_def client_do_bounded_def Let_def runs_def repeated_def same_sent_def)
qed

text \<open>The answer to a request was lost: none came, or its body broke off.\<close>

definition answer_lost :: "reply \<Rightarrow> bool" where
  "answer_lost r = (case r of
      NoReply why \<Rightarrow> True | BrokenBody e \<Rightarrow> api_error_of e = None | Reply st ra t b \<Rightarrow> False)"

lemma lost_not_safe:
  "answer_lost r \<Longrightarrow> \<exists>e. read_reply cl rq now r = Inl e \<and> classify_error e \<noteq> SafeToRetry"
  by (auto simp: answer_lost_def read_reply_def classify_error_def split: reply.splits)

lemma max_attempts_Suc: "\<exists>n. max_attempts cl = Suc n"
  by (rule exI [of _ "max_attempts cl - 1"]) (simp add: max_attempts_def default_max_attempts_def)

text \<open>An unlimited client whose first request is answered, or fails for good, is done after it.\<close>

lemma client_do_first:
  assumes "cl_qps cl \<le> 0" "limiters_off w"
    and o: "do_once cl c meth (full_url cl url) body 0 (limiter_for cl (parse_project_and_api (full_url cl url)) w) = (r, w')"
    and e: "\<And>e. r = Inl e \<Longrightarrow> classify_error e \<noteq> SafeToRetry"
  shows "client_do cl c meth url body w = Some (r, w')"
proof -
  let ?w = "limiter_for cl (parse_project_and_api (full_url cl url)) w"
  have off: "limiters_off ?w"
    using assms(1,2) by (auto simp: limiter_for_def limiters_off_def new_limiter_def has_key_iff update_append_fresh)
  obtain n where n: "max_attempts cl = Suc n" using max_attempts_Suc by blast
  show ?thesis using o e
    by (cases r) (simp_all add: client_do_def client_do_bounded_def Let_def n limiter_wait_off [OF off])
qed

text \<open>
  C16. A request whose answer is lost is not sent again: whether Google carried it out is not
  known, so the call sends it exactly once and answers an error.
\<close>

theorem lost_answer_not_repeated:
  assumes "cl_qps cl \<le> 0" "limiters_off w"
    and "cl_transport cl (w_srv w) (request_of cl meth (full_url cl url) body 0) (w_now w)
      (ctx_end (with_timeout c (cl_timeout cl) w)) = (r, took, s)" "answer_lost r"
  shows "\<exists>e w'. client_do cl c meth url body w = Some (Inl e, w')
    \<and> w_sent w' = w_sent w @ [request_of cl meth (full_url cl url) body 0]"
proof -
  let ?key = "parse_project_and_api (full_url cl url)"
  let ?w = "limiter_for cl ?key w"
  have same: "w_srv ?w = w_srv w" "w_now ?w = w_now w" "w_sent ?w = w_sent w"
    by (simp_all add: limiter_for_def)
  then have t: "with_timeout c (cl_timeout cl) ?w = with_timeout c (cl_timeout cl) w"
    by (simp add: with_timeout_def detached_def split: option.splits)
  obtain e w' where o: "do_once cl c meth (full_url cl url) body 0 ?w = (Inl e, w')"
      and e: "classify_error e \<noteq> SafeToRetry"
    using assms(3) lost_not_safe [OF assms(4), of cl "request_of cl meth (full_url cl url) body 0" "w_now w + max 0 took"]
    by (auto simp: do_once_def Let_def same t request_of_def)
  have "client_do cl c meth url body w = Some (Inl e, w')"
    by (rule client_do_first [OF assms(1,2) o]) (use e in simp)
  with do_once_sent [OF o] same(3) show ?thesis by auto
qed

theorem lost_answer_not_repeated_witness:
  "\<exists>e w'. client_do sample_client background ''POST'' ''https://a.example.com/v1/x'' None (start []) = Some (Inl e, w')
     \<and> length (w_sent w') = 1"
proof -
  have "\<exists>e w'. client_do sample_client background ''POST'' ''https://a.example.com/v1/x'' None (start []) = Some (Inl e, w')
    \<and> w_sent w' = w_sent (start []) @ [request_of sample_client ''POST'' (full_url sample_client ''https://a.example.com/v1/x'') None 0]"
    by (rule lost_answer_not_repeated)
      (auto simp: sample_client_def new_client_def limiters_off_def start_def scripted_def answer_lost_def
        client_timeout_def default_timeout_def second_def with_timeout_def detached_def background_def)
  then show ?thesis by (force simp: start_def)
qed

lemma sample_unlimited: "unlimited sample_client" "limiters_off (start rs)"
  by (auto simp: unlimited_def sample_client_def new_client_def client_timeout_def default_timeout_def
      second_def timely_def scripted_def limiters_off_def start_def split: option.splits list.splits if_splits)

section \<open>The answer of an operation\<close>

text \<open>
  The resource inside an operation's response is passed on as it is but for the type
  marker: every other key keeps its value, and the marker is gone.
\<close>

theorem unwrap_any_drops_marker:
  "map_of (unwrap_any m) = (map_of m)(''@type'' := None)"
proof
  fix k
  have "map_of (filter (\<lambda>(k, v). k \<noteq> t) m) k = ((map_of m)(t := None)) k" for t
    by (induction m) auto
  then show "map_of (unwrap_any m) k = ((map_of m)(''@type'' := None)) k"
    by (auto simp: unwrap_any_def has_key_iff map_of_eq_None_iff)
qed

end
