(* ===== verification/Heard.thy ===== *)
theory Heard
  imports Requests
begin

text \<open>
  What a call of the client and a wait for an operation heard from Google: the requests sent
  and the replies to them, one after the other, from the world a run started in to the world it
  ended in. The results of the operations are then stated on the replies themselves.
\<close>

section \<open>Requests and their answers\<close>

text \<open>One request and its answer: what the transport answered at that moment, and what it left.\<close>

definition answered :: "'s client \<Rightarrow> ctx \<Rightarrow> request \<Rightarrow> reply \<Rightarrow> 's world \<Rightarrow> 's world \<Rightarrow> bool" where
  "answered cl c rq rep w w' \<longleftrightarrow>
     (\<exists>took. cl_transport cl (w_srv w) rq (w_now w) (ctx_end (with_timeout c (rq_bound rq) w)) = (rep, took, w_srv w')
        \<and> w_now w' = w_now w + max 0 took \<and> w_sent w' = w_sent w @ [rq])"

text \<open>Time may pass, but nothing is sent and nothing changes at Google.\<close>

definition idle :: "'s world \<Rightarrow> 's world \<Rightarrow> bool" where
  "idle w w' \<longleftrightarrow> w_sent w' = w_sent w \<and> w_srv w' = w_srv w \<and> w_now w \<le> w_now w'"

interpretation idle: client_order idle "\<lambda>m. False"
  by unfold_locales (auto simp: idle_def)

text \<open>
  The exchanges of a run, in order: it ends with the last answer, and between two of them the
  process is idle.
\<close>

inductive hears :: "'s client \<Rightarrow> ctx \<Rightarrow> 's world \<Rightarrow> (request \<times> reply) list \<Rightarrow> 's world \<Rightarrow> bool" for cl c where
  silence: "hears cl c w [] w"
| answer: "hears cl c w tr w1 \<Longrightarrow> idle w1 w2 \<Longrightarrow> answered cl c rq rep w2 w3 \<Longrightarrow> hears cl c w (tr @ [(rq, rep)]) w3"

inductive_simps hears_Nil [simp]: "hears cl c w [] w'"

lemma idle_trans: "idle w1 w2 \<Longrightarrow> idle w2 w3 \<Longrightarrow> idle w1 w3"
  by (auto simp: idle_def)

lemma answered_idle: "idle w0 w \<Longrightarrow> answered cl c rq rep w w' \<Longrightarrow> hears cl c w0 [(rq, rep)] w'"
  using hears.answer [OF hears.silence, of w0 w cl c rq rep w'] by simp

text \<open>A run that goes on from where the first one ended, or from some time after.\<close>

lemma hears_append:
  "hears cl c w2 tr2 w3 \<Longrightarrow> hears cl c w tr w1 \<Longrightarrow> idle w1 w2 \<Longrightarrow> tr2 \<noteq> [] \<Longrightarrow> hears cl c w (tr @ tr2) w3"
proof (induction rule: hears.induct)
  case (answer w2 tr2 w4 w5 rq rep w6)
  show ?case
  proof (cases "tr2 = []")
    case True
    with answer.hyps have "idle w1 w5" using idle_trans [OF answer.prems(2)] by simp
    from hears.answer [OF answer.prems(1) this answer.hyps(3)] show ?thesis using True by simp
  next
    case False
    from hears.answer [OF answer.IH [OF answer.prems(1,2) False] answer.hyps(2,3)] show ?thesis by simp
  qed
qed simp

text \<open>The exchanges up to a moment, some time after the last answer.\<close>

definition heard_by :: "'s client \<Rightarrow> ctx \<Rightarrow> 's world \<Rightarrow> (request \<times> reply) list \<Rightarrow> 's world \<Rightarrow> bool" where
  "heard_by cl c w tr w' \<longleftrightarrow> (\<exists>w1. hears cl c w tr w1 \<and> idle w1 w')"

lemma heard_by_idle: "idle w w' \<Longrightarrow> heard_by cl c w [] w'"
  by (simp add: heard_by_def)

lemma heard_by_hears: "hears cl c w tr w' \<Longrightarrow> heard_by cl c w tr w'"
  using idle.refl unfolding heard_by_def by blast

lemma heard_by_then:
  assumes "heard_by cl c w tr w1"
  shows "hears cl c w1 tr2 w2 \<Longrightarrow> tr2 \<noteq> [] \<Longrightarrow> hears cl c w (tr @ tr2) w2"
    and "heard_by cl c w1 tr2 w2 \<Longrightarrow> heard_by cl c w (tr @ tr2) w2"
proof -
  obtain w0 where w0: "hears cl c w tr w0" "idle w0 w1" using assms by (auto simp: heard_by_def)
  then show h: "hears cl c w1 tr2 w2 \<Longrightarrow> tr2 \<noteq> [] \<Longrightarrow> hears cl c w (tr @ tr2) w2" for w2
    using hears_append by blast
  assume "heard_by cl c w1 tr2 w2"
  then obtain w3 where w3: "hears cl c w1 tr2 w3" "idle w3 w2" by (auto simp: heard_by_def)
  show "heard_by cl c w (tr @ tr2) w2"
  proof (cases "tr2 = []")
    case True
    with w3 w0 show ?thesis by (auto simp: heard_by_def intro: idle_trans)
  next
    case False
    with h w3 show ?thesis by (auto simp: heard_by_def)
  qed
qed

text \<open>What was heard is what was sent.\<close>

lemma hears_sent: "hears cl c w tr w' \<Longrightarrow> w_sent w' = w_sent w @ map fst tr"
  by (induction rule: hears.induct) (auto simp: idle_def answered_def)

section \<open>What a reply says\<close>

definition says_not_found :: "reply \<Rightarrow> bool" where
  "says_not_found r \<longleftrightarrow> (case r of
      NoReply why \<Rightarrow> False
    | BrokenBody e \<Rightarrow> is_not_found e
    | Reply st ra text body \<Rightarrow> 300 \<le> st \<and> (st = 404 \<or> (\<exists>m e. body = Some (AObj m)
        \<and> map_of m ''error'' = Some (AObj e) \<and> map_of e ''status'' = Some (AStr ''NOT_FOUND''))))"

text \<open>An error after which the client sends the request again.\<close>

definition asks_again :: "ext \<Rightarrow> reply \<Rightarrow> bool" where
  "asks_again x r \<longleftrightarrow> (case r of
      NoReply why \<Rightarrow> False
    | BrokenBody e \<Rightarrow> classify_error e = SafeToRetry
    | Reply st ra text body \<Rightarrow> 300 \<le> st \<and> classify_error (ApiErr (decode_api_error x 0 st ra text body)) = SafeToRetry)"

text \<open>The object an answer that succeeded holds.\<close>

definition success_of :: "reply \<Rightarrow> json option option" where
  "success_of r = (case r of
      Reply st ra text body \<Rightarrow>
        if 300 \<le> st then None
        else if text = [] then Some (Some [])
        else (case body of Some (AObj m) \<Rightarrow> Some (Some m) | Some ANil \<Rightarrow> Some None | _ \<Rightarrow> None)
    | NoReply why \<Rightarrow> None | BrokenBody e \<Rightarrow> None)"

lemma decode_string_Some: "decode_string m k = Some s \<Longrightarrow> s \<noteq> [] \<Longrightarrow> map_of m k = Some (AStr s)"
  by (auto simp: decode_string_def split: option.splits any.splits)

lemma decoded_status:
  assumes "decode_envelope body = Some env" "env_status env = s" "s \<noteq> []"
  shows "\<exists>m e. body = Some (AObj m) \<and> map_of m ''error'' = Some (AObj e) \<and> map_of e ''status'' = Some (AStr s)"
  using assms unfolding decode_envelope_def empty_envelope_def
  by (auto simp: bind_eq_Some_conv split: option.splits any.splits dest: decode_string_Some)

lemma api_error_explained: "api_error_of (explain_quota_project cl ae) = Some ae"
  by (simp add: explain_quota_project_def)

lemma classify_explained: "classify_error (explain_quota_project cl ae) = classify_error (ApiErr ae)"
  by (simp add: classify_error_def api_error_explained)

lemma classify_decoded: "classify_error (ApiErr (decode_api_error x now st ra text body))
    = classify_error (ApiErr (decode_api_error x 0 st ra text body))"
  by (simp add: classify_error_def decode_api_error_def Let_def split: option.split)

lemma read_reply_not_found: "read_reply cl rq now rep = Inl e \<Longrightarrow> is_not_found e \<Longrightarrow> says_not_found rep"
  by (auto simp: read_reply_def says_not_found_def is_not_found_def api_error_explained decode_api_error_def Let_def
      split: reply.splits if_splits option.splits any.splits dest!: decoded_status)

lemma classify_plain: "classify_error (Errorf f args) \<noteq> SafeToRetry" "classify_error (NetErr why) \<noteq> SafeToRetry"
  by (simp_all add: classify_error_def)

lemma read_reply_again:
  assumes "read_reply cl rq now rep = Inl e" "classify_error e = SafeToRetry"
  shows "asks_again (cl_ext cl) rep"
proof (cases rep)
  case (Reply st ra bytes body)
  have "300 \<le> st" using assms classify_plain(1) unfolding Reply
    by (auto simp: read_reply_def classify_error_wrap split: if_splits option.splits any.splits)
  with assms Reply have "classify_error (ApiErr (decode_api_error (cl_ext cl) now st ra bytes body)) = SafeToRetry"
    by (auto simp: read_reply_def classify_explained)
  with \<open>300 \<le> st\<close> Reply show ?thesis
    unfolding classify_decoded [of _ now] by (simp add: asks_again_def)
qed (use assms classify_plain(2) in \<open>auto simp: read_reply_def asks_again_def classify_error_wrap\<close>)

lemma asks_again_refuses: "asks_again x rep \<Longrightarrow> success_of rep = None"
  by (auto simp: asks_again_def success_of_def split: reply.splits)

lemma read_reply_refuses: "read_reply cl rq now rep = Inl e \<Longrightarrow> success_of rep = None"
  by (auto simp: read_reply_def success_of_def split: reply.splits if_splits option.splits any.splits)

lemma read_reply_accepted: "read_reply cl rq now rep = Inr b \<Longrightarrow> success_of rep = Some b"
  by (auto simp: read_reply_def success_of_def split: reply.splits if_splits option.splits any.splits)

section \<open>A call of the client\<close>

text \<open>
  What a call heard: replies to the one request it sends, of which every one but the last asked
  for another attempt; a success is what the last one holds, and a not-found error is what the
  last one says.
\<close>

definition called :: "'s client \<Rightarrow> ctx \<Rightarrow> request \<Rightarrow> 's world \<Rightarrow> json option res \<Rightarrow> (request \<times> reply) list \<Rightarrow> 's world \<Rightarrow> bool" where
  "called cl c rq w r tr w' \<longleftrightarrow> (\<forall>(q, a) \<in> set tr. q = rq) \<and> (\<forall>(q, a) \<in> set (butlast tr). asks_again (cl_ext cl) a)
     \<and> (case r of
          Inr b \<Rightarrow> tr \<noteq> [] \<and> hears cl c w tr w' \<and> success_of (snd (last tr)) = Some b
        | Inl e \<Rightarrow> heard_by cl c w tr w' \<and> (\<forall>(q, a) \<in> set tr. success_of a = None)
            \<and> (is_not_found e \<longrightarrow> tr \<noteq> [] \<and> hears cl c w tr w' \<and> says_not_found (snd (last tr))))"

lemma context_not_found [simp]: "\<not> is_not_found (CtxErr why)"
  by (simp add: is_not_found_def)

lemma timer_error: "fst (timer_or_done c wait w) = Some e \<Longrightarrow> \<not> is_not_found e"
  by (auto simp: timer_or_done_def Let_def split: option.splits if_splits)

lemma sleep_error: "sleep_before_retry cl c n le w = (Some e, w') \<Longrightarrow> \<not> is_not_found e"
  by (auto simp: sleep_before_retry_def Let_def split: prod.splits if_splits dest!: arg_cong [where f = fst] dest: timer_error)

lemma limiter_error: "limiter_wait c key w = Some y \<Longrightarrow> \<forall>e. fst y = Some e \<longrightarrow> \<not> is_not_found e"
proof (rule limiter_wait.raw_induct [where P = "\<lambda>c key w y. \<forall>e. fst y = Some e \<longrightarrow> \<not> is_not_found e"], goal_cases)
  case (1 lw c key w y)
  show ?case
    using 1(3) by (auto simp: Let_def split: option.splits if_splits prod.splits dest!: 1(2) dest: timer_error)
qed assumption

lemma do_once_answered:
  assumes "do_once cl c meth full body bound w = (r, w')"
  obtains rep where "answered cl c (request_of cl meth full body bound) rep w w'"
    "read_reply cl (request_of cl meth full body bound) (w_now w') rep = r"
  using assms by (auto simp: do_once_def Let_def request_of_def answered_def split: prod.splits)

lemma called_stop: "heard_by cl c w [] w' \<Longrightarrow> \<not> is_not_found e \<Longrightarrow> called cl c rq w (Inl e) [] w'"
  by (simp add: called_def)

lemma called_first:
  assumes "idle w w1" "answered cl c rq rep w1 w'" "read_reply cl rq (w_now w') rep = r"
  shows "called cl c rq w r [(rq, rep)] w'"
  using answered_idle [OF assms(1,2)] heard_by_hears assms(3)
  by (auto simp: called_def split: sum.split intro: read_reply_accepted read_reply_not_found
      dest: read_reply_refuses)

lemma called_again:
  assumes "idle w w1" "answered cl c rq rep w1 w2" "asks_again (cl_ext cl) rep"
    and k: "called cl c rq w2 r tr w'" and "tr \<noteq> []"
  shows "called cl c rq w r ((rq, rep) # tr) w'"
  using assms(3-5) asks_again_refuses [OF assms(3)] heard_by_then [OF heard_by_hears [OF answered_idle [OF assms(1,2)]], of tr w']
  by (auto simp: called_def split: sum.splits)

text \<open>After a reply, the call either ends with it or makes another attempt that hears something.\<close>

lemma do_attempts_called:
  "do_attempts cl c meth full body bound key n attempt le w = Some (r, w') \<Longrightarrow>
     (n = 0 \<and> r = Inl le \<and> w' = w) \<or> (\<exists>tr. called cl c (request_of cl meth full body bound) w r tr w')"
proof (induction n arbitrary: attempt le w)
  case (Suc n)
  let ?rq = "request_of cl meth full body bound"
  obtain e w1 where p: "(if attempt > 0 then sleep_before_retry cl c attempt le w else (None, w)) = (e, w1)"
    by fastforce
  then have q1: "idle w w1" and e1: "\<And>err. e = Some err \<Longrightarrow> \<not> is_not_found err"
    by (auto simp: idle.refl split: if_splits dest: idle.sleep_before_retry [OF idle.refl] sleep_error)
  show ?case
  proof (cases e)
    case (Some err)
    with Suc.prems p have "r = Inl err" "w' = w1" by auto
    with called_stop [OF heard_by_idle [OF q1]] e1 Some show ?thesis by blast
  next
    case None
    with Suc.prems p obtain waited w2 where lw: "limiter_wait c key w1 = Some (waited, w2)"
        and y: "(case waited of Some e \<Rightarrow> Some (Inl e, w2)
          | None \<Rightarrow> (case do_once cl c meth full body bound w2 of
                (Inr result, w) \<Rightarrow> Some (Inr result, w)
              | (Inl e, w) \<Rightarrow>
                  if classify_error e \<noteq> SafeToRetry then Some (Inl e, w)
                  else do_attempts cl c meth full body bound key n (Suc attempt) e w)) = Some (r, w')"
      by (auto simp: bind_eq_Some_conv)
    have q2: "idle w w2" using runs_D [OF idle.limiter_wait_runs [OF q1] lw] .
    show ?thesis
    proof (cases waited)
      case (Some err)
      with y called_stop [OF heard_by_idle [OF q2]] limiter_error [OF lw] show ?thesis by fastforce
    next
      case None
      obtain r3 w3 where o: "do_once cl c meth full body bound w2 = (r3, w3)" by fastforce
      obtain rep where a: "answered cl c ?rq rep w2 w3" "read_reply cl ?rq (w_now w3) rep = r3"
        using do_once_answered [OF o] by blast
      note one = called_first [OF q2 a]
      show ?thesis
      proof (cases "\<exists>e. r3 = Inl e \<and> classify_error e = SafeToRetry")
        case False
        with y None o one show ?thesis by (cases r3) auto
      next
        case True
        then obtain e3 where e3: "r3 = Inl e3" "classify_error e3 = SafeToRetry" by blast
        have ag: "asks_again (cl_ext cl) rep" using read_reply_again [OF a(2) [unfolded e3(1)] e3(2)] .
        have "do_attempts cl c meth full body bound key n (Suc attempt) e3 w3 = Some (r, w')"
          using y None o e3 by simp
        from Suc.IH [OF this] show ?thesis
        proof (elim disjE exE)
          assume "n = 0 \<and> r = Inl e3 \<and> w' = w3"
          with one e3(1) show ?thesis by blast
        next
          fix tr assume k: "called cl c ?rq w3 r tr w'"
          show ?thesis
          proof (cases "tr = []")
            case False
            from called_again [OF q2 a(1) ag k this] show ?thesis by blast
          next
            case True
            with k obtain e4 where "r = Inl e4" "\<not> is_not_found e4" "heard_by cl c w3 [] w'"
              by (auto simp: called_def split: sum.splits)
            moreover have "heard_by cl c w [(?rq, rep)] w'"
              using heard_by_then(2) [OF heard_by_hears [OF answered_idle [OF q2 a(1)]] calculation(3)] by simp
            ultimately show ?thesis by (intro disjI2 exI [of _ "[(?rq, rep)]"]) (simp add: called_def asks_again_refuses [OF ag])
          qed
        qed
      qed
    qed
  qed
qed simp

lemma called_heard:
  assumes "called cl c rq w r tr w'"
  shows "heard_by cl c w tr w'" "\<forall>(q, a) \<in> set tr. q = rq"
  using assms by (auto simp: called_def intro: heard_by_hears split: sum.splits)

lemma client_do_bounded_called:
  assumes "client_do_bounded cl c meth url body bound w = Some (r, w')"
  shows "\<exists>tr. called cl c (request_of cl meth (full_url cl url) body bound) w r tr w'"
proof -
  let ?rq = "request_of cl meth (full_url cl url) body bound" and ?key = "parse_project_and_api (full_url cl url)"
  obtain n where n: "max_attempts cl = Suc n" using max_attempts_Suc by blast
  have i: "idle w (limiter_for cl ?key w)" by (rule idle.limiter_for [OF idle.refl])
  obtain tr where tr: "called cl c ?rq (limiter_for cl ?key w) r tr w'"
    using assms do_attempts_called [of cl c meth "full_url cl url" body bound ?key "Suc n" 0 _ "limiter_for cl ?key w" r w']
    by (auto simp: client_do_bounded_def Let_def n simp del: do_attempts.simps)
  have "called cl c ?rq w r tr w'"
    using tr heard_by_then [OF heard_by_idle [OF i], of cl c tr w'] by (auto simp: called_def split: sum.splits)
  then show ?thesis ..
qed

lemma client_do_called:
  "client_do cl c meth url body w = Some (r, w') \<Longrightarrow>
     \<exists>tr. called cl c (request_of cl meth (full_url cl url) body 0) w r tr w'"
  unfolding client_do_def by (rule client_do_bounded_called)

text \<open>One request answered in the end: asked again as long as the answer says so, up to the last one.\<close>

definition exchange :: "'s client \<Rightarrow> ctx \<Rightarrow> request \<Rightarrow> 's world \<Rightarrow> (request \<times> reply) list \<Rightarrow> 's world \<Rightarrow> bool" where
  "exchange cl c rq w tr w' \<longleftrightarrow> tr \<noteq> [] \<and> hears cl c w tr w' \<and> (\<forall>(q, a) \<in> set tr. q = rq)
     \<and> (\<forall>(q, a) \<in> set (butlast tr). asks_again (cl_ext cl) a)"

lemma client_do_hears_not_found:
  assumes "client_do cl c meth url body w = Some (Inl e, w')" "is_not_found e"
  obtains tr where "exchange cl c (request_of cl meth (full_url cl url) body 0) w tr w'" "says_not_found (snd (last tr))"
proof -
  obtain tr where "called cl c (request_of cl meth (full_url cl url) body 0) w (Inl e) tr w'"
    using client_do_called [OF assms(1)] ..
  with assms(2) show ?thesis by (intro that [of tr]) (auto simp: called_def exchange_def)
qed

lemma client_do_succeeds:
  assumes "client_do cl c meth url body w = Some (Inr b, w')"
  obtains tr where "exchange cl c (request_of cl meth (full_url cl url) body 0) w tr w'" "success_of (snd (last tr)) = Some b"
proof -
  obtain tr where "called cl c (request_of cl meth (full_url cl url) body 0) w (Inr b) tr w'"
    using client_do_called [OF assms(1)] ..
  then show ?thesis by (intro that [of tr]) (auto simp: called_def exchange_def)
qed

section \<open>Waiting for an operation\<close>

text \<open>
  A request that polls an operation: no body, and for its address an expansion, under the type's
  API base url, of the path its operations are polled at, in which the operation's name is the
  one its last answer gives; the wait path and \<open>POST\<close> for a compute operation of a type that has
  one, else the poll path and \<open>GET\<close>.
\<close>

definition is_poll :: "'s gcp_provider \<Rightarrow> ctype \<Rightarrow> await_kind \<Rightarrow> json option \<Rightarrow> request \<Rightarrow> bool" where
  "is_poll p ty k op q \<longleftrightarrow> (\<exists>waits attrs rel m name. waits = (k = AwaitComputeOperation \<and> t_operation_wait_path ty \<noteq> [])
     \<and> expand_url (p_ext p) (if waits then t_operation_wait_path ty else t_operation_poll_path ty) attrs = Inr rel
     \<and> op = Some m \<and> map_of m ''name'' = Some (AStr name)
     \<and> map_of attrs (if k = AwaitComputeOperation then ''operation'' else ''name'') = Some (v_string name SourceProvider)
     \<and> rq_method q = (if waits then ''POST'' else ''GET'') \<and> rq_body q = None
     \<and> rq_url q = full_url (p_client p) (t_api_base_url ty @ rel))"

text \<open>
  The operation as last heard of: what the last answer that succeeded holds, or the answer the
  wait began with; and every request of a run polling the operation as it was last heard of.
\<close>

fun latest :: "json option \<Rightarrow> (request \<times> reply) list \<Rightarrow> json option" where
  "latest op [] = op"
| "latest op ((q, a) # tr) = latest (case success_of a of Some b \<Rightarrow> b | None \<Rightarrow> op) tr"

fun polls :: "'s gcp_provider \<Rightarrow> ctype \<Rightarrow> await_kind \<Rightarrow> json option \<Rightarrow> (request \<times> reply) list \<Rightarrow> bool" where
  "polls p ty k op [] \<longleftrightarrow> True"
| "polls p ty k op ((q, a) # tr) \<longleftrightarrow>
     is_poll p ty k op q \<and> polls p ty k (case success_of a of Some b \<Rightarrow> b | None \<Rightarrow> op) tr"

lemma latest_append [simp]: "latest op (tr @ tr') = latest (latest op tr) tr'"
  by (induction op tr rule: latest.induct) auto

lemma polls_append [simp]: "polls p ty k op (tr @ tr') \<longleftrightarrow> polls p ty k op tr \<and> polls p ty k (latest op tr) tr'"
  by (induction p ty k op tr rule: polls.induct) auto

lemma polls_call:
  assumes "is_poll p ty k op rq"
  shows "\<forall>(q, a) \<in> set tr. q = rq \<Longrightarrow> \<forall>(q, a) \<in> set (butlast tr). success_of a = None \<Longrightarrow> polls p ty k op tr"
    and "\<forall>(q, a) \<in> set (butlast tr). success_of a = None \<Longrightarrow> tr \<noteq> [] \<Longrightarrow>
      latest op tr = (case success_of (snd (last tr)) of Some b \<Rightarrow> b | None \<Rightarrow> op)"
    and "\<forall>(q, a) \<in> set tr. success_of a = None \<Longrightarrow> latest op tr = op"
  using assms by (induction tr) (auto split: if_splits)

text \<open>An answer that says the operation is done, without an error, and what then stands for its result.\<close>

definition ended_well :: "await_kind \<Rightarrow> json option \<Rightarrow> json option \<Rightarrow> bool" where
  "ended_well k op b \<longleftrightarrow> (case k of
      AwaitNone \<Rightarrow> b = op
    | AwaitLongRunning \<Rightarrow> (\<exists>m. op = Some m \<and> map_of m ''done'' = Some (ABool True)
        \<and> (\<forall>e. map_of m ''error'' \<noteq> Some (AObj e))
        \<and> (case map_of m ''response'' of
             Some (AObj r) \<Rightarrow> (\<exists>r'. b = Some r' \<and> map_of r' = (map_of r)(''@type'' := None))
           | _ \<Rightarrow> b = None))
    | AwaitComputeOperation \<Rightarrow> (\<exists>m. op = Some m \<and> map_of m ''status'' = Some (AStr ''DONE'')
        \<and> (\<forall>e. map_of m ''error'' \<noteq> Some (AObj e))
        \<and> (case map_of m ''targetLink'' of
             Some (AStr t) \<Rightarrow> b = (if t = [] then None else Some [(''selfLink'', AStr t)])
           | _ \<Rightarrow> b = None)))"

lemma lro_ended:
  assumes "lro_done ty op = d"
  shows "d = Some (Inr b) \<Longrightarrow> ended_well AwaitLongRunning op b"
    and "d = None \<or> d = Some (Inl e) \<Longrightarrow> \<not> ended_well AwaitLongRunning op b"
proof -
  have t: "any_true (jget op ''done'') \<longleftrightarrow> (\<exists>m. op = Some m \<and> map_of m ''done'' = Some (ABool True))"
    by (cases op) (auto simp: any_true_def jget_def)
  have n: "any_obj (jget (Some m) ''error'') = None \<longleftrightarrow> (\<forall>e. map_of m ''error'' \<noteq> Some (AObj e))" for m
    by (auto simp: any_obj_def jget_def split: option.splits any.splits)
  show "d = Some (Inr b) \<Longrightarrow> ended_well AwaitLongRunning op b"
    using assms unfolding lro_done_def t ended_well_def
    by (auto simp: n [symmetric] split: if_splits option.splits)
      (auto simp: any_obj_def jget_def unwrap_any_drops_marker split: option.splits any.splits)
  show "d = None \<or> d = Some (Inl e) \<Longrightarrow> \<not> ended_well AwaitLongRunning op b"
    using assms unfolding lro_done_def t ended_well_def
    by (auto simp: n [symmetric] split: if_splits option.splits)
qed

lemma compute_ended:
  assumes "compute_done ty op = d"
  shows "d = Some (Inr b) \<Longrightarrow> ended_well AwaitComputeOperation op b"
    and "d = None \<or> d = Some (Inl e) \<Longrightarrow> \<not> ended_well AwaitComputeOperation op b"
proof -
  have t: "any_str (jget op ''status'') = ''DONE'' \<longleftrightarrow> (\<exists>m. op = Some m \<and> map_of m ''status'' = Some (AStr ''DONE''))"
    by (cases op) (auto simp: any_str_def jget_def split: option.splits any.splits)
  have n: "any_obj (jget (Some m) ''error'') = None \<longleftrightarrow> (\<forall>e. map_of m ''error'' \<noteq> Some (AObj e))" for m
    by (auto simp: any_obj_def jget_def split: option.splits any.splits)
  show "d = Some (Inr b) \<Longrightarrow> ended_well AwaitComputeOperation op b"
    using assms unfolding compute_done_def t ended_well_def
    by (auto simp: n [symmetric] Let_def split: if_splits option.splits)
      (auto simp: any_str_def jget_def split: option.splits any.splits)
  show "d = None \<or> d = Some (Inl e) \<Longrightarrow> \<not> ended_well AwaitComputeOperation op b"
    using assms unfolding compute_done_def t ended_well_def
    by (auto simp: n [symmetric] Let_def split: if_splits option.splits)
qed

text \<open>What a wait heard and what it makes of it.\<close>

definition waited :: "'s gcp_provider \<Rightarrow> ctx \<Rightarrow> ctype \<Rightarrow> await_kind \<Rightarrow> json option \<Rightarrow> 's world \<Rightarrow> json option res
    \<Rightarrow> (request \<times> reply) list \<Rightarrow> 's world \<Rightarrow> bool" where
  "waited p c ty k op w r tr w' \<longleftrightarrow> polls p ty k op tr
     \<and> (case r of
          Inr b \<Rightarrow> hears (p_client p) c w tr w' \<and> ended_well k (latest op tr) b
        | Inl e \<Rightarrow> heard_by (p_client p) c w tr w' \<and> (\<forall>b. \<not> ended_well k (latest op tr) b))"

text \<open>One turn: the poll and the exchange it had.\<close>

definition turned :: "'s gcp_provider \<Rightarrow> ctx \<Rightarrow> ctype \<Rightarrow> await_kind \<Rightarrow> json option \<Rightarrow> 's world \<Rightarrow> json option res
    \<Rightarrow> (request \<times> reply) list \<Rightarrow> 's world \<Rightarrow> bool" where
  "turned p c ty k op w r tr w' \<longleftrightarrow> polls p ty k op tr
     \<and> (case r of
          Inr b \<Rightarrow> tr \<noteq> [] \<and> hears (p_client p) c w tr w' \<and> latest op tr = b
        | Inl e \<Rightarrow> heard_by (p_client p) c w tr w' \<and> latest op tr = op)"

lemma turned_stop: "idle w w' \<Longrightarrow> turned p c ty k op w (Inl e) [] w'"
  by (simp add: turned_def heard_by_idle)

lemma turned_call:
  assumes i: "idle w w1" and poll: "is_poll p ty k op rq" and k: "called (p_client p) c rq w1 r tr w'"
  shows "turned p c ty k op w r tr w'"
proof -
  have none: "\<forall>(q, a) \<in> set (butlast tr). success_of a = None"
    using k by (auto simp: called_def dest: asks_again_refuses)
  have "polls p ty k op tr" by (rule polls_call(1) [OF poll _ none]) (use k in \<open>simp add: called_def\<close>)
  then show ?thesis
    using k polls_call(2,3) [OF poll] none heard_by_then [OF heard_by_idle [OF i], of "p_client p" c tr w']
    by (auto simp: turned_def called_def split: sum.splits)
qed

lemma turn_goes_on:
  assumes t: "turned p c ty k op w (Inr op') tr w1" and y: "waited p c ty k op' w1 r tr' w'"
  shows "waited p c ty k op w r (tr @ tr') w'"
proof -
  have h: "hears (p_client p) c w tr w1" "latest op tr = op'" using t by (auto simp: turned_def)
  show ?thesis
    using t y h heard_by_then [OF heard_by_hears [OF h(1)], of tr' w']
    by (cases "tr' = []") (auto simp: waited_def turned_def split: sum.splits)
qed

lemma turn_fails:
  "turned p c ty k op w (Inl e) tr w' \<Longrightarrow> (\<And>b. \<not> ended_well k op b) \<Longrightarrow> waited p c ty k op w (Inl e) tr w'"
  by (simp add: waited_def turned_def)

lemma name_of_op:
  "any_str (jget op ''name'') \<noteq> [] \<Longrightarrow> \<exists>m. op = Some m \<and> map_of m ''name'' = Some (AStr (any_str (jget op ''name'')))"
  by (auto simp: any_str_def jget_def split: option.splits any.splits)

lemma operation_attrs_name:
  "map_of (operation_attrs p ty op) ''operation'' = Some (v_string (any_str (jget op ''name'')) SourceProvider)"
  by (simp add: operation_attrs_def put_place_def update_conv')

lemma lro_turn_turned:
  assumes "lro_turn p c ty n op w = Some (r, w')"
  shows "\<exists>tr. turned p c ty AwaitLongRunning op w r tr w'"
proof -
  let ?name = "any_str (jget op ''name'')"
  obtain e w1 where s: "sleep_backoff (p_client p) c n w = (e, w1)" by fastforce
  have i: "idle w w1" using idle.sleep_backoff [OF idle.refl s] .
  show ?thesis
  proof (cases "?name = [] \<or> t_operation_poll_path ty = [] \<or> e \<noteq> None")
    case True
    with assms s i show ?thesis
      by (auto simp: lro_turn_def Let_def idle.refl split: if_splits intro!: exI [of _ "[]"] turned_stop)
  next
    case False
    show ?thesis
    proof (cases "lro_poll_url p ty ?name")
      case (Inl err)
      with False assms s turned_stop [OF i, of p c ty AwaitLongRunning op err] show ?thesis by (auto simp: lro_turn_def Let_def)
    next
      case (Inr url)
      then obtain rel where rel: "url = t_api_base_url ty @ rel"
          "expand_url (p_ext p) (t_operation_poll_path ty) [(''name'', v_string ?name SourceProvider)] = Inr rel"
        by (auto simp: lro_poll_url_def split: sum.splits)
      from False assms s Inr have "client_do (p_client p) c ''GET'' url None w1 = Some (r, w')"
        by (auto simp: lro_turn_def Let_def)
      from client_do_called [OF this] obtain tr
        where k: "called (p_client p) c (request_of (p_client p) ''GET'' (full_url (p_client p) url) None 0) w1 r tr w'" ..
      have "is_poll p ty AwaitLongRunning op (request_of (p_client p) ''GET'' (full_url (p_client p) url) None 0)"
        unfolding is_poll_def using rel False name_of_op [of op]
        by (intro exI [of _ False] exI [of _ "[(''name'', v_string ?name SourceProvider)]"] exI [of _ rel])
          (auto simp: request_of_def)
      from turned_call [OF i this k] show ?thesis ..
    qed
  qed
qed

lemma compute_turn_turned:
  assumes "compute_turn p c ty n op w = Some (r, w')"
  shows "\<exists>tr. turned p c ty AwaitComputeOperation op w r tr w'"
proof (cases "operation_request_url p ty op")
  case (Inl e)
  with assms show ?thesis by (auto simp: compute_turn_def idle.refl intro!: exI [of _ "[]"] turned_stop)
next
  case (Inr mu)
  obtain meth url where mu: "mu = (meth, url)" by (cases mu)
  let ?waits = "t_operation_wait_path ty \<noteq> []"
  obtain e w1 where s: "(if \<not> (?waits \<and> n = 0) then sleep_backoff (p_client p) c n w else (None, w)) = (e, w1)"
    by fastforce
  have i: "idle w w1" using s idle.sleep_backoff [OF idle.refl] by (auto simp: idle.refl split: if_splits)
  from Inr [unfolded mu] obtain rel where u: "meth = (if ?waits then ''POST'' else ''GET'')"
      "url = t_api_base_url ty @ rel"
      "expand_url (p_ext p) (if ?waits then t_operation_wait_path ty else t_operation_poll_path ty)
        (operation_attrs p ty op) = Inr rel" "any_str (jget op ''name'') \<noteq> []"
    by (auto simp: operation_request_url_def Let_def split: if_splits sum.splits)
  have poll: "is_poll p ty AwaitComputeOperation op (request_of (p_client p) meth (full_url (p_client p) url) None bound)" for bound
    unfolding is_poll_def using u name_of_op [OF u(4)] operation_attrs_name [of p ty op]
    by (intro exI [of _ ?waits] exI [of _ "operation_attrs p ty op"] exI [of _ rel]) (auto simp: request_of_def)
  show ?thesis
  proof (cases e)
    case (Some err)
    with assms Inr mu s have "\<exists>e. r = Inl e" "w' = w1"
      by (auto simp: compute_turn_def split: if_splits)
    with turned_stop [OF i] show ?thesis by blast
  next
    case None
    with assms Inr mu s obtain bound where "client_do_bounded (p_client p) c meth url None bound w1 = Some (r, w')"
      by (auto simp: compute_turn_def client_do_def client_do_long_poll_def split: if_splits)
    from client_do_bounded_called [OF this] obtain tr
      where "called (p_client p) c (request_of (p_client p) meth (full_url (p_client p) url) None bound) w1 r tr w'" ..
    from turned_call [OF i poll this] show ?thesis ..
  qed
qed

lemma waited_done:
  "(\<And>b. r = Inr b \<Longrightarrow> ended_well k op b) \<Longrightarrow> (\<And>e b. r = Inl e \<Longrightarrow> \<not> ended_well k op b) \<Longrightarrow>
     waited p c ty k op w r [] w"
  by (auto simp: waited_def heard_by_def idle.refl split: sum.split)

lemma await_long_running_waited:
  "await_long_running p c ty n op w = Some y \<Longrightarrow> \<exists>tr. waited p c ty AwaitLongRunning op w (fst y) tr (snd y)"
proof (rule await_long_running.raw_induct [where P =
    "\<lambda>p c ty n op w y. \<exists>tr. waited p c ty AwaitLongRunning op w (fst y) tr (snd y)"], goal_cases)
  case (1 lw p c ty n op w y)
  show ?case
  proof (cases "lro_done ty op")
    case None
    with 1(3) obtain r w1 where t: "lro_turn p c ty n op w = Some (r, w1)"
        and y: "(case r of Inl e \<Rightarrow> Some (Inl e, w1) | Inr op \<Rightarrow> lw p c ty (Suc n) op w1) = Some y"
      by (auto simp: bind_eq_Some_conv)
    from lro_turn_turned [OF t] obtain tr where tr: "turned p c ty AwaitLongRunning op w r tr w1" ..
    show ?thesis
    proof (cases r)
      case (Inl e)
      have "waited p c ty AwaitLongRunning op w (Inl e) tr w1"
        by (rule turn_fails [OF tr [unfolded Inl] lro_ended(2) [OF None]]) simp
      with y Inl show ?thesis by auto
    next
      case (Inr op')
      with y have "lw p c ty (Suc n) op' w1 = Some y" by simp
      from 1(2) [OF this] obtain tr' where "waited p c ty AwaitLongRunning op' w1 (fst y) tr' (snd y)" ..
      with turn_goes_on [OF tr [unfolded Inr]] show ?thesis by blast
    qed
  next
    case (Some r)
    have "waited p c ty AwaitLongRunning op w r [] w"
      by (rule waited_done) (use lro_ended [OF Some] in auto)
    with Some 1(3) show ?thesis by (auto split: sum.splits)
  qed
qed assumption

lemma await_compute_operation_waited:
  "await_compute_operation p c ty n op w = Some y \<Longrightarrow> \<exists>tr. waited p c ty AwaitComputeOperation op w (fst y) tr (snd y)"
proof (rule await_compute_operation.raw_induct [where P =
    "\<lambda>p c ty n op w y. \<exists>tr. waited p c ty AwaitComputeOperation op w (fst y) tr (snd y)"], goal_cases)
  case (1 lw p c ty n op w y)
  show ?case
  proof (cases "compute_done ty op")
    case None
    with 1(3) obtain r w1 where t: "compute_turn p c ty n op w = Some (r, w1)"
        and y: "(case r of Inl e \<Rightarrow> Some (Inl e, w1) | Inr op \<Rightarrow> lw p c ty (Suc n) op w1) = Some y"
      by (auto simp: bind_eq_Some_conv)
    from compute_turn_turned [OF t] obtain tr where tr: "turned p c ty AwaitComputeOperation op w r tr w1" ..
    show ?thesis
    proof (cases r)
      case (Inl e)
      have "waited p c ty AwaitComputeOperation op w (Inl e) tr w1"
        by (rule turn_fails [OF tr [unfolded Inl] compute_ended(2) [OF None]]) simp
      with y Inl show ?thesis by auto
    next
      case (Inr op')
      with y have "lw p c ty (Suc n) op' w1 = Some y" by simp
      from 1(2) [OF this] obtain tr' where "waited p c ty AwaitComputeOperation op' w1 (fst y) tr' (snd y)" ..
      with turn_goes_on [OF tr [unfolded Inr]] show ?thesis by blast
    qed
  next
    case (Some r)
    have "waited p c ty AwaitComputeOperation op w r [] w"
      by (rule waited_done) (use compute_ended [OF Some] in auto)
    with Some 1(3) show ?thesis by (auto split: sum.splits)
  qed
qed assumption

lemma await_as_waited:
  assumes "await_as p ty k resp w = Some (r, w')"
  shows "\<exists>tr. waited p (detached (t_timeout_seconds ty * second) w) ty k resp w r tr w' \<and> (k = AwaitNone \<longrightarrow> tr = [])"
proof (cases k)
  case AwaitNone
  with assms show ?thesis
    by (auto simp: await_as_def waited_def ended_well_def split: sum.splits)
next
  case AwaitLongRunning
  with assms await_long_running_waited [of p _ ty 0 resp w "(r, w')"] show ?thesis
    by (simp add: await_as_def)
next
  case AwaitComputeOperation
  with assms await_compute_operation_waited [of p _ ty 0 resp w "(r, w')"] show ?thesis
    by (simp add: await_as_def)
qed

text \<open>
  C29. Waiting for an operation comes to an end, against any remote whose round trips take time
  and fail once their context has ended; every request it sends is a poll of the operation as
  last heard of, at an expansion of the type's poll or wait path; and it succeeds exactly when
  the operation as last heard of, in the answer it began with or in the last poll that was
  answered, is done without an error, the success then being the response or the target that
  answer holds.
\<close>

theorem await_ends:
  assumes "unlimited (p_client p)" "limiters_off w"
  shows "\<exists>r w' tr. await_as p ty k resp w = Some (r, w') \<and> w_sent w' = w_sent w @ map fst tr
    \<and> heard_by (p_client p) (detached (t_timeout_seconds ty * second) w) w tr w'
    \<and> polls p ty k resp tr
    \<and> (case r of
         Inr b \<Rightarrow> ended_well k (latest resp tr) b
       | Inl e \<Rightarrow> \<forall>b. \<not> ended_well k (latest resp tr) b)"
proof -
  let ?c = "detached (t_timeout_seconds ty * second) w"
  obtain r w' where r: "await_as p ty k resp w = Some (r, w')"
    using await_as_returns [OF assms, of ty k resp] unfolding returns_def by blast
  from await_as_waited [OF r] obtain tr where tr: "waited p ?c ty k resp w r tr w'" by blast
  then have "heard_by (p_client p) ?c w tr w'" by (auto simp: waited_def intro: heard_by_hears split: sum.splits)
  moreover from this have "w_sent w' = w_sent w @ map fst tr"
    by (auto simp: heard_by_def idle_def dest: hears_sent)
  ultimately show ?thesis using r tr
    by (intro exI [of _ r] exI [of _ w'] exI [of _ tr]) (auto simp: waited_def split: sum.splits)
qed

theorem await_ends_witness:
  "\<exists>r w' tr. await_as sample_provider topic_type AwaitLongRunning (Some [(''name'', AStr ''operations/1'')])
     (start [ok_json [(''done'', ABool True), (''response'', AObj [(''name'', AStr ''t'')])]]) = Some (r, w')
     \<and> w_sent w' = map fst tr
     \<and> polls sample_provider topic_type AwaitLongRunning (Some [(''name'', AStr ''operations/1'')]) tr"
proof -
  let ?w = "start [ok_json [(''done'', ABool True), (''response'', AObj [(''name'', AStr ''t'')])]]"
    and ?op = "Some [(''name'', AStr ''operations/1'')]"
  have "unlimited (p_client sample_provider)"
    using sample_unlimited(1) by (simp add: sample_provider_def new_provider_def)
  from await_ends [OF this sample_unlimited(2), of topic_type AwaitLongRunning ?op]
  obtain r w' tr where "await_as sample_provider topic_type AwaitLongRunning ?op ?w = Some (r, w')"
      "w_sent w' = w_sent ?w @ map fst tr" "polls sample_provider topic_type AwaitLongRunning ?op tr" by blast
  moreover have "w_sent ?w = []" by (simp add: start_def)
  ultimately show ?thesis by auto
qed

end
