(* ===== verification/Operations.thy ===== *)
theory Operations
  imports Changes Heard
begin

text \<open>
  Properties of the provider's operations as a whole: what each may send and when it may send
  nothing, that each comes to an end, and what its answer may say.
\<close>

section \<open>What an operation sends\<close>

text \<open>
  Reading is free of side effects on Google: reading a resource, importing one and
  discovering them send nothing but GET requests.
\<close>

theorem reads_only_get:
  "runs (sent_only [''GET'']) w (read_resource p c current w)
   \<and> runs (sent_only [''GET'']) w (import_resource p c rtype rid w)
   \<and> runs (sent_only [''GET'']) w (discover p c want w)"
proof (intro conjI)
  have r: "sent_only [''GET''] w w" by (rule only.refl)
  show "runs (sent_only [''GET'']) w (read_resource p c current w)" by (rule only.read_resource_runs [OF r]) simp
  show "runs (sent_only [''GET'']) w (import_resource p c rtype rid w)" by (rule only.import_resource_runs [OF r]) simp
  show "runs (sent_only [''GET'']) w (discover p c want w)" by (rule only.discover_runs [OF r]) simp
qed

text \<open>
  No operation rewrites history: each only appends to the requests sent and to the log,
  never sets the clock back, and never resolves the project's aliases a second time.
\<close>

theorem operations_only_add:
  "runs world_grows w (create_resource p c des w) \<and> runs world_grows w (read_resource p c cur w)
   \<and> runs world_grows w (update_resource p c cur des w) \<and> runs world_grows w (delete_resource p c cur w)
   \<and> runs world_grows w (import_resource p c rtype rid w) \<and> runs world_grows w (discover p c want w)"
  by (intro conjI grows.create_resource_runs grows.read_resource_runs grows.update_resource_runs
      grows.delete_resource_runs grows.import_resource_runs grows.discover_runs) (simp_all add: grows.refl)

text \<open>
  C27. Before the first request, an ended context stops everything: creating and deleting
  answer an error and leave the world as it was, and so does creating a resource of a type
  whose create url nothing can supply.
\<close>

theorem nothing_sent_too_late:
  "(ctx_error c w \<noteq> None \<longrightarrow> (\<exists>e. create_resource p c des w = Some (Inl e, w))
      \<and> (\<exists>e. delete_resource p c cur w = Some (Some e, w)))
   \<and> (\<forall>ty. catalog_type (p_catalog p) (ds_type des) = Some ty \<and> unresolved_create_placeholders ty \<noteq> [] \<longrightarrow>
      (\<exists>e. create_resource p c des w = Some (Inl e, w)))"
  by (auto simp: create_resource_def delete_resource_def Let_def split: option.splits sum.splits)

theorem nothing_sent_too_late_witness:
  "\<exists>e. delete_resource sample_provider \<lparr>ctx_end = Some 0, ctx_why = Canceled\<rparr>
     \<lparr>rs_address = [], rs_type = ''gcp.topic'', rs_provider_id = ''projects/p/topics/t'', rs_attributes = []\<rparr> (start [])
     = Some (Some e, start [])"
proof -
  have "ctx_error \<lparr>ctx_end = Some 0, ctx_why = Canceled\<rparr> (start []) \<noteq> None"
    by (simp add: ctx_error_def start_def)
  with nothing_sent_too_late show ?thesis by blast
qed

section \<open>Update\<close>

text \<open>
  Updating a resource that already is as desired sends nothing: when neither the mask nor
  any setter names a change, the current state is the answer and the world is left as it was.
\<close>

theorem update_unchanged:
  assumes "catalog_type (p_catalog p) (ds_type des) = Some ty" "t_update_verb ty \<noteq> [] \<or> t_setters ty \<noteq> []"
    and "\<And>m. \<not> changed_path (p_ext p) (maskable ty) (rs_attributes cur) (ds_attrs des) m"
    and "changed_setters (p_ext p) ty (rs_attributes cur) (ds_attrs des) = []"
  shows "update_resource p c cur des w = Some (Inr (Some cur), w)"
proof -
  have "snd (build_mask (p_ext p) ty (rs_attributes cur) (ds_attrs des)) = []"
    using assms(3) mask_changed by (metis list.set_intros(1) neq_Nil_conv)
  then show ?thesis
    using assms(1,2,4) by (auto simp: update_resource_def Let_def split: prod.splits)
qed

lemma changed_path_same: "changed_path x lvl current desired m \<Longrightarrow> current = desired \<Longrightarrow> (\<And>v. x_equal x v v) \<Longrightarrow> False"
  by (cases rule: changed_path.cases) (auto simp: vget_def)

lemma sample_topic [simp]: "catalog_type (p_catalog sample_provider) ''gcp.topic'' = Some topic_type"
  by (simp add: sample_provider_def new_provider_def sample_catalog_def catalog_type_def index_types_def)

lemma sample_provider_ext [simp]: "p_client sample_provider = sample_client" "cl_ext sample_client = sample_ext"
  by (simp_all add: sample_provider_def new_provider_def sample_client_def new_client_def)

definition topic_state :: rstate where
  "topic_state = \<lparr>rs_address = [], rs_type = ''gcp.topic'', rs_provider_id = ''projects/p/topics/t'',
     rs_attributes = [(''topic'', v_string ''t'' SourceExplicit), (''type_value'', v_string ''A'' SourceExplicit)]\<rparr>"

definition topic_desired :: desired_resource where
  "topic_desired = \<lparr>ds_type = ''gcp.topic'', ds_attrs = rs_attributes topic_state\<rparr>"

theorem update_unchanged_witness:
  "update_resource sample_provider background topic_state topic_desired (start []) = Some (Inr (Some topic_state), start [])"
  by (rule update_unchanged [of _ _ topic_type])
    (auto simp: topic_desired_def changed_setters_def sample_ext_def dest!: changed_path_same)

text \<open>
  An update that was not refused and did not fail reports the resource: it never answers
  that there is nothing.
\<close>

theorem update_always_reports: "gives reports (update_resource p c cur des w)"
  by (rule update_resource_reports)

section \<open>Operations end\<close>

text \<open>
  C26. Every operation on a resource comes to an end with an answer, against any remote whose
  round trips take time and fail once their context has ended, for types read at their own
  url.
\<close>

theorem operations_end:
  assumes "unlimited (p_client p)" "limiters_off w"
    and "reads_directly p (rs_type cur)" "reads_directly p (ds_type des)"
  shows "(\<exists>r w'. create_resource p c des w = Some (r, w')) \<and> (\<exists>r w'. read_resource p c cur w = Some (r, w'))
    \<and> (\<exists>r w'. update_resource p c cur des w = Some (r, w')) \<and> (\<exists>r w'. delete_resource p c cur w = Some (r, w'))"
  using returns_Some [OF create_resource_returns [OF assms(1,2,4)]]
    returns_Some [OF read_resource_returns [OF assms(1,2,3)]]
    returns_Some [OF update_resource_returns [OF assms(1,2,3)]]
    returns_Some [OF delete_resource_returns [OF assms(1,2)]]
  by blast

theorem operations_end_witness:
  "\<exists>r w'. update_resource sample_provider background topic_state
     \<lparr>ds_type = ''gcp.topic'', ds_attrs = changed_config\<rparr> (start [ok_json []]) = Some (r, w')"
proof -
  have "unlimited (p_client sample_provider)" using sample_unlimited(1) by simp
  moreover have "reads_directly sample_provider ''gcp.topic''"
    by (simp add: reads_directly_def read_via_list_by_parent_def)
  ultimately show ?thesis
    using operations_end [of sample_provider "start [ok_json []]" topic_state
        "\<lparr>ds_type = ''gcp.topic'', ds_attrs = changed_config\<rparr>" background] sample_unlimited(2)
    by (simp add: topic_state_def)
qed

section \<open>What an answer says\<close>

text \<open>
  C25. State holds declared attributes only: whatever Google answered, what a read or a create
  reports names only attributes of the type's schema, and the type that was asked for.
\<close>

theorem answers_declared:
  assumes "catalog_type (p_catalog p) name = Some ty" "rs_type cur = name" "ds_type des = name"
  shows "gives (declared_result ty name) (read_resource p c cur w)
    \<and> gives (declared_result ty name) (create_resource p c des w)"
  using read_resource_declared [of p cur ty c w] create_resource_declared [of p des ty c w] assms by simp

theorem answers_declared_witness:
  "gives (declared_result topic_type ''gcp.topic'') (read_resource sample_provider background topic_state (start [ok_json []]))"
  using answers_declared [of sample_provider "''gcp.topic''" topic_type topic_state topic_desired]
  by (simp add: topic_state_def topic_desired_def)

text \<open>Only not-found answers to one request, beside those that ask for another attempt, and the last one not found.\<close>

definition only_not_found :: "'s client \<Rightarrow> ctx \<Rightarrow> request \<Rightarrow> 's world \<Rightarrow> (request \<times> reply) list \<Rightarrow> 's world \<Rightarrow> bool" where
  "only_not_found cl c rq w tr w' \<longleftrightarrow> hears cl c w tr w' \<and> tr \<noteq> [] \<and> says_not_found (snd (last tr))
     \<and> (\<forall>(q, a) \<in> set tr. q = rq \<and> (says_not_found a \<or> asks_again (cl_ext cl) a))"

lemma exchange_only_not_found:
  assumes "exchange cl c rq w tr w'" "says_not_found (snd (last tr))"
  shows "only_not_found cl c rq w tr w'"
proof -
  have "tr = butlast tr @ [last tr]" using assms(1) by (simp add: exchange_def)
  then have "set tr = insert (last tr) (set (butlast tr))"
    by (metis Un_insert_right list.simps(15) set_append sup_bot_right list.set(1))
  with assms show ?thesis by (cases "last tr") (auto simp: exchange_def only_not_found_def)
qed

lemma only_not_found_again:
  assumes "only_not_found cl c rq w tr w1" "idle w1 w2" "only_not_found cl c rq w2 tr' w'"
  shows "only_not_found cl c rq w (tr @ tr') w'"
  using assms hears_append [of cl c w2 tr' w' w tr w1] by (auto simp: only_not_found_def)

lemma read_loop_patience:
  "read_loop p c ty current attrs url d n w = Some y \<Longrightarrow> fst y = Inr None \<longrightarrow> d < w_now (snd y)
     \<and> (\<exists>tr. only_not_found (p_client p) c (request_of (p_client p) ''GET'' (full_url (p_client p) url) None 0) w tr (snd y))"
proof (rule read_loop.raw_induct [where P =
    "\<lambda>p c ty current attrs url d n w y. fst y = Inr None \<longrightarrow> d < w_now (snd y)
       \<and> (\<exists>tr. only_not_found (p_client p) c (request_of (p_client p) ''GET'' (full_url (p_client p) url) None 0) w tr (snd y))"],
    goal_cases)
  case (1 lw p c ty current attrs url d n w y)
  let ?rq = "request_of (p_client p) ''GET'' (full_url (p_client p) url) None 0"
  from 1(3) obtain r w1 where g: "client_do (p_client p) c ''GET'' url None w = Some (r, w1)"
    and y: "(case r of
        Inr body \<Rightarrow> Option.bind (state_from p c ty current attrs body w1) (\<lambda>(st, w). Some (Inr (Some st), w))
      | Inl e \<Rightarrow>
          if \<not> is_not_found e then Some (Inl e, w1)
          else if w_now w1 > d then Some (Inr None, w1)
          else (case sleep_backoff (p_client p) c n w1 of
              (Some e, w) \<Rightarrow> Some (Inl e, w)
            | (None, w) \<Rightarrow> lw p c ty current attrs url d (Suc n) w)) = Some y"
    by (auto simp: bind_eq_Some_conv)
  show ?case
  proof
    assume none: "fst y = Inr None"
    with y obtain e where e: "r = Inl e" "is_not_found e"
      by (auto simp: bind_eq_Some_conv split: sum.splits if_splits)
    obtain tr where "exchange (p_client p) c ?rq w tr w1" "says_not_found (snd (last tr))"
      using client_do_hears_not_found [OF g [unfolded e(1)] e(2)] .
    from exchange_only_not_found [OF this] have tr: "only_not_found (p_client p) c ?rq w tr w1" .
    show "d < w_now (snd y) \<and> (\<exists>tr. only_not_found (p_client p) c ?rq w tr (snd y))"
    proof (cases "w_now w1 > d")
      case True
      with y e tr show ?thesis by auto
    next
      case False
      obtain e2 w2 where s: "sleep_backoff (p_client p) c n w1 = (e2, w2)" by fastforce
      have i: "idle w1 w2" using idle.sleep_backoff [OF idle.refl s] .
      have "lw p c ty current attrs url d (Suc n) w2 = Some y"
        using y e False s none by (auto split: option.splits)
      from 1(2) [OF this] none only_not_found_again [OF tr i] show ?thesis by blast
    qed
  qed
qed assumption

text \<open>
  C15. Nothing is reported gone in haste: a resource read at its own url is reported as no
  longer there only when, from the read's start and for more than four seconds, every request
  was a GET of that url and every one of them was answered not found, or asked to be sent
  again, and the last one was answered not found.
\<close>

theorem absent_needs_patience:
  assumes "reads_directly p (rs_type cur)" "read_resource p c cur w = Some (Inr None, w')"
  shows "\<exists>ty attrs url tr. catalog_type (p_catalog p) (rs_type cur) = Some ty
    \<and> parse_provider_id (p_ext p) ty (rs_provider_id cur) = Inr attrs
    \<and> item_url (p_ext p) ty [] (rs_provider_id cur) attrs = Inr url
    \<and> only_not_found (p_client p) c (request_of (p_client p) ''GET'' (full_url (p_client p) url) None 0) w tr w'
    \<and> w_now w + 4000000000 < w_now w'"
proof -
  obtain ty attrs url where t: "catalog_type (p_catalog p) (rs_type cur) = Some ty"
      "parse_provider_id (p_ext p) ty (rs_provider_id cur) = Inr attrs"
      "item_url (p_ext p) ty [] (rs_provider_id cur) attrs = Inr url"
    and l: "read_loop p c ty cur attrs url (w_now w + not_found_patience) 0 w = Some (Inr None, w')"
    using assms by (auto simp: read_resource_def reads_directly_def split: option.splits sum.splits)
  from read_loop_patience [OF l] t show ?thesis by (auto simp: not_found_patience_def second_def)
qed

definition topic_ids :: attrs where
  "topic_ids = [(''project'', v_string ''p'' SourceProvider), (''topic'', v_string ''t'' SourceProvider)]"

lemma topic_parses [simp]:
  "parse_provider_id x topic_type ''projects/p/topics/t'' = Inr topic_ids"
  by (simp add: parse_provider_id_def import_templates_def parse_topic_id topic_ids_def)

lemma topic_expands:
  "expand_url sample_ext ''projects/{{project}}/topics/{{topic}}'' topic_ids = Inr ''projects/p/topics/t''"
  "expand_url sample_ext ''projects/{{project}}/topics'' topic_ids = Inr ''projects/p/topics''"
  by (simp_all add: topic_ids_def eval_template)

lemma topic_item_url [simp]: "\<exists>url. item_url sample_ext topic_type [] rid topic_ids = Inr url"
  by (simp add: item_url_def topic_expands Let_def)

text \<open>A remote on which the resource is not found, five seconds to the answer.\<close>

definition gone_slowly :: "unit transport" where
  "gone_slowly s rq now deadline = (error_reply 404 ''NOT_FOUND'', 5000000000, ())"

definition gone_provider :: "unit gcp_provider" where
  "gone_provider = new_provider sample_settings sample_catalog
     (new_client sample_ext gone_slowly (\<lambda>n m. 0) [] [] 0 0 None 0)"

definition empty_world :: "unit world" where
  "empty_world = \<lparr>w_srv = (), w_now = 0, w_draws = 0, w_log = [], w_sent = [], w_limiters = [],
     w_seen = [], w_projects = None\<rparr>"

lemma gone_answer:
  "\<exists>e w1. client_do (p_client gone_provider) background meth url body empty_world = Some (Inl e, w1)
     \<and> is_not_found e \<and> 4000000000 < w_now w1"
  by (intro exI conjI, rule client_do_first)
    (auto simp: gone_provider_def new_provider_def new_client_def empty_world_def limiters_off_def
      do_once_def gone_slowly_def read_reply_def error_reply_def explain_quota_project_def limiter_for_def
      decode_api_error_def decode_envelope_def decode_string_def decode_int_def decode_array_def reason_of_def
      classify_error_def is_not_found_def retryable_codes_def retryable_reasons_def not_retryable_codes_def
      retryable_status_def Let_def)

lemma gone_provider_simps [simp]:
  "catalog_type (p_catalog gone_provider) ''gcp.topic'' = Some topic_type"
  "cl_ext (p_client gone_provider) = sample_ext" "w_now empty_world = 0"
  by (simp_all add: gone_provider_def new_provider_def new_client_def sample_catalog_def catalog_type_def
      index_types_def empty_world_def)

lemma topic_state_simps [simp]:
  "rs_type topic_state = ''gcp.topic''" "rs_provider_id topic_state = ''projects/p/topics/t''"
  by (simp_all add: topic_state_def)

lemma gone_reads: "\<exists>w'. read_resource gone_provider background topic_state empty_world = Some (Inr None, w')"
proof -
  obtain url where u: "item_url sample_ext topic_type [] ''projects/p/topics/t'' topic_ids = Inr url"
    using topic_item_url by blast
  obtain e w1 where g: "client_do (p_client gone_provider) background ''GET'' url None empty_world = Some (Inl e, w1)"
      "is_not_found e" "4000000000 < w_now w1" using gone_answer by blast
  have "read_loop gone_provider background topic_type topic_state topic_ids url
      (w_now empty_world + not_found_patience) 0 empty_world = Some (Inr None, w1)"
    by (subst read_loop.simps) (use g(2,3) in \<open>simp add: g(1) not_found_patience_def second_def\<close>)
  then show ?thesis by (simp add: read_resource_def u read_via_list_by_parent_def)
qed

lemma gone_deletes: "\<exists>w'. delete_resource gone_provider background topic_state empty_world = Some (None, w')"
proof -
  obtain url where u: "item_url sample_ext topic_type [] ''projects/p/topics/t'' topic_ids = Inr url"
    using topic_item_url by blast
  obtain e w1 where "client_do (p_client gone_provider) background ''DELETE'' url None empty_world = Some (Inl e, w1)"
      "is_not_found e" using gone_answer by blast
  then show ?thesis
    by (simp add: delete_resource_def u ctx_error_def background_def clear_before_delete_def)
qed

theorem absent_needs_patience_witness:
  "\<exists>w'. read_resource gone_provider background topic_state empty_world = Some (Inr None, w')
     \<and> 4000000000 < w_now w' \<and> (\<exists>rq \<in> set (w_sent w'). rq_method rq = ''GET'')"
proof -
  obtain w' where r: "read_resource gone_provider background topic_state empty_world = Some (Inr None, w')"
    using gone_reads by blast
  have "reads_directly gone_provider (rs_type topic_state)"
    by (simp add: reads_directly_def read_via_list_by_parent_def topic_state_def gone_provider_def
        new_provider_def sample_catalog_def catalog_type_def index_types_def)
  from absent_needs_patience [OF this r] obtain url tr where
    tr: "only_not_found (p_client gone_provider) background
        (request_of (p_client gone_provider) ''GET'' (full_url (p_client gone_provider) url) None 0) empty_world tr w'"
      "4000000000 < w_now w'" by (auto simp: empty_world_def)
  then have "hears (p_client gone_provider) background empty_world tr w'" "tr \<noteq> []" by (auto simp: only_not_found_def)
  from hears_sent [OF this(1)] this(2) tr(1) have "\<exists>rq \<in> set (w_sent w'). rq_method rq = ''GET''"
    by (cases tr) (auto simp: only_not_found_def request_of_def)
  with r tr(2) show ?thesis by blast
qed

section \<open>Create's request\<close>

lemma body_entries_lookup:
  assumes "level_ok (t_attributes ty)" "wf_map attrs" "\<forall>n \<in> set (keys attrs). has_key (t_attributes ty) n"
  shows "map_of (overlay [] (body_entries ty attrs)) k = Some v \<longleftrightarrow>
    (\<exists>n u. map_of attrs n = Some u \<and> k = to_wire (t_attributes ty) n \<and> v = wire_value (map_of (t_attributes ty) n) u)"
proof -
  let ?b = "body_entries ty attrs"
  have k: "map fst ?b = map (to_wire (t_attributes ty)) (keys attrs)"
    by (auto simp: body_entries_def)
  have "inj_on (to_wire (t_attributes ty)) (set (keys attrs))"
    using assms(1,3) to_wire_inj by (auto simp: inj_on_def)
  then have d: "wf_map ?b" using assms(2) by (simp only: wf_map_def k distinct_map)
  have "map_of ?b k = Some v \<longleftrightarrow> (k, v) \<in> set ?b" using wf_map_lookup [OF d] by simp
  also have "\<dots> \<longleftrightarrow> (\<exists>n u. (n, u) \<in> set attrs \<and> k = to_wire (t_attributes ty) n \<and> v = wire_value (map_of (t_attributes ty) n) u)"
    by (force simp: body_entries_def)
  finally show ?thesis by (simp add: overlay_Nil_distinct [OF d] wf_map_lookup [OF assms(2)])
qed

text \<open>What a create carries for an attribute, under its wire name.\<close>

definition carries :: "ctype \<Rightarrow> attrs \<Rightarrow> (string \<Rightarrow> bool) \<Rightarrow> json \<Rightarrow> bool" where
  "carries ty attrs P body \<longleftrightarrow> (\<forall>k v. map_of body k = Some v \<longleftrightarrow>
     (\<exists>n u. map_of attrs n = Some u \<and> P n \<and> k = to_wire (t_attributes ty) n \<and> v = wire_value (map_of (t_attributes ty) n) u))"

lemma carries_filter:
  assumes "level_ok (t_attributes ty)" "wf_map attrs" "\<forall>n \<in> set (keys attrs). has_key (t_attributes ty) n"
  shows "carries ty attrs P (overlay [] (body_entries ty (filter (\<lambda>(n, v). P n) attrs)))"
proof -
  have w: "wf_map (filter (\<lambda>(n, v). P n) attrs)" using assms(2) by (rule wf_map_filter)
  have h: "\<forall>n \<in> set (keys (filter (\<lambda>(n, v). P n) attrs)). has_key (t_attributes ty) n" using assms(3) by force
  have "map_of (filter (\<lambda>(n, v). P n) attrs) n = Some u \<longleftrightarrow> map_of attrs n = Some u \<and> P n" for n u
    unfolding wf_map_lookup [OF w, symmetric] wf_map_lookup [OF assms(2), symmetric] by simp
  then show ?thesis unfolding carries_def body_entries_lookup [OF assms(1) w h] by auto
qed

text \<open>
  What a create has to send under a key: the wire value of a configured attribute of that wire
  name, which is not Google's own to set and not said by the url already.
\<close>

definition sends :: "ctype \<Rightarrow> string \<Rightarrow> attrs \<Rightarrow> (attr \<Rightarrow> bool) \<Rightarrow> string \<Rightarrow> any \<Rightarrow> bool" where
  "sends ty tmpl attrs P k v \<longleftrightarrow> (\<exists>n u a. map_of attrs n = Some u \<and> map_of (t_attributes ty) n = Some a
     \<and> \<not> a_output a \<and> n \<notin> set (placeholder_names tmpl) \<and> a_canonical a \<notin> set (placeholder_names tmpl)
     \<and> P a \<and> k = a_canonical a \<and> v = wire_value (Some a) u)"

lemma carries_sends:
  assumes "level_ok (t_attributes ty)" "\<forall>n \<in> set (keys attrs). has_key (t_attributes ty) n" "carries ty attrs Q body"
    and Q: "\<And>n a. map_of (t_attributes ty) n = Some a \<Longrightarrow> Q n \<longleftrightarrow> \<not> a_output a \<and> n \<notin> set (placeholder_names tmpl)
      \<and> a_canonical a \<notin> set (placeholder_names tmpl) \<and> P a"
  shows "map_of body k = Some v \<longleftrightarrow> sends ty tmpl attrs P k v"
proof -
  have a: "\<exists>a. map_of (t_attributes ty) n = Some a" if "map_of attrs n = Some u" for n u
    using assms(2) map_of_SomeD [OF that] 
    by (cases "map_of (t_attributes ty) n") (force simp: has_key_iff map_of_eq_None_iff)+
  have c: "a_canonical a \<noteq> []" if "map_of (t_attributes ty) n = Some a" for n a
    using assms(1) map_of_SomeD [OF that] by (auto simp: level_ok_def list_all_iff)
  show ?thesis unfolding assms(3) [unfolded carries_def, rule_format] sends_def
    using a c Q by (fastforce simp: to_wire_def)
qed

lemma request_body_parts:
  assumes "level_ok (t_attributes ty)" "wf_map attrs" "\<forall>n \<in> set (keys attrs). has_key (t_attributes ty) n"
  shows "map_of (overlay [] (body_entries ty (filter (\<lambda>(n, v). in_body ty tmpl n \<and> \<not> in_wrapper ty n) attrs))) k = Some v
      \<longleftrightarrow> sends ty tmpl attrs (\<lambda>a. t_create_wrapper ty = [] \<or> a_create_only a) k v"
    and "map_of (overlay [] (body_entries ty (filter (\<lambda>(n, v). in_body ty tmpl n \<and> in_wrapper ty n) attrs))) k = Some v
      \<longleftrightarrow> sends ty tmpl attrs (\<lambda>a. t_create_wrapper ty \<noteq> [] \<and> \<not> a_create_only a) k v"
  by (rule carries_sends [OF assms(1,3) carries_filter [OF assms]]; auto simp: in_body_def in_wrapper_def)+

lemma request_body_split:
  "request_body ty tmpl attrs =
     (let body = overlay [] (body_entries ty (filter (\<lambda>(n, v). in_body ty tmpl n \<and> \<not> in_wrapper ty n) attrs));
          inner = overlay [] (body_entries ty (filter (\<lambda>(n, v). in_body ty tmpl n \<and> in_wrapper ty n) attrs))
      in if t_create_wrapper ty \<noteq> [] then AList.update (t_create_wrapper ty) (AObj inner) body else body)"
proof -
  have "(\<lambda>x. (case x of (n, v) \<Rightarrow> P n) \<and> (case x of (n, v) \<Rightarrow> Q n)) = (\<lambda>(n, v :: val). P n \<and> Q n)"
    for P Q :: "string \<Rightarrow> bool" by auto
  then show ?thesis by (simp add: request_body_def Let_def)
qed

lemma request_body_sends:
  assumes "level_ok (t_attributes ty)" "wf_map attrs" "\<forall>n \<in> set (keys attrs). has_key (t_attributes ty) n" "t_create_wrapper ty = []"
  shows "map_of (request_body ty tmpl attrs) k = Some v \<longleftrightarrow> sends ty tmpl attrs (\<lambda>a. True) k v"
  using request_body_parts(1) [OF assms(1-3)] assms(4) by (simp add: request_body_split Let_def)

lemma wf_request_body: "wf_map (request_body ty tmpl attrs)"
proof -
  have "wf_map (overlay [] kvs)" for kvs :: json by (rule wf_map_overlay) (simp add: wf_map_def)
  then show ?thesis by (simp add: request_body_def Let_def)
qed

text \<open>
  C24. The body of a create carries exactly what configuration sets and the request may say:
  every configured attribute that is not Google's own and not said by the url, under its wire
  name and with its wire value, and nothing else. With a wrapper, its object holds exactly those
  of them that are not create-only, and beside it stand exactly the create-only ones.
\<close>

theorem create_body_exact:
  assumes "level_ok (t_attributes ty)" "wf_map attrs" "\<forall>n \<in> set (keys attrs). has_key (t_attributes ty) n"
  shows "(t_create_wrapper ty = [] \<longrightarrow>
        (\<forall>k v. map_of (request_body ty tmpl attrs) k = Some v \<longleftrightarrow> sends ty tmpl attrs (\<lambda>a. True) k v))
    \<and> (t_create_wrapper ty \<noteq> [] \<longrightarrow>
        (\<exists>inner. map_of (request_body ty tmpl attrs) (t_create_wrapper ty) = Some (AObj inner)
           \<and> (\<forall>k v. map_of inner k = Some v \<longleftrightarrow> sends ty tmpl attrs (\<lambda>a. \<not> a_create_only a) k v))
        \<and> (\<forall>k v. k \<noteq> t_create_wrapper ty \<longrightarrow>
             (map_of (request_body ty tmpl attrs) k = Some v \<longleftrightarrow> sends ty tmpl attrs a_create_only k v)))"
proof (cases "t_create_wrapper ty = []")
  case True
  with request_body_sends [OF assms True] show ?thesis by simp
next
  case False
  with request_body_parts [OF assms] show ?thesis by (simp add: request_body_split Let_def update_conv')
qed

theorem create_body_exact_witness:
  "map_of (request_body topic_type ''projects/{{project}}/topics''
      [(''topic'', v_string ''t'' SourceExplicit), (''type_value'', v_string ''A'' SourceExplicit),
       (''etag'', v_string ''e'' SourceExplicit)]) ''type'' = Some (AStr ''A'')"
proof -
  let ?attrs = "[(''topic'', v_string ''t'' SourceExplicit), (''type_value'', v_string ''A'' SourceExplicit),
       (''etag'', v_string ''e'' SourceExplicit)]"
  have ph: "placeholder_names ''projects/{{project}}/topics'' = [''project'']"
    by (simp add: placeholder_names.simps match_placeholder_def
      brace_free_def is_brace_def capture_name_def trim_prefix_def has_prefix_def trim_space_def is_space_def)
  have c: "map_of (request_body topic_type ''projects/{{project}}/topics'' ?attrs) k = Some v
      \<longleftrightarrow> sends topic_type ''projects/{{project}}/topics'' ?attrs (\<lambda>a. True) k v" for k v
    using create_body_exact [of topic_type ?attrs "''projects/{{project}}/topics''"]
    by (simp add: sample_attrs level_ok_def wf_map_def has_key_def)
  obtain a where "map_of (t_attributes topic_type) ''type_value'' = Some a" "\<not> a_output a" "a_canonical a = ''type''"
      "AStr ''A'' = wire_value (Some a) (v_string ''A'' SourceExplicit)"
    by (simp add: sample_attrs v_string_def wire_value.simps)
  then show ?thesis unfolding c sends_def ph
    by (intro exI [of _ "''type_value''"] exI [of _ "v_string ''A'' SourceExplicit"] exI [of _ a]) simp
qed

section \<open>Delete\<close>

lemma confirm_gone_hears:
  assumes "confirm_gone p ty rid attrs e w = Some (None, w')"
  shows "\<exists>itm e'. item_url (p_ext p) ty [] rid attrs = Inr itm
    \<and> client_do (p_client p) (detached (type_timeout ty) w) ''GET'' itm None w = Some (Inl e', w') \<and> is_not_found e'"
proof (cases "item_url (p_ext p) ty [] rid attrs")
  case (Inr itm)
  let ?g = "client_do (p_client p) (detached (type_timeout ty) w) ''GET'' itm None w"
  show ?thesis
  proof (cases ?g)
    case (Some rw)
    with assms Inr show ?thesis
      by (cases rw; cases "fst rw") (auto simp: confirm_gone_def split: if_splits)
  qed (use assms Inr in \<open>simp add: confirm_gone_def\<close>)
qed (use assms in \<open>simp add: confirm_gone_def\<close>)

text \<open>
  C28. A delete reports success only when the resource is gone or going: its context had not
  ended, what had to be cleared was cleared, and then the DELETE of the item's url was the next
  request, and either it was answered not found; or it was answered with success and the
  operation it started, as last heard of, was done without an error; or the wait for the
  operation failed with a not-found error and then a GET of the item's own url was answered not
  found, and that was the last thing heard.
\<close>

theorem delete_success_means_gone:
  assumes "delete_resource p c cur w = Some (None, w')"
  shows "\<exists>ty attrs url w1 tr w2. catalog_type (p_catalog p) (rs_type cur) = Some ty
    \<and> parse_provider_id (p_ext p) ty (rs_provider_id cur) = Inr attrs
    \<and> item_url (p_ext p) ty (t_delete_url ty) (rs_provider_id cur) attrs = Inr url
    \<and> ctx_error c w = None \<and> clear_before_delete p c ty cur attrs w = Some (None, w1)
    \<and> exchange (p_client p) c (request_of (p_client p) ''DELETE'' (full_url (p_client p) url) None 0) w1 tr w2
    \<and> (says_not_found (snd (last tr)) \<and> w' = w2
      \<or> (\<exists>resp polled w3. success_of (snd (last tr)) = Some resp \<and> polls p ty (delete_await_kind ty) resp polled
         \<and> heard_by (p_client p) (detached (t_timeout_seconds ty * second) w2) w2 polled w3
         \<and> ((\<exists>b. ended_well (delete_await_kind ty) (latest resp polled) b) \<and> w' = w3
           \<or> (\<exists>e got itm. await_as p ty (delete_await_kind ty) resp w2 = Some (Inl e, w3) \<and> is_not_found e
              \<and> item_url (p_ext p) ty [] (rs_provider_id cur) attrs = Inr itm
              \<and> exchange (p_client p) (detached (type_timeout ty) w3)
                  (request_of (p_client p) ''GET'' (full_url (p_client p) itm) None 0) w3 got w'
              \<and> says_not_found (snd (last got))))))"
proof -
  obtain ty attrs url where t: "catalog_type (p_catalog p) (rs_type cur) = Some ty"
      "parse_provider_id (p_ext p) ty (rs_provider_id cur) = Inr attrs"
      "item_url (p_ext p) ty (t_delete_url ty) (rs_provider_id cur) attrs = Inr url" "ctx_error c w = None"
    using assms by (auto simp: delete_resource_def split: option.splits sum.splits)
  then obtain w1 r w2 where cl: "clear_before_delete p c ty cur attrs w = Some (None, w1)"
      and d: "client_do (p_client p) c ''DELETE'' url None w1 = Some (r, w2)"
      and y: "(case r of
        Inl e \<Rightarrow> Some (if is_not_found e then None else Some e, w2)
      | Inr resp \<Rightarrow> Option.bind (await_as p ty (delete_await_kind ty) resp w2) (\<lambda>(a, w). case a of
          Inr _ \<Rightarrow> Some (None, w)
        | Inl e \<Rightarrow> if is_not_found e then confirm_gone p ty (rs_provider_id cur) attrs e w
            else Some (Some e, w))) = Some (None, w')"
    using assms by (auto simp: delete_resource_def bind_eq_Some_conv split: option.splits)
  show ?thesis
  proof (cases r)
    case (Inl e)
    with y have "is_not_found e" "w' = w2" by (auto split: if_splits)
    moreover obtain tr where
        "exchange (p_client p) c (request_of (p_client p) ''DELETE'' (full_url (p_client p) url) None 0) w1 tr w2"
        "says_not_found (snd (last tr))"
      using client_do_hears_not_found [OF d [unfolded Inl] calculation(1)] .
    ultimately show ?thesis using t cl by blast
  next
    case (Inr resp)
    obtain tr where tr: "exchange (p_client p) c (request_of (p_client p) ''DELETE'' (full_url (p_client p) url) None 0) w1 tr w2"
        "success_of (snd (last tr)) = Some resp" using client_do_succeeds [OF d [unfolded Inr]] .
    from y Inr obtain a w3 where a: "await_as p ty (delete_await_kind ty) resp w2 = Some (a, w3)"
        and z: "(case a of Inr _ \<Rightarrow> Some (None, w3)
        | Inl e \<Rightarrow> if is_not_found e then confirm_gone p ty (rs_provider_id cur) attrs e w3
            else Some (Some e, w3)) = Some (None, w')"
      by (auto simp: bind_eq_Some_conv)
    obtain polled where po: "waited p (detached (t_timeout_seconds ty * second) w2) ty (delete_await_kind ty) resp w2 a polled w3"
      using await_as_waited [OF a] by blast
    then have h: "polls p ty (delete_await_kind ty) resp polled"
        "heard_by (p_client p) (detached (t_timeout_seconds ty * second) w2) w2 polled w3"
      by (auto simp: waited_def intro: heard_by_hears split: sum.splits)
    show ?thesis
    proof (cases a)
      case (Inr b)
      with z po have "ended_well (delete_await_kind ty) (latest resp polled) b" "w' = w3" by (auto simp: waited_def)
      with t cl tr h show ?thesis by blast
    next
      case (Inl e)
      with z have nf: "is_not_found e" and "confirm_gone p ty (rs_provider_id cur) attrs e w3 = Some (None, w')"
        by (auto split: if_splits)
      have "\<exists>itm e'. item_url (p_ext p) ty [] (rs_provider_id cur) attrs = Inr itm
          \<and> client_do (p_client p) (detached (type_timeout ty) w3) ''GET'' itm None w3 = Some (Inl e', w') \<and> is_not_found e'"
        by (rule confirm_gone_hears) fact
      then obtain itm e' where g: "item_url (p_ext p) ty [] (rs_provider_id cur) attrs = Inr itm"
          "client_do (p_client p) (detached (type_timeout ty) w3) ''GET'' itm None w3 = Some (Inl e', w')" "is_not_found e'"
        by blast
      obtain got where "exchange (p_client p) (detached (type_timeout ty) w3)
          (request_of (p_client p) ''GET'' (full_url (p_client p) itm) None 0) w3 got w'" "says_not_found (snd (last got))"
        using client_do_hears_not_found [OF g(2,3)] .
      with t cl tr h a [unfolded Inl] nf g(1) show ?thesis by blast
    qed
  qed
qed

theorem delete_success_means_gone_witness:
  "\<exists>w1 tr w2. clear_before_delete gone_provider background topic_type topic_state topic_ids empty_world = Some (None, w1)
     \<and> hears (p_client gone_provider) background w1 tr w2 \<and> (\<forall>(q, a) \<in> set tr. rq_method q = ''DELETE'') \<and> tr \<noteq> []"
proof -
  obtain w' where d: "delete_resource gone_provider background topic_state empty_world = Some (None, w')"
    using gone_deletes by blast
  from delete_success_means_gone [OF d] obtain url w1 tr w2 where
    "parse_provider_id sample_ext topic_type ''projects/p/topics/t'' = Inr topic_ids"
    "clear_before_delete gone_provider background topic_type topic_state topic_ids empty_world = Some (None, w1)"
    "exchange (p_client gone_provider) background (request_of (p_client gone_provider) ''DELETE'' (full_url (p_client gone_provider) url) None 0) w1 tr w2"
    by (auto simp del: exchange_def)
  then show ?thesis by (intro exI [of _ w1] exI [of _ tr] exI [of _ w2]) (auto simp: exchange_def request_of_def)
qed

section \<open>A list that never ends\<close>

text \<open>A remote whose every answer is an empty page naming the same next page.\<close>

definition stuck_page :: json where
  "stuck_page = [(''nextPageToken'', AStr ''A'')]"

definition stuck :: "'s client \<Rightarrow> bool" where
  "stuck cl \<longleftrightarrow> cl_qps cl \<le> 0 \<and> (\<forall>s rq t d. \<exists>took s'. cl_transport cl s rq t d = (ok_json stuck_page, took, s'))"

lemma stuck_answer:
  assumes "stuck cl" "limiters_off w"
  shows "\<exists>w1. client_do cl c meth url body w = Some (Inr (Some stuck_page), w1) \<and> limiters_off w1"
proof -
  let ?w = "limiter_for cl (parse_project_and_api (full_url cl url)) w"
  have off: "limiters_off ?w"
    using assms by (auto simp: stuck_def limiter_for_def limiters_off_def new_limiter_def has_key_iff update_append_fresh)
  obtain took s' where t: "cl_transport cl (w_srv ?w) (request_of cl meth (full_url cl url) body 0) (w_now ?w)
      (ctx_end (with_timeout c (cl_timeout cl) ?w)) = (ok_json stuck_page, took, s')"
    using assms(1) unfolding stuck_def by blast
  let ?w1 = "?w\<lparr>w_srv := s', w_now := w_now ?w + max 0 took,
    w_sent := w_sent ?w @ [request_of cl meth (full_url cl url) body 0]\<rparr>"
  have o: "do_once cl c meth (full_url cl url) body 0 ?w = (Inr (Some stuck_page), ?w1)"
    using t by (simp add: do_once_def Let_def request_of_def ok_json_def read_reply_def)
  have "client_do cl c meth url body w = Some (Inr (Some stuck_page), ?w1)"
    by (rule client_do_first [OF _ assms(2) o]) (use assms(1) in \<open>simp_all add: stuck_def\<close>)
  moreover have "limiters_off ?w1" using off by (simp add: limiters_off_def)
  ultimately show ?thesis by blast
qed

lemma stuck_items: "list_items (Some stuck_page) f = []"
  by (simp add: list_items_def stuck_page_def jget_def)

lemma stuck_pages:
  "list_parent_pages p c ty rid url token w = Some y \<Longrightarrow> stuck (p_client p) \<longrightarrow> \<not> limiters_off w"
proof (rule list_parent_pages.raw_induct [where P =
    "\<lambda>p c ty rid url token w y. stuck (p_client p) \<longrightarrow> \<not> limiters_off w"], goal_cases)
  case (1 lw p c ty rid url token w y)
  show ?case
  proof (intro impI notI)
    assume s: "stuck (p_client p)" "limiters_off w"
    obtain w1 where g: "client_do (p_client p) c ''GET''
        (if token \<noteq> [] then url @ ''&pageToken='' @ query_escape token else url) None w = Some (Inr (Some stuck_page), w1)"
        "limiters_off w1"
      using stuck_answer [OF s] by blast
    have "any_str (jget (Some stuck_page) ''nextPageToken'') = ''A''" by (simp add: stuck_page_def jget_def any_str_def)
    with 1(3) g(1) have "lw p c ty rid url ''A'' w1 = Some y" by (simp add: stuck_items Let_def)
    from 1(2) [OF this] s(1) g(2) show False by simp
  qed
qed assumption

text \<open>
  Reading by listing a parent follows every page token it is given: a server that keeps
  naming the same next page without ever listing the resource is listed for ever.
\<close>

theorem listing_parent_loops:
  assumes "stuck (p_client p)" "limiters_off w"
  shows "list_parent_pages p c ty rid url token w = None"
  using stuck_pages [of p c ty rid url token w] assms by (cases "list_parent_pages p c ty rid url token w") auto

definition stuck_server :: "unit transport" where
  "stuck_server s rq now deadline = (ok_json stuck_page, 1, ())"

theorem listing_parent_loops_witness:
  "list_parent_pages (new_provider sample_settings sample_catalog (new_client sample_ext stuck_server (\<lambda>n m. 0) [] [] 0 0 None 0))
     background topic_type ''x'' ''https://a.example.com/v1/x'' [] empty_world = None"
  by (rule listing_parent_loops)
    (simp_all add: stuck_def stuck_server_def new_provider_def new_client_def empty_world_def limiters_off_def)

end
