(* ===== verification/Inventory.thy ===== *)
theory Inventory
  imports Operations
begin

text \<open>
  Properties of discovery, which says what exists and what each thing is, and of the
  configuration an instance is built from.
\<close>

section \<open>Attribution\<close>

lemma add_to_index_lookup:
  "map_of (add_to_index ty ix) k = (if k = t_asset_type ty \<and> k \<noteq> []
     then Some ((case map_of ix k of Some ts \<Rightarrow> ts | None \<Rightarrow> []) @ [ty]) else map_of ix k)"
  by (auto simp: add_to_index_def)

lemma fold_index_lookup:
  "(\<forall>ts. map_of ix k = Some ts \<longrightarrow> ts \<noteq> []) \<Longrightarrow> k \<noteq> [] \<Longrightarrow>
     (case map_of (fold add_to_index tys ix) k of Some ts \<Rightarrow> ts | None \<Rightarrow> [])
       = (case map_of ix k of Some ts \<Rightarrow> ts | None \<Rightarrow> []) @ filter (\<lambda>ty. t_asset_type ty = k) tys"
proof (induction tys arbitrary: ix)
  case (Cons ty tys)
  show ?case
    using Cons.IH [of "add_to_index ty ix"] Cons.prems by (auto simp: add_to_index_lookup split: option.splits)
qed simp

lemma fold_index_no_empty: "map_of ix [] = None \<Longrightarrow> map_of (fold add_to_index tys ix) [] = None"
  by (induction tys arbitrary: ix) (simp_all add: add_to_index_lookup)

text \<open>The candidates for an asset type are the types that serve it, in name order.\<close>

lemma asset_type_index_mset:
  "mset (case map_of (asset_type_index c) k of Some ts \<Rightarrow> ts | None \<Rightarrow> [])
     = mset (if k = [] then [] else filter (\<lambda>ty. t_asset_type ty = k) (c_types c))"
proof -
  let ?raw = "map_of (fold add_to_index (c_types c) []) k"
  have "map_of (asset_type_index c) k = map_option (sort_key t_name) ?raw"
    by (simp add: asset_type_index_def map_of_map)
  then have "mset (case map_of (asset_type_index c) k of Some ts \<Rightarrow> ts | None \<Rightarrow> [])
      = mset (case ?raw of Some ts \<Rightarrow> ts | None \<Rightarrow> [])"
    by (simp split: option.splits)
  also have "(case ?raw of Some ts \<Rightarrow> ts | None \<Rightarrow> [])
      = (if k = [] then [] else filter (\<lambda>ty. t_asset_type ty = k) (c_types c))"
    using fold_index_lookup [of "[]" k "c_types c"] fold_index_no_empty [of "[]" "c_types c"] by simp
  finally show ?thesis .
qed

text \<open>The types of a catalog an asset could be: they serve its asset type and its name has their shape.\<close>

definition could_be :: "catalog \<Rightarrow> json \<Rightarrow> ctype multiset" where
  "could_be c result = (let k = any_str (map_of result ''assetType'');
       rel = relative_resource_name (any_str (map_of result ''name''))
     in {# ty \<in># mset (c_types c). k \<noteq> [] \<and> t_asset_type ty = k
          \<and> (t_parent_root ty = [] \<or> first_path_segment rel = t_parent_root ty) \<and> matches_id_shape ty rel #})"

lemma candidates_could_be:
  "mset (candidates_matching (case map_of (asset_type_index c) (any_str (map_of result ''assetType'')) of
       Some ts \<Rightarrow> ts | None \<Rightarrow> []) (relative_resource_name (any_str (map_of result ''name''))))
     = could_be c result"
  by (simp only: candidates_matching_def mset_filter asset_type_index_mset)
    (auto simp: could_be_def Let_def filter_filter_mset conj_commute intro!: filter_mset_cong)


text \<open>
  What discovery answers is in a fixed order: sorted by provider id and then by type,
  however the projects, the types and the pages answered.
\<close>

theorem discover_sorted:
  "gives (\<lambda>ds. sorted (map (\<lambda>d. (dr_provider_id d, dr_type d)) ds)) (discover p c want w)"
  unfolding discover_def by (rule gives_then) simp

section \<open>Configuration\<close>

text \<open>The string under a key of a configuration, as an instance holds it.\<close>

definition says_string :: "config \<Rightarrow> string \<Rightarrow> string \<Rightarrow> bool" where
  "says_string cfg key s = (case cf_value cfg key of
      None \<Rightarrow> s = [] | Some v \<Rightarrow> vkind v = KString \<and> s = raw_str v)"

definition says_list :: "config \<Rightarrow> string \<Rightarrow> string list \<Rightarrow> bool" where
  "says_list cfg key ss = (case cf_value cfg key of
      None \<Rightarrow> ss = []
    | Some v \<Rightarrow> vkind v = KList \<and> list_all (\<lambda>u. vkind u = KString) (ref_vals v) \<and> ss = map raw_str (ref_vals v))"

lemma config_string_says: "config_string x cfg key = Inr s \<longleftrightarrow> says_string cfg key s"
  by (auto simp: config_string_def says_string_def split: option.splits)

lemma config_items_strings:
  "if list_all (\<lambda>u. vkind u = KString) vs then config_items x cfg key j vs = Inr (map raw_str vs)
   else \<exists>e. config_items x cfg key j vs = Inl e"
  by (induction vs arbitrary: j) (simp_all, metis map_sum.simps)

lemma config_items_says:
  "config_items x cfg key j vs = Inr ss \<longleftrightarrow> list_all (\<lambda>u. vkind u = KString) vs \<and> ss = map raw_str vs"
  using config_items_strings [of vs x cfg key j] by (auto split: if_splits)

lemma config_strings_says: "config_strings x cfg ks = Inr ss \<longleftrightarrow> list_all2 (says_string cfg) ks ss"
proof (induction ks arbitrary: ss)
  case (Cons k ks)
  have t: "config_strings x cfg (k # ks) = Inr ss \<longleftrightarrow>
      (\<exists>s rest. ss = s # rest \<and> config_string x cfg k = Inr s \<and> config_strings x cfg ks = Inr rest)"
    by (cases "config_string x cfg k"; cases "config_strings x cfg ks") auto
  show ?case unfolding t Cons.IH config_string_says by (auto simp: list_all2_Cons1)
qed auto

lemma config_list_says: "config_list x cfg key = Inr ss \<longleftrightarrow> says_list cfg key ss"
  by (auto simp: config_list_def says_list_def config_items_says split: option.splits)

text \<open>
  A configuration is accepted exactly when every key is a known one and every value has
  the kind its key asks for, and the instance then holds what the configuration says and
  nothing else.
\<close>

theorem parse_config_exact:
  "parse_config x cfg = Inr inst \<longleftrightarrow> set (cf_keys cfg) \<subseteq> set known_keys
    \<and> says_string cfg ''project'' (in_project inst) \<and> says_string cfg ''region'' (in_region inst)
    \<and> says_string cfg ''zone'' (in_zone inst) \<and> says_string cfg ''credentials_file'' (in_credentials_file inst)
    \<and> says_string cfg ''impersonate_service_account'' (in_impersonate inst)
    \<and> says_string cfg ''quota_project'' (in_quota_project inst)
    \<and> says_list cfg ''discover_types'' (in_discover_types inst)
    \<and> says_list cfg ''discover_projects'' (in_discover_projects inst) \<and> in_name inst = cf_instance cfg"
proof -
  let ?keys = "[''project'', ''region'', ''zone'', ''credentials_file'', ''impersonate_service_account'', ''quota_project'']"
  have u: "sort (filter (\<lambda>k. k \<notin> set known_keys) (cf_keys cfg)) \<noteq> [] \<longleftrightarrow> \<not> set (cf_keys cfg) \<subseteq> set known_keys"
    by (metis (no_types, lifting) filter_empty_conv set_empty set_sort subset_eq)
  have "parse_config x cfg = Inr inst \<longleftrightarrow> set (cf_keys cfg) \<subseteq> set known_keys
      \<and> (\<exists>pr re zo cr im qu ts ps. config_strings x cfg ?keys = Inr [pr, re, zo, cr, im, qu]
        \<and> config_list x cfg ''discover_types'' = Inr ts \<and> config_list x cfg ''discover_projects'' = Inr ps
        \<and> inst = \<lparr>in_project = pr, in_region = re, in_zone = zo, in_credentials_file = cr, in_impersonate = im,
            in_quota_project = qu, in_discover_types = ts, in_discover_projects = ps, in_name = cf_instance cfg\<rparr>)"
    unfolding parse_config_def Let_def u
    by (auto simp del: config_strings.simps split: sum.splits list.splits)
  then show ?thesis
    by (cases inst) (auto simp: config_strings_says config_list_says simp del: config_strings.simps)
qed

end
