(* ===== verification/Lapses.thy ===== *)
theory Lapses
  imports Operations
begin

text \<open>
  Where the code falls short of what it says of itself: a create that answers an error although
  Google has made the resource.
\<close>

lemma topic_creatable: "unresolved_create_placeholders topic_type = []"
  by (simp add: unresolved_create_placeholders_def create_template_def is_create_scope_setting_def
    url_placeholders.simps open_placeholder_def has_prefix_def trim_space_def is_space_def trim_prefix_def)

text \<open>The attributes of the sample resource with the instance's scope filled in.\<close>

definition topic_scoped :: attrs where
  "topic_scoped = with_create_bindings sample_ext topic_type (with_scope sample_provider (ds_attrs topic_desired))"

lemma topic_scoped: "topic_scoped =
    [(''topic'', v_string ''t'' SourceExplicit), (''type_value'', v_string ''A'' SourceExplicit),
     (''project'', v_string ''p'' SourceProvider)]"
  by (simp add: topic_scoped_def with_create_bindings_def with_scope_def scope_attrs_def topic_desired_def
      topic_state_def sample_provider_def new_provider_def sample_settings_def
      v_string_def raw_str_def vget_def zero_val_def)

lemma topic_create_url: "\<exists>url. expanded_url sample_ext topic_type (create_template topic_type) topic_scoped = Inr url"
  by (simp add: topic_scoped create_template_def expanded_url_def eval_template)

lemma topic_scoped_id: "provider_id sample_ext topic_type [] topic_scoped = Inr ''projects/p/topics/t''"
proof -
  have m: "merged_attrs sample_ext topic_type [] topic_scoped = topic_scoped @ [(''type'', v_string ''A'' SourceExplicit)]"
    by (simp add: merged_attrs_def wire_aliases_def alias_entries_def topic_scoped sample_attrs has_key_def)
  have f: "fill_last_from_name ''projects/{{project}}/topics/{{topic}}'' as = as"
    if "map_of as ''topic'' = Some (v_string ''t'' SourceExplicit)" for as
    using that by (simp add: fill_last_from_name_def last_placeholder_def is_word_char_def is_alnum_def vget_def v_string_def)
  have g: "map_of (topic_scoped @ as) ''topic'' = Some (v_string ''t'' SourceExplicit)" for as
    by (simp add: topic_scoped)
  show ?thesis
    by (simp add: provider_id_def any_str_def name_is_already_the_id_def bare_capture_id_def is_bare_capture_def
        name_in_own_collection_def m f [OF g] has_prefix_def)
      (simp add: topic_scoped eval_template)
qed

text \<open>One request answered from the script, where its answer is not to be retried.\<close>

lemma scripted_step:
  assumes "w_srv w = r # rs" "limiters_off w" "\<And>d. ctx_end c = Some d \<Longrightarrow> w_now w < d"
    and e: "\<And>e. read_reply sample_client (request_of sample_client meth (full_url sample_client url) body 0) (w_now w + 1) r = Inl e
      \<Longrightarrow> classify_error e \<noteq> SafeToRetry"
  shows "\<exists>w'. client_do sample_client c meth url body w
      = Some (read_reply sample_client (request_of sample_client meth (full_url sample_client url) body 0) (w_now w + 1) r, w')
    \<and> w_srv w' = rs \<and> limiters_off w' \<and> map rq_method (w_sent w') = map rq_method (w_sent w) @ [meth]"
proof -
  let ?full = "full_url sample_client url"
  let ?w = "limiter_for sample_client (parse_project_and_api ?full) w"
    and ?rq = "request_of sample_client meth ?full body 0"
  let ?w1 = "?w\<lparr>w_srv := rs, w_now := w_now w + 1, w_sent := w_sent w @ [?rq]\<rparr>"
  have f: "cl_timeout sample_client = 30000000000" "cl_qps sample_client = 0" "cl_transport sample_client = scripted"
    by (simp_all add: sample_client_def new_client_def client_timeout_def default_timeout_def second_def)
  have same: "w_srv ?w = w_srv w" "w_now ?w = w_now w" "w_sent ?w = w_sent w"
    by (simp_all add: limiter_for_def)
  have "scripted (r # rs) ?rq (w_now w) (ctx_end (with_timeout c 30000000000 ?w)) = (r, 1, rs)"
    using assms(3) by (auto simp: scripted_def with_timeout_def detached_def same split: option.splits)
  then have o: "do_once sample_client c meth ?full body 0 ?w = (read_reply sample_client ?rq (w_now w + 1) r, ?w1)"
    by (simp add: do_once_def Let_def request_of_def f same assms(1))
  have "client_do sample_client c meth url body w = Some (read_reply sample_client ?rq (w_now w + 1) r, ?w1)"
    by (rule client_do_first [OF _ assms(2) o e]) (simp_all add: f)
  moreover have "limiters_off ?w1"
    using assms(2) limiters_off_for [OF sample_unlimited(1)] by (simp add: limiters_off_def)
  ultimately show ?thesis by (auto simp: request_of_def)
qed

text \<open>An error that is neither retried nor a not-found.\<close>

lemma denied_reply:
  "\<exists>e. read_reply sample_client rq now (error_reply 403 ''PERMISSION_DENIED'') = Inl e
     \<and> classify_error e \<noteq> SafeToRetry \<and> \<not> is_not_found e"
  by (simp add: sample_client_def new_client_def read_reply_def error_reply_def explain_quota_project_def
      decode_api_error_def decode_envelope_def decode_string_def decode_int_def decode_array_def reason_of_def
      classify_error_def is_not_found_def retryable_codes_def retryable_reasons_def not_retryable_codes_def
      retryable_status_def Let_def)

text \<open>
  A create can answer an error after Google has made the resource: here the POST is
  accepted, its operation needs no waiting, and the read back is denied; the host is given an
  error and no state, and the resource is tracked nowhere.
\<close>

theorem create_may_lose:
  "\<exists>e w'. create_resource sample_provider background topic_desired
      (start [ok_json [], error_reply 403 ''PERMISSION_DENIED'']) = Some (Inl e, w')
    \<and> map rq_method (w_sent w') = [''POST'', ''GET'']"
proof -
  let ?w = "start [ok_json [], error_reply 403 ''PERMISSION_DENIED'']"
  obtain url where url: "expanded_url sample_ext topic_type (create_template topic_type) topic_scoped = Inr url"
    using topic_create_url by blast
  obtain gurl where gurl: "item_url sample_ext topic_type [] ''projects/p/topics/t'' topic_ids = Inr gurl"
    using topic_item_url by blast
  let ?body = "Some (AObj (request_body topic_type (create_template topic_type) (ds_attrs topic_desired)))"
  have ok: "read_reply sample_client rq now (ok_json []) = Inr (Some [])" for rq now
    by (simp add: read_reply_def ok_json_def)
  from scripted_step [of ?w "ok_json []" "[error_reply 403 ''PERMISSION_DENIED'']" background "''POST''" url ?body]
  obtain w1 where p: "client_do sample_client background ''POST'' url ?body ?w = Some (Inr (Some []), w1)"
      and w1: "w_srv w1 = [error_reply 403 ''PERMISSION_DENIED'']" "limiters_off w1"
        "map rq_method (w_sent w1) = [''POST'']"
    by (auto simp: ok start_def limiters_off_def background_def)
  let ?c = "detached (type_timeout topic_type) w1"
  let ?rq = "request_of sample_client ''GET'' (full_url sample_client gurl) None 0"
  obtain e where e: "read_reply sample_client ?rq (w_now w1 + 1) (error_reply 403 ''PERMISSION_DENIED'') = Inl e"
      "classify_error e \<noteq> SafeToRetry" "\<not> is_not_found e" using denied_reply by blast
  have d: "ctx_end ?c = Some d \<Longrightarrow> w_now w1 < d" for d
    by (auto simp: detached_def type_timeout_def second_def)
  obtain w2 where g: "client_do sample_client ?c ''GET'' gurl None w1 = Some (Inl e, w2)"
      "map rq_method (w_sent w2) = [''POST'', ''GET'']"
    using scripted_step [OF w1(1,2) d, of ?c "''GET''" gurl None] e w1(3) by auto
  have out: "outside_created_collection sample_ext topic_type ''projects/p/topics/t'' topic_scoped = None"
    by (simp add: outside_created_collection_def path_part_def create_template_def str_cut_def topic_scoped
        trim_suffix_def has_suffix_def unescape_or_same_def cut_prefix_def eval_template)
  have id: "created_id sample_ext topic_type (Some []) topic_scoped w1 = (Inr ''projects/p/topics/t'', w1)"
    by (simp add: created_id_def topic_scoped_id out)
  have r: "read_after_create sample_provider topic_type (ds_attrs topic_desired)
      (with_scope sample_provider (ds_attrs topic_desired)) (Some []) w1 = Some (Inl e, w2)"
    unfolding read_after_create_def
    by (simp add: topic_scoped_def [symmetric] id read_resource_def gurl read_via_list_by_parent_def)
      (subst read_loop.simps, simp add: g e)
  have t: "ds_type topic_desired = ''gcp.topic''" by (simp add: topic_desired_def)
  have "create_resource sample_provider background topic_desired ?w
      = Some (Inl (Wrapf ''gcp: %s: created, but the resource cannot be read back: %w'' [ds_type topic_desired] e), w2)"
    by (simp add: create_resource_def t topic_creatable Let_def topic_scoped_def [symmetric] url ctx_error_def background_def
        await_def await_as_def report_created_def r p [unfolded background_def])
  then show ?thesis using g(2) by (intro exI conjI)
qed

end
