(* ===== verification/Naming.thy ===== *)
theory Naming
  imports Prelude
begin

text \<open>
  The generator's naming of types (internal/gen/names.go): candidates, the append-only lock of
  names ever assigned, and \<open>Assign\<close>. A lock is the map from a candidate's key to its name; the
  files it is loaded from and saved to are not modelled. A call that fails leaves the lock as
  it found it, so it answers no lock.
\<close>

record candidate =
  ca_service :: string
  ca_resource :: string
  ca_scope :: string
  ca_qualified :: bool

type_synonym lock = "(string \<times> string) list"

definition candidate_key :: "candidate \<Rightarrow> string" where
  "candidate_key c = (if ca_scope c = [] then ca_service c @ ''/'' @ ca_resource c
     else ca_service c @ ''/'' @ ca_scope c @ ''/'' @ ca_resource c)"

definition generic_words :: "string list" where
  "generic_words = [''instance'', ''policy'', ''group'', ''metric'', ''schema'', ''queue'', ''job'', ''rule'',
     ''config'', ''key'', ''service'', ''cluster'', ''database'', ''table'', ''template'', ''version'',
     ''connection'', ''endpoint'', ''gateway'', ''repository'', ''resource'', ''operation'', ''channel'',
     ''trigger'', ''backup'', ''connector'', ''snapshot'', ''index'', ''user'']"

text \<open>Whether a name is held by another key.\<close>

definition clashes :: "(string \<times> string) list \<Rightarrow> string \<Rightarrow> string \<Rightarrow> bool" where
  "clashes taken name key \<longleftrightarrow> (case map_of taken name of Some holder \<Rightarrow> holder \<noteq> key | None \<Rightarrow> False)"

definition holder_of :: "(string \<times> string) list \<Rightarrow> string \<Rightarrow> string" where
  "holder_of taken name = (case map_of taken name of Some h \<Rightarrow> h | None \<Rightarrow> [])"

definition name_for :: "candidate \<Rightarrow> (string \<Rightarrow> nat) \<Rightarrow> (string \<times> string) list \<Rightarrow> gerr + string" where
  "name_for c wants taken =
     (let key = candidate_key c; qualified = ''gcp.'' @ ca_service c @ ''.'' @ ca_resource c in
      if ca_scope c \<noteq> [] then
        (let name = ''gcp.'' @ ca_service c @ ''.'' @ ca_scope c @ ''.'' @ ca_resource c in
         if clashes taken name key
         then Inl (Errorf ''cannot name %s: %s is already taken (by %s)'' [key, name, holder_of taken name])
         else Inr name)
      else if ca_qualified c then
        (if clashes taken qualified key
         then Inl (Errorf ''cannot name %s: %s is already taken (by %s)'' [key, qualified, holder_of taken qualified])
         else Inr qualified)
      else
        (let short = ''gcp.'' @ ca_resource c;
             preferred_name = (if wants (ca_resource c) > 1 \<or> ca_resource c \<in> set generic_words
               then qualified else short);
             name = (if clashes taken preferred_name key then qualified else preferred_name)
         in if clashes taken name key
            then Inl (Errorf ''cannot name %s: both %s and %s are taken (by %s)''
              [key, short, qualified, holder_of taken name])
            else Inr name))"

text \<open>The newcomers named one after another, each name taken before the next is chosen.\<close>

fun assign_fresh ::
  "(string \<Rightarrow> nat) \<Rightarrow> (string \<times> string) list \<Rightarrow> candidate list \<Rightarrow> gerr + (candidate \<times> string) list" where
  "assign_fresh wants taken [] = Inr []"
| "assign_fresh wants taken (c # cs) = (case name_for c wants taken of
      Inl e \<Rightarrow> Inl e
    | Inr name \<Rightarrow> map_sum id (Cons (c, name))
        (assign_fresh wants (AList.update name (candidate_key c) taken) cs))"

definition count_wants :: "candidate list \<Rightarrow> string \<Rightarrow> nat" where
  "count_wants fresh r =
     length (filter (\<lambda>c. ca_scope c = [] \<and> \<not> ca_qualified c \<and> ca_resource c = r) fresh)"

definition fresh_candidates :: "candidate list \<Rightarrow> lock \<Rightarrow> candidate list" where
  "fresh_candidates cands lock =
     sort_key candidate_key (filter (\<lambda>c. \<not> has_key lock (candidate_key c)) cands)"

definition locked_names :: "candidate list \<Rightarrow> lock \<Rightarrow> (candidate \<times> string) list" where
  "locked_names cands lock = concat (map (\<lambda>c. case map_of lock (candidate_key c) of
      Some n \<Rightarrow> [(c, n)] | None \<Rightarrow> []) cands)"

definition assign :: "candidate list \<Rightarrow> lock \<Rightarrow> gerr + ((candidate \<times> string) list \<times> lock)" where
  "assign cands lock =
     (let taken = overlay [] (map (\<lambda>(k, n). (n, k)) lock); fresh = fresh_candidates cands lock
      in case assign_fresh (count_wants fresh) taken fresh of
           Inl e \<Rightarrow> Inl e
         | Inr named \<Rightarrow> Inr (overlay [] (locked_names cands lock @ named),
             overlay lock (map (\<lambda>(c, n). (candidate_key c, n)) named)))"

section \<open>Every name is new\<close>

lemma name_for_free: "name_for c wants taken = Inr name \<Longrightarrow> \<not> clashes taken name (candidate_key c)"
  by (auto simp: name_for_def Let_def split: if_splits)

text \<open>No candidate's key holds a name yet, and each has a key of its own.\<close>

definition unheld :: "(string \<times> string) list \<Rightarrow> candidate list \<Rightarrow> bool" where
  "unheld taken cs \<longleftrightarrow> distinct (map candidate_key cs) \<and> (\<forall>c \<in> set cs. candidate_key c \<notin> ran (map_of taken))"

lemma unheld_next:
  assumes "unheld taken (c # cs)" "name_for c wants taken = Inr name"
  shows "map_of taken name = None" "unheld (AList.update name (candidate_key c) taken) cs"
proof -
  show n: "map_of taken name = None"
    using name_for_free [OF assms(2)] assms(1) by (auto simp: clashes_def unheld_def ran_def split: option.splits)
  show "unheld (AList.update name (candidate_key c) taken) cs"
    unfolding unheld_def using assms(1) n
    by (auto simp: unheld_def ran_map_upd) (metis image_eqI)
qed

lemma assign_fresh_names:
  "assign_fresh wants taken cs = Inr named \<Longrightarrow> unheld taken cs \<Longrightarrow>
     map fst named = cs \<and> distinct (map snd named) \<and> set (map snd named) \<inter> dom (map_of taken) = {}"
proof (induction cs arbitrary: taken named)
  case (Cons c cs)
  from Cons.prems(1) obtain name rest where n: "name_for c wants taken = Inr name"
      and r: "assign_fresh wants (AList.update name (candidate_key c) taken) cs = Inr rest"
      and named: "named = (c, name) # rest"
    by (cases "name_for c wants taken"; cases "assign_fresh wants (AList.update (projr (name_for c wants taken)) (candidate_key c) taken) cs")
      auto
  note u = unheld_next [OF Cons.prems(2) n]
  from Cons.IH [OF r u(2)] have i: "map fst rest = cs" "distinct (map snd rest)"
      "set (map snd rest) \<inter> insert name (dom (map_of taken)) = {}" by auto
  then show ?case using u(1) by (auto simp: named)
qed simp

section \<open>Assign\<close>

definition taken_names :: "lock \<Rightarrow> (string \<times> string) list" where
  "taken_names lock = overlay [] (map (\<lambda>(k, n). (n, k)) lock)"

lemma taken_names_dom: "dom (map_of (taken_names lock)) = snd ` set lock"
  using keys_overlay [of "[]" "map (\<lambda>(k, n). (n, k)) lock"]
  by (auto simp: taken_names_def dom_map_of_conv_image_fst image_image case_prod_beta)

lemma taken_names_ran: "ran (map_of (taken_names lock)) \<subseteq> fst ` set lock"
proof -
  have "set (taken_names lock) \<subseteq> (\<lambda>(k, n). (n, k)) ` set lock"
    using set_overlay [of "[]" "map (\<lambda>(k, n). (n, k)) lock"] by (simp add: taken_names_def)
  then have "(a, x) \<in> set (taken_names lock) \<Longrightarrow> x \<in> fst ` set lock" for a x by force
  then show ?thesis by (auto simp: ran_def dest!: map_of_SomeD)
qed

lemma fresh_set: "set (fresh_candidates cands lock) = {c \<in> set cands. \<not> has_key lock (candidate_key c)}"
  by (simp add: fresh_candidates_def)

lemma fresh_unheld:
  assumes "inj_on candidate_key (set cands)" "distinct cands"
  shows "unheld (taken_names lock) (fresh_candidates cands lock)"
proof -
  have "distinct (fresh_candidates cands lock)" using assms(2) by (simp add: fresh_candidates_def)
  moreover have "inj_on candidate_key (set (fresh_candidates cands lock))"
    using assms(1) by (rule inj_on_subset) (auto simp: fresh_set)
  ultimately have "distinct (map candidate_key (fresh_candidates cands lock))" by (simp add: distinct_map)
  moreover have "candidate_key c \<notin> ran (map_of (taken_names lock))" if "c \<in> set (fresh_candidates cands lock)" for c
    using that taken_names_ran [of lock] by (auto simp: fresh_set has_key_iff)
  ultimately show ?thesis by (simp add: unheld_def)
qed

lemma assign_Inr:
  assumes "assign cands lock = Inr (out, lock')" "inj_on candidate_key (set cands)" "distinct cands"
  obtains named where "map fst named = fresh_candidates cands lock" "distinct (map snd named)"
    "set (map snd named) \<inter> snd ` set lock = {}"
    "out = overlay [] (locked_names cands lock @ named)"
    "lock' = overlay lock (map (\<lambda>(c, n). (candidate_key c, n)) named)"
proof -
  from assms(1) obtain named where
      n: "assign_fresh (count_wants (fresh_candidates cands lock)) (taken_names lock) (fresh_candidates cands lock) = Inr named"
      "out = overlay [] (locked_names cands lock @ named)"
      "lock' = overlay lock (map (\<lambda>(c, n). (candidate_key c, n)) named)"
    by (auto simp: assign_def Let_def taken_names_def split: sum.splits)
  from assign_fresh_names [OF n(1) fresh_unheld [OF assms(2,3)]] n(2,3) that [of named] show ?thesis
    by (simp add: taken_names_dom)
qed

text \<open>The names the lock keeps for the candidates it knows.\<close>

lemma locked_names_set:
  "(c, n) \<in> set (locked_names cands lock) \<longleftrightarrow> c \<in> set cands \<and> map_of lock (candidate_key c) = Some n"
  by (induction cands) (auto simp: locked_names_def split: option.splits)

lemma map_of_overlay_function:
  "(\<And>c n. (c, n) \<in> set kvs \<Longrightarrow> f c = Some n) \<Longrightarrow>
     map_of (overlay m kvs) c = (if c \<in> set (keys kvs) then f c else map_of m c)"
proof (induction m kvs rule: overlay.induct)
  case (2 m k v kvs)
  have "map_of (overlay (AList.update k v m) kvs) c
      = (if c \<in> set (keys kvs) then f c else map_of (AList.update k v m) c)"
    by (rule 2(1)) (use 2(2) in auto)
  moreover have "f k = Some v" using 2(2) [of k v] by simp
  ultimately show ?case by auto
qed simp

lemma named_keys:
  "keys (map (\<lambda>(c, n). (candidate_key c, n)) named) = map candidate_key (map fst named)"
  by (induction named) auto

lemma distinct_snd_inj: "distinct (map snd m) \<Longrightarrow> (k, v) \<in> set m \<Longrightarrow> (k', v) \<in> set m \<Longrightarrow> k = k'"
  by (induction m) force+

lemma assign_out_dom:
  assumes "assign cands lock = Inr (out, lock')" "inj_on candidate_key (set cands)" "distinct cands"
    "c \<notin> set cands"
  shows "map_of out c = None"
proof -
  from assign_Inr [OF assms(1-3)] obtain named where "map fst named = fresh_candidates cands lock"
      "out = overlay [] (locked_names cands lock @ named)" by metis
  moreover from this have "fst ` set named = set (fresh_candidates cands lock)" by (metis set_map)
  ultimately show ?thesis
    using assms(4) locked_names_set [of _ _ cands lock]
    by (force simp: map_of_eq_None_iff keys_overlay [of "[]", simplified] fresh_set)
qed

lemma assign_lock:
  assumes a: "assign cands lock = Inr (out, lock')" and i: "inj_on candidate_key (set cands)" and d: "distinct cands"
  shows "map_of lock k = Some n \<Longrightarrow> map_of lock' k = Some n"
    and "c \<in> set cands \<Longrightarrow> \<exists>n. map_of out c = Some n \<and> map_of lock' (candidate_key c) = Some n"
proof -
  from assign_Inr [OF a i d] obtain named where n: "map fst named = fresh_candidates cands lock"
      and out: "out = overlay [] (locked_names cands lock @ named)"
      and lock': "lock' = overlay lock (map (\<lambda>(c, n). (candidate_key c, n)) named)" by metis
  let ?new = "map (\<lambda>(c, n). (candidate_key c, n)) named"
  have wf: "wf_map ?new"
    using fresh_unheld [OF i d, of lock] by (simp add: wf_map_def named_keys n unheld_def del: map_map)
  have new: "map_of ?new k = None" if "map_of lock k = Some v" for k v
  proof -
    have "k \<notin> set (map candidate_key (fresh_candidates cands lock))"
      using that by (auto simp: fresh_set has_key_def)
    then show ?thesis by (simp only: map_of_eq_None_iff set_map [symmetric] named_keys n not_False_eq_True)
  qed
  show keep: "map_of lock k = Some n \<Longrightarrow> map_of lock' k = Some n"
    using new by (simp add: lock' map_of_overlay [OF wf])
  have l': "map_of lock' (candidate_key c) = Some m" if "(c, m) \<in> set (locked_names cands lock @ named)" for c m
  proof (cases "(c, m) \<in> set named")
    case True
    then have "(candidate_key c, m) \<in> set ?new" by force
    then show ?thesis using wf_map_lookup [OF wf] by (auto simp: lock' map_of_overlay [OF wf])
  next
    case False
    then have "map_of lock (candidate_key c) = Some m" using that by (simp add: locked_names_set)
    then show ?thesis using new by (simp add: lock' map_of_overlay [OF wf])
  qed
  show "\<exists>n. map_of out c = Some n \<and> map_of lock' (candidate_key c) = Some n" if c: "c \<in> set cands"
  proof -
    have "c \<in> set (keys (locked_names cands lock @ named))"
    proof (cases "has_key lock (candidate_key c)")
      case True
      then obtain m where "(c, m) \<in> set (locked_names cands lock)" using c by (auto simp: locked_names_set has_key_def)
      then show ?thesis by force
    next
      case False
      then show ?thesis using c by (simp add: n fresh_set)
    qed
    moreover from this obtain m where "(c, m) \<in> set (locked_names cands lock @ named)" by force
    ultimately show ?thesis
      using map_of_overlay_function [of "locked_names cands lock @ named" "\<lambda>c. map_of lock' (candidate_key c)" "[]" c] l'
      by (auto simp: out)
  qed
qed

text \<open>
  C6. A name, once given, never moves and never changes hands: after naming any candidates the
  lock still holds every name it held, every candidate has the name the lock now records for
  it, and no two keys hold the same name.
\<close>

theorem names_are_permanent:
  assumes "assign cands lock = Inr (out, lock')" "inj_on candidate_key (set cands)" "distinct cands"
    and "inj_on (\<lambda>k. map_of lock k) (dom (map_of lock))" "wf_map lock"
  shows "map_of lock \<subseteq>\<^sub>m map_of lock'
    \<and> (\<forall>c \<in> set cands. \<exists>n. map_of out c = Some n \<and> map_of lock' (candidate_key c) = Some n)
    \<and> inj_on (\<lambda>k. map_of lock' k) (dom (map_of lock'))"
proof -
  from assign_Inr [OF assms(1-3)] obtain named where n: "map fst named = fresh_candidates cands lock"
      "distinct (map snd named)" "set (map snd named) \<inter> snd ` set lock = {}"
      and lock': "lock' = overlay lock (map (\<lambda>(c, n). (candidate_key c, n)) named)" by metis
  let ?new = "map (\<lambda>(c, n). (candidate_key c, n)) named"
  have wf: "wf_map ?new"
    using fresh_unheld [OF assms(2,3), of lock] by (simp add: wf_map_def named_keys n(1) unheld_def del: map_map)
  have "distinct (map snd ?new)" using n(2) by (simp add: comp_def case_prod_beta)
  then have new: "map_of ?new k = Some v \<Longrightarrow> map_of ?new k' = Some v \<Longrightarrow> k = k'" for k k' v
    using distinct_snd_inj by (metis map_of_SomeD)
  have apart: "map_of ?new k = Some v \<Longrightarrow> map_of lock k' \<noteq> Some v" for k k' v
    using n(3) by (force dest!: map_of_SomeD)
  have "inj_on (\<lambda>k. map_of lock' k) (dom (map_of lock'))"
  proof (rule inj_onI)
    fix k k' assume "k \<in> dom (map_of lock')" and e: "map_of lock' k = map_of lock' k'"
    then obtain v where v: "map_of lock' k = Some v" by blast
    with e have v': "map_of lock' k' = Some v" by simp
    show "k = k'"
      using v v' assms(4) new [of k v k'] apart [of k v k'] apart [of k' v k]
      by (auto simp: lock' map_of_overlay [OF wf] inj_on_def dom_def split: option.splits)
  qed
  then show ?thesis using assign_lock [OF assms(1-3)] by (auto simp: map_le_def)
qed

definition topic_candidates :: "candidate list" where
  "topic_candidates = [\<lparr>ca_service = ''pubsub'', ca_resource = ''topic'', ca_scope = [], ca_qualified = False\<rparr>,
     \<lparr>ca_service = ''memcache'', ca_resource = ''instance'', ca_scope = [], ca_qualified = False\<rparr>]"

theorem names_are_permanent_witness:
  "\<exists>out lock'. assign topic_candidates [(''dns/topic'', ''gcp.topic'')] = Inr (out, lock')
     \<and> map_of lock' ''dns/topic'' = Some ''gcp.topic'' \<and> inj_on (\<lambda>k. map_of lock' k) (dom (map_of lock'))"
proof -
  have f: "fresh_candidates topic_candidates [(''dns/topic'', ''gcp.topic'')] = rev topic_candidates"
    by (simp add: fresh_candidates_def topic_candidates_def has_key_def candidate_key_def less_eq_char_def)
  obtain out lock' where a: "assign topic_candidates [(''dns/topic'', ''gcp.topic'')] = Inr (out, lock')"
    unfolding assign_def f
    by (simp add: topic_candidates_def count_wants_def name_for_def generic_words_def candidate_key_def
        clashes_def Let_def)
  have "inj_on candidate_key (set topic_candidates)" "distinct topic_candidates"
    by (simp_all add: topic_candidates_def candidate_key_def)
  from names_are_permanent [OF a this] a show ?thesis
    by (auto simp: inj_on_def wf_map_def map_le_def)
qed

text \<open>
  C31. Naming does not depend on the order in which the corpus lists its types: candidates in
  another order get the same names and leave the same lock, or fail with the same error.
\<close>

theorem naming_order_free:
  assumes "mset cands = mset cands'" "inj_on candidate_key (set cands)" "distinct cands"
  shows "case (assign cands lock, assign cands' lock) of
      (Inr (out, l), Inr (out', l')) \<Rightarrow> l = l' \<and> map_of out = map_of out'
    | (Inl e, Inl e') \<Rightarrow> e = e'
    | _ \<Rightarrow> False"
proof -
  have s: "set cands' = set cands" using assms(1) by (metis set_mset_mset)
  have d: "distinct cands'" using assms(1,3) by (metis mset_eq_imp_distinct_iff)
  have "mset (filter (\<lambda>c. \<not> has_key lock (candidate_key c)) cands')
      = mset (filter (\<lambda>c. \<not> has_key lock (candidate_key c)) cands)" using assms(1) by simp
  moreover have "inj_on candidate_key (set (filter (\<lambda>c. \<not> has_key lock (candidate_key c)) cands'))"
    using assms(2) s by (auto intro: inj_on_subset)
  ultimately have f: "fresh_candidates cands' lock = fresh_candidates cands lock"
    unfolding fresh_candidates_def by (intro sort_key_inj_key_eq) (simp_all add: sorted_sort_key)
  show ?thesis
  proof (cases "assign cands lock")
    case (Inl e)
    then show ?thesis by (auto simp: assign_def Let_def f split: sum.splits)
  next
    case (Inr r)
    obtain out l where r: "r = (out, l)" by (cases r)
    then obtain out' where r': "assign cands' lock = Inr (out', l)"
      using Inr by (auto simp: assign_def Let_def f split: sum.splits)
    have i': "inj_on candidate_key (set cands')" using assms(2) s by simp
    have "map_of out c = map_of out' c" for c
    proof (cases "c \<in> set cands")
      case True
      with assign_lock(2) [OF Inr [unfolded r] assms(2,3)] assign_lock(2) [OF r' i' d] s show ?thesis
        by fastforce
    next
      case False
      with assign_out_dom [OF Inr [unfolded r] assms(2,3)] assign_out_dom [OF r' i' d] s show ?thesis by simp
    qed
    then have "map_of out = map_of out'" by (rule ext)
    then show ?thesis using Inr r r' by simp
  qed
qed

theorem naming_order_free_witness:
  "case (assign topic_candidates [], assign (rev topic_candidates) []) of
      (Inr (out, l), Inr (out', l')) \<Rightarrow> l = l' \<and> map_of out = map_of out'
    | (Inl e, Inl e') \<Rightarrow> e = e'
    | _ \<Rightarrow> False"
  by (rule naming_order_free) (simp_all add: topic_candidates_def candidate_key_def)

end
