(* ===== verification/Disco.thy ===== *)
theory Disco
  imports Values
begin

text \<open>
  Google API Discovery documents as the generator reads them (internal/disco): schemas, methods and
  the tree of resources, the field behaviours written into descriptions, the expansion of
  references, and the flat list of collections. Go structs are records; \<open>Schema\<close> and \<open>Resource\<close> nest
  and are datatypes. A document states no null schema, method or resource. Parsing the JSON is the
  standard library's. The case folding of the code's regular expressions is that of ASCII.
\<close>

section \<open>Documents\<close>

record schema_facts =
  sm_id :: string
  sm_type :: string
  sm_format :: string
  sm_description :: string
  sm_ref :: string
  sm_read_only :: bool
  sm_default :: any
  sm_enum :: "string list"
  sm_required :: "string list"

datatype dschema =
  Schema (sm: schema_facts) (sm_props: "(string \<times> dschema) list") (sm_items: "dschema option") (sm_rest: "dschema option")

record dparameter =
  pa_type :: string
  pa_location :: string
  pa_required :: bool
  pa_format :: string
  pa_pattern :: string
  pa_description :: string

record dmethod =
  me_id :: string
  me_path :: string
  me_flat_path :: string
  me_http_method :: string
  me_description :: string
  me_request :: "string option"
  me_response :: "string option"
  me_parameters :: "(string \<times> dparameter) list"

datatype dresource = Resource (re_methods: "(string \<times> dmethod) list") (re_resources: "(string \<times> dresource) list")

record endpoint =
  ep_url :: string
  ep_location :: string

record document =
  doc_name :: string
  doc_root_url :: string
  doc_service_path :: string
  doc_schemas :: "(string \<times> dschema) list"
  doc_resources :: "(string \<times> dresource) list"
  doc_endpoints :: "endpoint list"

definition resolved_base_url :: "document \<Rightarrow> string" where
  "resolved_base_url d = doc_root_url d @ doc_service_path d"

definition no_facts :: schema_facts where
  "no_facts = \<lparr>sm_id = [], sm_type = [], sm_format = [], sm_description = [], sm_ref = [], sm_read_only = False,
     sm_default = ANil, sm_enum = [], sm_required = []\<rparr>"

section \<open>Field behaviours\<close>

definition re_space :: "char \<Rightarrow> bool" where
  "re_space c \<longleftrightarrow> c \<in> {CHR '' '', CHR 0x09, CHR 0x0A, CHR 0x0C, CHR 0x0D}"

text \<open>A prefix in any case; \<open>p\<close> is in lower case.\<close>

definition fold_prefix :: "string \<Rightarrow> string \<Rightarrow> bool" where
  "fold_prefix s p \<longleftrightarrow> map to_lower_char (take (length p) s) = p"

definition bracketed_tags :: "string list" where
  "bracketed_tags = [''output only'', ''input only'']"

definition dotted_tags :: "string list" where
  "dotted_tags = [''output only'', ''input only'', ''immutable'', ''identifier'', ''required'', ''optional'']"

text \<open>The tag a description starts with and the text after it.\<close>

definition behavior_tag :: "string \<Rightarrow> (string \<times> string) option" where
  "behavior_tag d = (let s = dropWhile re_space d in
     case find (\<lambda>t. fold_prefix s (''['' @ t @ '']'')) bracketed_tags of
       Some t \<Rightarrow> Some (t, dropWhile re_space (drop (length t + 2) s))
     | None \<Rightarrow> (case find (\<lambda>t. fold_prefix s (t @ ''.'')) dotted_tags of
         Some t \<Rightarrow> Some (t, dropWhile re_space (drop (length t + 1) s))
       | None \<Rightarrow> None))"

lemma dropWhile_shorter: "length (dropWhile P xs) \<le> length xs"
  by (induction xs) auto

lemma fold_prefix_length: "fold_prefix s p \<Longrightarrow> length p \<le> length s"
  by (auto simp: fold_prefix_def dest: arg_cong [where f = length])

lemma behavior_tag_shorter: "behavior_tag d = Some (t, rest) \<Longrightarrow> length rest < length d"
proof -
  assume t: "behavior_tag d = Some (t, rest)"
  let ?s = "dropWhile re_space d"
  obtain n where n: "rest = dropWhile re_space (drop n ?s)" "0 < n" "n \<le> length ?s"
    using t by (auto simp: behavior_tag_def Let_def find_Some_iff dest!: fold_prefix_length split: option.splits)
  have "length rest \<le> length ?s - n"
    using dropWhile_shorter [of re_space "drop n ?s"] by (simp add: n(1))
  then show ?thesis using n(2,3) dropWhile_shorter [of re_space d] by linarith
qed

function behavior_run :: "string \<Rightarrow> string list" where
  "behavior_run d = (case behavior_tag d of None \<Rightarrow> [] | Some (t, rest) \<Rightarrow> t # behavior_run rest)"
  by pat_completeness auto
termination by (relation "measure length") (auto dest: behavior_tag_shorter)

declare behavior_run.simps [simp del]

text \<open>A leading deprecation notice is skipped up to a tag within its next 200 characters.\<close>

definition past_deprecation :: "string \<Rightarrow> string" where
  "past_deprecation d = (let s = dropWhile re_space d in
     if has_prefix (trim_space d) ''[DEPRECATED]'' \<and> fold_prefix s ''[deprecated]''
     then (let after = drop 12 s; rest = drop (length (takeWhile (\<lambda>c. c \<noteq> CHR ''['') (take 200 after))) after
       in if behavior_tag rest \<noteq> None then rest else d)
     else d)"

definition behaviors :: "string \<Rightarrow> string list" where
  "behaviors description = behavior_run (past_deprecation description)"

definition output_only :: "dschema \<Rightarrow> bool" where
  "output_only s \<longleftrightarrow> sm_read_only (sm s) \<or> ''output only'' \<in> set (behaviors (sm_description (sm s)))"

section \<open>References\<close>

definition max_ref_depth :: nat where "max_ref_depth = 8"

definition truncated :: "schema_facts \<Rightarrow> dschema" where
  "truncated i = Schema (no_facts\<lparr>sm_type := ''object'', sm_description := sm_description i\<rparr>) [] None None"

text \<open>What the referring site says of itself wins.\<close>

definition as_referred :: "schema_facts \<Rightarrow> dschema \<Rightarrow> dschema" where
  "as_referred i r = (case r of Schema j ps it ad \<Rightarrow>
     Schema (j\<lparr>sm_description := (if sm_description i \<noteq> [] then sm_description i else sm_description j),
               sm_read_only := sm_read_only i \<or> sm_read_only j\<rparr>) ps it ad)"

definition hops_left :: "nat \<Rightarrow> nat" where "hops_left depth = Suc max_ref_depth - depth"

function (sequential) resolve_at :: "document \<Rightarrow> nat \<Rightarrow> dschema \<Rightarrow> gerr + dschema \<times> nat"
and resolve_props :: "document \<Rightarrow> nat \<Rightarrow> (string \<times> dschema) list \<Rightarrow> gerr + (string \<times> dschema) list \<times> nat"
and resolve_opt :: "document \<Rightarrow> nat \<Rightarrow> dschema option \<Rightarrow> gerr + dschema option \<times> nat" where
  "resolve_at d depth (Schema i ps it ad) =
     (if depth > max_ref_depth then Inr (truncated i, 1)
      else if sm_ref i \<noteq> [] then (case map_of (doc_schemas d) (sm_ref i) of
          None \<Rightarrow> Inl (Errorf ''$ref %q is not a schema in %s'' [sm_ref i, doc_name d])
        | Some target \<Rightarrow> (case resolve_at d (Suc depth) target of
            Inl e \<Rightarrow> Inl e
          | Inr (r, n) \<Rightarrow> Inr (as_referred i r, n)))
      else (case resolve_props d depth ps of
          Inl e \<Rightarrow> Inl e
        | Inr (ps', n) \<Rightarrow> (case resolve_opt d depth it of
            Inl e \<Rightarrow> Inl e
          | Inr (it', n') \<Rightarrow> (case resolve_opt d depth ad of
              Inl e \<Rightarrow> Inl e
            | Inr (ad', n'') \<Rightarrow> Inr (Schema i ps' it' ad', n + n' + n'')))))"
| "resolve_props d depth [] = Inr ([], 0)"
| "resolve_props d depth ((name, p) # ps) = (case resolve_at d depth p of
      Inl e \<Rightarrow> Inl e
    | Inr (r, n) \<Rightarrow> (case resolve_props d depth ps of
        Inl e \<Rightarrow> Inl e
      | Inr (ps', n') \<Rightarrow> Inr ((name, r) # ps', n + n')))"
| "resolve_opt d depth None = Inr (None, 0)"
| "resolve_opt d depth (Some s) = (case resolve_at d depth s of
      Inl e \<Rightarrow> Inl e | Inr (r, n) \<Rightarrow> Inr (Some r, n))"
  by pat_completeness auto

termination
  by (relation "measures
      [\<lambda>x. case x of Inl (_, depth, _) \<Rightarrow> hops_left depth | Inr (Inl (_, depth, _)) \<Rightarrow> hops_left depth
         | Inr (Inr (_, depth, _)) \<Rightarrow> hops_left depth,
       \<lambda>x. case x of Inl (_, _, s) \<Rightarrow> 2 * size s | Inr (Inl (_, _, ps)) \<Rightarrow> 2 * size_list (size_prod (\<lambda>_. 0) size) ps
         | Inr (Inr (_, _, s)) \<Rightarrow> 2 * size_option size s]")
    (auto simp: hops_left_def)

definition resolve_counted :: "document \<Rightarrow> dschema \<Rightarrow> gerr + dschema \<times> nat" where
  "resolve_counted d s = resolve_at d 0 s"

definition resolve :: "document \<Rightarrow> dschema \<Rightarrow> gerr + dschema" where
  "resolve d s = map_sum id fst (resolve_at d 0 s)"

section \<open>Collections\<close>

record collection =
  co_path :: "string list"
  co_methods :: "(string \<times> dmethod) list"

text \<open>The walk visits the names of a level in their order.\<close>

lemma size_in_level [termination_simp]:
  "(n, r) \<in> set rs \<Longrightarrow> size_list (size_prod (\<lambda>_. 0) size) (re_resources r)
     < size_list (size_prod (\<lambda>_. 0) size) (rs :: (string \<times> dresource) list)"
proof (induction rs)
  case (Cons a rs)
  have "size_list (size_prod (\<lambda>_. 0) size) (re_resources r) < size r" by (cases r) simp
  with Cons show ?case by fastforce
qed simp

function collections_below :: "string list \<Rightarrow> (string \<times> dresource) list \<Rightarrow> collection list" where
  "collections_below path rs = concat (map (\<lambda>(n, r).
     (if re_methods r \<noteq> [] then [\<lparr>co_path = path @ [n], co_methods = re_methods r\<rparr>] else [])
     @ collections_below (path @ [n]) (re_resources r)) (sort_key fst rs))"
  by pat_completeness auto
termination
  by (relation "measure (\<lambda>(_, rs). size_list (size_prod (\<lambda>_. 0) size) rs)") (auto simp: size_in_level)

declare collections_below.simps [simp del]

definition collections :: "document \<Rightarrow> collection list" where
  "collections d = collections_below [] (doc_resources d)"

end
