(* ===== verification/MagicModules.thy ===== *)
theory MagicModules
  imports Disco
begin

text \<open>
  The generator's other two inputs: magic-modules' definitions of resources (internal/mmv1) and the
  overlay of human decisions (internal/gen/overlay.go), as far as the generator reads them. Decoding
  the YAML is a library's; of \<open>custom_code\<close> only the keys are read. An \<open>ItemType\<close> is a \<open>Field\<close>.
\<close>

record field_facts =
  mf_name :: string
  mf_type :: string
  mf_required :: bool
  mf_immutable :: bool
  mf_output :: bool
  mf_resource :: string
  mf_imports :: string
  mf_is_set :: bool
  mf_api_name :: string
  mf_sensitive :: bool
  mf_write_only :: bool
  mf_ignore_read :: bool
  mf_update_url :: string
  mf_update_verb :: string
  mf_custom_expand :: string
  mf_diff_suppress :: string

datatype mm_field = MField (mf: field_facts) (mf_properties: "mm_field list") (mf_item_type: "mm_field option")

record mm_resource =
  mm_name :: string
  mm_description :: string
  mm_base_url :: string
  mm_create_url :: string
  mm_update_url :: string
  mm_delete_url :: string
  mm_self_link :: string
  mm_update_verb :: string
  mm_update_mask :: bool
  mm_exclude :: bool
  mm_min_version :: string
  mm_import_format :: "string list"
  mm_parameters :: "mm_field list"
  mm_properties :: "mm_field list"
  mm_custom_code :: "string list"
  mm_immutable :: bool
  mm_delete_verb :: string
  mm_exclude_delete :: bool
  mm_exclude_resource :: bool
  mm_product :: string
  mm_product_base_url :: string

record ruling =
  ru_hooks :: "string list"
  ru_note :: string
  ru_read_via :: string
  ru_all_force_new :: bool
  ru_clear_before_delete :: "string list"
  ru_required :: "string list"
  ru_settable :: "string list"
  ru_in_place :: "string list"
  ru_send_with_update :: "string list"

record patchable =
  pt_fields :: "string list"
  pt_one_field_per_patch :: bool
  pt_note :: string

record sensitive_fields =
  sf_fields :: "string list"
  sf_note :: string

record observation =
  ob_path :: string
  ob_fact :: string
  ob_value :: string
  ob_seen :: string

record gen_overlay =
  ov_rulings :: "(string \<times> ruling) list"
  ov_patchable :: "(string \<times> patchable) list"
  ov_aliases :: "(string \<times> (string \<times> string) list) list"
  ov_discover_default :: "string list"
  ov_product_aliases :: "(string \<times> string list) list"
  ov_sensitive :: "(string \<times> sensitive_fields) list"
  ov_observed :: "(string \<times> observation list) list"

definition no_field_facts :: field_facts where
  "no_field_facts = \<lparr>mf_name = [], mf_type = [], mf_required = False, mf_immutable = False, mf_output = False,
     mf_resource = [], mf_imports = [], mf_is_set = False, mf_api_name = [], mf_sensitive = False, mf_write_only = False,
     mf_ignore_read = False, mf_update_url = [], mf_update_verb = [], mf_custom_expand = [], mf_diff_suppress = []\<rparr>"

definition bare_mm_resource :: "string \<Rightarrow> mm_resource" where
  "bare_mm_resource name = \<lparr>mm_name = name, mm_description = [], mm_base_url = [], mm_create_url = [], mm_update_url = [],
     mm_delete_url = [], mm_self_link = [], mm_update_verb = [], mm_update_mask = False, mm_exclude = False,
     mm_min_version = [], mm_import_format = [], mm_parameters = [], mm_properties = [], mm_custom_code = [],
     mm_immutable = False, mm_delete_verb = [], mm_exclude_delete = False, mm_exclude_resource = False,
     mm_product = [], mm_product_base_url = []\<rparr>"

text \<open>What the API calls a field.\<close>

definition mm_api_name :: "mm_field \<Rightarrow> string" where
  "mm_api_name f = (if mf_api_name (mf f) \<noteq> [] then mf_api_name (mf f) else mf_name (mf f))"

end
