(* ===== verification/Tiering.thy ===== *)
theory Tiering
  imports MagicModules
begin

text \<open>
  How far the generator can vouch for a type (internal/gen/tier.go, \<open>Classify\<close>, and the wire
  hooks of internal/mmv1/hooks.go).
\<close>

datatype tier = TierGeneric | TierHooked | TierExcluded

record decision =
  d_tier :: tier
  d_reason :: string

definition wire_hook_keys :: "string list" where
  "wire_hook_keys = [''custom_create'', ''custom_delete'', ''custom_import'', ''custom_update'', ''decoder'',
     ''encoder'', ''post_create'', ''post_create_failure'', ''post_delete'', ''post_update'', ''pre_create'',
     ''pre_delete'', ''pre_update'', ''resource_definition'', ''update_encoder'']"

definition wire_hooks :: "mm_resource \<Rightarrow> string list" where
  "wire_hooks r = sort (filter (\<lambda>k. k \<in> set wire_hook_keys) (mm_custom_code r))"

definition has_method :: "collection \<Rightarrow> string \<Rightarrow> bool" where
  "has_method col m \<longleftrightarrow> has_key (co_methods col) m"

text \<open>Why magic-modules itself keeps a resource out.\<close>

definition mm_excluded :: "mm_resource option \<Rightarrow> string option" where
  "mm_excluded mm = (case mm of
      None \<Rightarrow> None
    | Some r \<Rightarrow>
        if mm_exclude r then Some ''magic-modules marks it exclude: true''
        else if mm_min_version r \<noteq> [] \<and> mm_min_version r \<noteq> ''ga''
        then Some (''min_version is '' @ mm_min_version r @ '', not ga'')
        else None)"

definition ruled :: "ruling option \<Rightarrow> string list \<Rightarrow> decision" where
  "ruled ru hooks = (case ru of
      None \<Rightarrow> \<lparr>d_tier = TierHooked, d_reason = ''unruled wire hooks: '' @ join_with '', '' hooks\<rparr>
    | Some r \<Rightarrow>
        (let unruled = filter (\<lambda>h. h \<notin> set (ru_hooks r)) hooks in
         if unruled \<noteq> [] then \<lparr>d_tier = TierHooked, d_reason = ''ruling covers '' @ join_with '', '' (ru_hooks r)
             @ '' but the resource now also declares '' @ join_with '', '' unruled
             @ ''; re-inspect and extend the ruling''\<rparr>
         else \<lparr>d_tier = TierGeneric, d_reason = ''ruled: '' @ ru_note r\<rparr>))"

definition classify :: "collection \<Rightarrow> mm_resource option \<Rightarrow> ruling option \<Rightarrow> decision" where
  "classify col mm ru = (case mm_excluded mm of
      Some why \<Rightarrow> \<lparr>d_tier = TierExcluded, d_reason = why\<rparr>
    | None \<Rightarrow>
        if \<not> (has_method col ''insert'' \<or> has_method col ''create'')
        then \<lparr>d_tier = TierExcluded, d_reason = ''no insert or create method''\<rparr>
        else if \<not> has_method col ''delete'' then \<lparr>d_tier = TierExcluded, d_reason = ''no delete method''\<rparr>
        else if \<not> has_method col ''get'' \<and> (case ru of None \<Rightarrow> True | Some r \<Rightarrow> ru_read_via r = [])
        then \<lparr>d_tier = TierHooked, d_reason = ''no get method; needs a ruling with read_via''\<rparr>
        else (let hooks = (case mm of None \<Rightarrow> [] | Some r \<Rightarrow> wire_hooks r) in
          if hooks = [] then \<lparr>d_tier = TierGeneric, d_reason = ''generic-safe''\<rparr> else ruled ru hooks))"

text \<open>The hand-written code of a resource that changes what goes on the wire, as a set.\<close>

definition rewrites_wire :: "mm_resource option \<Rightarrow> string set" where
  "rewrites_wire mm = (case mm of None \<Rightarrow> {} | Some r \<Rightarrow> set (mm_custom_code r) \<inter> set wire_hook_keys)"

text \<open>
  A type ships exactly when it can be vouched for: magic-modules does not keep it out, it
  can be created, deleted and read (by a get, or by the way a ruling names), and every piece of
  hand-written code that changes what goes on the wire is named in a ruling.
\<close>

theorem ships_only_reviewed:
  "d_tier (classify col mm ru) = TierGeneric \<longleftrightarrow>
     mm_excluded mm = None \<and> (has_method col ''insert'' \<or> has_method col ''create'') \<and> has_method col ''delete''
     \<and> (has_method col ''get'' \<or> (\<exists>r. ru = Some r \<and> ru_read_via r \<noteq> []))
     \<and> (rewrites_wire mm = {} \<or> (\<exists>r. ru = Some r \<and> rewrites_wire mm \<subseteq> set (ru_hooks r)))"
proof -
  define hooks where "hooks = (case mm of None \<Rightarrow> [] | Some r \<Rightarrow> wire_hooks r)"
  have h: "rewrites_wire mm = set hooks"
    by (auto simp: hooks_def rewrites_wire_def wire_hooks_def split: option.splits)
  have r: "d_tier (ruled ru hooks) = TierGeneric \<longleftrightarrow> (\<exists>r. ru = Some r \<and> set hooks \<subseteq> set (ru_hooks r))" for ru
    by (auto simp: ruled_def Let_def filter_empty_conv split: option.splits)
  show ?thesis
    unfolding classify_def h hooks_def [symmetric] Let_def
    by (cases "mm_excluded mm"; cases ru; cases "hooks = []") (auto simp: r)
qed

end
