(* ===== verification/Segments.thy ===== *)
theory Segments
  imports Prelude
begin

text \<open>
  What the generator reads off the path of a Discovery collection (internal/gen/build.go and
  internal/gen/collisions.go): the singular of a segment, the hierarchy a collection hangs off,
  the canonical form of its path, and which of two paths to one resource is kept.
\<close>

abbreviation to_lower :: "string \<Rightarrow> string" where
  "to_lower \<equiv> map to_lower_char"

definition drop_last :: "nat \<Rightarrow> string \<Rightarrow> string" where
  "drop_last n s = take (length s - n) s"

definition singular :: "string \<Rightarrow> string" where
  "singular s =
     (if has_suffix s ''ies'' then drop_last 3 s @ ''y''
      else if has_suffix s ''ses'' \<or> has_suffix s ''xes'' \<or> has_suffix s ''zes''
        \<or> has_suffix s ''ches'' \<or> has_suffix s ''shes'' then drop_last 2 s
      else if has_suffix s ''s'' then drop_last 1 s
      else s)"

fun hierarchy_root :: "string list \<Rightarrow> string" where
  "hierarchy_root [] = []"
| "hierarchy_root (s # _) =
     (if s \<in> {''projects'', ''organizations'', ''folders'', ''billingAccounts''} then s else [])"

fun scope_segment :: "string list \<Rightarrow> string" where
  "scope_segment [] = []"
| "scope_segment (s # _) =
     (if s = ''organizations'' then ''organization''
      else if s = ''folders'' then ''folder''
      else if s = ''billingAccounts'' then ''billingaccount''
      else [])"

definition rooted :: "string list \<Rightarrow> bool" where
  "rooted path \<longleftrightarrow> (case path of [] \<Rightarrow> False | s # _ \<Rightarrow> s = ''projects'')"

definition canonical_path :: "string list \<Rightarrow> string list" where
  "canonical_path path =
     (case (if rooted path then tl path else path) of
        [] \<Rightarrow> []
      | s # rest \<Rightarrow> (if s = ''zones'' \<or> s = ''regions'' then ''locations'' else s) # rest)"

definition axis_word :: "string list \<Rightarrow> string" where
  "axis_word path =
     (if length path > 2 \<and> path ! 0 = ''projects'' then path ! 1
      else if length path > 1 \<and> path ! 0 \<noteq> ''projects'' then path ! 0
      else [])"

definition dotted :: "string list \<Rightarrow> string" where
  "dotted path = join_with ''.'' path"

definition mm_puts_in :: "string \<Rightarrow> string \<Rightarrow> bool" where
  "mm_puts_in mm_base axis \<longleftrightarrow> axis \<noteq> [] \<and> str_contains mm_base (''/'' @ axis @ ''/'')"

definition preferred :: "string list \<Rightarrow> string list \<Rightarrow> string \<Rightarrow> bool" where
  "preferred a b mm_base =
     (if rooted a \<noteq> rooted b then rooted a
      else let aa = axis_word a; ba = axis_word b in
        if aa \<noteq> ba \<and> aa = ''locations'' then True
        else if aa \<noteq> ba \<and> ba = ''locations'' then False
        else if mm_base \<noteq> [] \<and> mm_puts_in mm_base aa \<noteq> mm_puts_in mm_base ba then mm_puts_in mm_base aa
        else dotted a \<le> dotted b)"

text \<open>The segments that say where a resource lives and not what it is.\<close>

definition place_words :: "string list" where
  "place_words = [''projects'', ''organizations'', ''folders'', ''billingAccounts'', ''locations'', ''zones'', ''regions'']"

text \<open>
  A walk leftward over a path: what is left of it is its first \<open>n\<close> segments. A step gives the
  next segment that is not a place, and what is left after it.
\<close>

fun walk_on :: "string list \<Rightarrow> nat \<Rightarrow> string option \<times> nat" where
  "walk_on path 0 = (None, 0)"
| "walk_on path (Suc n) =
     (if path ! n \<in> set place_words then walk_on path n
      else (Some (to_lower (singular (path ! n))), n))"

definition walk_start :: "string list \<Rightarrow> nat" where
  "walk_start path = length path - 1"

text \<open>A collection is scoped exactly when it hangs off a known root other than a project.\<close>

lemma scope_of_root:
  "scope_segment path \<noteq> [] \<longleftrightarrow> hierarchy_root path \<noteq> [] \<and> hierarchy_root path \<noteq> ''projects''"
  by (cases path) auto

section \<open>The walk\<close>

text \<open>The segments a walk has still to give, in the order of the path.\<close>

definition tells_apart :: "string list \<Rightarrow> string list" where
  "tells_apart path = map (\<lambda>s. to_lower (singular s)) (filter (\<lambda>s. s \<notin> set place_words) path)"

lemma tells_apart_take:
  "n < length path \<Longrightarrow> tells_apart (take (Suc n) path)
     = tells_apart (take n path) @ (if path ! n \<in> set place_words then [] else [to_lower (singular (path ! n))])"
  by (simp add: tells_apart_def take_Suc_conv_app_nth)

lemma walk_on_gives:
  "n \<le> length path \<Longrightarrow> walk_on path n = (seg, n') \<Longrightarrow> n' \<le> n
     \<and> tells_apart (take n path) = tells_apart (take n' path) @ (case seg of None \<Rightarrow> [] | Some s \<Rightarrow> [s])
     \<and> (seg = None \<longrightarrow> n' = 0) \<and> (seg \<noteq> None \<longrightarrow> n' < n)"
proof (induction path n rule: walk_on.induct)
  case (2 path n)
  then show ?case by (cases "path ! n \<in> set place_words") (auto simp: tells_apart_take)
qed (simp add: tells_apart_def)

section \<open>Which path is kept\<close>

text \<open>Of two different spellings, at least one is kept.\<close>

lemma preferred_total: "preferred a b mm_base \<or> preferred b a mm_base"
  by (auto simp: preferred_def Let_def)

end
