(* ===== verification/Collisions.thy ===== *)
theory Collisions
  imports Naming Tiering Segments "HOL-Library.Sublist"
begin

text \<open>
  Collections of one service that want the same resource name (internal/gen/collisions.go,
  \<open>resolveWithinServiceCollisions\<close>). The slice \<open>shipping\<close> is a list, changed in place by index; a
  pointer into it is an index. Go's map of groups with the slice of their keys in the order
  first seen is an association list in that order. A round of the path walk visits its
  collections in the order of the survivors: each changes only its own entry, so the order in
  which Go ranges over the round's map makes no difference.
\<close>

record pending =
  pe_doc :: document
  pe_col :: collection
  pe_mm :: "mm_resource option"
  pe_cand :: candidate
  pe_dec :: decision
  pe_raw :: string

record alias_loser =
  al_service :: string
  al_raw :: string
  al_winner :: nat

abbreviation pe_service :: "pending \<Rightarrow> string" where
  "pe_service p \<equiv> doc_name (pe_doc p)"

abbreviation path_at :: "pending list \<Rightarrow> nat \<Rightarrow> string list" where
  "path_at ps i \<equiv> co_path (pe_col (ps ! i))"

abbreviation resource_at :: "pending list \<Rightarrow> nat \<Rightarrow> string" where
  "resource_at ps i \<equiv> ca_resource (pe_cand (ps ! i))"

definition with_resource :: "string \<Rightarrow> bool \<Rightarrow> pending \<Rightarrow> pending" where
  "with_resource r q p = p\<lparr>pe_cand := (pe_cand p)\<lparr>ca_resource := r, ca_qualified := q\<rparr>\<rparr>"

text \<open>Groups of indices by a key, in the order the keys are first seen.\<close>

fun add_to_group :: "string \<Rightarrow> nat \<Rightarrow> (string \<times> nat list) list \<Rightarrow> (string \<times> nat list) list" where
  "add_to_group k i [] = [(k, [i])]"
| "add_to_group k i ((k', is) # gs) =
     (if k' = k then (k', is @ [i]) # gs else (k', is) # add_to_group k i gs)"

definition grouped :: "(nat \<Rightarrow> string) \<Rightarrow> nat list \<Rightarrow> (string \<times> nat list) list" where
  "grouped key is = foldl (\<lambda>gs i. add_to_group (key i) i gs) [] is"

section \<open>Apart by their magic-modules names\<close>

fun apart_by_names :: "pending list \<Rightarrow> nat list \<Rightarrow> string list \<Rightarrow> bool \<Rightarrow> bool" where
  "apart_by_names ps [] seen plain = plain"
| "apart_by_names ps (i # is) seen plain = (case pe_mm (ps ! i) of
      None \<Rightarrow> False
    | Some mm \<Rightarrow> (let n = to_lower (mm_name mm) in
        if n \<in> set seen then False
        else apart_by_names ps is (n # seen) (plain \<or> n = resource_at ps i)))"

definition take_mm_name :: "pending \<Rightarrow> pending" where
  "take_mm_name p = (case pe_mm p of
      None \<Rightarrow> p
    | Some mm \<Rightarrow> p\<lparr>pe_cand := (pe_cand p)\<lparr>ca_resource := to_lower (mm_name mm)\<rparr>\<rparr>)"

definition named_apart :: "pending list \<Rightarrow> nat list \<Rightarrow> pending list option" where
  "named_apart ps is =
     (if apart_by_names ps is [] False then Some (foldl (\<lambda>ps i. ps[i := take_mm_name (ps ! i)]) ps is)
      else None)"

section \<open>Apart by their paths\<close>

definition colliding :: "pending list \<Rightarrow> nat list \<Rightarrow> nat list" where
  "colliding ps survivors =
     filter (\<lambda>i. length (filter (\<lambda>j. resource_at ps j = resource_at ps i) survivors) > 1) survivors"

text \<open>One round: each colliding entry walks one segment, if it has one left.\<close>

fun advance ::
  "pending list \<Rightarrow> (nat \<Rightarrow> nat) \<Rightarrow> nat list \<Rightarrow> bool \<Rightarrow> pending list \<times> (nat \<Rightarrow> nat) \<times> bool" where
  "advance ps left [] progressed = (ps, left, progressed)"
| "advance ps left (i # is) progressed = (case walk_on (path_at ps i) (left i) of
      (None, n) \<Rightarrow> advance ps (left(i := n)) is progressed
    | (Some seg, n) \<Rightarrow>
        advance (ps[i := with_resource (seg @ ''.'' @ resource_at ps i) True (ps ! i)]) (left(i := n)) is True)"

lemma walk_on_less: "walk_on path n = (Some s, m) \<Longrightarrow> m < n"
  by (induction path n rule: walk_on.induct) (auto split: if_splits)

lemma walk_on_le: "walk_on path n = (s, m) \<Longrightarrow> m \<le> n"
  by (induction path n rule: walk_on.induct) (auto split: if_splits)

lemma walk_on_None: "walk_on path n = (None, m) \<Longrightarrow> m = 0"
  by (induction path n rule: walk_on.induct) (auto split: if_splits)

lemma advance_left:
  "advance ps left is b = (ps', left', b') \<Longrightarrow> left' j \<le> left j \<and> (b' \<longrightarrow> b \<or> (\<exists>i \<in> set is. left' i < left i))"
proof (induction ps left "is" b arbitrary: j ps' left' b' rule: advance.induct)
  case (2 ps left i "is" b)
  show ?case
  proof (cases "walk_on (path_at ps i) (left i)")
    case (Pair s n)
    show ?thesis
    proof (cases s)
      case None
      then have r: "advance ps (left(i := n)) is b = (ps', left', b')" using 2(3) Pair by simp
      note le = walk_on_le [OF Pair]
      have "left' k \<le> (left(i := n)) k" for k using 2(1) [OF Pair [symmetric] None r] by blast
      then have all: "left' k \<le> left k" for k using le by (metis fun_upd_other fun_upd_same le_trans)
      have "b' \<longrightarrow> b \<or> (\<exists>k \<in> set is. left' k < (left(i := n)) k)" using 2(1) [OF Pair [symmetric] None r] by blast
      then have "b' \<longrightarrow> b \<or> (\<exists>k \<in> set (i # is). left' k < left k)"
        using le by (metis fun_upd_other fun_upd_same less_le_trans list.set_intros(2))
      then show ?thesis using all by blast
    next
      case (Some seg)
      then have r: "advance (ps[i := with_resource (seg @ ''.'' @ resource_at ps i) True (ps ! i)]) (left(i := n)) is True = (ps', left', b')"
        using 2(3) Pair by simp
      have l: "left' k \<le> (left(i := n)) k" for k using 2(2) [OF Pair [symmetric] Some r] by blast
      have lt: "n < left i" using walk_on_less Pair Some by blast
      then have "left' i < left i" using l [of i] by simp
      moreover have "left' k \<le> left k" for k using l [of k] lt by (cases "k = i") auto
      ultimately show ?thesis by auto
    qed
  qed
qed simp

lemma advance_sum:
  assumes "advance ps left (colliding ps survivors) False = (ps', left', True)"
  shows "sum left' (set survivors) < sum left (set survivors)"
proof (rule sum_strict_mono_ex1)
  show "\<forall>j \<in> set survivors. left' j \<le> left j" using advance_left [OF assms] by blast
  obtain i where "i \<in> set (colliding ps survivors)" "left' i < left i" using advance_left [OF assms] by auto
  then show "\<exists>j \<in> set survivors. left' j < left j" by (auto simp: colliding_def)
qed simp

function disambiguate ::
  "pending list \<Rightarrow> (nat \<Rightarrow> nat) \<Rightarrow> nat list \<Rightarrow> pending list \<times> (nat \<Rightarrow> nat)" where
  "disambiguate ps left survivors =
     (if colliding ps survivors = [] then (ps, left)
      else case advance ps left (colliding ps survivors) False of (ps', left', progressed) \<Rightarrow>
        if progressed then disambiguate ps' left' survivors else (ps', left'))"
  by pat_completeness auto

termination
proof (relation "measure (\<lambda>(ps, left, survivors). sum left (set survivors))", simp, goal_cases)
  case (1 ps left survivors ps' y left' progressed)
  then have "advance ps left (colliding ps survivors) False = (ps', left', True)" by metis
  then show ?case by (simp only: in_measure split_conv advance_sum)
qed

definition disambiguate_by_path :: "pending list \<Rightarrow> nat list \<Rightarrow> pending list" where
  "disambiguate_by_path ps survivors = fst (disambiguate ps (\<lambda>i. walk_start (path_at ps i)) survivors)"

declare disambiguate.simps [simp del]

section \<open>The groups\<close>

definition mm_base_of :: "pending \<Rightarrow> string" where
  "mm_base_of p = (case pe_mm p of None \<Rightarrow> [] | Some mm \<Rightarrow> mm_base_url mm)"

definition winner_of :: "pending list \<Rightarrow> nat list \<Rightarrow> nat" where
  "winner_of ps members =
     foldl (\<lambda>w i. if preferred (path_at ps i) (path_at ps w) (mm_base_of (ps ! w)) then i else w)
       (hd members) (tl members)"

definition losers_of :: "pending list \<Rightarrow> nat list \<Rightarrow> nat list" where
  "losers_of ps members = filter (\<lambda>i. i \<noteq> winner_of ps members) members"

definition cluster_losers :: "pending list \<Rightarrow> nat list \<Rightarrow> (nat \<times> alias_loser) list" where
  "cluster_losers ps members = map (\<lambda>i. (i, \<lparr>al_service = pe_service (ps ! i), al_raw = pe_raw (ps ! i),
     al_winner = winner_of ps members\<rparr>)) (losers_of ps members)"

text \<open>One group: what the entries become, and the entries dropped with what is said of each.\<close>

definition resolve_group :: "pending list \<Rightarrow> nat list \<Rightarrow> pending list \<times> (nat \<times> alias_loser) list" where
  "resolve_group ps is =
     (if length is < 2 then (ps, [])
      else case named_apart ps is of
        Some ps' \<Rightarrow> (ps', [])
      | None \<Rightarrow>
          (let clusters = map snd (grouped (\<lambda>i. dotted (canonical_path (path_at ps i))) is);
               survivors = map (winner_of ps) clusters
           in (if length survivors > 1 then disambiguate_by_path ps survivors else ps,
               concat (map (cluster_losers ps) clusters))))"

fun resolve_groups ::
  "pending list \<Rightarrow> (nat \<times> alias_loser) list \<Rightarrow> nat list list \<Rightarrow> pending list \<times> (nat \<times> alias_loser) list" where
  "resolve_groups ps dropped [] = (ps, dropped)"
| "resolve_groups ps dropped (is # iss) =
     (case resolve_group ps is of (ps', ls) \<Rightarrow> resolve_groups ps' (dropped @ ls) iss)"

definition wanted_name :: "pending list \<Rightarrow> nat \<Rightarrow> string" where
  "wanted_name ps i = pe_service (ps ! i) @ ''/'' @ resource_at ps i"

definition unscoped :: "pending list \<Rightarrow> nat list" where
  "unscoped ps = filter (\<lambda>i. ca_scope (pe_cand (ps ! i)) = []) [0..<length ps]"

definition resolve_collisions :: "pending list \<Rightarrow> pending list \<times> (nat \<times> alias_loser) list" where
  "resolve_collisions ps = resolve_groups ps [] (map snd (grouped (wanted_name ps) (unscoped ps)))"

text \<open>What ships, and what was dropped with the entry that stands for it.\<close>

definition kept :: "pending list \<Rightarrow> (nat \<times> alias_loser) list \<Rightarrow> pending list" where
  "kept ps dropped = map ((!) ps) (filter (\<lambda>i. i \<notin> fst ` set dropped) [0..<length ps])"

definition resolve_within_service_collisions :: "pending list \<Rightarrow> pending list \<times> (alias_loser \<times> pending) list" where
  "resolve_within_service_collisions ps =
     (case resolve_collisions ps of (ps', dropped) \<Rightarrow>
        (kept ps' dropped, map (\<lambda>(_, l). (l, ps' ! al_winner l)) dropped))"

section \<open>Walking apart\<close>

definition extended :: "pending \<Rightarrow> string list \<Rightarrow> pending" where
  "extended p given = (if given = [] then p
     else with_resource (dotted (given @ [ca_resource (pe_cand p)])) True p)"

lemma with_resource_keeps [simp]:
  "pe_doc (with_resource r q p) = pe_doc p" "pe_col (with_resource r q p) = pe_col p"
  "pe_mm (with_resource r q p) = pe_mm p" "pe_raw (with_resource r q p) = pe_raw p"
  "pe_dec (with_resource r q p) = pe_dec p" "ca_scope (pe_cand (with_resource r q p)) = ca_scope (pe_cand p)"
  "ca_resource (pe_cand (with_resource r q p)) = r" "ca_qualified (pe_cand (with_resource r q p)) = q"
  "with_resource r q (with_resource r' q' p) = with_resource r q p"
  by (simp_all add: with_resource_def)

lemma extended_keeps [simp]: "pe_col (extended p given) = pe_col p"
  by (simp add: extended_def)

lemma extended_step:
  "with_resource (seg @ ''.'' @ ca_resource (pe_cand (extended p given))) True (extended p given) = extended p (seg # given)"
  by (cases given) (auto simp: extended_def dotted_def)

text \<open>
  Where a walk stands: each survivor's resource is its old one behind the segments its walk gave,
  and the walk has the others left. The rest of the entries are as they were.
\<close>

definition walked :: "pending list \<Rightarrow> nat set \<Rightarrow> pending list \<Rightarrow> (nat \<Rightarrow> nat) \<Rightarrow> bool" where
  "walked ps0 S ps left \<longleftrightarrow> length ps = length ps0
     \<and> (\<forall>i < length ps0. i \<notin> S \<longrightarrow> ps ! i = ps0 ! i)
     \<and> (\<forall>i < length ps0. left i \<le> walk_start (path_at ps0 i) \<and> (\<exists>given. ps ! i = extended (ps0 ! i) given
          \<and> tells_apart (butlast (path_at ps0 i)) = tells_apart (take (left i) (path_at ps0 i)) @ given))"

lemma walked_start: "walked ps S ps (\<lambda>i. walk_start (path_at ps i))"
proof -
  have "ps ! i = extended (ps ! i) []" for i by (simp add: extended_def)
  then show ?thesis by (auto simp: walked_def walk_start_def butlast_conv_take intro!: exI [of _ "[]"])
qed

lemma walked_step:
  assumes w: "walked ps0 S ps left" and i: "i \<in> S" "i < length ps0"
    and step: "walk_on (path_at ps i) (left i) = (seg, n)"
  shows "walked ps0 S (case seg of None \<Rightarrow> ps
      | Some s \<Rightarrow> ps[i := with_resource (s @ ''.'' @ resource_at ps i) True (ps ! i)]) (left(i := n))"
proof -
  from w i(2) obtain given where g: "ps ! i = extended (ps0 ! i) given"
      "tells_apart (butlast (path_at ps0 i)) = tells_apart (take (left i) (path_at ps0 i)) @ given"
      and le: "left i \<le> walk_start (path_at ps0 i)" and len: "length ps = length ps0"
    by (auto simp: walked_def)
  have "left i \<le> length (path_at ps0 i)" using le by (simp add: walk_start_def)
  from walk_on_gives [OF this] step g(1) have n: "n \<le> left i"
      "tells_apart (take (left i) (path_at ps0 i)) = tells_apart (take n (path_at ps0 i)) @ (case seg of None \<Rightarrow> [] | Some s \<Rightarrow> [s])"
    by auto
  define given' where "given' = (case seg of None \<Rightarrow> [] | Some s \<Rightarrow> [s]) @ given"
  let ?ps = "case seg of None \<Rightarrow> ps
      | Some s \<Rightarrow> ps[i := with_resource (s @ ''.'' @ resource_at ps i) True (ps ! i)]"
  have at: "?ps ! i = extended (ps0 ! i) given'"
    using g(1) i(2) len extended_step [of _ "ps0 ! i" given] by (auto simp: given'_def split: option.split)
  obtain ps1 where ps1: "ps1 = ?ps" by blast
  have other: "ps1 ! j = ps ! j" if "j \<noteq> i" for j using that by (auto simp: ps1 split: option.split)
  have "tells_apart (butlast (path_at ps0 i)) = tells_apart (take n (path_at ps0 i)) @ given'"
    using g(2) n(2) by (simp add: given'_def)
  then have here: "\<exists>given. ps1 ! i = extended (ps0 ! i) given
      \<and> tells_apart (butlast (path_at ps0 i)) = tells_apart (take n (path_at ps0 i)) @ given"
    using at ps1 by blast
  have "length ps1 = length ps0" using len by (auto simp: ps1 split: option.split)
  moreover have "\<forall>j < length ps0. j \<notin> S \<longrightarrow> ps1 ! j = ps0 ! j"
    using w other i(1) by (metis walked_def)
  moreover have "(left(i := n)) j \<le> walk_start (path_at ps0 j) \<and> (\<exists>given. ps1 ! j = extended (ps0 ! j) given
      \<and> tells_apart (butlast (path_at ps0 j)) = tells_apart (take ((left(i := n)) j) (path_at ps0 j)) @ given)"
    if "j < length ps0" for j
  proof (cases "j = i")
    case True
    then show ?thesis using here n(1) le by simp
  next
    case False
    then show ?thesis using w that other [OF False] by (simp add: walked_def)
  qed
  ultimately show ?thesis unfolding walked_def ps1 [symmetric] by blast
qed

lemma advance_walked:
  "advance ps left is b = (ps', left', b') \<Longrightarrow> walked ps0 S ps left \<Longrightarrow> set is \<subseteq> S \<Longrightarrow> S \<subseteq> {..<length ps0} \<Longrightarrow>
     walked ps0 S ps' left'"
proof (induction ps left "is" b arbitrary: ps' left' b' rule: advance.induct)
  case (2 ps left i "is" b)
  obtain seg n where step: "walk_on (path_at ps i) (left i) = (seg, n)" by fastforce
  have w: "walked ps0 S (case seg of None \<Rightarrow> ps
      | Some s \<Rightarrow> ps[i := with_resource (s @ ''.'' @ resource_at ps i) True (ps ! i)]) (left(i := n))"
    by (rule walked_step) (use 2(4-6) step in auto)
  show ?case
  proof (cases seg)
    case None
    have r: "advance ps (left(i := n)) is b = (ps', left', b')" using 2(3) step None by simp
    show ?thesis by (rule 2(1) [OF step [symmetric] None r]) (use 2(5,6) w None in \<open>simp_all add: fun_upd_def\<close>)
  next
    case (Some s)
    have r: "advance (ps[i := with_resource (s @ ''.'' @ resource_at ps i) True (ps ! i)]) (left(i := n)) is True
        = (ps', left', b')" using 2(3) step Some by simp
    show ?thesis by (rule 2(2) [OF step [symmetric] Some r]) (use 2(5,6) w Some in \<open>simp_all add: fun_upd_def\<close>)
  qed
qed simp

lemma advance_stuck:
  "advance ps left is b = (ps', left', False) \<Longrightarrow> \<not> b \<and> ps' = ps \<and> (\<forall>i. left' i \<le> left i) \<and> (\<forall>i \<in> set is. left' i = 0)"
proof (induction ps left "is" b arbitrary: ps' left' rule: advance.induct)
  case (2 ps left i "is" b)
  obtain seg n where step: "walk_on (path_at ps i) (left i) = (seg, n)" by fastforce
  show ?case
  proof (cases seg)
    case None
    have r: "advance ps (left(i := n)) is b = (ps', left', False)" using 2(3) step None by simp
    have n: "n = 0" using step None walk_on_None by blast
    have le: "left' k \<le> (left(i := n)) k" for k using 2(1) [OF step [symmetric] None r] by blast
    then have "left' i = 0" using n le [of i] by simp
    moreover have "left' k \<le> left k" for k using le [of k] n by (cases "k = i") auto
    ultimately show ?thesis using 2(1) [OF step [symmetric] None r] by auto
  next
    case (Some s)
    then have "advance (ps[i := with_resource (s @ ''.'' @ resource_at ps i) True (ps ! i)]) (left(i := n)) is True = (ps', left', False)"
      using 2(3) step by simp
    from 2(2) [OF step [symmetric] Some this] show ?thesis by simp
  qed
qed simp

lemma colliding_iff:
  assumes "distinct S" "i \<in> set S"
  shows "i \<in> set (colliding ps S) \<longleftrightarrow> (\<exists>j \<in> set S. j \<noteq> i \<and> resource_at ps j = resource_at ps i)"
proof -
  let ?A = "{j \<in> set S. resource_at ps j = resource_at ps i}"
  have "length (filter (\<lambda>j. resource_at ps j = resource_at ps i) S) = card ?A"
    using distinct_card [of "filter (\<lambda>j. resource_at ps j = resource_at ps i) S"] assms(1) by simp
  moreover have "card ?A > 1 \<longleftrightarrow> (\<exists>j \<in> ?A. j \<noteq> i)"
  proof -
    have "card ?A = Suc (card (?A - {i}))" using assms(2) by (subst card.remove [of _ i]) auto
    then have "card ?A > 1 \<longleftrightarrow> card (?A - {i}) > 0" by simp
    also have "\<dots> \<longleftrightarrow> ?A - {i} \<noteq> {}" by (subst card_gt_0_iff) simp
    finally show ?thesis by blast
  qed
  ultimately have "i \<in> set (colliding ps S) \<longleftrightarrow> (\<exists>j \<in> ?A. j \<noteq> i)"
    unfolding colliding_def using assms(2) by simp
  then show ?thesis by blast
qed

lemma disambiguate_walked:
  "disambiguate ps left S = (ps', left') \<Longrightarrow> walked ps0 (set S) ps left \<Longrightarrow> set S \<subseteq> {..<length ps0} \<Longrightarrow>
     walked ps0 (set S) ps' left' \<and> (\<forall>i \<in> set (colliding ps' S). left' i = 0)"
proof (induction ps left S arbitrary: ps' left' rule: disambiguate.induct)
  case (1 ps left S)
  show ?case
  proof (cases "colliding ps S = []")
    case True
    then show ?thesis using 1(2,3) by (simp add: disambiguate.simps [of ps])
  next
    case False
    obtain ps1 left1 b where a: "advance ps left (colliding ps S) False = (ps1, left1, b)" using prod_cases3 by blast
    have w: "walked ps0 (set S) ps1 left1"
      using advance_walked [OF a 1(3) _ 1(4)] by (auto simp: colliding_def)
    show ?thesis
    proof (cases b)
      case True
      then have "disambiguate ps1 left1 S = (ps', left')"
        using 1(2) a \<open>colliding ps S \<noteq> []\<close> by (simp add: disambiguate.simps [of ps])
      from 1(1) [OF \<open>colliding ps S \<noteq> []\<close> a [symmetric] refl True this w 1(4)] show ?thesis .
    next
      case False
      then have "ps' = ps1" "left' = left1"
        using 1(2) a \<open>colliding ps S \<noteq> []\<close> by (simp_all add: disambiguate.simps [of ps])
      then show ?thesis using w advance_stuck [of ps left "colliding ps S" False ps1 left1] a False by auto
    qed
  qed
qed

text \<open>
  C38. Walking names apart comes to an end, leaves every other entry alone, and each survivor ends
  under its old name behind the last of the segments that tell it apart, none skipped. Two that
  still share a name have both been walked to the very start of their paths.
\<close>

theorem walked_apart:
  assumes "distinct S" "set S \<subseteq> {..<length ps}"
  shows "\<exists>given. disambiguate_by_path ps S
        = map (\<lambda>i. if i \<in> set S then extended (ps ! i) (given i) else ps ! i) [0..<length ps]
    \<and> (\<forall>i \<in> set S. suffix (given i) (tells_apart (butlast (path_at ps i))))
    \<and> (\<forall>i \<in> set S. \<forall>j \<in> set S. i \<noteq> j \<longrightarrow>
        resource_at (disambiguate_by_path ps S) i = resource_at (disambiguate_by_path ps S) j \<longrightarrow>
        given i = tells_apart (butlast (path_at ps i)) \<and> given j = tells_apart (butlast (path_at ps j)))"
proof -
  obtain ps' left' where d: "disambiguate ps (\<lambda>i. walk_start (path_at ps i)) S = (ps', left')" by fastforce
  then have ps': "disambiguate_by_path ps S = ps'" by (simp add: disambiguate_by_path_def)
  from disambiguate_walked [OF d walked_start assms(2)]
  have w: "walked ps (set S) ps' left'" and e: "\<forall>i \<in> set (colliding ps' S). left' i = 0" by auto
  from w obtain given where g: "\<forall>i < length ps. ps' ! i = extended (ps ! i) (given i)
      \<and> tells_apart (butlast (path_at ps i)) = tells_apart (take (left' i) (path_at ps i)) @ given i"
    unfolding walked_def by metis
  have exact: "ps' = map (\<lambda>i. if i \<in> set S then extended (ps ! i) (given i) else ps ! i) [0..<length ps]"
    by (rule nth_equalityI) (use w g in \<open>auto simp: walked_def\<close>)
  have all: "given i = tells_apart (butlast (path_at ps i))"
    if "i \<in> set S" "j \<in> set S" "i \<noteq> j" "resource_at ps' j = resource_at ps' i" for i j
  proof -
    have "left' i = 0" using e colliding_iff [OF assms(1) that(1), of ps'] that by auto
    then show ?thesis using g that(1) assms(2) by (auto simp: tells_apart_def)
  qed
  have suf: "suffix (given i) (tells_apart (butlast (path_at ps i)))" if "i \<in> set S" for i
    using g that assms(2) by (auto simp: suffix_def)
  show ?thesis unfolding ps'
  proof (intro exI [of _ given] conjI ballI impI)
    fix i j assume *: "i \<in> set S" "j \<in> set S" "i \<noteq> j" "resource_at ps' i = resource_at ps' j"
    show "given i = tells_apart (butlast (path_at ps i))" by (rule all [of i j]) (use * in simp_all)
    show "given j = tells_apart (butlast (path_at ps j))" by (rule all [of j i]) (use * in simp_all)
  qed (rule exact, rule suf)
qed

definition named_document :: "string \<Rightarrow> document" where
  "named_document service = \<lparr>doc_name = service, doc_root_url = [], doc_service_path = [], doc_schemas = [],
     doc_resources = [], doc_endpoints = []\<rparr>"

definition sample_pending :: "string \<Rightarrow> string list \<Rightarrow> string \<Rightarrow> pending" where
  "sample_pending service path resource =
     \<lparr>pe_doc = named_document service, pe_col = \<lparr>co_path = path, co_methods = []\<rparr>, pe_mm = None,
      pe_cand = \<lparr>ca_service = service, ca_resource = resource, ca_scope = [], ca_qualified = False\<rparr>,
      pe_dec = \<lparr>d_tier = TierGeneric, d_reason = ''generic-safe''\<rparr>, pe_raw = last path\<rparr>"

definition key_collections :: "pending list" where
  "key_collections =
     [sample_pending ''iam'' [''projects'', ''serviceAccounts'', ''keys''] ''key'',
      sample_pending ''iam'' [''projects'', ''locations'', ''workloadIdentityPools'', ''providers'', ''keys''] ''key'']"

theorem walked_apart_witness:
  "\<exists>given. disambiguate_by_path key_collections [0, 1]
      = [extended (key_collections ! 0) (given 0), extended (key_collections ! 1) (given (1::nat))]
    \<and> suffix (given 0) [''serviceaccount''] \<and> suffix (given 1) [''workloadidentitypool'', ''provider'']"
proof -
  have len: "length key_collections = 2" by (simp add: key_collections_def)
  have t: "tells_apart (butlast (path_at key_collections 0)) = [''serviceaccount'']"
      "tells_apart (butlast (path_at key_collections 1)) = [''workloadidentitypool'', ''provider'']"
    by code_simp+
  have "distinct [0, 1::nat]" "set [0, 1] \<subseteq> {..<length key_collections}" by (simp_all add: len)
  from walked_apart [OF this] obtain given where
      g: "disambiguate_by_path key_collections [0, 1]
        = map (\<lambda>i. if i \<in> set [0, 1] then extended (key_collections ! i) (given i) else key_collections ! i) [0..<2]"
        "\<forall>i \<in> set [0, 1]. suffix (given i) (tells_apart (butlast (path_at key_collections i)))"
    unfolding len by blast
  have "[0..<2] = [0, 1::nat]" by (simp add: upt_conv_Cons)
  then show ?thesis using g t by (intro exI [of _ given]) simp
qed

section \<open>Nothing is lost\<close>

lemma add_to_group_map:
  "distinct ks \<Longrightarrow> add_to_group k i (map (\<lambda>k'. (k', f k')) ks)
     = (if k \<in> set ks then map (\<lambda>k'. (k', if k' = k then f k' @ [i] else f k')) ks
        else map (\<lambda>k'. (k', f k')) ks @ [(k, [i])])"
  by (induction ks) auto

text \<open>Grouping by a loop is sorting the list into the classes of its keys.\<close>

lemma grouped_classes: "grouped key is = map (\<lambda>k. (k, filter (\<lambda>i. key i = k) is)) (firsts [] (map key is))"
proof (induction "is" rule: rev_induct)
  case (snoc i "is")
  have "grouped key (is @ [i]) = add_to_group (key i) i (grouped key is)" by (simp add: grouped_def)
  then show ?case
    unfolding snoc by (auto simp: add_to_group_map firsts_distinct firsts_snoc firsts_set filter_empty_conv image_iff)
qed (simp add: grouped_def)

lemma groups_disjoint:
  "mset (concat (map snd (grouped key is))) = mset is"
  "ms \<in> set (map snd (grouped key is)) \<Longrightarrow> ms \<noteq> [] \<and> set ms \<subseteq> set is \<and> (\<forall>i \<in> set ms. \<forall>j \<in> set ms. key i = key j)"
proof -
  show "mset (concat (map snd (grouped key is))) = mset is"
    using mset_by_class [of "firsts [] (map key is)" key "is"] firsts_distinct [of "[]" "map key is"]
    by (simp add: grouped_classes firsts_set comp_def)
  assume "ms \<in> set (map snd (grouped key is))"
  then show "ms \<noteq> [] \<and> set ms \<subseteq> set is \<and> (\<forall>i \<in> set ms. \<forall>j \<in> set ms. key i = key j)"
    by (auto simp: grouped_classes firsts_set filter_empty_conv)
qed

lemma winner_mem: "ms \<noteq> [] \<Longrightarrow> winner_of ps ms \<in> set ms"
proof -
  have "foldl (\<lambda>w i. if preferred (path_at ps i) (path_at ps w) (mm_base_of (ps ! w)) then i else w) m ms
      \<in> insert m (set ms)" for m ms
    by (induction ms arbitrary: m) (auto split: if_splits)
  then show "ms \<noteq> [] \<Longrightarrow> winner_of ps ms \<in> set ms" by (cases ms) (auto simp: winner_of_def)
qed

text \<open>What no resolution changes of an entry.\<close>

definition same_entry :: "pending \<Rightarrow> pending \<Rightarrow> bool" where
  "same_entry p q \<longleftrightarrow> with_resource [] False p = with_resource [] False q"

lemma same_entry_keeps:
  assumes "same_entry p q"
  shows "pe_doc p = pe_doc q" "pe_col p = pe_col q" "pe_mm p = pe_mm q" "pe_raw p = pe_raw q"
    "pe_dec p = pe_dec q" "ca_scope (pe_cand p) = ca_scope (pe_cand q)"
proof -
  have e: "with_resource [] False p = with_resource [] False q" using assms by (simp add: same_entry_def)
  show "pe_doc p = pe_doc q" using arg_cong [OF e, of pe_doc] by simp
  show "pe_col p = pe_col q" using arg_cong [OF e, of pe_col] by simp
  show "pe_mm p = pe_mm q" using arg_cong [OF e, of pe_mm] by simp
  show "pe_raw p = pe_raw q" using arg_cong [OF e, of pe_raw] by simp
  show "pe_dec p = pe_dec q" using arg_cong [OF e, of pe_dec] by simp
  show "ca_scope (pe_cand p) = ca_scope (pe_cand q)" using arg_cong [OF e, of "\<lambda>p. ca_scope (pe_cand p)"] by simp
qed

lemma same_entry_refl [simp]: "same_entry p p"
  by (simp add: same_entry_def)

lemma same_entry_trans: "same_entry p q \<Longrightarrow> same_entry q r \<Longrightarrow> same_entry p r"
  by (simp add: same_entry_def)

lemma same_entry_changes [simp]: "same_entry (extended p given) p" "same_entry (take_mm_name p) p"
  by (auto simp: same_entry_def extended_def take_mm_name_def with_resource_def split: option.splits)

text \<open>A change of the entries of a group.\<close>

definition changed_in :: "nat set \<Rightarrow> pending list \<Rightarrow> pending list \<Rightarrow> bool" where
  "changed_in S ps ps' \<longleftrightarrow> length ps' = length ps \<and> (\<forall>i < length ps. same_entry (ps' ! i) (ps ! i))
     \<and> (\<forall>i < length ps. i \<notin> S \<longrightarrow> ps' ! i = ps ! i)"

lemma changed_in_trans: "changed_in S ps ps' \<Longrightarrow> changed_in T ps' ps'' \<Longrightarrow> changed_in (S \<union> T) ps ps''"
  unfolding changed_in_def by (auto intro: same_entry_trans)

lemma changed_in_mono: "changed_in S ps ps' \<Longrightarrow> S \<subseteq> T \<Longrightarrow> changed_in T ps ps'"
  unfolding changed_in_def by blast

lemma named_apart_changes: "named_apart ps is = Some ps' \<Longrightarrow> changed_in (set is) ps ps'"
proof -
  have step: "changed_in {i} ps (ps[i := take_mm_name (ps ! i)])" for ps i
    by (auto simp: changed_in_def) (metis nth_list_update_eq nth_list_update_neq same_entry_changes(2) same_entry_refl)
  have "changed_in (set is) ps (foldl (\<lambda>ps i. ps[i := take_mm_name (ps ! i)]) ps is)" for ps :: "pending list"
  proof (induction "is" arbitrary: ps)
    case (Cons i "is")
    show ?case using changed_in_trans [OF step [of i ps] Cons [of "ps[i := take_mm_name (ps ! i)]"]] by simp
  qed (simp add: changed_in_def)
  then show "named_apart ps is = Some ps' \<Longrightarrow> changed_in (set is) ps ps'"
    by (auto simp: named_apart_def split: if_splits)
qed

lemma disambiguate_changes: "distinct S \<Longrightarrow> set S \<subseteq> {..<length ps} \<Longrightarrow> changed_in (set S) ps (disambiguate_by_path ps S)"
proof -
  assume a: "distinct S" "set S \<subseteq> {..<length ps}"
  obtain ps' left' where d: "disambiguate ps (\<lambda>i. walk_start (path_at ps i)) S = (ps', left')" by fastforce
  from disambiguate_walked [OF d walked_start a(2)] have w: "walked ps (set S) ps' left'" by auto
  have "same_entry (ps' ! i) (ps ! i)" if i: "i < length ps" for i
  proof -
    obtain given where "ps' ! i = extended (ps ! i) given" using w i by (auto simp: walked_def)
    then show ?thesis by simp
  qed
  then show ?thesis using w d by (simp add: changed_in_def walked_def disambiguate_by_path_def)
qed

text \<open>What is said of an entry that is dropped.\<close>

definition stands_for :: "pending list \<Rightarrow> nat set \<Rightarrow> nat \<times> alias_loser \<Rightarrow> bool" where
  "stands_for ps S d \<longleftrightarrow> (case d of (i, l) \<Rightarrow> i \<in> S \<and> al_winner l \<in> S
     \<and> al_service l = pe_service (ps ! i) \<and> al_raw l = pe_raw (ps ! i)
     \<and> wanted_name ps i = wanted_name ps (al_winner l)
     \<and> dotted (canonical_path (path_at ps i)) = dotted (canonical_path (path_at ps (al_winner l))))"

lemma cluster_losers_ok:
  assumes "ms \<noteq> []" "\<forall>i \<in> set ms. \<forall>j \<in> set ms. dotted (canonical_path (path_at ps i)) = dotted (canonical_path (path_at ps j))"
    "\<forall>i \<in> set ms. \<forall>j \<in> set ms. wanted_name ps i = wanted_name ps j"
  shows "\<forall>d \<in> set (cluster_losers ps ms). stands_for ps (set ms) d \<and> al_winner (snd d) = winner_of ps ms"
proof
  fix d assume "d \<in> set (cluster_losers ps ms)"
  then obtain i where i: "i \<in> set ms" and d: "d = (i, \<lparr>al_service = pe_service (ps ! i), al_raw = pe_raw (ps ! i),
      al_winner = winner_of ps ms\<rparr>)"
    by (auto simp: cluster_losers_def losers_of_def)
  have w: "winner_of ps ms \<in> set ms" using winner_mem [OF assms(1)] .
  then have "dotted (canonical_path (path_at ps i)) = dotted (canonical_path (path_at ps (winner_of ps ms)))"
    "wanted_name ps i = wanted_name ps (winner_of ps ms)"
    using assms(2,3) i by blast+
  then show "stands_for ps (set ms) d \<and> al_winner (snd d) = winner_of ps ms"
    using i w by (simp add: d stands_for_def)
qed

lemma cluster_loser_ids: "map fst (cluster_losers ps ms) = filter (\<lambda>i. i \<noteq> winner_of ps ms) ms"
  by (simp add: cluster_losers_def losers_of_def comp_def)

lemma disjoint_choice:
  "distinct (concat mss) \<Longrightarrow> (\<And>ms. ms \<in> set mss \<Longrightarrow> w ms \<in> set ms) \<Longrightarrow>
     distinct (map w mss) \<and> set (map w mss) \<inter> set (concat (map (\<lambda>ms. filter (\<lambda>i. i \<noteq> w ms) ms) mss)) = {}"
proof (induction mss)
  case (Cons ms mss)
  then have i: "distinct (map w mss)"
      "set (map w mss) \<inter> set (concat (map (\<lambda>ms. filter (\<lambda>i. i \<noteq> w ms) ms) mss)) = {}" by auto
  obtain A B C where A: "A = set (map w mss)" and C: "C = set (concat mss)"
      and B: "B = set (concat (map (\<lambda>ms. filter (\<lambda>i. i \<noteq> w ms) ms) mss))" by blast
  have "A \<subseteq> C" using Cons.prems(2) by (fastforce simp: A C)
  moreover have "B \<subseteq> C" by (auto simp: B C)
  moreover have "A \<inter> B = {}" using i(2) by (simp only: A B)
  moreover have "w ms \<in> set ms" "set ms \<inter> C = {}" using Cons.prems by (auto simp: C)
  ultimately have "w ms \<notin> A" "insert (w ms) A \<inter> ({i \<in> set ms. i \<noteq> w ms} \<union> B) = {}" by blast+
  moreover have "set (map w (ms # mss)) = insert (w ms) A"
      "set (concat (map (\<lambda>ms. filter (\<lambda>i. i \<noteq> w ms) ms) (ms # mss))) = {i \<in> set ms. i \<noteq> w ms} \<union> B"
    by (auto simp: A B)
  ultimately show ?case using i(1) by (simp only: list.map distinct.simps A simp_thms)
qed simp

text \<open>
  One group: the entries outside it stay as they are, those dropped are distinct, and the entry
  that stands for one is never dropped itself.
\<close>

definition resolved_in :: "nat set \<Rightarrow> pending list \<Rightarrow> pending list \<times> (nat \<times> alias_loser) list \<Rightarrow> bool" where
  "resolved_in S ps r \<longleftrightarrow> (case r of (ps', ds) \<Rightarrow> changed_in S ps ps' \<and> distinct (map fst ds)
     \<and> (\<forall>d \<in> set ds. stands_for ps S d \<and> al_winner (snd d) \<notin> fst ` set ds))"

lemma resolve_group_ok:
  assumes "distinct is" "set is \<subseteq> {..<length ps}" "\<forall>i \<in> set is. \<forall>j \<in> set is. wanted_name ps i = wanted_name ps j"
  shows "resolved_in (set is) ps (resolve_group ps is)"
proof (cases "length is < 2")
  case True
  then show ?thesis by (simp add: resolve_group_def resolved_in_def changed_in_def)
next
  case False
  define clusters where "clusters = map snd (grouped (\<lambda>i. dotted (canonical_path (path_at ps i))) is)"
  have m: "mset (concat clusters) = mset is" unfolding clusters_def by (rule groups_disjoint(1))
  then have dis: "distinct (concat clusters)" using assms(1) by (metis mset_eq_imp_distinct_iff)
  have cl: "ms \<noteq> []" "set ms \<subseteq> set is"
    "\<forall>i \<in> set ms. \<forall>j \<in> set ms. dotted (canonical_path (path_at ps i)) = dotted (canonical_path (path_at ps j))"
    if "ms \<in> set clusters" for ms
    using groups_disjoint(2) that unfolding clusters_def by blast+
  have w: "winner_of ps ms \<in> set ms" if "ms \<in> set clusters" for ms using winner_mem cl(1) [OF that] .
  define ds where "ds = concat (map (cluster_losers ps) clusters)"
  have ids: "map fst ds = concat (map (\<lambda>ms. filter (\<lambda>i. i \<noteq> winner_of ps ms) ms) clusters)"
    by (simp add: ds_def map_concat comp_def cluster_loser_ids)
  note choice = disjoint_choice [OF dis, of "winner_of ps", OF w]
  have "distinct (concat (map (\<lambda>ms. filter (\<lambda>i. i \<noteq> winner_of ps ms) ms) clusters))"
    using dis by (induction clusters) auto
  then have "distinct (map fst ds)" by (simp only: ids)
  moreover have "stands_for ps (set is) d \<and> al_winner (snd d) \<notin> fst ` set ds" if "d \<in> set ds" for d
  proof -
    obtain ms where ms: "ms \<in> set clusters" "d \<in> set (cluster_losers ps ms)" using \<open>d \<in> set ds\<close> by (auto simp: ds_def)
    then have d: "stands_for ps (set ms) d" "al_winner (snd d) = winner_of ps ms"
      using cluster_losers_ok [OF cl(1,3) [OF ms(1)]] assms(3) cl(2) [OF ms(1)] by blast+
    have "winner_of ps ms \<notin> set (map fst ds)" using choice ms(1) unfolding ids by auto
    then have "al_winner (snd d) \<notin> fst ` set ds" using d(2) by simp
    moreover have "stands_for ps (set is) d" using d(1) cl(2) [OF ms(1)] by (auto simp: stands_for_def)
    ultimately show ?thesis by blast
  qed
  moreover have "changed_in (set is) ps (disambiguate_by_path ps (map (winner_of ps) clusters))"
  proof (rule changed_in_mono [OF disambiguate_changes])
    show "distinct (map (winner_of ps) clusters)" using choice by blast
    show sub: "set (map (winner_of ps) clusters) \<subseteq> set is" using w cl(2) by auto
    then show "set (map (winner_of ps) clusters) \<subseteq> {..<length ps}" using assms(2) by blast
  qed
  ultimately have r: "resolved_in (set is) ps
      (if length (map (winner_of ps) clusters) > 1 then disambiguate_by_path ps (map (winner_of ps) clusters) else ps, ds)"
    by (simp add: resolved_in_def changed_in_def)
  show ?thesis
  proof (cases "named_apart ps is")
    case None
    then show ?thesis
      using r False unfolding resolve_group_def clusters_def [symmetric] ds_def by (simp add: Let_def)
  next
    case (Some ps')
    then show ?thesis using named_apart_changes [OF Some] False by (simp add: resolve_group_def resolved_in_def)
  qed
qed

lemma resolved_in_append:
  assumes r: "resolved_in T ps0 (ps, ds)" and r': "resolved_in S ps (ps', ds')"
    and apart: "T \<inter> S = {}" and within: "T \<union> S \<subseteq> {..<length ps0}"
  shows "resolved_in (T \<union> S) ps0 (ps', ds @ ds')"
proof -
  have c: "changed_in T ps0 ps" "changed_in S ps ps'" using r r' by (simp_all add: resolved_in_def)
  have same: "ps ! i = ps0 ! i" if "i \<in> S" for i
    using c(1) apart within that by (auto simp: changed_in_def)
  have st: "stands_for ps0 S d" if "stands_for ps S d" for d
    using that same by (auto simp: stands_for_def wanted_name_def split: prod.splits)
  have mono: "stands_for ps0 (T \<union> S) d" if "stands_for ps0 T d \<or> stands_for ps0 S d" for d
    using that by (auto simp: stands_for_def)
  have ids: "fst ` set ds \<subseteq> T" "fst ` set ds' \<subseteq> S"
    using r r' by (auto simp: resolved_in_def stands_for_def)
  have "al_winner (snd d) \<notin> fst ` set (ds @ ds')" if "d \<in> set ds \<union> set ds'" for d
  proof (cases "d \<in> set ds")
    case True
    then have "al_winner (snd d) \<in> T" "al_winner (snd d) \<notin> fst ` set ds"
      using r by (auto simp: resolved_in_def stands_for_def)
    then show ?thesis using ids apart by auto
  next
    case False
    then have "al_winner (snd d) \<in> S" "al_winner (snd d) \<notin> fst ` set ds'"
      using r' that by (auto simp: resolved_in_def stands_for_def)
    then show ?thesis using ids apart by auto
  qed
  moreover have "distinct (map fst (ds @ ds'))"
    using r r' ids apart by (auto simp: resolved_in_def)
  moreover have "\<forall>d \<in> set (ds @ ds'). stands_for ps0 (T \<union> S) d"
    using r r' st mono by (auto simp: resolved_in_def)
  ultimately show ?thesis using changed_in_trans [OF c] by (simp add: resolved_in_def)
qed

lemma resolve_groups_ok:
  "resolved_in T ps0 (ps, ds) \<Longrightarrow> distinct (concat iss) \<Longrightarrow> T \<inter> set (concat iss) = {} \<Longrightarrow>
     T \<union> set (concat iss) \<subseteq> {..<length ps0} \<Longrightarrow>
     (\<forall>is \<in> set iss. \<forall>i \<in> set is. \<forall>j \<in> set is. wanted_name ps0 i = wanted_name ps0 j) \<Longrightarrow>
     resolved_in (T \<union> set (concat iss)) ps0 (resolve_groups ps ds iss)"
proof (induction iss arbitrary: T ps ds)
  case (Cons "is" iss)
  obtain ps' ds' where g: "resolve_group ps is = (ps', ds')" by fastforce
  have c: "changed_in T ps0 ps" using Cons.prems(1) by (simp add: resolved_in_def)
  have "ps ! i = ps0 ! i" if "i \<in> set is" for i using c Cons.prems(3,4) that by (auto simp: changed_in_def)
  then have "\<forall>i \<in> set is. \<forall>j \<in> set is. wanted_name ps i = wanted_name ps j"
    using Cons.prems(5) unfolding wanted_name_def by (metis list.set_intros(1))
  moreover have "set is \<subseteq> {..<length ps}" "distinct is"
    using c Cons.prems(2,4) by (auto simp: changed_in_def)
  ultimately have "resolved_in (set is) ps (ps', ds')" using resolve_group_ok [of "is" ps] unfolding g by blast
  from resolved_in_append [OF Cons.prems(1) this]
  have step: "resolved_in (T \<union> set is) ps0 (ps', ds @ ds')" using Cons.prems(3,4) by auto
  have "resolved_in ((T \<union> set is) \<union> set (concat iss)) ps0 (resolve_groups ps' (ds @ ds') iss)"
  proof (rule Cons.IH [OF step])
    show "distinct (concat iss)" using Cons.prems(2) by simp
    show "(T \<union> set is) \<inter> set (concat iss) = {}" using Cons.prems(2,3) by auto
    show "(T \<union> set is) \<union> set (concat iss) \<subseteq> {..<length ps0}" using Cons.prems(4) by auto
    show "\<forall>is \<in> set iss. \<forall>i \<in> set is. \<forall>j \<in> set is. wanted_name ps0 i = wanted_name ps0 j"
      using Cons.prems(5) by (meson list.set_intros(2))
  qed
  then show ?case using g by (simp add: Un_assoc)
qed simp

lemma resolve_collisions_ok:
  "resolved_in (set (unscoped ps)) ps (resolve_collisions ps)"
proof -
  let ?gs = "map snd (grouped (wanted_name ps) (unscoped ps))"
  have m: "mset (concat ?gs) = mset (unscoped ps)" by (rule groups_disjoint(1))
  then have s: "set (concat ?gs) = set (unscoped ps)" by (metis set_mset_mset)
  have "distinct (concat ?gs)" using m by (metis mset_eq_imp_distinct_iff unscoped_def distinct_filter distinct_upt)
  moreover have "\<forall>is \<in> set ?gs. \<forall>i \<in> set is. \<forall>j \<in> set is. wanted_name ps i = wanted_name ps j"
    using groups_disjoint(2) by blast
  moreover have "set (concat ?gs) \<subseteq> {..<length ps}" unfolding s by (auto simp: unscoped_def)
  moreover have "resolved_in {} ps (ps, [])" by (simp add: resolved_in_def changed_in_def)
  ultimately have "resolved_in ({} \<union> set (concat ?gs)) ps (resolve_groups ps [] ?gs)"
    using resolve_groups_ok [of "{}" ps ps "[]" ?gs] by (simp only: Un_empty_left Int_empty_left simp_thms)
  then show ?thesis unfolding s by (simp only: resolve_collisions_def Un_empty_left)
qed

abbreviation known_as :: "pending \<Rightarrow> string \<times> string" where
  "known_as p \<equiv> (pe_service p, pe_raw p)"

lemma mset_filter_split: "mset (filter (\<lambda>x. x \<notin> D) xs) + mset (filter (\<lambda>x. x \<in> D) xs) = mset xs"
  by (induction xs) auto

lemma kept_known_as:
  assumes "resolved_in (set (unscoped ps)) ps (ps', ds)"
  shows "mset (map known_as (kept ps' ds)) + mset (map (\<lambda>(_, l). (al_service l, al_raw l)) ds) = mset (map known_as ps)"
proof -
  let ?D = "fst ` set ds" and ?is = "[0..<length ps]"
  have c: "length ps' = length ps" "\<And>i. i < length ps \<Longrightarrow> known_as (ps' ! i) = known_as (ps ! i)"
    using assms by (auto simp: resolved_in_def changed_in_def same_entry_keeps)
  have st: "d \<in> set ds \<Longrightarrow> stands_for ps (set (unscoped ps)) d" for d using assms by (auto simp: resolved_in_def)
  have "map known_as (kept ps' ds) = map (\<lambda>i. known_as (ps ! i)) (filter (\<lambda>i. i \<notin> ?D) ?is)"
    using c by (auto simp: kept_def)
  moreover have "map (\<lambda>(_, l). (al_service l, al_raw l)) ds = map (\<lambda>i. known_as (ps ! i)) (map fst ds)"
    using st by (auto simp: stands_for_def split: prod.splits)
  moreover have "mset (map fst ds) = mset (filter (\<lambda>i. i \<in> ?D) ?is)"
  proof (rule set_eq_iff_mset_eq_distinct [THEN iffD1])
    show "distinct (map fst ds)" using assms by (simp add: resolved_in_def)
    show "set (map fst ds) = set (filter (\<lambda>i. i \<in> ?D) ?is)"
      using st by (force simp: stands_for_def unscoped_def split: prod.splits)
  qed simp
  ultimately have "mset (map known_as (kept ps' ds)) + mset (map (\<lambda>(_, l). (al_service l, al_raw l)) ds)
      = image_mset (\<lambda>i. known_as (ps ! i)) (mset (filter (\<lambda>i. i \<notin> ?D) ?is) + mset (filter (\<lambda>i. i \<in> ?D) ?is))"
    by (simp only: mset_map image_mset_union)
  also have "mset (filter (\<lambda>i. i \<notin> ?D) ?is) + mset (filter (\<lambda>i. i \<in> ?D) ?is) = mset ?is"
    by (rule mset_filter_split)
  also have "image_mset (\<lambda>i. known_as (ps ! i)) (mset ?is) = mset (map known_as (map ((!) ps) ?is))"
    by (simp only: mset_map [symmetric] map_map comp_def)
  finally show ?thesis by (simp only: map_nth)
qed

lemma kept_scoped:
  assumes "resolved_in (set (unscoped ps)) ps (ps', ds)"
  shows "filter (\<lambda>p. ca_scope (pe_cand p) \<noteq> []) (kept ps' ds) = filter (\<lambda>p. ca_scope (pe_cand p) \<noteq> []) ps"
proof -
  let ?s = "\<lambda>i. ca_scope (pe_cand (ps ! i)) \<noteq> []"
  have c: "changed_in (set (unscoped ps)) ps ps'" using assms by (simp add: resolved_in_def)
  then have len: "length ps' = length ps" by (simp add: changed_in_def)
  have sc: "ca_scope (pe_cand (ps' ! i)) = ca_scope (pe_cand (ps ! i))" if "i < length ps" for i
    using c that by (auto simp: changed_in_def same_entry_keeps)
  have out: "?s i \<Longrightarrow> i < length ps \<Longrightarrow> ps' ! i = ps ! i \<and> i \<notin> fst ` set ds" for i
    using c assms by (auto simp: changed_in_def unscoped_def resolved_in_def stands_for_def split: prod.splits)
  have "filter (\<lambda>p. ca_scope (pe_cand p) \<noteq> []) (kept ps' ds)
      = map ((!) ps') (filter (\<lambda>i. ca_scope (pe_cand (ps' ! i)) \<noteq> []) (filter (\<lambda>i. i \<notin> fst ` set ds) [0..<length ps]))"
    by (simp only: kept_def filter_map comp_def len)
  also have "filter (\<lambda>i. ca_scope (pe_cand (ps' ! i)) \<noteq> []) (filter (\<lambda>i. i \<notin> fst ` set ds) [0..<length ps]) = filter ?s [0..<length ps]"
    unfolding filter_filter by (rule filter_cong) (use sc out in auto)
  also have "map ((!) ps') (filter ?s [0..<length ps]) = map ((!) ps) (filter ?s [0..<length ps])"
    using out by (intro map_cong) auto
  also have "\<dots> = filter (\<lambda>p. ca_scope (pe_cand p) \<noteq> []) (map ((!) ps) [0..<length ps])"
    by (simp only: filter_map comp_def)
  finally show ?thesis by (simp only: map_nth)
qed

text \<open>
  C7. Resolving collisions loses no collection in silence: each is kept or named among the
  aliases dropped, exactly once. What stands for a dropped alias is itself kept, wanted the same
  name in the same service and is reached by the same path up to its root and its axis. Scoped
  collections are left as they are.
\<close>

theorem no_collection_lost:
  assumes "resolve_within_service_collisions ps = (out, losers)"
  shows "mset (map known_as out) + mset (map (\<lambda>(l, _). (al_service l, al_raw l)) losers) = mset (map known_as ps)
    \<and> (\<forall>(l, w) \<in> set losers. w \<in> set out
        \<and> (\<exists>i < length ps. \<exists>j < length ps. i \<noteq> j \<and> known_as (ps ! i) = (al_service l, al_raw l)
            \<and> same_entry w (ps ! j) \<and> wanted_name ps i = wanted_name ps j
            \<and> dotted (canonical_path (path_at ps i)) = dotted (canonical_path (path_at ps j))))
    \<and> filter (\<lambda>p. ca_scope (pe_cand p) \<noteq> []) out = filter (\<lambda>p. ca_scope (pe_cand p) \<noteq> []) ps"
proof -
  obtain ps' ds where r: "resolve_collisions ps = (ps', ds)" by fastforce
  with resolve_collisions_ok [of ps] have ok: "resolved_in (set (unscoped ps)) ps (ps', ds)" by simp
  have out: "out = kept ps' ds" and losers: "losers = map (\<lambda>(_, l). (l, ps' ! al_winner l)) ds"
    using assms r by (simp_all add: resolve_within_service_collisions_def)
  have l: "map (\<lambda>(l, _). (al_service l, al_raw l)) losers = map (\<lambda>(_, l). (al_service l, al_raw l)) ds"
    by (simp add: losers case_prod_beta comp_def)
  have "w \<in> set out \<and> (\<exists>i < length ps. \<exists>j < length ps. i \<noteq> j \<and> known_as (ps ! i) = (al_service l, al_raw l)
            \<and> same_entry w (ps ! j) \<and> wanted_name ps i = wanted_name ps j
            \<and> dotted (canonical_path (path_at ps i)) = dotted (canonical_path (path_at ps j)))"
    if lw: "(l, w) \<in> set losers" for l w
  proof -
    from lw obtain i where i: "(i, l) \<in> set ds" and w: "w = ps' ! al_winner l" by (auto simp: losers)
    have st: "stands_for ps (set (unscoped ps)) (i, l)" and n: "al_winner l \<notin> fst ` set ds"
      using ok i unfolding resolved_in_def split_conv by (blast, metis snd_conv)
    then have b: "i < length ps" "al_winner l < length ps" by (auto simp: stands_for_def unscoped_def)
    have len: "length ps' = length ps" "same_entry w (ps ! al_winner l)"
      using ok b(2) by (auto simp: resolved_in_def changed_in_def w)
    have "w \<in> set out" using n b(2) len(1) by (auto simp: out kept_def w)
    moreover have "i \<noteq> al_winner l" using n i by force
    ultimately show ?thesis using st b len(2) by (auto simp: stands_for_def)
  qed
  then show ?thesis using kept_known_as [OF ok] kept_scoped [OF ok] unfolding l out by auto
qed

definition cluster_collections :: "pending list" where
  "cluster_collections =
     [sample_pending ''container'' [''projects'', ''zones'', ''clusters''] ''cluster'',
      sample_pending ''container'' [''projects'', ''locations'', ''clusters''] ''cluster'']"

theorem no_collection_lost_witness:
  "resolve_within_service_collisions cluster_collections
      = ([cluster_collections ! 1], [(\<lparr>al_service = ''container'', al_raw = ''clusters'', al_winner = 1\<rparr>, cluster_collections ! 1)])
    \<and> mset (map known_as [cluster_collections ! 1]) + {#(''container'', ''clusters'')#} = mset (map known_as cluster_collections)"
proof -
  have "resolve_within_service_collisions cluster_collections
      = ([cluster_collections ! 1], [(\<lparr>al_service = ''container'', al_raw = ''clusters'', al_winner = 1\<rparr>, cluster_collections ! 1)])"
    by (simp add: resolve_within_service_collisions_def resolve_collisions_def cluster_collections_def unscoped_def
        sample_pending_def named_document_def grouped_def wanted_name_def resolve_group_def named_apart_def canonical_path_def rooted_def
        dotted_def cluster_losers_def losers_of_def winner_of_def preferred_def axis_word_def kept_def upt_conv_Cons)
  from no_collection_lost [OF this] this show ?thesis by simp
qed

end
