(* ===== verification/FakeState.thy ===== *)
theory FakeState
  imports Client
begin

text \<open>
  The state of the in-process Google Cloud (internal/gcpfake): what it stores, the operations it
  tracks and the behaviours a test asked for; the request as it reads it; and its helpers on
  decoded JSON. Stored bodies are what encoding/json decodes, so a clone is the value itself.
  A body is none, an object, or bytes that decode to no object; the JSON text \<open>null\<close>, which the
  provider never sends, is not among them. \<open>OnRequest\<close>, which runs a test's own code, is not
  modelled, and a function a test may set is total: unset, it answers as if it were not there.
\<close>

section \<open>JSON\<close>

text \<open>What decoding makes of an encoded value: every number is a float64.\<close>

fun decoded :: "any \<Rightarrow> any" where
  "decoded (AInt i) = AFloat (of_int i)"
| "decoded (AList as) = AList (map decoded as)"
| "decoded (AObj kvs) = AObj (map (\<lambda>(k, a). (k, decoded a)) kvs)"
| "decoded a = a"

definition decoded_obj :: "json \<Rightarrow> json" where
  "decoded_obj m = map (\<lambda>(k, a). (k, decoded a)) m"

text \<open>A body field asserted to be a string or an object, with the discarded \<open>ok\<close>.\<close>

definition str_field :: "json \<Rightarrow> string \<Rightarrow> string option" where
  "str_field m k = (case map_of m k of Some (AStr s) \<Rightarrow> Some s | _ \<Rightarrow> None)"

fun lookup_dotted_parts :: "json \<Rightarrow> string list \<Rightarrow> any option" where
  "lookup_dotted_parts m [] = Some (AObj m)"
| "lookup_dotted_parts m (p # ps) = (case map_of m p of
      None \<Rightarrow> None
    | Some v \<Rightarrow> if ps = [] then Some v
        else (case v of AObj m' \<Rightarrow> lookup_dotted_parts m' ps | _ \<Rightarrow> None))"

definition lookup_dotted :: "json \<Rightarrow> string \<Rightarrow> any option" where
  "lookup_dotted m dotted = lookup_dotted_parts m (split_on (CHR ''.'') dotted)"

fun set_dotted_parts :: "json \<Rightarrow> string list \<Rightarrow> any \<Rightarrow> json" where
  "set_dotted_parts m [] v = m"
| "set_dotted_parts m (p # ps) v =
     (if ps = [] then AList.update p v m
      else AList.update p (AObj (set_dotted_parts
        (case map_of m p of Some (AObj m') \<Rightarrow> m' | _ \<Rightarrow> []) ps v)) m)"

definition set_dotted :: "json \<Rightarrow> string \<Rightarrow> any \<Rightarrow> json" where
  "set_dotted m dotted v = set_dotted_parts m (split_on (CHR ''.'') dotted) v"

section \<open>Requests\<close>

datatype body = NoBody | Object json | Malformed

record http_request =
  hr_method :: string
  hr_path :: string
  hr_escaped :: string
  hr_query :: "(string \<times> string list) list"
  hr_body :: body

definition query_unescape :: "string \<Rightarrow> string option" where
  "query_unescape s = path_unescape (map (\<lambda>c. if c = CHR ''+'' then CHR '' '' else c) s)"

definition query_pair :: "string \<Rightarrow> (string \<times> string) option" where
  "query_pair kv =
     (if kv = [] \<or> CHR '';'' \<in> set kv then None
      else case str_cut kv ''='' of (k, v, _) \<Rightarrow>
        (case (query_unescape k, query_unescape v) of (Some k', Some v') \<Rightarrow> Some (k', v') | _ \<Rightarrow> None))"

fun add_query :: "(string \<times> string list) list \<Rightarrow> string \<Rightarrow> string \<Rightarrow> (string \<times> string list) list" where
  "add_query q k v = AList.update k ((case map_of q k of None \<Rightarrow> [] | Some vs \<Rightarrow> vs) @ [v]) q"

text \<open>\<open>url.URL.Query\<close>: pairs that do not decode are left out.\<close>

definition parse_query :: "string \<Rightarrow> (string \<times> string list) list" where
  "parse_query raw = foldl (\<lambda>q kv. case query_pair kv of None \<Rightarrow> q | Some (k, v) \<Rightarrow> add_query q k v) []
     (split_on (CHR ''&'') raw)"

definition query_get :: "(string \<times> string list) list \<Rightarrow> string \<Rightarrow> string" where
  "query_get q k = (case map_of q k of Some (v # _) \<Rightarrow> v | _ \<Rightarrow> [])"

definition raw_query :: "string \<Rightarrow> string" where
  "raw_query u = (case str_cut (takeWhile (\<lambda>c. c \<noteq> CHR ''#'') u) ''?'' of (_, q, _) \<Rightarrow> q)"

text \<open>A request of the client as the server reads it; none when its path does not decode.\<close>

definition request_read :: "request \<Rightarrow> http_request option" where
  "request_read rq = (case split_url (rq_url rq) of (_, escaped) \<Rightarrow>
     map_option (\<lambda>path. \<lparr>hr_method = rq_method rq, hr_path = path, hr_escaped = escaped,
         hr_query = parse_query (raw_query (rq_url rq)),
         hr_body = (case rq_body rq of
             None \<Rightarrow> NoBody
           | Some (AObj m) \<Rightarrow> Object (decoded_obj m)
           | Some _ \<Rightarrow> Malformed)\<rparr>)
       (path_unescape escaped))"

section \<open>The server\<close>

datatype operation_style = OpSync | OpLongRunning | OpCompute

record api_error_spec =
  sp_status :: int
  sp_code :: string
  sp_message :: string

record lro_op =
  lo_response :: "json option"
  lo_err_code :: string
  lo_err_msg :: string

record compute_op =
  cp_response :: "json option"
  cp_self_link :: string
  cp_target_link :: string
  cp_err_code :: string
  cp_err_msg :: string

record asset =
  as_type :: string
  as_name :: string
  as_labels :: "(string \<times> string) list"

record server =
  fs_url :: string
  fs_resources :: "(string \<times> json) list"
  fs_fingerprints :: nat
  fs_drop_on_create :: "string list"
  fs_delete_then_fail :: "string list"
  fs_one_field_patch :: "string list"
  fs_not_found_remaining :: "(string \<times> nat) list"
  fs_op_style :: operation_style
  fs_style_for :: "string \<Rightarrow> string \<Rightarrow> operation_style option"
  fs_put_replaces :: "string \<Rightarrow> bool"
  fs_op_counter :: nat
  fs_lro_ops :: "(string \<times> lro_op) list"
  fs_compute_ops :: "(string \<times> compute_op) list"
  fs_never_complete :: bool
  fs_create_then_fail :: "(string \<times> api_error_spec) list"
  fs_op_link_version :: string
  fs_op_target_path :: string
  fs_fail_next :: "api_error_spec option"
  fs_requests :: "http_request list"
  fs_cai_assets :: "(string \<times> asset list) list"
  fs_cai_fail :: "api_error_spec option"
  fs_tag_bindings :: "(string \<times> json list) list"
  fs_list_fields :: "(string \<times> string) list"
  fs_declared :: "string list"

definition new_server :: "string \<Rightarrow> server" where
  "new_server url = \<lparr>fs_url = url, fs_resources = [], fs_fingerprints = 0, fs_drop_on_create = [],
     fs_delete_then_fail = [], fs_one_field_patch = [], fs_not_found_remaining = [], fs_op_style = OpSync,
     fs_style_for = (\<lambda>_ _. None), fs_put_replaces = (\<lambda>_. False), fs_op_counter = 0, fs_lro_ops = [],
     fs_compute_ops = [], fs_never_complete = False, fs_create_then_fail = [], fs_op_link_version = [],
     fs_op_target_path = [], fs_fail_next = None, fs_requests = [], fs_cai_assets = [], fs_cai_fail = None,
     fs_tag_bindings = [], fs_list_fields = [], fs_declared = []\<rparr>"

type_synonym answer = "int \<times> json"

definition write_error :: "int \<Rightarrow> string \<Rightarrow> string \<Rightarrow> answer" where
  "write_error status code message =
     (status, [(''error'', AObj [(''code'', AInt status), (''status'', AStr code), (''message'', AStr message)])])"

definition write_not_found :: "string \<Rightarrow> answer" where
  "write_not_found path = write_error 404 ''NOT_FOUND'' (path @ '' not found'')"

definition malformed :: answer where
  "malformed = write_error 400 ''INVALID_ARGUMENT'' ''malformed JSON body''"

section \<open>Paths\<close>

definition is_version :: "string \<Rightarrow> bool" where
  "is_version s = (case s of
      c # d # rest \<Rightarrow> c = CHR ''v'' \<and> is_digit d \<and> (\<forall>x \<in> set rest. is_alnum x \<and> to_lower_char x = x)
    | _ \<Rightarrow> False)"

definition trim_version_prefix :: "string \<Rightarrow> string" where
  "trim_version_prefix path = (let trimmed = trim_prefix path ''/'' in
     if trimmed = [] then []
     else case str_cut trimmed ''/'' of (seg, rest, found) \<Rightarrow>
       if \<not> found then [] else if is_version seg then rest else trimmed)"

definition parent_of :: "string \<Rightarrow> string" where
  "parent_of path = (case rev (split_slash path) of
      [] \<Rightarrow> [] | _ # init \<Rightarrow> join_slash (rev init))"

definition page_size :: nat where "page_size = 2"

text \<open>The items from an offset, and the token of the next page.\<close>

definition paginate :: "'a list \<Rightarrow> (string \<times> string list) list \<Rightarrow> 'a list \<times> string" where
  "paginate items q =
     (let tok = query_get q ''pageToken'';
          asked = (if tok = [] then 0 else case atoi tok of None \<Rightarrow> 0 | Some n \<Rightarrow> if n \<ge> 0 then nat n else 0);
          offset = min asked (length items);
          upto = min (offset + page_size) (length items)
      in (take (upto - offset) (drop offset items),
          if upto < length items then digits_of upto else []))"

end
