(* ===== verification/FakeServer.thy ===== *)
theory FakeServer
  imports FakeState
begin

text \<open>
  The handlers of the in-process Google Cloud (internal/gcpfake/server.go, operations.go and
  cai.go) and \<open>ServeHTTP\<close>. A handler answers a status and a body and leaves the server in a next
  state. Where Go ranges over a request's query or a body's fields in no order, the model visits
  them in the order of their list.
\<close>

section \<open>Operations\<close>

definition grpc_codes :: "(string \<times> int) list" where
  "grpc_codes = [(''OK'', 0), (''CANCELLED'', 1), (''UNKNOWN'', 2), (''INVALID_ARGUMENT'', 3),
     (''DEADLINE_EXCEEDED'', 4), (''NOT_FOUND'', 5), (''ALREADY_EXISTS'', 6), (''PERMISSION_DENIED'', 7),
     (''UNAUTHENTICATED'', 16), (''RESOURCE_EXHAUSTED'', 8), (''FAILED_PRECONDITION'', 9), (''ABORTED'', 10),
     (''OUT_OF_RANGE'', 11), (''UNIMPLEMENTED'', 12), (''INTERNAL'', 13), (''UNAVAILABLE'', 14), (''DATA_LOSS'', 15)]"

definition grpc_code :: "string \<Rightarrow> int" where
  "grpc_code status = (case map_of grpc_codes status of Some c \<Rightarrow> c | None \<Rightarrow> 2)"

definition after_first_segment :: "string \<Rightarrow> string" where
  "after_first_segment path = (case str_cut (trim_prefix path ''/'') ''/'' of (_, rest, _) \<Rightarrow> rest)"

definition absolute :: "server \<Rightarrow> string \<Rightarrow> string" where
  "absolute s path =
     (if path = [] then []
      else fs_url s @ (if fs_op_link_version s \<noteq> []
        then ''/'' @ fs_op_link_version s @ ''/'' @ after_first_segment path else path))"

definition compute_op_self_link :: "server \<Rightarrow> string \<Rightarrow> string \<Rightarrow> string" where
  "compute_op_self_link s target name = absolute s (parent_of (parent_of target) @ ''/operations/'' @ name)"

text \<open>What an operation on a path is to fail with.\<close>

definition failure_at :: "server \<Rightarrow> string \<Rightarrow> string \<times> string" where
  "failure_at s path = (case map_of (fs_create_then_fail s) path of
      Some spec \<Rightarrow> (sp_code spec, sp_message spec) | None \<Rightarrow> ([], []))"

definition new_long_running_op :: "server \<Rightarrow> string \<Rightarrow> json option \<Rightarrow> json \<times> server" where
  "new_long_running_op s path result =
     (let n = Suc (fs_op_counter s); name = ''operations/op-'' @ digits_of n;
          op = \<lparr>lo_response = result, lo_err_code = fst (failure_at s path), lo_err_msg = snd (failure_at s path)\<rparr>
      in ([(''name'', AStr name), (''done'', ABool False)],
          s\<lparr>fs_op_counter := n, fs_lro_ops := AList.update name op (fs_lro_ops s)\<rparr>))"

definition new_compute_op :: "server \<Rightarrow> string \<Rightarrow> json option \<Rightarrow> json \<times> server" where
  "new_compute_op s path result =
     (let n = Suc (fs_op_counter s); name = ''op-'' @ digits_of n;
          target = (if fs_op_target_path s \<noteq> [] then fs_op_target_path s else path);
          op = \<lparr>cp_response = result, cp_self_link = compute_op_self_link s path name,
                cp_target_link = absolute s target,
                cp_err_code = fst (failure_at s path), cp_err_msg = snd (failure_at s path)\<rparr>
      in ([(''name'', AStr name), (''status'', AStr ''RUNNING''), (''selfLink'', AStr (cp_self_link op)),
           (''targetLink'', AStr (cp_target_link op))],
          s\<lparr>fs_op_counter := n, fs_compute_ops := AList.update name op (fs_compute_ops s)\<rparr>))"

definition handle_get_operation :: "server \<Rightarrow> string \<Rightarrow> answer" where
  "handle_get_operation s name = (case map_of (fs_lro_ops s) name of
      None \<Rightarrow> write_not_found name
    | Some op \<Rightarrow>
        if fs_never_complete s then (200, [(''name'', AStr name), (''done'', ABool False)])
        else (200, [(''name'', AStr name), (''done'', ABool True)] @
          (if lo_err_code op \<noteq> []
           then [(''error'', AObj [(''code'', AInt (grpc_code (lo_err_code op))), (''message'', AStr (lo_err_msg op))])]
           else case lo_response op of Some r \<Rightarrow> [(''response'', AObj r)] | None \<Rightarrow> [])))"

definition compute_operation_body :: "server \<Rightarrow> string \<Rightarrow> compute_op \<Rightarrow> json" where
  "compute_operation_body s name op =
     [(''name'', AStr name), (''status'', AStr (if fs_never_complete s then ''RUNNING'' else ''DONE''))]
     @ (if cp_self_link op \<noteq> [] then [(''selfLink'', AStr (cp_self_link op))] else [])
     @ (if cp_target_link op \<noteq> [] then [(''targetLink'', AStr (cp_target_link op))] else [])
     @ (if \<not> fs_never_complete s \<and> cp_err_code op \<noteq> []
        then [(''error'', AObj [(''errors'', AList [AObj [(''code'', AStr (cp_err_code op)),
               (''message'', AStr (cp_err_msg op))]])])]
        else [])"

definition answer_compute_operation :: "server \<Rightarrow> string \<Rightarrow> answer" where
  "answer_compute_operation s name = (case map_of (fs_compute_ops s) name of
      None \<Rightarrow> write_not_found name
    | Some op \<Rightarrow> (200, compute_operation_body s name op))"

text \<open>The operation a wait is for: the path ends in \<open>/operations/<name>/wait\<close>.\<close>

definition wait_op :: "string \<Rightarrow> string option" where
  "wait_op path = (case rev (split_slash path) of
      w # name # ops # _ # _ \<Rightarrow>
        if w = ''wait'' \<and> name \<noteq> [] \<and> ops = ''operations'' then Some name else None
    | _ \<Rightarrow> None)"

definition handle_compute_wait :: "server \<Rightarrow> string \<Rightarrow> answer" where
  "handle_compute_wait s path = (case wait_op path of
      None \<Rightarrow> write_not_found path | Some name \<Rightarrow> answer_compute_operation s name)"

definition operation_name :: "server \<Rightarrow> string \<Rightarrow> string option" where
  "operation_name s path = (let candidate = trim_version_prefix path in
     if candidate \<noteq> [] \<and> has_key (fs_lro_ops s) candidate then Some candidate else None)"

definition compute_operation_name :: "server \<Rightarrow> string \<Rightarrow> string option" where
  "compute_operation_name s path = (let trimmed = trim_suffix path ''/''; name = after_last (CHR ''/'') trimmed in
     if CHR ''/'' \<in> set trimmed \<and> name \<noteq> [] \<and> has_key (fs_compute_ops s) name then Some name else None)"

section \<open>The answer to a mutation\<close>

definition style_of :: "server \<Rightarrow> http_request \<Rightarrow> operation_style" where
  "style_of s r = (case fs_style_for s (hr_method r) (hr_escaped r) of Some own \<Rightarrow> own | None \<Rightarrow> fs_op_style s)"

text \<open>The result is none for a delete.\<close>

definition respond_mutation :: "server \<Rightarrow> http_request \<Rightarrow> string \<Rightarrow> json option \<Rightarrow> answer \<times> server" where
  "respond_mutation s r path result = (case style_of s r of
      OpLongRunning \<Rightarrow> (case new_long_running_op s path result of (b, s') \<Rightarrow> ((200, b), s'))
    | OpCompute \<Rightarrow> (case new_compute_op s path result of (b, s') \<Rightarrow> ((200, b), s'))
    | OpSync \<Rightarrow> ((200, case result of None \<Rightarrow> [] | Some m \<Rightarrow> m), s))"

section \<open>Reading\<close>

definition collection_keys :: "server \<Rightarrow> string \<Rightarrow> string list" where
  "collection_keys s path = sort (filter (\<lambda>k. has_prefix k (path @ ''/'')
      \<and> CHR ''/'' \<notin> set (trim_prefix k (path @ ''/''))) (keys (fs_resources s)))"

definition stored_at :: "server \<Rightarrow> string \<Rightarrow> json" where
  "stored_at s k = (case map_of (fs_resources s) k of Some m \<Rightarrow> m | None \<Rightarrow> [])"

definition collection_items :: "server \<Rightarrow> string \<Rightarrow> json list" where
  "collection_items s path = map (stored_at s) (collection_keys s path)"

definition list_field_for :: "server \<Rightarrow> string \<Rightarrow> string" where
  "list_field_for s path = (case map_of (fs_list_fields s) path of
      Some f \<Rightarrow> if f \<noteq> [] then f else ''items'' | None \<Rightarrow> ''items'')"

definition page_answer :: "string \<Rightarrow> json list \<Rightarrow> (string \<times> string list) list \<Rightarrow> answer" where
  "page_answer field items q = (case paginate items q of (page, tok) \<Rightarrow>
     (200, (field, AList (map AObj page)) # (if tok \<noteq> [] then [(''nextPageToken'', AStr tok)] else [])))"

definition handle_get :: "server \<Rightarrow> http_request \<Rightarrow> answer \<times> server" where
  "handle_get s r = (let path = hr_path r in
     if path \<in> set (fs_declared s)
     then (page_answer (list_field_for s path) (collection_items s path) (hr_query r), s)
     else case map_of (fs_not_found_remaining s) path of
         Some (Suc n) \<Rightarrow> (write_not_found path,
            s\<lparr>fs_not_found_remaining := AList.update path n (fs_not_found_remaining s)\<rparr>)
       | _ \<Rightarrow> (case map_of (fs_resources s) path of
            None \<Rightarrow> (write_not_found path, s) | Some m \<Rightarrow> ((200, m), s)))"

definition handle_search_all_resources :: "server \<Rightarrow> http_request \<Rightarrow> answer" where
  "handle_search_all_resources s r = (case fs_cai_fail s of
      Some spec \<Rightarrow> write_error (sp_status spec) (sp_code spec) (sp_message spec)
    | None \<Rightarrow>
        (let parent = trim_version_prefix (trim_suffix (hr_path r) '':searchAllResources'');
             assets = (case map_of (fs_cai_assets s) parent of Some as \<Rightarrow> as | None \<Rightarrow> []);
             entry = (\<lambda>a. [(''assetType'', AStr (as_type a)), (''name'', AStr (as_name a))]
               @ (if as_labels a \<noteq> []
                  then [(''labels'', AObj (map (\<lambda>(k, v). (k, AStr v)) (as_labels a)))] else []))
         in page_answer ''results'' (map entry assets) (hr_query r)))"

text \<open>With nothing seeded the list is Go's nil slice, which is encoded as null.\<close>

definition handle_list_tag_bindings :: "server \<Rightarrow> http_request \<Rightarrow> answer" where
  "handle_list_tag_bindings s r =
     (case map_of (fs_tag_bindings s) (query_get (hr_query r) ''parent'') of
        Some (b # bs) \<Rightarrow> page_answer ''tagBindings'' (b # bs) (hr_query r)
      | _ \<Rightarrow> (200, [(''tagBindings'', ANil)]))"

section \<open>Creating\<close>

fun own_id :: "json \<Rightarrow> json \<Rightarrow> (string \<times> json) option" where
  "own_id body [] = None"
| "own_id body ((k, AObj m) # es) = (case str_field body (k @ ''Id'') of
      Some s \<Rightarrow> if s \<noteq> [] then Some (s, m) else own_id body es
    | None \<Rightarrow> own_id body es)"
| "own_id body (_ # es) = own_id body es"

fun objects_among_strings :: "json \<Rightarrow> json list option" where
  "objects_among_strings [] = Some []"
| "objects_among_strings ((k, AObj m) # es) = map_option (Cons m) (objects_among_strings es)"
| "objects_among_strings ((k, AStr v) # es) = objects_among_strings es"
| "objects_among_strings (_ # es) = None"

definition unwrap_create :: "json \<Rightarrow> (string \<times> json) option" where
  "unwrap_create body = (case own_id body body of
      Some found \<Rightarrow> Some found
    | None \<Rightarrow> (case objects_among_strings body of
        Some [m] \<Rightarrow>
          if length body > 1 then
            (case str_field m ''name'' of
               Some n \<Rightarrow> if n \<noteq> [] then Some (after_last (CHR ''/'') n, m) else None
             | None \<Rightarrow> None)
          else None
      | _ \<Rightarrow> None))"

definition names_an_id :: "string \<Rightarrow> bool" where
  "names_an_id k \<longleftrightarrow> has_suffix k ''Id'' \<or> has_suffix k ''_id'' \<or> k = ''id''"

definition query_id :: "(string \<times> string list) list \<Rightarrow> string option" where
  "query_id q = (case filter (\<lambda>(k, vs). k \<noteq> ''requestId'' \<and> vs \<noteq> [] \<and> hd vs \<noteq> [] \<and> names_an_id k) q of
      (_, v # _) # _ \<Rightarrow> Some v | _ \<Rightarrow> None)"

definition resource_id :: "(string \<times> string list) list \<Rightarrow> json \<Rightarrow> string \<times> bool" where
  "resource_id q body = (case query_id q of
      Some v \<Rightarrow> (v, True)
    | None \<Rightarrow> (case unwrap_create body of
        Some (name, _) \<Rightarrow> (name, True)
      | None \<Rightarrow> (case str_field body ''name'' of
          Some n \<Rightarrow> (after_last (CHR ''/'') n, False) | None \<Rightarrow> ([], False))))"

definition relative_name :: "string \<Rightarrow> string" where
  "relative_name path = trim_prefix (trim_version_prefix path) ''/''"

text \<open>The id of what is created, whether \<open>name\<close> is to say it in full, and the server after an id it assigns.\<close>

definition assigned_id :: "server \<Rightarrow> http_request \<Rightarrow> json \<Rightarrow> string \<times> bool \<times> server" where
  "assigned_id s r body = (case resource_id (hr_query r) body of (given, fromQuery) \<Rightarrow>
     if given = [] then (''assigned-'' @ digits_of (Suc (fs_op_counter s)), True, s\<lparr>fs_op_counter := Suc (fs_op_counter s)\<rparr>)
     else (given, fromQuery, s))"

definition created_body :: "server \<Rightarrow> http_request \<Rightarrow> json \<Rightarrow> string \<Rightarrow> bool \<Rightarrow> json" where
  "created_body s r body path named =
     (let inner = (if query_id (hr_query r) \<noteq> None then body
            else case unwrap_create body of Some (_, m) \<Rightarrow> m | None \<Rightarrow> body);
          kept = filter (\<lambda>(k, _). k \<notin> set (fs_drop_on_create s)) inner
      in if named then AList.update ''name'' (AStr (relative_name path)) kept else kept)"

definition store_at :: "server \<Rightarrow> string \<Rightarrow> json \<Rightarrow> server" where
  "store_at s path m = s\<lparr>fs_resources := AList.update path m (fs_resources s)\<rparr>"

definition handle_create :: "server \<Rightarrow> http_request \<Rightarrow> answer \<times> server" where
  "handle_create s r = (case hr_body r of
      Malformed \<Rightarrow> (malformed, s)
    | b \<Rightarrow>
        (let body = (case b of Object m \<Rightarrow> m | _ \<Rightarrow> []); collection = trim_suffix (hr_path r) ''/'' in
         case assigned_id s r body of (name, named, s1) \<Rightarrow>
           (let path = collection @ ''/'' @ name; stored = created_body s r body path named in
            respond_mutation ((store_at s1 path stored)\<lparr>fs_declared := collection # fs_declared s1\<rparr>) r path (Some stored))))"

definition handle_create_at :: "server \<Rightarrow> http_request \<Rightarrow> answer \<times> server" where
  "handle_create_at s r = (case hr_body r of
      Malformed \<Rightarrow> (malformed, s)
    | b \<Rightarrow>
        (let path = hr_path r; body = (case b of Object m \<Rightarrow> m | _ \<Rightarrow> []) in
         case map_of (fs_resources s) path of
           None \<Rightarrow>
             (let stored = AList.update ''name'' (AStr (relative_name path)) body in
              respond_mutation (store_at s path stored) r path (Some stored))
         | Some existing \<Rightarrow>
             if fs_put_replaces s (hr_escaped r) then
               (let stored = (case map_of existing ''name'' of
                    Some n \<Rightarrow> if has_key body ''name'' then body else AList.update ''name'' n body
                  | None \<Rightarrow> body)
                in respond_mutation (store_at s path stored) r path (Some stored))
             else (write_error 409 ''ALREADY_EXISTS''
               (''Resource already exists in the project (resource='' @ path @ '').''), s)))"

section \<open>Changing\<close>

definition fs_has :: "server \<Rightarrow> string \<Rightarrow> bool" where
  "fs_has s path = has_key (fs_resources s) path"

definition item_addressed :: "server \<Rightarrow> http_request \<Rightarrow> string" where
  "item_addressed s r = (let path = hr_path r; q = hr_query r;
       candidates = filter (\<lambda>p. fs_has s p)
         (map (\<lambda>v. path @ ''/'' @ v) (filter (\<lambda>v. v \<noteq> [] \<and> CHR ''/'' \<notin> set v) (map (query_get q) (sort (keys q)))))
     in if fs_has s path then path else case candidates of p # _ \<Rightarrow> p | [] \<Rightarrow> path)"

fun update_envelope :: "json \<Rightarrow> string \<Rightarrow> json option \<Rightarrow> (json \<times> string) option" where
  "update_envelope [] msk inner = (case inner of
      Some m \<Rightarrow> if msk \<noteq> [] then Some (m, msk) else None | None \<Rightarrow> None)"
| "update_envelope ((k, AStr v) # es) msk inner =
     (if k = ''updateMask'' \<or> k = ''fieldMask'' then update_envelope es v inner else None)"
| "update_envelope ((k, AObj m) # es) msk inner =
     (if inner \<noteq> None then None else update_envelope es msk (Some m))"
| "update_envelope (_ # es) msk inner = None"

definition unwrap_update_envelope :: "json \<Rightarrow> (json \<times> string) option" where
  "unwrap_update_envelope body = update_envelope body [] None"

text \<open>\<open>reflect.DeepEqual\<close> of decoded JSON: maps are equal when they say the same of every key.\<close>

lemma size_any_zip [termination_simp]: "(x, y) \<in> set (zip as bs) \<Longrightarrow> size x < Suc (size_list size as)"
  by (auto dest!: set_zip_leftD simp: less_Suc_eq_le intro: size_list_estimation')

fun deep_equal :: "any \<Rightarrow> any \<Rightarrow> bool" where
  "deep_equal (AObj a) b = (case b of
      AObj b' \<Rightarrow> length a = length b' \<and> list_all (\<lambda>(k, v). \<exists>w \<in> set_option (map_of b' k). deep_equal v w) a
    | _ \<Rightarrow> False)"
| "deep_equal (AList as) b = (case b of
      AList bs \<Rightarrow> length as = length bs \<and> list_all (\<lambda>(x, y). deep_equal x y) (zip as bs) | _ \<Rightarrow> False)"
| "deep_equal a b \<longleftrightarrow> a = b"

definition changed_fields :: "json \<Rightarrow> json \<Rightarrow> string list" where
  "changed_fields existing body = sort (map fst (filter (\<lambda>(k, v). k \<noteq> ''fingerprint''
     \<and> \<not> deep_equal (case map_of existing k of Some x \<Rightarrow> x | None \<Rightarrow> ANil) v) body))"

definition go_quoted :: "string \<Rightarrow> string" where
  "go_quoted s = CHR 0x22 # s @ [CHR 0x22]"

text \<open>What a patch asks for: the fields and their mask.\<close>

definition patch_asked :: "http_request \<Rightarrow> json \<Rightarrow> json \<times> string list" where
  "patch_asked r body = (let m = query_get (hr_query r) ''updateMask'' in
     if m \<noteq> [] then (body, split_on (CHR '','') m)
     else case unwrap_update_envelope body of
         Some (inner, msk) \<Rightarrow> (inner, split_on (CHR '','') msk)
       | None \<Rightarrow> (body, []))"

definition merged_by :: "json \<Rightarrow> json \<Rightarrow> string list \<Rightarrow> json" where
  "merged_by existing body msk =
     (if msk = [] then overlay existing body
      else foldl (\<lambda>m f. set_dotted m f (case lookup_dotted body f of Some v \<Rightarrow> v | None \<Rightarrow> ANil)) existing msk)"

text \<open>Why a patch is refused, if it is.\<close>

definition one_field_refusal :: "server \<Rightarrow> string \<Rightarrow> json \<Rightarrow> json \<Rightarrow> answer option" where
  "one_field_refusal s path existing body =
     (if path \<in> set (fs_one_field_patch s) \<and> length (changed_fields existing body) > 1
      then Some (write_error 400 ''INVALID_ARGUMENT''
        (''Only one field at a time can be modified in the request. The modified fields were: ''
         @ ''['' @ join_with '' '' (changed_fields existing body) @ ''].''))
      else None)"

definition lock_refusal :: "string \<Rightarrow> string \<Rightarrow> json \<Rightarrow> json \<Rightarrow> answer option" where
  "lock_refusal field current existing body =
     (let sent = (case str_field body field of Some f \<Rightarrow> f | None \<Rightarrow> []) in
      case str_field existing field of
        Some fp \<Rightarrow>
          if sent \<noteq> fp then Some (write_error 412 ''FAILED_PRECONDITION''
            (''conditionNotMet: supplied '' @ field @ '' '' @ go_quoted sent @ '' does not match '' @ current @ '' '' @ go_quoted fp))
          else None
      | None \<Rightarrow> None)"

definition patch_refused :: "server \<Rightarrow> string \<Rightarrow> json \<Rightarrow> json \<Rightarrow> string list \<Rightarrow> answer option" where
  "patch_refused s path existing body msk =
     (case filter (\<lambda>m. lookup_dotted body m = None) msk of
        m # _ \<Rightarrow> Some (write_error 400 ''INVALID_ARGUMENT''
          (''updateMask names '' @ go_quoted m @ '', which is not present in the request body''))
      | [] \<Rightarrow> (case lock_refusal ''fingerprint'' ''current fingerprint'' existing body of
          Some refusal \<Rightarrow> Some refusal | None \<Rightarrow> one_field_refusal s path existing body))"

text \<open>A change of a resource a fingerprint guards gives it a new one.\<close>

definition refingerprinted :: "string \<Rightarrow> string \<Rightarrow> json \<Rightarrow> server \<Rightarrow> json \<Rightarrow> json \<times> server" where
  "refingerprinted field prefix existing s merged = (case str_field existing field of
      None \<Rightarrow> (merged, s)
    | Some _ \<Rightarrow> (let n = Suc (fs_fingerprints s) in
        (AList.update field (AStr (prefix @ digits_of n)) merged, s\<lparr>fs_fingerprints := n\<rparr>)))"

definition handle_patch :: "server \<Rightarrow> http_request \<Rightarrow> answer \<times> server" where
  "handle_patch s r = (let path = item_addressed s r in
     case map_of (fs_resources s) path of
       None \<Rightarrow> (write_not_found path, s)
     | Some existing \<Rightarrow> (case hr_body r of
         Malformed \<Rightarrow> (malformed, s)
       | b \<Rightarrow>
           (case patch_asked r (case b of Object m \<Rightarrow> m | _ \<Rightarrow> []) of (body, msk) \<Rightarrow>
              case patch_refused s path existing body msk of
                Some refusal \<Rightarrow> (refusal, s)
              | None \<Rightarrow>
                  (case refingerprinted ''fingerprint'' ''fp-'' existing s (merged_by existing body msk) of
                     (merged, s1) \<Rightarrow> respond_mutation (store_at s1 path merged) r path (Some merged)))))"

definition is_setter_name :: "string \<Rightarrow> bool" where
  "is_setter_name s \<longleftrightarrow> (\<exists>p \<in> {''set'', ''expand''}. has_prefix s p \<and> (let rest = trim_prefix s p in
     rest \<noteq> [] \<and> to_lower_char (hd rest) \<noteq> hd rest \<and> (\<forall>c \<in> set rest. is_alnum c \<and> \<not> is_digit c)))"

text \<open>The resource's path with compute's \<open>global\<close> segment put in.\<close>

definition with_global :: "string \<Rightarrow> string option" where
  "with_global parent = (case str_index parent ''/projects/'' of
      None \<Rightarrow> None
    | Some j \<Rightarrow> (let rest = drop (j + 10) parent in
        case str_index rest ''/'' of
          None \<Rightarrow> None
        | Some k \<Rightarrow> Some (take j parent @ ''/projects/'' @ take k rest @ ''/global'' @ drop k rest)))"

definition setter_target :: "server \<Rightarrow> string \<Rightarrow> string" where
  "setter_target s path = (let parent = parent_of path in
     if parent = [] \<or> \<not> is_setter_name (after_last (CHR ''/'') path) then []
     else if fs_has s parent then parent
     else case with_global parent of Some g \<Rightarrow> if fs_has s g then g else [] | None \<Rightarrow> [])"

definition handle_setter :: "server \<Rightarrow> http_request \<Rightarrow> answer \<times> server" where
  "handle_setter s r = (let path = setter_target s (hr_path r) in
     case hr_body r of
       Malformed \<Rightarrow> (malformed, s)
     | b \<Rightarrow>
         (let body = (case b of Object m \<Rightarrow> m | _ \<Rightarrow> []); existing = stored_at s path in
          case lock_refusal ''labelFingerprint'' ''current'' existing body of
            Some refusal \<Rightarrow> (refusal, s)
          | None \<Rightarrow>
              (case refingerprinted ''labelFingerprint'' ''lfp-'' existing s (overlay existing body) of
                 (merged, s1) \<Rightarrow> respond_mutation (store_at s1 path merged) r path (Some merged))))"

section \<open>Deleting\<close>

definition deleted_item :: "server \<Rightarrow> http_request \<Rightarrow> string" where
  "deleted_item s r = (let path = item_addressed s r; dir = parent_of path in
     if \<not> fs_has s path \<and> after_last (CHR ''/'') path = ''delete'' \<and> fs_has s dir then dir else path)"

definition handle_delete :: "server \<Rightarrow> http_request \<Rightarrow> answer \<times> server" where
  "handle_delete s r = (let path = deleted_item s r in
     if \<not> fs_has s path then (write_not_found path, s)
     else respond_mutation (if path \<in> set (fs_delete_then_fail s) then s
       else s\<lparr>fs_resources := AList.delete path (fs_resources s)\<rparr>) r path None)"

section \<open>ServeHTTP\<close>

definition route_get :: "server \<Rightarrow> http_request \<Rightarrow> answer \<times> server" where
  "route_get s r = (case operation_name s (hr_path r) of
      Some name \<Rightarrow> (handle_get_operation s name, s)
    | None \<Rightarrow> (case compute_operation_name s (hr_path r) of
        Some name \<Rightarrow> (answer_compute_operation s name, s)
      | None \<Rightarrow> handle_get s r))"

definition route :: "server \<Rightarrow> http_request \<Rightarrow> answer \<times> server" where
  "route s r = (let m = hr_method r; path = hr_path r in
     if has_suffix path '':searchAllResources'' then (handle_search_all_resources s r, s)
     else if m = ''POST'' \<and> wait_op path \<noteq> None then (handle_compute_wait s path, s)
     else if m = ''GET'' \<and> has_suffix (trim_version_prefix path) ''tagBindings''
     then (handle_list_tag_bindings s r, s)
     else if m = ''GET'' then route_get s r
     else if m = ''POST'' \<and> setter_target s path \<noteq> [] then handle_setter s r
     else if m = ''POST'' then handle_create s r
     else if m = ''PUT'' then handle_create_at s r
     else if m = ''PATCH'' then handle_patch s r
     else if m = ''DELETE'' then handle_delete s r
     else (write_error 405 ''UNIMPLEMENTED'' (''the fake does not support '' @ m), s))"

definition serve_http :: "server \<Rightarrow> http_request \<Rightarrow> answer \<times> server" where
  "serve_http s r = (let s1 = s\<lparr>fs_requests := fs_requests s @ [r], fs_fail_next := None\<rparr> in
     case fs_fail_next s of
       Some spec \<Rightarrow> (write_error (sp_status spec) (sp_code spec) (sp_message spec), s1)
     | None \<Rightarrow> route s1 r)"

end
