(* ===== verification/FakeStore.thy ===== *)
theory FakeStore
  imports FakeServer Operations
begin

text \<open>
  The in-process Google Cloud as the remote of a client, and what its answers do to what it
  stores. The network between them takes a nanosecond a round trip; \<open>enc\<close> is the text
  encoding/json writes for an object, after its opening brace.
\<close>

definition fake_transport :: "(json \<Rightarrow> string) \<Rightarrow> server transport" where
  "fake_transport enc s rq now deadline =
     (if (case deadline of Some d \<Rightarrow> d \<le> now | None \<Rightarrow> False) then (NoReply ''context ended'', 1, s)
      else case request_read rq of
          None \<Rightarrow> (Reply 400 [] ''400 Bad Request'' None, 1, s)
        | Some r \<Rightarrow> (case serve_http s r of ((status, b), s') \<Rightarrow>
            (Reply status [] (CHR ''{'' # enc b) (Some (AObj (decoded_obj b))), 1, s')))"

section \<open>What an answer leaves stored\<close>

text \<open>The answer of a mutation is a success and stores nothing more.\<close>

lemma respond_mutation_frame:
  assumes "respond_mutation s r path result = ((status, b), s')"
  shows "status = 200" "fs_resources s' = fs_resources s" "fs_fingerprints s' = fs_fingerprints s"
  using assms
  by (auto simp: respond_mutation_def new_long_running_op_def new_compute_op_def Let_def split: operation_style.splits)

lemma refingerprinted_frame:
  "refingerprinted field prefix existing s merged = (m, s') \<Longrightarrow> fs_resources s' = fs_resources s"
  by (auto simp: refingerprinted_def Let_def split: option.splits)

text \<open>A server whose stored resources differ at one path at most, and not at all in one that refused.\<close>

definition changes_one :: "server \<Rightarrow> answer \<times> server \<Rightarrow> bool" where
  "changes_one s out \<longleftrightarrow> (case out of ((status, _), s') \<Rightarrow>
     (status \<ge> 300 \<longrightarrow> fs_resources s' = fs_resources s)
     \<and> (\<exists>path. \<forall>k. k \<noteq> path \<longrightarrow> map_of (fs_resources s') k = map_of (fs_resources s) k))"

lemma changes_one_respond:
  assumes "\<forall>k. k \<noteq> path \<longrightarrow> map_of (fs_resources s1) k = map_of (fs_resources s) k"
  shows "changes_one s (respond_mutation s1 r q result)"
proof -
  obtain status b s' where o: "respond_mutation s1 r q result = ((status, b), s')" by (metis surj_pair)
  show ?thesis using respond_mutation_frame [OF o] assms by (auto simp: changes_one_def o)
qed

lemma changes_one_store:
  assumes "fs_resources s1 = AList.update path m (fs_resources s)"
  shows "changes_one s (respond_mutation s1 r q result)"
  by (rule changes_one_respond [of path]) (simp add: assms)

lemma changes_one_keeps: "fs_resources s' = fs_resources s \<Longrightarrow> changes_one s (a, s')"
  by (auto simp: changes_one_def split: prod.splits)

lemma handle_create_frame: "changes_one s (handle_create s r)"
proof (cases "hr_body r = Malformed")
  case True
  then show ?thesis by (simp add: handle_create_def changes_one_keeps)
next
  case False
  define body where "body = (case hr_body r of Object m \<Rightarrow> m | _ \<Rightarrow> [])"
  obtain name named s1 where c: "assigned_id s r body = (name, named, s1)" by (metis surj_pair)
  then have "fs_resources s1 = fs_resources s" by (auto simp: assigned_id_def split: prod.splits if_splits)
  then show ?thesis
    using False c unfolding handle_create_def body_def
    by (cases "hr_body r") (auto simp: Let_def store_at_def intro!: changes_one_store)
qed

lemma handle_create_at_frame: "changes_one s (handle_create_at s r)"
  by (auto simp: handle_create_at_def Let_def changes_one_keeps store_at_def
      split: body.splits option.splits intro!: changes_one_store)

lemma handle_patch_frame: "changes_one s (handle_patch s r)"
  by (auto simp: handle_patch_def Let_def changes_one_keeps store_at_def refingerprinted_frame
      split: body.splits option.splits prod.splits intro!: changes_one_store)

lemma handle_setter_frame: "changes_one s (handle_setter s r)"
  by (auto simp: handle_setter_def Let_def changes_one_keeps store_at_def refingerprinted_frame
      split: body.splits option.splits prod.splits intro!: changes_one_store)

lemma handle_delete_frame: "changes_one s (handle_delete s r)"
  by (auto simp: handle_delete_def Let_def changes_one_keeps delete_conv' intro!: changes_one_respond)

lemma route_get_frame: "fs_resources (snd (route_get s r)) = fs_resources s"
  by (auto simp: route_get_def handle_get_def Let_def split: option.splits nat.splits)

lemma route_frame: "changes_one s (route s r)"
proof -
  have g: "changes_one s (route_get s r)"
    using changes_one_keeps [OF route_get_frame] by (metis surjective_pairing)
  show ?thesis
    by (simp add: route_def Let_def changes_one_keeps g handle_create_frame handle_create_at_frame
        handle_patch_frame handle_setter_frame handle_delete_frame)
qed

lemma serve_http_frame: "changes_one s (serve_http s r)"
  using route_frame [of "s\<lparr>fs_requests := fs_requests s @ [r], fs_fail_next := None\<rparr>" r]
  by (auto simp: serve_http_def Let_def changes_one_def split: option.splits)

section \<open>A client of the fake\<close>

lemma no_ctx_error: "ctx_end c = None \<Longrightarrow> ctx_error c w = None"
  by (simp add: ctx_error_def)

definition fake_client :: "(json \<Rightarrow> string) \<Rightarrow> server client \<Rightarrow> bool" where
  "fake_client enc cl \<longleftrightarrow> cl_transport cl = fake_transport enc \<and> cl_qps cl \<le> 0 \<and> cl_timeout cl > 0"

lemma fake_once:
  assumes cl: "fake_client enc cl" and c: "ctx_error c w = None"
    and rd: "request_read (request_of cl meth full body 0) = Some r"
    and sv: "serve_http (w_srv w) r = ((status, b), s')"
  shows "do_once cl c meth full body 0 w
    = (read_reply cl (request_of cl meth full body 0) (w_now w + 1) (Reply status [] (CHR ''{'' # enc b) (Some (AObj (decoded_obj b)))),
       w\<lparr>w_srv := s', w_now := w_now w + 1, w_sent := w_sent w @ [request_of cl meth full body 0]\<rparr>)"
  using cl c rd sv
  by (auto simp: do_once_def Let_def fake_client_def with_timeout_def detached_def fake_transport_def request_of_def
      ctx_error_def split: option.splits if_splits)

text \<open>What one call leaves of the world: the fake's next state, and time.\<close>

definition after_call :: "server world \<Rightarrow> server \<Rightarrow> server world \<Rightarrow> bool" where
  "after_call w s' w' \<longleftrightarrow> w_srv w' = s' \<and> limiters_off w' \<and> w_now w' = w_now w + 1 \<and> w_projects w' = w_projects w"

lemma fake_do:
  assumes cl: "fake_client enc cl" and c: "ctx_error c w = None" and off: "limiters_off w"
    and rd: "request_read (request_of cl meth (full_url cl url) body 0) = Some r"
    and sv: "serve_http (w_srv w) r = ((status, b), s')" and ok: "status < 300"
  shows "\<exists>w'. client_do cl c meth url body w = Some (Inr (Some (decoded_obj b)), w') \<and> after_call w s' w'"
proof -
  let ?w = "limiter_for cl (parse_project_and_api (full_url cl url)) w"
  have q: "cl_qps cl \<le> 0" using cl by (simp add: fake_client_def)
  have same: "w_srv ?w = w_srv w" "w_now ?w = w_now w" "w_projects ?w = w_projects w"
    by (simp_all add: limiter_for_def)
  have c': "ctx_error c ?w = None" using c unfolding ctx_error_def same .
  have off': "limiters_off ?w"
    using q off by (auto simp: limiter_for_def limiters_off_def new_limiter_def has_key_iff update_append_fresh)
  have "do_once cl c meth (full_url cl url) body 0 ?w = (Inr (Some (decoded_obj b)),
      ?w\<lparr>w_srv := s', w_now := w_now w + 1, w_sent := w_sent ?w @ [request_of cl meth (full_url cl url) body 0]\<rparr>)"
    using fake_once [OF cl c' rd, of status b s'] sv ok by (simp add: same read_reply_def)
  from client_do_first [OF q off this] show ?thesis
    using off' by (auto simp: after_call_def same limiters_off_def)
qed

section \<open>Reads keep what is stored\<close>

lemma fake_unlimited: "fake_client enc cl \<Longrightarrow> unlimited cl"
  by (auto simp: fake_client_def unlimited_def timely_def fake_transport_def split: option.splits prod.splits if_splits)

lemma serve_get_keeps: "hr_method r = ''GET'' \<Longrightarrow> fs_resources (snd (serve_http s r)) = fs_resources s"
  using route_get_frame [of "s\<lparr>fs_requests := fs_requests s @ [r], fs_fail_next := None\<rparr>" r]
  by (auto simp: serve_http_def Let_def route_def split: option.splits prod.splits)

lemma read_method: "request_read rq = Some r \<Longrightarrow> hr_method r = rq_method rq"
  by (auto simp: request_read_def split: prod.splits option.splits)

lemma get_answer_keeps:
  assumes "fake_client enc cl" "answered cl c rq rep w w'" "rq_method rq = ''GET''"
  shows "fs_resources (w_srv w') = fs_resources (w_srv w)"
proof -
  have "fs_resources s' = fs_resources s" if "fake_transport enc s rq now d = (rep, took, s')" for s now d took s'
    using that assms(3) serve_get_keeps read_method
    by (auto simp: fake_transport_def split: if_splits option.splits prod.splits) (metis snd_conv)+
  with assms(1,2) show ?thesis by (auto simp: answered_def fake_client_def)
qed

lemma gets_keep:
  "hears cl c w tr w' \<Longrightarrow> fake_client enc cl \<Longrightarrow> \<forall>(q, a) \<in> set tr. rq_method q = ''GET'' \<Longrightarrow>
     fs_resources (w_srv w') = fs_resources (w_srv w)"
proof (induction rule: hears.induct)
  case (answer w tr w1 w2 rq rep w3)
  then have "fs_resources (w_srv w3) = fs_resources (w_srv w2)" by (intro get_answer_keeps) auto
  with answer show ?case by (simp add: idle_def)
qed simp

lemma client_get_keeps:
  assumes "fake_client enc cl" "limiters_off w"
  shows "\<exists>r w'. client_do cl c ''GET'' url body w = Some (r, w') \<and> limiters_off w'
    \<and> fs_resources (w_srv w') = fs_resources (w_srv w)"
proof -
  obtain r w' where r: "client_do cl c ''GET'' url body w = Some (r, w')" "limiters_off w'"
    using client_do_returns(1) [OF fake_unlimited [OF assms(1)] assms(2)] unfolding returns_def by blast
  obtain tr where tr: "called cl c (request_of cl ''GET'' (full_url cl url) body 0) w r tr w'"
    using client_do_called [OF r(1)] ..
  have g: "\<forall>(q, a) \<in> set tr. rq_method q = ''GET''" using called_heard(2) [OF tr] by (auto simp: request_of_def)
  obtain w1 where h: "hears cl c w tr w1" "idle w1 w'" using called_heard(1) [OF tr] by (auto simp: heard_by_def)
  from gets_keep [OF h(1) assms(1) g] h(2) r show ?thesis by (auto simp: idle_def)
qed

lemma aliases_keep:
  assumes "fake_client enc (p_client p)" "limiters_off w"
  shows "\<exists>a w'. project_aliases_of p c w = Some (a, w') \<and> limiters_off w' \<and> fs_resources (w_srv w') = fs_resources (w_srv w)"
proof -
  obtain r w' where "client_do (p_client p) c ''GET''
      ((if st_resource_manager_base_url (p_settings p) = [] then resource_manager_base_url
                  else st_resource_manager_base_url (p_settings p)) @ ''v3/projects/'' @ st_project (p_settings p)) None w = Some (r, w')"
      "limiters_off w'" "fs_resources (w_srv w') = fs_resources (w_srv w)"
    using client_get_keeps [OF assms] by blast
  then show ?thesis using assms(2)
    by (cases r) (auto simp: project_aliases_of_def Let_def log_err_def limiters_off_def split: option.split)
qed

lemma declared_only_keeps: "w_srv (snd (declared_only ty attrs w)) = w_srv w"
proof -
  have "w_srv (fold (drop_undeclared ty) ns w) = w_srv w" for ns
    by (induction ns arbitrary: w) (simp_all add: drop_undeclared_def Let_def log_err_def)
  then show ?thesis by (simp add: declared_only_def)
qed

lemma reconcile_keeps:
  assumes "fake_client enc (p_client p)" "limiters_off w"
  shows "\<exists>rec w'. reconcile_with_aliases p c lvl ref inc w = Some (rec, w') \<and> limiters_off w'
    \<and> fs_resources (w_srv w') = fs_resources (w_srv w)"
  using aliases_keep [OF assms, of c] assms(2) by (auto simp: reconcile_with_aliases_def Let_def)

lemma state_from_keeps:
  assumes "fake_client enc (p_client p)" "limiters_off w"
  shows "\<exists>st w'. state_from p c ty cur idAttrs body w = Some (st, w') \<and> limiters_off w'
    \<and> fs_resources (w_srv w') = fs_resources (w_srv w)"
proof -
  let ?b = "case body of Some m \<Rightarrow> m | None \<Rightarrow> []"
  obtain rid w1 where w1: "(case provider_id (p_ext p) ty ?b (with_scope p idAttrs) of
              Inr r \<Rightarrow> (r, w)
            | Inl e \<Rightarrow> (rs_provider_id cur,
                log_err ''gcp: %s: the response's identity could not be reduced to a provider id (%v); keeping the id this resource was read at''
                  [t_name ty] (Some e) w)) = (rid, w1)" by fastforce
  have same: "limiters_off w1" "w_srv w1 = w_srv w"
    using w1 assms(2) by (auto simp: log_err_def limiters_off_def split: sum.splits)
  obtain rec w2 where w2: "reconcile_with_aliases p c (t_attributes ty) (rs_attributes cur)
       (schema_attrs (p_ext p) (t_attributes ty) ?b) w1 = Some (rec, w2)" "limiters_off w2"
      "fs_resources (w_srv w2) = fs_resources (w_srv w)"
    using reconcile_keeps [OF assms(1) same(1)] same(2) by fastforce
  let ?attrs = "short_name_from_own_id ty rid (keep_create_only ty (rs_attributes cur)
      (overlay (overlay [] (declared_id_attrs (t_attributes ty) idAttrs)) rec)) (vget (rs_attributes cur) ''name'')"
  obtain out w3 where w3: "declared_only ty ?attrs w2 = (out, w3)" by fastforce
  have "limiters_off w3" "w_srv w3 = w_srv w2"
    using declared_only_off [OF w3] declared_only_keeps [of ty ?attrs w2] w2(2) w3 by simp_all
  moreover have "state_from p c ty cur idAttrs body w
      = Some (\<lparr>rs_address = [], rs_type = rs_type cur, rs_provider_id = rid, rs_attributes = out\<rparr>, w3)"
    using w1 w2(1) w3 by (simp add: state_from_def Let_def)
  ultimately show ?thesis using w2(3) by simp
qed

end
