(* ===== verification/FakeListing.thy ===== *)
theory FakeListing
  imports FakeStore
begin

text \<open>
  Listing a collection of the in-process Google Cloud through the provider: the pages the fake
  cuts and the loop of \<open>listOneType\<close> that follows their tokens.
\<close>

section \<open>Page tokens\<close>

lemma digits_value_snoc: "digits_value (s @ [c]) = digits_value s * 10 + (int (of_char c) - 48)"
  by (simp add: digits_value_def)

lemma digit_char: "d < 10 \<Longrightarrow> is_digit (char_of (48 + d)) \<and> int (of_char (char_of (48 + d) :: char)) - 48 = int d"
  by (simp add: is_digit_def)

lemma digits_of_value: "digits_value (digits_of n) = int n \<and> list_all is_digit (digits_of n) \<and> digits_of n \<noteq> []"
proof (induction n rule: digits_of.induct)
  case (1 n)
  show ?case
  proof (cases "n < 10")
    case True
    then show ?thesis using digit_char [of n] by (simp add: digits_of.simps [of n] digits_value_def)
  next
    case False
    have "int (n div 10) * 10 + int (n mod 10) = int n" using div_mult_mod_eq [of n 10] by linarith
    then show ?thesis
      using False 1 digit_char [of "n mod 10"] by (simp add: digits_of.simps [of n] digits_value_snoc)
  qed
qed

lemma digit_plain:
  "is_digit c \<Longrightarrow> c \<notin> set ''+-%&=;?#'' \<and> is_unreserved c"
  by (auto simp: is_digit_def is_unreserved_def is_alnum_def Let_def)

lemma digits_of_plain: "c \<in> set (digits_of n) \<Longrightarrow> c \<notin> set ''+-%&=;?#'' \<and> is_unreserved c"
  using digits_of_value [of n] digit_plain by (auto simp: list_all_iff)

lemma atoi_digits:
  assumes "int n < 2 ^ 63"
  shows "atoi (digits_of n) = Some (int n)"
proof -
  obtain c cs where d: "digits_of n = c # cs" using digits_of_value [of n] by (cases "digits_of n") auto
  then have "c \<noteq> CHR ''-''" "c \<noteq> CHR ''+''" using digits_of_plain [of c n] by auto
  moreover have "digits_value (c # cs) = int n" "list_all is_digit (c # cs)"
    using digits_of_value [of n] by (simp_all only: d)
  ultimately show ?thesis unfolding d using assms by (simp add: atoi_def Let_def)
qed

lemma digits_of_inj: "digits_of m = digits_of n \<Longrightarrow> m = n"
  by (metis digits_of_value of_nat_eq_iff)

lemma query_escape_digits: "query_escape (digits_of n) = digits_of n"
proof -
  have "(\<forall>c \<in> set s. is_unreserved c) \<Longrightarrow> query_escape s = s" for s
    by (induction s) (auto simp: query_escape_def)
  then show ?thesis using digits_of_plain by blast
qed

lemma path_unescape_plain: "CHR ''%'' \<notin> set s \<Longrightarrow> path_unescape s = Some s"
  by (induction s rule: path_unescape.induct) auto

lemma query_unescape_plain: "set s \<inter> set ''+%'' = {} \<Longrightarrow> query_unescape s = Some s"
proof -
  assume s: "set s \<inter> set ''+%'' = {}"
  then have "map (\<lambda>c. if c = CHR ''+'' then CHR '' '' else c) s = s" by (induction s) auto
  then show ?thesis using s path_unescape_plain [of s] by (simp add: query_unescape_def)
qed

lemma token_query: "parse_query (''pageToken='' @ digits_of n) = [(''pageToken'', [digits_of n])]"
proof -
  have plain: "set (digits_of n) \<inter> set ''+-%&=;?#'' = {}" using digits_of_plain by blast
  have "split_on (CHR ''&'') (''pageToken='' @ digits_of n) = [''pageToken='' @ digits_of n]"
    by (rule split_on_no_sep) (use plain in auto)
  moreover have "str_cut (''pageToken='' @ digits_of n) ''='' = (''pageToken'', digits_of n, True)"
    using str_index_append [of "CHR ''=''" "''pageToken''" "digits_of n"] by (simp add: str_cut_def)
  moreover have "query_unescape (digits_of n) = Some (digits_of n)"
    by (rule query_unescape_plain) (use plain in auto)
  moreover have "query_unescape ''pageToken'' = Some ''pageToken''" by (rule query_unescape_plain) simp
  ultimately show ?thesis using plain by (simp add: parse_query_def query_pair_def)
qed

section \<open>The request of a page\<close>

text \<open>A url as the provider builds them: a host, and an escaped path that says where.\<close>

definition plain_url :: "string \<Rightarrow> string \<Rightarrow> bool" where
  "plain_url u path \<longleftrightarrow> (\<exists>host rest. u = ''https://'' @ host @ CHR ''/'' # rest \<and> set host \<inter> set ''/?#'' = {}
     \<and> set rest \<inter> set ''?#'' = {} \<and> path_unescape (CHR ''/'' # rest) = Some path)"

lemma plain_url_read:
  assumes u: "plain_url u path" and tok: "tail = [] \<or> hd tail = CHR ''?''"
  shows "\<exists>escaped host. split_url (u @ tail) = (host, escaped) \<and> path_unescape escaped = Some path"
proof -
  from u obtain host rest where h: "u = ''https://'' @ host @ CHR ''/'' # rest" "set host \<inter> set ''/?#'' = {}"
      "set rest \<inter> set ''?#'' = {}" "path_unescape (CHR ''/'' # rest) = Some path"
    by (auto simp: plain_url_def)
  let ?body = "host @ CHR ''/'' # rest @ tail"
  have cut: "str_cut (u @ tail) ''://'' = (''https'', ?body, True)"
    by (simp add: h(1) str_cut_def has_prefix_def)
  have auth: "takeWhile (\<lambda>c. c \<notin> set ''/?#'') ?body = host"
    using h(2) by (subst takeWhile_append2) auto
  have "takeWhile (\<lambda>c. c \<notin> set ''?#'') (rest @ tail) = rest @ takeWhile (\<lambda>c. c \<notin> set ''?#'') tail"
    by (rule takeWhile_append2) (use h(3) in auto)
  moreover have "takeWhile (\<lambda>c. c \<notin> set ''?#'') tail = []" using tok by (cases tail) auto
  ultimately have "takeWhile (\<lambda>c. c \<notin> set ''?#'') (CHR ''/'' # rest @ tail) = CHR ''/'' # rest" by simp
  moreover have "drop (length host) ?body = CHR ''/'' # rest @ tail" by simp
  ultimately have "split_url (u @ tail) = (hostname host, CHR ''/'' # rest)"
    unfolding split_url_def cut prod.case Let_def if_True auth by metis
  then show ?thesis using h(4) by blast
qed

lemma plain_url_marks: "plain_url u path \<Longrightarrow> CHR ''?'' \<notin> set u \<and> CHR ''#'' \<notin> set u"
  by (auto simp: plain_url_def)

text \<open>The token of the page from an offset: none for the first.\<close>

definition page_token :: "nat \<Rightarrow> string" where
  "page_token n = (if n = 0 then [] else digits_of n)"

lemma page_url_read:
  assumes u: "plain_url u path" and rq: "rq_url rq = page_url u (page_token n)" "rq_method rq = ''GET''" "rq_body rq = None"
  shows "\<exists>escaped. request_read rq = Some \<lparr>hr_method = ''GET'', hr_path = path, hr_escaped = escaped,
     hr_query = (if n = 0 then [] else [(''pageToken'', [digits_of n])]), hr_body = NoBody\<rparr>"
proof -
  note marks = plain_url_marks [OF u]
  have cs: "str_contains u ''?'' = False" using marks str_index_notin [of u "CHR ''?''"] by (simp add: str_contains_def)
  define tail where "tail = (if n = 0 then [] else CHR ''?'' # ''pageToken='' @ digits_of n)"
  have ne: "digits_of n \<noteq> []" using digits_of_value by blast
  have url: "page_url u (page_token n) = u @ tail"
    by (simp add: page_url_def page_token_def cs query_escape_digits tail_def ne)
  have "tail = [] \<or> hd tail = CHR ''?''" by (simp add: tail_def)
  from plain_url_read [OF u this] obtain escaped host where
      sp: "split_url (u @ tail) = (host, escaped)" "path_unescape escaped = Some path" by blast
  have "CHR ''#'' \<notin> set (u @ tail)" using marks digits_of_plain [of "CHR ''#''" n] by (auto simp: tail_def)
  then have "takeWhile (\<lambda>c. c \<noteq> CHR ''#'') (u @ tail) = u @ tail" by (auto simp: takeWhile_eq_all_conv)
  moreover have "str_cut u ''?'' = (u, [], False)"
    using marks str_index_notin [of u "CHR ''?''"] by (simp add: str_cut_def)
  moreover have "str_cut (u @ CHR ''?'' # q) ''?'' = (u, q, True)" for q
    using marks str_index_append [of "CHR ''?''" u q] by (simp add: str_cut_def)
  ultimately have "raw_query (u @ tail) = (if n = 0 then [] else ''pageToken='' @ digits_of n)"
    by (simp add: raw_query_def tail_def)
  then have "parse_query (raw_query (u @ tail)) = (if n = 0 then [] else [(''pageToken'', [digits_of n])])"
    using token_query [of n] by (simp add: parse_query_def query_pair_def)
  then show ?thesis using sp rq by (simp add: request_read_def url)
qed

section \<open>The pages of the fake\<close>

text \<open>A path that the fake answers by listing a collection, and by nothing else.\<close>

definition lists_at :: "server \<Rightarrow> string \<Rightarrow> bool" where
  "lists_at s path \<longleftrightarrow> fs_fail_next s = None \<and> path \<in> set (fs_declared s)
     \<and> \<not> has_suffix path '':searchAllResources'' \<and> \<not> has_suffix (trim_version_prefix path) ''tagBindings''
     \<and> operation_name s path = None \<and> compute_operation_name s path = None"

definition seen_request :: "server \<Rightarrow> http_request \<Rightarrow> server" where
  "seen_request s r = s\<lparr>fs_requests := fs_requests s @ [r], fs_fail_next := None\<rparr>"

lemma seen_request_same [simp]:
  "fs_fail_next (seen_request s r) = None" "fs_declared (seen_request s r) = fs_declared s"
  "operation_name (seen_request s r) p = operation_name s p"
  "compute_operation_name (seen_request s r) p = compute_operation_name s p"
  "collection_items (seen_request s r) p = collection_items s p"
  "list_field_for (seen_request s r) p = list_field_for s p"
  "fs_resources (seen_request s r) = fs_resources s"
  "fs_not_found_remaining (seen_request s r) = fs_not_found_remaining s"
  "fs_has (seen_request s r) p = fs_has s p"
  by (simp_all add: seen_request_def operation_name_def compute_operation_name_def collection_items_def
      collection_keys_def stored_at_def list_field_for_def fs_has_def Let_def)

lemma lists_at_seen: "lists_at s path \<Longrightarrow> lists_at (seen_request s r) path"
  by (simp add: lists_at_def)

lemma paginate_from:
  assumes "n \<le> length items" "int (length items) < 2 ^ 63"
  shows "paginate items (if n = 0 then [] else [(''pageToken'', [digits_of n])])
    = (take 2 (drop n items), if n + 2 < length items then digits_of (n + 2) else [])"
proof -
  let ?q = "if n = 0 then [] else [(''pageToken'', [digits_of n])]"
  have "int n < 2 ^ 63" using assms by simp
  then have t: "(let tok = query_get ?q ''pageToken''
      in if tok = [] then 0 else case atoi tok of None \<Rightarrow> 0 | Some m \<Rightarrow> if m \<ge> 0 then nat m else 0) = n"
    using digits_of_value [of n] atoi_digits [of n] by (simp add: query_get_def)
  have "min (n + 2) (length items) < length items \<longleftrightarrow> n + 2 < length items" by auto
  then show ?thesis
    using assms(1) t unfolding paginate_def Let_def by (auto simp: page_size_def min_def)
qed

lemma serve_page:
  assumes s: "lists_at s path" and n: "n \<le> length (collection_items s path)" "int (length (collection_items s path)) < 2 ^ 63"
    and r: "hr_method r = ''GET''" "hr_path r = path" "hr_query r = (if n = 0 then [] else [(''pageToken'', [digits_of n])])"
  shows "serve_http s r = ((200, (list_field_for s path, AList (map AObj (take 2 (drop n (collection_items s path)))))
      # (if n + 2 < length (collection_items s path) then [(''nextPageToken'', AStr (digits_of (n + 2)))] else [])),
    seen_request s r)"
proof -
  have ne: "digits_of (n + 2) \<noteq> []" using digits_of_value by blast
  have "route (seen_request s r) r = (page_answer (list_field_for s path) (collection_items s path) (hr_query r), seen_request s r)"
    using s r(1,2) by (simp add: route_def Let_def lists_at_def route_get_def handle_get_def)
  then show ?thesis
    using s paginate_from [OF n] ne by (simp add: serve_http_def lists_at_def seen_request_def Let_def page_answer_def r(3))
qed

section \<open>Following the pages\<close>

text \<open>What discovery reports of one listed item.\<close>

definition item_found :: "ext \<Rightarrow> ctype \<Rightarrow> attrs \<Rightarrow> json \<Rightarrow> discovered list" where
  "item_found x ty sc item =
     (if google_defined_metric ty item then []
      else case provider_id x ty item sc of
          Inl _ \<Rightarrow> []
        | Inr rid \<Rightarrow> [\<lparr>dr_type = t_name ty, dr_provider_id = rid,
            dr_attributes = filter (\<lambda>(n, v). has_key (t_attributes ty) n)
              (overlay (id_attributes x ty rid) (schema_attrs x (t_attributes ty) item)),
            dr_system_owned = fst (system_owned ty item), dr_reason = snd (system_owned ty item)\<rparr>])"

lemma drops_keep:
  "w_srv (fold (drop_undeclared ty) ns w) = w_srv w" "w_limiters (fold (drop_undeclared ty) ns w) = w_limiters w"
  "w_projects (fold (drop_undeclared ty) ns w) = w_projects w"
  by (induction ns arbitrary: w) (auto simp: drop_undeclared_def Let_def log_err_def)

lemma items_found_each:
  "items_found x ty sc items w = (found, w') \<Longrightarrow>
     found = concat (map (item_found x ty sc) items) \<and> w_srv w' = w_srv w \<and> w_limiters w' = w_limiters w"
proof (induction items arbitrary: w found w')
  case (Cons item items)
  show ?case
  proof (cases "google_defined_metric ty item")
    case True
    then show ?thesis using Cons by (simp add: item_found_def)
  next
    case False
    note metric = False
    show ?thesis
    proof (cases "provider_id x ty item sc")
      case (Inl e)
      then show ?thesis
        using metric Cons.prems Cons.IH by (auto simp: item_found_def log_err_def dest!: Cons.IH)
    next
      case (Inr rid)
      obtain as w1 where l: "listed_attributes x ty rid item w = (as, w1)" by fastforce
      obtain rest w2 where r: "items_found x ty sc items w1 = (rest, w2)" by fastforce
      have "as = filter (\<lambda>(n, v). has_key (t_attributes ty) n)
          (overlay (id_attributes x ty rid) (schema_attrs x (t_attributes ty) item))"
          "w_srv w1 = w_srv w" "w_limiters w1 = w_limiters w"
        using l by (auto simp: listed_attributes_def declared_only_def drops_keep)
      then show ?thesis
        using Cons.prems Cons.IH [OF r] metric Inr l r by (auto simp: item_found_def)
    qed
  qed
qed simp

lemma object_items_map: "object_items (map (\<lambda>m. AObj (f m)) ms) = map f ms"
  by (induction ms) auto

lemma decoded_page: "decoded (AList (map AObj ms)) = AList (map (\<lambda>m. AObj (decoded_obj m)) ms)"
  by (simp add: decoded_obj_def comp_def)

lemma pages_followed:
  assumes p: "fake_client enc (p_client p)" and c: "ctx_end c = None" and u: "plain_url coll path"
    and len: "int (length items) < 2 ^ 63"
    and f: "t_list_field ty \<noteq> ''nextPageToken''"
  shows "limiters_off w \<Longrightarrow> lists_at (w_srv w) path \<Longrightarrow> collection_items (w_srv w) path = items \<Longrightarrow>
    list_field_for (w_srv w) path = t_list_field ty \<Longrightarrow> n \<le> length items \<Longrightarrow>
    (\<forall>t \<in> set sn. \<exists>m \<le> n. t = digits_of m) \<Longrightarrow>
    \<exists>w'. list_type_pages p c ty sc coll (page_token n) sn out w
        = Some (Inr (out @ concat (map (\<lambda>m. item_found (p_ext p) ty sc (decoded_obj m)) (drop n items))), w')
      \<and> fs_resources (w_srv w') = fs_resources (w_srv w)"
proof (induction "length items - n" arbitrary: n sn out w rule: less_induct)
  case less
  let ?url = "page_url coll (page_token n)" and ?cl = "p_client p"
  let ?tok = "if n + 2 < length items then [(''nextPageToken'', AStr (digits_of (n + 2)))] else []"
  let ?b = "(t_list_field ty, AList (map AObj (take 2 (drop n items)))) # ?tok"
  have full: "full_url ?cl ?url = ?url"
    using u by (auto simp: full_url_def plain_url_def page_url_def has_prefix_def)
  obtain escaped where rd: "request_read (request_of ?cl ''GET'' ?url None 0) = Some \<lparr>hr_method = ''GET'', hr_path = path,
      hr_escaped = escaped, hr_query = (if n = 0 then [] else [(''pageToken'', [digits_of n])]), hr_body = NoBody\<rparr>"
    using page_url_read [OF u, of "request_of ?cl ''GET'' ?url None 0" n] by (auto simp: request_of_def)
  let ?r = "\<lparr>hr_method = ''GET'', hr_path = path, hr_escaped = escaped,
      hr_query = (if n = 0 then [] else [(''pageToken'', [digits_of n])]), hr_body = NoBody\<rparr>"
  have sv: "serve_http (w_srv w) ?r = ((200, ?b), seen_request (w_srv w) ?r)"
    using serve_page [OF less.prems(2), of n ?r] less.prems(3,4,5) len by simp
  obtain w1 where d: "client_do ?cl c ''GET'' ?url None w = Some (Inr (Some (decoded_obj ?b)), w1)"
      and w1: "after_call w (seen_request (w_srv w) ?r) w1"
    using fake_do [OF p no_ctx_error [OF c] less.prems(1), of "''GET''" ?url None ?r 200 ?b] rd sv unfolding full by auto
  have li: "list_items (Some (decoded_obj ?b)) (t_list_field ty) = map decoded_obj (take 2 (drop n items))"
    unfolding list_items_def jget_def decoded_obj_def [of ?b] by (simp only: list.map prod.case decoded_page option.case
        map_of.simps fst_conv snd_conv if_True fun_upd_same any.case object_items_map)
  have nt: "any_str (jget (Some (decoded_obj ?b)) ''nextPageToken'') = (if n + 2 < length items then digits_of (n + 2) else [])"
    using f by (simp add: jget_def decoded_obj_def any_str_def)
  obtain found w2 where fnd: "items_found (p_ext p) ty sc (map decoded_obj (take 2 (drop n items))) w1 = (found, w2)"
    by fastforce
  from items_found_each [OF fnd] have found: "found = concat (map (\<lambda>m. item_found (p_ext p) ty sc (decoded_obj m)) (take 2 (drop n items)))"
      and w2: "w_srv w2 = seen_request (w_srv w) ?r" "limiters_off w2"
    using w1 by (auto simp: comp_def after_call_def limiters_off_def)
  show ?case
  proof (cases "n + 2 < length items")
    case False
    then have "drop n items = take 2 (drop n items)" by simp
    then show ?thesis
      using d fnd found w2 nt False li by (subst list_type_pages.simps) (simp add: Let_def)
  next
    case True
    have ne: "digits_of (n + 2) \<noteq> []" using digits_of_value by blast
    have new: "digits_of (n + 2) \<notin> set sn" using less.prems(6) digits_of_inj by fastforce
    have "list_type_pages p c ty sc coll (page_token n) sn out w
        = list_type_pages p c ty sc coll (digits_of (n + 2)) (digits_of (n + 2) # sn) (out @ found) w2"
      using d fnd nt True ne new li by (subst list_type_pages.simps) (simp add: Let_def)
    moreover have "\<exists>w'. list_type_pages p c ty sc coll (page_token (n + 2)) (digits_of (n + 2) # sn) (out @ found) w2
        = Some (Inr ((out @ found) @ concat (map (\<lambda>m. item_found (p_ext p) ty sc (decoded_obj m)) (drop (n + 2) items))), w')
        \<and> fs_resources (w_srv w') = fs_resources (w_srv w2)"
    proof (rule less.hyps)
      show "length items - (n + 2) < length items - n" using True by simp
      show "lists_at (w_srv w2) path" using less.prems(2) by (simp add: w2(1) lists_at_seen)
      show "\<forall>t \<in> set (digits_of (n + 2) # sn). \<exists>m \<le> n + 2. t = digits_of m"
      proof
        fix t assume "t \<in> set (digits_of (n + 2) # sn)"
        then have "t = digits_of (n + 2) \<or> (\<exists>m \<le> n. t = digits_of m)" using less.prems(6) by auto
        then show "\<exists>m \<le> n + 2. t = digits_of m" by (metis order_refl trans_le_add1)
      qed
    qed (use w2 less.prems True in simp_all)
    moreover have "drop n items = take 2 (drop n items) @ drop (n + 2) items"
      by (metis append_take_drop_id drop_drop add.commute)
    then have "concat (map (\<lambda>m. item_found (p_ext p) ty sc (decoded_obj m)) (drop n items))
        = found @ concat (map (\<lambda>m. item_found (p_ext p) ty sc (decoded_obj m)) (drop (n + 2) items))"
      by (metis found map_append concat_append)
    ultimately show ?thesis by (simp add: page_token_def w2(1))
  qed
qed

text \<open>
  C14. Listing a type of a project finds every resource of its collection, once and in the order
  of their paths, however many pages it takes: against the in-process Google Cloud the loop over
  the page tokens ends, reports what discovery reports of each stored item, and changes nothing.
\<close>

theorem listing_complete:
  assumes "fake_client enc (p_client p)" "ctx_end c = None" "limiters_off w"
    and "expand_url (p_ext p) (t_base_url ty) (scope_attrs p project) = Inr rel" "plain_url (abs_url ty rel) path"
    and "lists_at (w_srv w) path" "list_field_for (w_srv w) path = t_list_field ty" "t_list_field ty \<noteq> ''nextPageToken''"
    and "int (length (collection_items (w_srv w) path)) < 2 ^ 63"
  shows "\<exists>w'. list_one_type p c project ty w
      = Some (Inr (concat (map (\<lambda>m. item_found (p_ext p) ty (scope_attrs p project) (decoded_obj m))
          (collection_items (w_srv w) path))), w')
    \<and> fs_resources (w_srv w') = fs_resources (w_srv w)"
  using pages_followed [OF assms(1,2,5,9,8,3,6) refl assms(7), of 0 "[]" "scope_attrs p project" "[]"] assms(4)
  by (simp add: list_one_type_def page_token_def)

section \<open>Three topics\<close>

definition topic_json :: "string \<Rightarrow> json" where
  "topic_json n = [(''name'', AStr (''projects/p/topics/'' @ n))]"

definition topic_server :: server where
  "topic_server = (new_server ''http://127.0.0.1'')\<lparr>
     fs_resources := map (\<lambda>n. (''/v1/projects/p/topics/'' @ n, topic_json n)) [''t'', ''a'', ''c''],
     fs_declared := [''/v1/projects/p/topics''], fs_list_fields := [(''/v1/projects/p/topics'', ''topics'')]\<rparr>"

definition topic_provider :: "server gcp_provider" where
  "topic_provider = new_provider sample_settings sample_catalog
     (new_client sample_ext (fake_transport (\<lambda>_. [])) (\<lambda>n m. 0) [] [] 0 0 None 0)"

definition topic_world :: "server world" where
  "topic_world = \<lparr>w_srv = topic_server, w_now = 0, w_draws = 0, w_log = [], w_sent = [], w_limiters = [],
     w_seen = [], w_projects = None\<rparr>"

lemma topic_provider_sel [simp]: "p_ext topic_provider = sample_ext" "fake_client (\<lambda>_. []) (p_client topic_provider)"
  by (simp_all add: topic_provider_def new_provider_def new_client_def fake_client_def client_timeout_def
      default_timeout_def second_def)

theorem listing_complete_witness:
  "\<exists>w'. list_one_type topic_provider background ''p'' topic_type topic_world
      = Some (Inr (concat (map (\<lambda>n. item_found sample_ext topic_type (scope_attrs topic_provider ''p'') (topic_json n))
          [''a'', ''c'', ''t''])), w')"
proof -
  have sc: "scope_attrs topic_provider ''p'' = [(''project'', v_string ''p'' SourceProvider)]"
    by (simp add: scope_attrs_def topic_provider_def new_provider_def sample_settings_def)
  have url: "expand_url (p_ext topic_provider) (t_base_url topic_type) (scope_attrs topic_provider ''p'') = Inr ''projects/p/topics''"
    by (simp add: sc eval_template sample_ext_def vget_def)
  have abs: "abs_url topic_type ''projects/p/topics'' = ''https://api.example.com/v1/projects/p/topics''"
    by (simp add: abs_url_def base_url_for_def)
  have plain: "plain_url (abs_url topic_type ''projects/p/topics'') ''/v1/projects/p/topics''"
    unfolding abs plain_url_def
    by (intro exI [of _ "''api.example.com''"] exI [of _ "''v1/projects/p/topics''"]) simp
  have lists: "lists_at (w_srv topic_world) ''/v1/projects/p/topics''" by code_simp
  have items: "collection_items (w_srv topic_world) ''/v1/projects/p/topics'' = map topic_json [''a'', ''c'', ''t'']"
    by code_simp
  have d: "decoded_obj (topic_json n) = topic_json n" for n by (simp add: decoded_obj_def topic_json_def)
  have field: "list_field_for (w_srv topic_world) ''/v1/projects/p/topics'' = t_list_field topic_type"
    by (simp add: topic_world_def topic_server_def list_field_for_def)
  have "ctx_end background = None" "limiters_off topic_world" "t_list_field topic_type \<noteq> ''nextPageToken''"
    by (simp_all add: background_def topic_world_def limiters_off_def)
  moreover have len: "int (length (collection_items (w_srv topic_world) ''/v1/projects/p/topics'')) < 2 ^ 63"
    unfolding items by simp
  ultimately show ?thesis
    using listing_complete [OF topic_provider_sel(2) _ _ url plain lists field _ len]
    unfolding items list.map d topic_provider_sel by blast
qed

end
