(* ===== verification/Reported.thy ===== *)
theory Reported
  imports Outcomes
begin

text \<open>
  What a state reports of the object it was read from (\<open>stateFrom\<close> of internal/gcprov/crud.go),
  attribute by attribute: a plain attribute is reported as the object says it, and nothing is
  reported that neither the object, nor the id, nor the state it was read at names.
\<close>

section \<open>Names that come from the wire\<close>

lemma to_schema_cases:
  assumes "wf_map lvl" "map_of lvl n = Some a" "to_schema lvl k = n"
  shows "k = n \<or> k = a_canonical a"
proof (cases "map_option a_canonical (map_of lvl k) = Some k")
  case True
  with assms(3) show ?thesis by (simp add: to_schema_def)
next
  case False
  then have f: "(case find_canonical lvl k of Some (k, a) \<Rightarrow> k | None \<Rightarrow> k) = n"
    using assms(3) by (simp only: to_schema_def if_False)
  show ?thesis
  proof (cases "find_canonical lvl k")
    case (Some kb)
    with f obtain b where "find_canonical lvl k = Some (n, b)" by (cases kb) simp
    then have "(n, b) \<in> set lvl" "a_canonical b = k"
      by (auto simp: find_canonical_def find_Some_iff in_set_conv_nth)
    with assms(1,2) show ?thesis using wf_map_lookup [OF assms(1)] by force
  qed (use f in simp)
qed

lemma schema_pairs_map:
  "schema_pairs x lvl m = map (\<lambda>(k, raw). (to_schema lvl k, schema_value x (map_of lvl (to_schema lvl k)) raw)) m"
  by (induction m) auto

lemma wf_overlay_Nil [simp]: "wf_map (overlay [] kvs)"
  by (rule wf_map_overlay) (simp add: wf_map_def)

lemma map_of_overlay_only:
  assumes "(n, v) \<in> set kvs" "\<And>u. (n, u) \<in> set kvs \<Longrightarrow> u = v"
  shows "map_of (overlay m kvs) n = Some v"
  using assms
proof (induction m kvs rule: overlay.induct)
  case (2 m k u kvs)
  show ?case
  proof (cases "n \<in> set (keys kvs)")
    case True
    then obtain u' where "(n, u') \<in> set kvs" by auto
    then have "(n, v) \<in> set kvs" using 2(3) [of u'] by auto
    from 2(1) [OF this 2(3)] show ?thesis by simp
  next
    case False
    with 2(2) have "k = n" "u = v" by force+
    then show ?thesis using map_of_overlay_other [OF False] by (simp add: update_conv')
  qed
qed simp

text \<open>An attribute the body names once, under its wire name.\<close>

lemma schema_attrs_at:
  assumes "level_ok lvl" "map_of lvl n = Some a" "wf_map b" "map_of b (a_canonical a) = Some raw"
    and "a_canonical a = n \<or> map_of b n = None"
  shows "map_of (schema_attrs x lvl b) n = Some (schema_value x (Some a) raw)"
proof -
  have lvl: "wf_map lvl" using assms(1) by (simp add: level_ok_def)
  have ret: "to_schema lvl (a_canonical a) = n"
    using to_schema_to_wire [OF assms(1), of n] assms(2) level_ok_entry(1) [OF assms(1,2)]
    by (simp add: to_wire_def has_key_def)
  show ?thesis unfolding schema_attrs_def schema_pairs_map
  proof (rule map_of_overlay_only)
    show "(n, schema_value x (Some a) raw) \<in> set (map (\<lambda>(k, raw). (to_schema lvl k, schema_value x (map_of lvl (to_schema lvl k)) raw)) b)"
      using map_of_SomeD [OF assms(4)] ret assms(2) by force
    fix u assume "(n, u) \<in> set (map (\<lambda>(k, raw). (to_schema lvl k, schema_value x (map_of lvl (to_schema lvl k)) raw)) b)"
    then obtain k raw' where k: "(k, raw') \<in> set b" "to_schema lvl k = n" "u = schema_value x (Some a) raw'"
      using assms(2) by auto
    from to_schema_cases [OF lvl assms(2) k(2)] assms(5) wf_map_lookup [OF assms(3)] k(1)
    have "k = a_canonical a" by force
    with k(1,3) assms(4) wf_map_lookup [OF assms(3)] show "u = schema_value x (Some a) raw" by force
  qed
qed

lemma schema_attrs_keys:
  assumes "wf_map lvl" "map_of lvl n = Some a" "n \<in> set (keys (schema_attrs x lvl b))"
  shows "n \<in> set (keys b) \<or> a_canonical a \<in> set (keys b)"
proof -
  obtain k raw where "(k, raw) \<in> set b" "to_schema lvl k = n"
    using assms(3) unfolding schema_attrs_def schema_pairs_map keys_overlay by auto
  with to_schema_cases [OF assms(1,2)] show ?thesis by force
qed

lemma id_attrs_keys:
  assumes "wf_map lvl" "map_of lvl n = Some a" "n \<in> set (keys (overlay [] (declared_id_attrs lvl idAttrs)))"
  shows "n \<in> set (keys idAttrs) \<or> a_canonical a \<in> set (keys idAttrs)"
proof -
  obtain k v where "(k, v) \<in> set idAttrs" "to_schema lvl k = n"
    using assms(3) unfolding declared_id_attrs_def keys_overlay by auto
  with to_schema_cases [OF assms(1,2)] show ?thesis by force
qed

section \<open>What is added to an answer\<close>

lemma vget_known: "vknown (vget m n) \<Longrightarrow> map_of m n = Some (vget m n)"
  by (auto simp: vget_def zero_val_def split: option.splits)

lemma carried_at:
  "map_of (fold (\<lambda>na out. carried r na ref inc out) lvl out) n = map_of out n
   \<or> (\<not> has_key inc n \<and> map_of ref n \<noteq> None
      \<and> map_of (fold (\<lambda>na out. carried r na ref inc out) lvl out) n = map_of ref n)"
proof (induction lvl arbitrary: out)
  case (Cons na lvl)
  obtain m a where na: "na = (m, a)" by (cases na)
  let ?out = "carried r na ref inc out"
  have "map_of ?out n = map_of out n \<or> (\<not> has_key inc n \<and> map_of ref n \<noteq> None \<and> map_of ?out n = map_of ref n)"
    using vget_known [of ref n]
    by (auto simp: na carried_def carry_input_only_def carry_omitted_zero_def update_conv' is_zero_def split: option.split)
  with Cons.IH [of ?out] show ?case by auto
qed simp

lemma wf_carried: "wf_map out \<Longrightarrow> wf_map (fold (\<lambda>na out. carried r na ref inc out) lvl out)"
  by (induction lvl arbitrary: out) (auto simp: carried_def split: option.splits prod.splits)

definition answer_side :: "reconciler \<Rightarrow> level \<Rightarrow> attrs \<Rightarrow> attrs \<Rightarrow> attrs" where
  "answer_side r lvl ref inc = map (\<lambda>(n, v). (n, without_reserved_labels (map_of lvl n)
     (reconcile_opt r (map_of lvl n) (vget ref n) v))) inc"

lemma answer_side_at:
  "map_of (answer_side r lvl ref inc) n = map_option (\<lambda>v. without_reserved_labels (map_of lvl n)
     (reconcile_opt r (map_of lvl n) (vget ref n) v)) (map_of inc n)"
  by (induction inc) (auto simp: answer_side_def)

lemma reconcile_level_at:
  "map_of (reconcile_level r lvl ref inc) n = map_of (answer_side r lvl ref inc) n
   \<or> (map_of inc n = None \<and> map_of ref n \<noteq> None \<and> map_of (reconcile_level r lvl ref inc) n = map_of ref n)"
  using carried_at [of r ref inc lvl "answer_side r lvl ref inc" n]
  by (auto simp: reconcile_level_def answer_side_def has_key_def)

lemma wf_reconcile_level: "wf_map inc \<Longrightarrow> wf_map (reconcile_level r lvl ref inc)"
  unfolding reconcile_level_def by (rule wf_carried) (auto simp: wf_map_def comp_def case_prod_beta)

lemma kept_create_only_at:
  "map_of (fold (\<lambda>(name, a) out. if \<not> a_create_only a \<or> has_key out name then out
     else (case map_of prior name of Some v \<Rightarrow> AList.update name v out | None \<Rightarrow> out)) lvl out) n = map_of out n
   \<or> (map_of out n = None \<and> map_of prior n \<noteq> None \<and>
      map_of (fold (\<lambda>(name, a) out. if \<not> a_create_only a \<or> has_key out name then out
       else (case map_of prior name of Some v \<Rightarrow> AList.update name v out | None \<Rightarrow> out)) lvl out) n = map_of prior n)"
proof (induction lvl arbitrary: out)
  case (Cons na lvl)
  obtain m a where na: "na = (m, a)" by (cases na)
  let ?out = "if \<not> a_create_only a \<or> has_key out m then out
     else (case map_of prior m of Some v \<Rightarrow> AList.update m v out | None \<Rightarrow> out)"
  have "map_of ?out n = map_of out n \<or> (map_of out n = None \<and> map_of prior n \<noteq> None \<and> map_of ?out n = map_of prior n)"
    by (auto simp: update_conv' has_key_def split: option.split)
  with Cons.IH [of ?out] show ?case by (auto simp: na)
qed simp

lemma short_name_at:
  "n \<noteq> ''name'' \<Longrightarrow> map_of (short_name_from_own_id ty rid attrs v) n = map_of attrs n"
  "map_of (short_name_from_own_id ty rid attrs v) n = None \<longleftrightarrow> map_of attrs n = None"
  by (auto simp: short_name_from_own_id_def update_conv' Let_def split: option.split)

lemma map_of_filter_fst: "map_of (filter (\<lambda>(n, v). P n) m) n = (if P n then map_of m n else None)"
  by (induction m) auto

section \<open>The state\<close>

text \<open>
  The attribute \<open>n\<close> of a type holds one value of the object, which its schema neither nests nor
  compares in a way of its own: a string (that is not a project's name, which has two spellings),
  a boolean or an integer, of the kind the schema gives it.
\<close>

definition plainly_says :: "ctype \<Rightarrow> json \<Rightarrow> string \<Rightarrow> val \<Rightarrow> bool" where
  "plainly_says ty m n v \<longleftrightarrow> n \<noteq> ''name'' \<and> (\<exists>a raw. map_of (t_attributes ty) n = Some a
     \<and> \<not> a_opaque a \<and> a_fields a = [] \<and> a_elem a = None \<and> a_equivalence a = []
     \<and> map_of m (a_canonical a) = Some raw \<and> (a_canonical a = n \<or> map_of m n = None)
     \<and> ((\<exists>t. raw = AStr t \<and> a_kind a = KString \<and> \<not> looks_like_a_project_name t \<and> v = Val KString True (AStr t) SourceProvider)
       \<or> (\<exists>b. raw = ABool b \<and> a_kind a = KBool \<and> v = Val KBool True (ABool b) SourceProvider)
       \<or> (\<exists>i. (raw = AInt i \<or> raw = AFloat (of_int i) \<and> whole_int64 (of_int i)) \<and> a_kind a = KInt
            \<and> v = Val KInt True (AInt i) SourceProvider)))"

text \<open>
  A state reports an object: what the object plainly says, under the attribute's name; and
  otherwise only attributes the object names, the id names, or the state it was read at holds,
  those then unchanged.
\<close>

definition reports_object :: "ctype \<Rightarrow> attrs \<Rightarrow> attrs \<Rightarrow> json \<Rightarrow> attrs \<Rightarrow> bool" where
  "reports_object ty idAttrs prior m attrs \<longleftrightarrow>
     (\<forall>n v. plainly_says ty m n v \<longrightarrow> map_of attrs n = Some v)
     \<and> (\<forall>n \<in> set (keys attrs). \<exists>a. map_of (t_attributes ty) n = Some a
          \<and> (n \<in> set (keys m) \<or> a_canonical a \<in> set (keys m) \<or> n \<in> set (keys idAttrs) \<or> a_canonical a \<in> set (keys idAttrs)
             \<or> (n \<in> set (keys prior) \<and> (n \<noteq> ''name'' \<longrightarrow> map_of attrs n = map_of prior n))))"

lemma plain_reconciled:
  assumes "\<not> a_opaque a" "a_fields a = []" "a_elem a = None" "a_equivalence a = []"
    and "(\<exists>t. v = Val KString True (AStr t) SourceProvider \<and> a_kind a = KString \<and> \<not> looks_like_a_project_name t)
      \<or> (\<exists>b. v = Val KBool True (ABool b) SourceProvider \<and> a_kind a = KBool)
      \<or> (\<exists>i. v = Val KInt True (AInt i) SourceProvider \<and> a_kind a = KInt)"
  shows "without_reserved_labels (Some a) (reconcile_opt r (Some a) ref v) = v"
proof -
  obtain inf fs e where a: "a = Attr inf fs e" by (cases a)
  have "reconcile_value r a ref v = v"
    using assms
    by (auto simp: a reconcile_value.simps same_by_equivalence_def same_project_spelling_def as_declared_kind_def asks_project_def
        raw_str_def split: option.split)
  moreover have "without_reserved_labels (Some a) v = v"
    using assms by (auto simp: a without_reserved_labels.simps)
  ultimately show ?thesis by (simp add: reconcile_opt_def)
qed

lemma plain_schema_value:
  assumes "\<not> a_opaque a" "a_fields a = []" "a_elem a = None"
  shows "schema_value x (Some a) raw = from_raw x raw"
  using assms by (cases raw) (auto simp: schema_value.simps)

lemma state_from_reports:
  assumes "level_ok (t_attributes ty)" "wf_map b"
    and s: "state_from p c ty cur idAttrs (Some b) w = Some (st, w')"
  shows "rs_type st = rs_type cur \<and> reports_object ty idAttrs (rs_attributes cur) b (rs_attributes st)
    \<and> (case provider_id (p_ext p) ty b (with_scope p idAttrs) of
         Inr rid \<Rightarrow> rs_provider_id st = rid | Inl e \<Rightarrow> rs_provider_id st = rs_provider_id cur)"
proof -
  let ?lvl = "t_attributes ty" and ?inc = "schema_attrs (p_ext p) (t_attributes ty) b" and ?prior = "rs_attributes cur"
    and ?ida = "overlay [] (declared_id_attrs (t_attributes ty) idAttrs)"
  have lvl: "wf_map ?lvl" using assms(1) by (simp add: level_ok_def)
  obtain rid r where st: "rs_type st = rs_type cur" "rs_provider_id st = rid"
      "rs_attributes st = filter (\<lambda>(n, v). has_key ?lvl n)
         (short_name_from_own_id ty rid (keep_create_only ty ?prior (overlay ?ida (reconcile_level r ?lvl ?prior ?inc)))
            (vget ?prior ''name''))"
    and rid: "case provider_id (p_ext p) ty b (with_scope p idAttrs) of Inr r \<Rightarrow> rid = r | Inl e \<Rightarrow> rid = rs_provider_id cur"
    using s by (auto simp: state_from_def Let_def reconcile_with_aliases_def bind_eq_Some_conv declared_only_def
        split: sum.splits if_splits)
  let ?rec = "reconcile_level r ?lvl ?prior ?inc"
  let ?over = "overlay ?ida ?rec"
  let ?kept = "keep_create_only ty ?prior ?over"
  let ?short = "short_name_from_own_id ty rid ?kept (vget ?prior ''name'')"
  have wf: "wf_map ?rec" by (rule wf_reconcile_level) (simp add: schema_attrs_def)
  have fin: "map_of (rs_attributes st) n = (if has_key ?lvl n then map_of ?short n else None)" for n
    unfolding st(3) by (rule map_of_filter_fst)
  have over: "map_of ?over n = (case map_of ?rec n of None \<Rightarrow> map_of ?ida n | Some v \<Rightarrow> Some v)" for n
    by (rule map_of_overlay [OF wf])
  have kept: "map_of ?kept n = map_of ?over n
      \<or> (map_of ?over n = None \<and> map_of ?prior n \<noteq> None \<and> map_of ?kept n = map_of ?prior n)" for n
    unfolding keep_create_only_def by (rule kept_create_only_at)
  have says: "map_of (rs_attributes st) n = Some v" if pl: "plainly_says ty b n v" for n v
  proof -
    obtain a raw where a: "map_of ?lvl n = Some a" "\<not> a_opaque a" "a_fields a = []" "a_elem a = None" "a_equivalence a = []"
        "map_of b (a_canonical a) = Some raw" "a_canonical a = n \<or> map_of b n = None" "n \<noteq> ''name''"
      and v: "(\<exists>t. raw = AStr t \<and> a_kind a = KString \<and> \<not> looks_like_a_project_name t \<and> v = Val KString True (AStr t) SourceProvider)
       \<or> (\<exists>b. raw = ABool b \<and> a_kind a = KBool \<and> v = Val KBool True (ABool b) SourceProvider)
       \<or> (\<exists>i. (raw = AInt i \<or> raw = AFloat (of_int i) \<and> whole_int64 (of_int i)) \<and> a_kind a = KInt
            \<and> v = Val KInt True (AInt i) SourceProvider)"
      using pl unfolding plainly_says_def by blast
    have "from_raw (p_ext p) raw = v" using v by (auto simp: v_string_def v_bool_def v_int_def)
    then have inc: "map_of ?inc n = Some v"
      using schema_attrs_at [OF assms(1) a(1) assms(2) a(6,7)] plain_schema_value [OF a(2-4)] by simp
    have "without_reserved_labels (Some a) (reconcile_opt r (Some a) (vget ?prior n) v) = v"
      by (rule plain_reconciled [OF a(2-5)]) (use v in blast)
    then have "map_of ?rec n = Some v"
      using reconcile_level_at [of r ?lvl ?prior ?inc n] by (auto simp: inc answer_side_at a(1))
    with over [of n] kept [of n] have "map_of ?kept n = Some v" by auto
    then show ?thesis using fin [of n] short_name_at(1) [OF a(8)] a(1) by (simp add: has_key_def)
  qed
  have only: "\<exists>a. map_of ?lvl n = Some a
      \<and> (n \<in> set (keys b) \<or> a_canonical a \<in> set (keys b) \<or> n \<in> set (keys idAttrs) \<or> a_canonical a \<in> set (keys idAttrs)
         \<or> (n \<in> set (keys ?prior) \<and> (n \<noteq> ''name'' \<longrightarrow> map_of (rs_attributes st) n = map_of ?prior n)))"
    if n: "n \<in> set (keys (rs_attributes st))" for n
  proof -
    have "map_of (rs_attributes st) n \<noteq> None" using n by (simp add: map_of_eq_None_iff)
    with fin [of n] obtain a where a: "map_of ?lvl n = Some a" "map_of ?short n \<noteq> None"
      by (auto simp: has_key_def split: if_splits)
    then have "map_of ?kept n \<noteq> None" by (simp add: short_name_at(2))
    moreover have f: "n \<noteq> ''name'' \<Longrightarrow> map_of (rs_attributes st) n = map_of ?kept n"
      using fin [of n] short_name_at(1) a(1) by (simp add: has_key_def)
    ultimately consider "map_of ?inc n \<noteq> None" | "map_of ?ida n \<noteq> None"
      | "map_of ?prior n \<noteq> None" "map_of ?kept n = map_of ?prior n"
      using kept [of n] over [of n] reconcile_level_at [of r ?lvl ?prior ?inc n]
      by (cases "map_of ?inc n"; cases "map_of ?ida n") (auto simp: answer_side_at split: option.splits)
    then show ?thesis
    proof cases
      case 1
      then have "n \<in> set (keys ?inc)" by (simp add: map_of_eq_None_iff)
      from schema_attrs_keys [OF lvl a(1) this] a(1) show ?thesis by blast
    next
      case 2
      then have "n \<in> set (keys ?ida)" by (simp add: map_of_eq_None_iff)
      from id_attrs_keys [OF lvl a(1) this] a(1) show ?thesis by blast
    next
      case 3
      then have "n \<in> set (keys ?prior)" by (simp add: map_of_eq_None_iff)
      with 3 f a(1) show ?thesis by auto
    qed
  qed
  from says only st(1,2) rid show ?thesis by (auto simp: reports_object_def split: sum.splits)
qed

end
