(* ===== verification/FakeLife.thy ===== *)
theory FakeLife
  imports FakeListing Reported
begin

text \<open>
  The provider's operations on one resource of the in-process Google Cloud, as operations on the
  map from paths to what is stored.
\<close>

section \<open>An item of the fake\<close>

text \<open>A path at which the fake serves one item, synchronously and with no failure arranged.\<close>

definition serves_item :: "server \<Rightarrow> string \<Rightarrow> bool" where
  "serves_item s path \<longleftrightarrow> fs_fail_next s = None \<and> fs_style_for s = (\<lambda>_ _. None) \<and> fs_op_style s = OpSync
     \<and> path \<notin> set (fs_declared s) \<and> path \<notin> set (fs_delete_then_fail s)
     \<and> map_of (fs_not_found_remaining s) path = None
     \<and> \<not> has_suffix path '':searchAllResources'' \<and> \<not> has_suffix (trim_version_prefix path) ''tagBindings''
     \<and> after_last (CHR ''/'') path \<noteq> ''delete''
     \<and> operation_name s path = None \<and> compute_operation_name s path = None"

abbreviation stored :: "server world \<Rightarrow> string \<Rightarrow> json option" where
  "stored w \<equiv> map_of (fs_resources (w_srv w))"

text \<open>What the rest of a request changes of the server.\<close>

definition same_items :: "server \<Rightarrow> server \<Rightarrow> bool" where
  "same_items s s' \<longleftrightarrow> (\<exists>rs res. s' = s\<lparr>fs_requests := rs, fs_fail_next := None, fs_resources := res\<rparr>)"

lemma serves_item_same: "same_items s s' \<Longrightarrow> serves_item s path \<Longrightarrow> serves_item s' path"
  by (auto simp: same_items_def serves_item_def operation_name_def compute_operation_name_def Let_def)

lemma same_items_trans: "same_items s s' \<Longrightarrow> same_items s' s'' \<Longrightarrow> same_items s s''"
proof -
  assume "same_items s s'" "same_items s' s''"
  then obtain rs res rs' res' where "s' = s\<lparr>fs_requests := rs, fs_fail_next := None, fs_resources := res\<rparr>"
      "s'' = s'\<lparr>fs_requests := rs', fs_fail_next := None, fs_resources := res'\<rparr>"
    by (auto simp: same_items_def)
  then have "s'' = s\<lparr>fs_requests := rs', fs_fail_next := None, fs_resources := res'\<rparr>" by simp
  then show ?thesis unfolding same_items_def by blast
qed

lemma same_items_seen [simp]: "same_items s (seen_request s r)"
  unfolding same_items_def seen_request_def
  by (intro exI [of _ "fs_requests s @ [r]"] exI [of _ "fs_resources s"]) simp

text \<open>A request to an item: its path, and no query.\<close>

definition item_request :: "string \<Rightarrow> string \<Rightarrow> body \<Rightarrow> http_request \<Rightarrow> bool" where
  "item_request meth path b r \<longleftrightarrow> hr_method r = meth \<and> hr_path r = path \<and> hr_query r = [] \<and> hr_body r = b"

lemma plain_request_read:
  assumes u: "plain_url u path" and b: "body = None \<or> (\<exists>m. body = Some (AObj m))"
  shows "\<exists>r. request_read (request_of cl meth u body 0) = Some r
    \<and> item_request meth path (case body of Some (AObj m) \<Rightarrow> Object (decoded_obj m) | _ \<Rightarrow> NoBody) r"
proof -
  note marks = plain_url_marks [OF u]
  obtain escaped host where sp: "split_url u = (host, escaped)" "path_unescape escaped = Some path"
    using plain_url_read [OF u, of "[]"] by auto
  have all: "takeWhile (\<lambda>c. c \<noteq> CHR ''#'') u = u" using marks by (auto simp: takeWhile_eq_all_conv)
  have cut: "str_cut u ''?'' = (u, [], False)"
    using marks str_index_notin [of u "CHR ''?''"] by (simp add: str_cut_def)
  have "raw_query u = []" by (simp only: raw_query_def all cut prod.case)
  moreover have "parse_query [] = []" by (simp add: parse_query_def query_pair_def)
  ultimately show ?thesis
    using b sp by (auto simp: request_read_def request_of_def item_request_def)
qed

lemma item_addressed_plain: "hr_query r = [] \<Longrightarrow> item_addressed s r = hr_path r"
  by (simp add: item_addressed_def Let_def)

lemma serve_get:
  assumes "serves_item s path" "item_request ''GET'' path NoBody r"
  shows "serve_http s r = (case map_of (fs_resources s) path of
      None \<Rightarrow> (write_not_found path, seen_request s r) | Some m \<Rightarrow> ((200, m), seen_request s r))"
proof -
  have "serve_http s r = route (seen_request s r) r"
    using assms(1) by (simp add: serve_http_def serves_item_def seen_request_def Let_def)
  also have "\<dots> = handle_get (seen_request s r) r"
    using assms by (simp add: route_def route_get_def Let_def serves_item_def item_request_def)
  finally show ?thesis
    using assms by (simp add: handle_get_def Let_def serves_item_def item_request_def split: option.splits)
qed

lemma serve_delete:
  assumes "serves_item s path" "item_request ''DELETE'' path NoBody r"
  shows "serve_http s r = (if fs_has s path
      then ((200, []), (seen_request s r)\<lparr>fs_resources := AList.delete path (fs_resources s)\<rparr>)
      else (write_not_found path, seen_request s r))"
proof -
  have "serve_http s r = route (seen_request s r) r"
    using assms(1) by (simp add: serve_http_def serves_item_def seen_request_def Let_def)
  also have "\<dots> = handle_delete (seen_request s r) r"
    using assms by (simp add: route_def Let_def serves_item_def item_request_def)
  also have "deleted_item (seen_request s r) r = path"
    using assms by (simp add: deleted_item_def item_addressed_plain Let_def serves_item_def item_request_def)
  ultimately show ?thesis
    using assms by (simp add: handle_delete_def Let_def respond_mutation_def style_of_def serves_item_def seen_request_def
        fs_has_def)
qed

lemma serve_put:
  assumes "serves_item s path" "item_request ''PUT'' path (Object m) r"
  shows "serve_http s r = (case map_of (fs_resources s) path of
      None \<Rightarrow> (let body = AList.update ''name'' (AStr (relative_name path)) m in
        ((200, body), store_at (seen_request s r) path body))
    | Some existing \<Rightarrow> handle_create_at (seen_request s r) r)"
proof -
  have "serve_http s r = route (seen_request s r) r"
    using assms(1) by (simp add: serve_http_def serves_item_def seen_request_def Let_def)
  also have "\<dots> = handle_create_at (seen_request s r) r"
    using assms by (simp add: route_def Let_def serves_item_def item_request_def)
  finally show ?thesis
    using assms by (simp add: handle_create_at_def Let_def respond_mutation_def style_of_def serves_item_def item_request_def
        seen_request_def store_at_def split: option.splits)
qed

section \<open>Calls to an item\<close>

lemma plain_full_url: "plain_url u path \<Longrightarrow> full_url cl u = u"
  by (auto simp: full_url_def plain_url_def has_prefix_def)

text \<open>A call the fake answers with not found.\<close>

lemma not_found_reply:
  "\<exists>e. read_reply cl rq now (Reply 404 [] (CHR ''{'' # t) (Some (AObj (decoded_obj (snd (write_not_found path)))))) = Inl e
     \<and> is_not_found e \<and> classify_error e \<noteq> SafeToRetry"
  by (simp add: read_reply_def write_not_found_def write_error_def decoded_obj_def explain_quota_project_def
      decode_api_error_def decode_envelope_def decode_string_def decode_int_def decode_array_def whole_int64_def reason_of_def
      classify_error_def is_not_found_def retryable_codes_def retryable_reasons_def not_retryable_codes_def
      retryable_status_def Let_def)

lemma fake_refused:
  assumes cl: "fake_client enc cl" and c: "ctx_error c w = None" and off: "limiters_off w" and u: "plain_url u path"
    and rd: "request_read (request_of cl meth u body 0) = Some r"
    and sv: "serve_http (w_srv w) r = ((status, b), s')"
    and e: "\<And>rq now t. \<exists>e. read_reply cl rq now (Reply status [] (CHR ''{'' # t) (Some (AObj (decoded_obj b)))) = Inl e
      \<and> classify_error e \<noteq> SafeToRetry"
  shows "\<exists>e w'. client_do cl c meth u body w = Some (Inl e, w') \<and> after_call w s' w'
    \<and> (\<exists>rq now t. read_reply cl rq now (Reply status [] (CHR ''{'' # t) (Some (AObj (decoded_obj b)))) = Inl e)"
proof -
  let ?w = "limiter_for cl (parse_project_and_api u) w" and ?rq = "request_of cl meth u body 0"
  have q: "cl_qps cl \<le> 0" using cl by (simp add: fake_client_def)
  have same: "w_srv ?w = w_srv w" "w_now ?w = w_now w" "w_projects ?w = w_projects w"
    by (simp_all add: limiter_for_def)
  have off': "limiters_off ?w"
    using q off by (auto simp: limiter_for_def limiters_off_def new_limiter_def has_key_iff update_append_fresh)
  have c': "ctx_error c ?w = None" using c unfolding ctx_error_def same .
  obtain e where e: "read_reply cl ?rq (w_now w + 1) (Reply status [] (CHR ''{'' # enc b) (Some (AObj (decoded_obj b)))) = Inl e"
      "classify_error e \<noteq> SafeToRetry"
    using e by blast
  have o: "do_once cl c meth (full_url cl u) body 0 (limiter_for cl (parse_project_and_api (full_url cl u)) w)
      = (Inl e, ?w\<lparr>w_srv := s', w_now := w_now w + 1, w_sent := w_sent ?w @ [?rq]\<rparr>)"
    unfolding plain_full_url [OF u]
    using fake_once [OF cl c' rd, of status b s'] sv e(1) by (simp add: same)
  have "client_do cl c meth u body w = Some (Inl e, ?w\<lparr>w_srv := s', w_now := w_now w + 1, w_sent := w_sent ?w @ [?rq]\<rparr>)"
    by (rule client_do_first [OF q off o]) (use e(2) in simp)
  then show ?thesis using e(1) off' by (auto simp: after_call_def same limiters_off_def)
qed

lemma fake_not_found:
  assumes "fake_client enc cl" "ctx_error c w = None" "limiters_off w" "plain_url u path"
    and "request_read (request_of cl meth u body 0) = Some r"
    and sv: "serve_http (w_srv w) r = (write_not_found path, s')"
  shows "\<exists>e w'. client_do cl c meth u body w = Some (Inl e, w') \<and> is_not_found e \<and> after_call w s' w'"
proof -
  obtain b where b: "write_not_found path = (404, b)" by (simp add: write_not_found_def write_error_def)
  have nf: "\<exists>e. read_reply cl rq now (Reply 404 [] (CHR ''{'' # t) (Some (AObj (decoded_obj b)))) = Inl e
      \<and> is_not_found e \<and> classify_error e \<noteq> SafeToRetry" for rq now t
    using not_found_reply [of cl rq now t path] by (simp add: b)
  have "serve_http (w_srv w) r = ((404, b), s')" using sv b by simp
  from fake_refused [OF assms(1-5) this] nf
  obtain e w' rq now t where "client_do cl c meth u body w = Some (Inl e, w')" "after_call w s' w'"
      "read_reply cl rq now (Reply 404 [] (CHR ''{'' # t) (Some (AObj (decoded_obj b)))) = Inl e" by blast
  then show ?thesis using nf [of rq now t] by auto
qed

lemma get_item:
  assumes "fake_client enc cl" "ctx_error c w = None" "limiters_off w" "plain_url u path" "serves_item (w_srv w) path"
  shows "\<exists>r w'. client_do cl c ''GET'' u None w = Some (r, w') \<and> after_call w (w_srv w') w'
    \<and> same_items (w_srv w) (w_srv w') \<and> fs_resources (w_srv w') = fs_resources (w_srv w)
    \<and> (case stored w path of None \<Rightarrow> (\<exists>e. r = Inl e \<and> is_not_found e) | Some m \<Rightarrow> r = Inr (Some (decoded_obj m)))"
proof -
  obtain r where rd: "request_read (request_of cl ''GET'' u None 0) = Some r" and r: "item_request ''GET'' path NoBody r"
    using plain_request_read [OF assms(4), of None cl "''GET''"] by auto
  note sv = serve_get [OF assms(5) r]
  show ?thesis
  proof (cases "stored w path")
    case None
    then have "serve_http (w_srv w) r = (write_not_found path, seen_request (w_srv w) r)" using sv by simp
    from fake_not_found [OF assms(1-4) rd this] show ?thesis using None by (auto simp: after_call_def)
  next
    case (Some m)
    then have "serve_http (w_srv w) r = ((200, m), seen_request (w_srv w) r)" using sv by simp
    with fake_do [OF assms(1-3), of "''GET''" u None r 200 m] rd show ?thesis
      using Some by (auto simp: plain_full_url [OF assms(4)] after_call_def)
  qed
qed

lemma delete_item:
  assumes "fake_client enc cl" "ctx_error c w = None" "limiters_off w" "plain_url u path" "serves_item (w_srv w) path"
  shows "\<exists>r w'. client_do cl c ''DELETE'' u None w = Some (r, w') \<and> after_call w (w_srv w') w'
    \<and> same_items (w_srv w) (w_srv w') \<and> stored w' = (stored w)(path := None)
    \<and> (case stored w path of None \<Rightarrow> (\<exists>e. r = Inl e \<and> is_not_found e) | Some m \<Rightarrow> r = Inr (Some []))"
proof -
  obtain r where rd: "request_read (request_of cl ''DELETE'' u None 0) = Some r" and r: "item_request ''DELETE'' path NoBody r"
    using plain_request_read [OF assms(4), of None cl "''DELETE''"] by auto
  note sv = serve_delete [OF assms(5) r]
  show ?thesis
  proof (cases "stored w path")
    case None
    then have "serve_http (w_srv w) r = (write_not_found path, seen_request (w_srv w) r)"
      using sv by (simp add: fs_has_def has_key_def)
    from fake_not_found [OF assms(1-4) rd this] show ?thesis using None by (auto simp: after_call_def fun_upd_idem)
  next
    case (Some m)
    let ?s = "(seen_request (w_srv w) r)\<lparr>fs_resources := AList.delete path (fs_resources (w_srv w))\<rparr>"
    have "serve_http (w_srv w) r = ((200, []), ?s)"
      using sv Some by (simp add: fs_has_def has_key_def)
    with fake_do [OF assms(1-3), of "''DELETE''" u None r 200 "[]" ?s] rd
    obtain w' where w': "client_do cl c ''DELETE'' u None w = Some (Inr (Some []), w')" "after_call w ?s w'"
      by (auto simp: plain_full_url [OF assms(4)] decoded_obj_def)
    have "same_items (w_srv w) ?s"
      unfolding same_items_def seen_request_def
      by (intro exI [of _ "fs_requests (w_srv w) @ [r]"] exI [of _ "AList.delete path (fs_resources (w_srv w))"]) simp
    then show ?thesis using w' Some by (auto simp: after_call_def delete_conv)
  qed
qed

section \<open>Reading what is not there\<close>

lemma backoff_waits:
  assumes "ctx_end c = None" "sleep_backoff cl c n w = (e, w')"
  shows "e = None \<and> w_srv w' = w_srv w \<and> w_limiters w' = w_limiters w \<and> w_now w \<le> w_now w'"
  using assms by (auto simp: sleep_backoff_def draw_delay_def timer_or_done_def Let_def split: if_splits prod.splits)

lemma gone_after_patience:
  assumes "fake_client enc (p_client p)" "ctx_end c = None" "plain_url u path"
  shows "limiters_off w \<Longrightarrow> serves_item (w_srv w) path \<Longrightarrow> stored w path = None \<Longrightarrow>
    \<exists>w'. read_loop p c ty cur attrs u deadline n w = Some (Inr None, w')
      \<and> same_items (w_srv w) (w_srv w') \<and> fs_resources (w_srv w') = fs_resources (w_srv w)"
proof (induction "nat (deadline + 1 - w_now w)" arbitrary: n w rule: less_induct)
  case less
  from get_item [OF assms(1) no_ctx_error [OF assms(2)] less.prems(1) assms(3) less.prems(2)] less.prems(3)
  obtain e w1 where d: "client_do (p_client p) c ''GET'' u None w = Some (Inl e, w1)" "is_not_found e"
      and a: "after_call w (w_srv w1) w1" and s: "same_items (w_srv w) (w_srv w1)" "fs_resources (w_srv w1) = fs_resources (w_srv w)"
    by auto
  show ?case
  proof (cases "w_now w1 > deadline")
    case True
    then have "read_loop p c ty cur attrs u deadline n w = Some (Inr None, w1)"
      using d by (subst read_loop.simps) simp
    then show ?thesis using s by blast
  next
    case False
    obtain e2 w2 where b: "sleep_backoff (p_client p) c n w1 = (e2, w2)" by fastforce
    note bw = backoff_waits [OF assms(2) b]
    have srv: "w_srv w2 = w_srv w1" using bw by blast
    have r: "read_loop p c ty cur attrs u deadline n w = read_loop p c ty cur attrs u deadline (Suc n) w2"
      using d b False bw by (subst read_loop.simps) simp
    have "\<exists>w'. read_loop p c ty cur attrs u deadline (Suc n) w2 = Some (Inr None, w')
        \<and> same_items (w_srv w2) (w_srv w') \<and> fs_resources (w_srv w') = fs_resources (w_srv w2)"
    proof (rule less.hyps)
      show "nat (deadline + 1 - w_now w2) < nat (deadline + 1 - w_now w)"
        using bw a False by (simp add: after_call_def)
      show "limiters_off w2" using bw a by (simp add: after_call_def limiters_off_def)
      show "serves_item (w_srv w2) path" using serves_item_same [OF s(1) less.prems(2)] srv by simp
      show "stored w2 path = None" using less.prems(3) s(2) srv by simp
    qed
    then obtain w' where "read_loop p c ty cur attrs u deadline (Suc n) w2 = Some (Inr None, w')"
        "same_items (w_srv w1) (w_srv w')" "fs_resources (w_srv w') = fs_resources (w_srv w)"
      unfolding srv s(2) by blast
    moreover have "same_items (w_srv w) (w_srv w')"
      using same_items_trans [OF s(1)] calculation(2) by blast
    ultimately show ?thesis unfolding r by blast
  qed
qed

section \<open>Delete and read\<close>

text \<open>A type whose resource is read and deleted at one plain url, its deletes answered at once.\<close>

definition at_its_url :: "'s gcp_provider \<Rightarrow> ctype \<Rightarrow> rstate \<Rightarrow> attrs \<Rightarrow> string \<Rightarrow> bool" where
  "at_its_url p ty cur attrs path \<longleftrightarrow> catalog_type (p_catalog p) (rs_type cur) = Some ty
     \<and> parse_provider_id (p_ext p) ty (rs_provider_id cur) = Inr attrs
     \<and> (\<exists>u. item_url (p_ext p) ty [] (rs_provider_id cur) attrs = Inr u \<and> plain_url u path)
     \<and> (\<exists>u. item_url (p_ext p) ty (t_delete_url ty) (rs_provider_id cur) attrs = Inr u \<and> plain_url u path)
     \<and> t_read_via ty \<noteq> read_via_list_by_parent \<and> t_clear_before_delete ty = [] \<and> delete_await_kind ty = AwaitNone"

lemma delete_refines:
  assumes "fake_client enc (p_client p)" "ctx_end c = None" "limiters_off w"
    and ty: "at_its_url p ty cur attrs path" and s: "serves_item (w_srv w) path"
  shows "\<exists>w'. delete_resource p c cur w = Some (None, w') \<and> stored w' = (stored w)(path := None)
    \<and> limiters_off w' \<and> serves_item (w_srv w') path"
proof -
  obtain u where u: "item_url (p_ext p) ty (t_delete_url ty) (rs_provider_id cur) attrs = Inr u" "plain_url u path"
    using ty by (auto simp: at_its_url_def)
  from delete_item [OF assms(1) no_ctx_error [OF assms(2)] assms(3) u(2) s] obtain r w' where
      d: "client_do (p_client p) c ''DELETE'' u None w = Some (r, w')" and w': "after_call w (w_srv w') w'"
      "same_items (w_srv w) (w_srv w')" "stored w' = (stored w)(path := None)"
      and r: "(\<exists>e. r = Inl e \<and> is_not_found e) \<or> r = Inr (Some [])"
    by (auto split: option.splits)
  have "delete_resource p c cur w = Some (None, w')"
    using ty u(1) d r assms(2)
    by (auto simp: delete_resource_def at_its_url_def ctx_error_def clear_before_delete_def await_as_def)
  then show ?thesis using w' serves_item_same [OF w'(2) s] by (auto simp: after_call_def)
qed

text \<open>A state that reports an object stored, at the id the object's own identity gives, where it gives one.\<close>

definition reports_stored :: "'s gcp_provider \<Rightarrow> ctype \<Rightarrow> attrs \<Rightarrow> rstate \<Rightarrow> json \<Rightarrow> rstate \<Rightarrow> bool" where
  "reports_stored p ty idAttrs cur m st \<longleftrightarrow> rs_type st = rs_type cur
     \<and> reports_object ty idAttrs (rs_attributes cur) (decoded_obj m) (rs_attributes st)
     \<and> (case provider_id (p_ext p) ty (decoded_obj m) (with_scope p idAttrs) of
          Inr rid \<Rightarrow> rs_provider_id st = rid | Inl e \<Rightarrow> rs_provider_id st = rs_provider_id cur)"

lemma wf_decoded_obj: "wf_map m \<Longrightarrow> wf_map (decoded_obj m)"
  by (simp add: decoded_obj_def wf_map_def comp_def case_prod_beta)

lemma read_stored:
  assumes "fake_client enc (p_client p)" "ctx_error c w = None" "limiters_off w" "plain_url u path"
    and "serves_item (w_srv w) path" "stored w path = Some m" "level_ok (t_attributes ty)" "wf_map m"
  shows "\<exists>st w'. read_loop p c ty cur idAttrs u d n w = Some (Inr (Some st), w') \<and> limiters_off w'
    \<and> stored w' = stored w \<and> reports_stored p ty idAttrs cur m st"
proof -
  from get_item [OF assms(1-5)] assms(6) obtain w1 where
      g: "client_do (p_client p) c ''GET'' u None w = Some (Inr (Some (decoded_obj m)), w1)"
      and w1: "limiters_off w1" "fs_resources (w_srv w1) = fs_resources (w_srv w)"
    by (auto simp: after_call_def)
  obtain st w2 where st: "state_from p c ty cur idAttrs (Some (decoded_obj m)) w1 = Some (st, w2)"
      "limiters_off w2" "fs_resources (w_srv w2) = fs_resources (w_srv w1)"
    using state_from_keeps [OF assms(1) w1(1)] by blast
  have "read_loop p c ty cur idAttrs u d n w = Some (Inr (Some st), w2)"
    by (subst read_loop.simps) (simp add: g st(1))
  moreover have "reports_stored p ty idAttrs cur m st"
    using state_from_reports [OF assms(7) wf_decoded_obj [OF assms(8)] st(1)] by (simp add: reports_stored_def)
  ultimately show ?thesis using st w1 by simp
qed

lemma read_refines:
  assumes "fake_client enc (p_client p)" "ctx_end c = None" "limiters_off w"
    and ty: "at_its_url p ty cur idAttrs path" and s: "serves_item (w_srv w) path"
    and ok: "level_ok (t_attributes ty)" "\<And>m. stored w path = Some m \<Longrightarrow> wf_map m"
  shows "\<exists>r w'. read_resource p c cur w = Some (r, w') \<and> stored w' = stored w
    \<and> (case stored w path of
        None \<Rightarrow> r = Inr None
      | Some m \<Rightarrow> \<exists>st. r = Inr (Some st) \<and> reports_stored p ty idAttrs cur m st)"
proof -
  obtain u where u: "item_url (p_ext p) ty [] (rs_provider_id cur) idAttrs = Inr u" "plain_url u path"
    using ty by (auto simp: at_its_url_def)
  have rd: "read_resource p c cur w = read_loop p c ty cur idAttrs u (w_now w + not_found_patience) 0 w"
    using ty u(1) by (simp add: read_resource_def at_its_url_def)
  show ?thesis
  proof (cases "stored w path")
    case None
    with gone_after_patience [OF assms(1,2) u(2) assms(3) s, of ty cur idAttrs "w_now w + not_found_patience" 0]
    show ?thesis unfolding rd by auto
  next
    case (Some m)
    with read_stored [OF assms(1) no_ctx_error [OF assms(2)] assms(3) u(2) s Some ok(1) ok(2) [OF Some]]
    show ?thesis unfolding rd by fastforce
  qed
qed

text \<open>
  C2. Against the in-process Google Cloud with no failure arranged, for a type whose deletes are
  answered at once: deleting a resource removes what is stored at its url and nothing else,
  whether or not it was there, and succeeds; a read of it then answers that it is gone. And a read
  of any resource leaves everything stored as it is and reports what is stored: where nothing
  is, that it is gone; else a state of the type that was asked for, in which every plain
  attribute of the stored object has exactly the stored value, and in which there is nothing that
  neither the object, nor the id, nor the state read at names.
\<close>

theorem delete_refines_store:
  assumes "fake_client enc (p_client p)" "ctx_end c = None" "limiters_off w"
    and "at_its_url p ty cur idAttrs path" "serves_item (w_srv w) path"
    and "level_ok (t_attributes ty)" "\<And>m. stored w path = Some m \<Longrightarrow> wf_map m"
  shows "\<exists>w1 w2 r w3. delete_resource p c cur w = Some (None, w1) \<and> stored w1 = (stored w)(path := None)
    \<and> read_resource p c cur w1 = Some (Inr None, w2) \<and> stored w2 = stored w1
    \<and> read_resource p c cur w = Some (r, w3) \<and> stored w3 = stored w
    \<and> (case stored w path of
        None \<Rightarrow> r = Inr None
      | Some m \<Rightarrow> \<exists>st. r = Inr (Some st) \<and> reports_stored p ty idAttrs cur m st)"
proof -
  from delete_refines [OF assms(1-5)] obtain w1 where
      d: "delete_resource p c cur w = Some (None, w1)" "stored w1 = (stored w)(path := None)"
      and w1: "limiters_off w1" "serves_item (w_srv w1) path" by blast
  from read_refines [OF assms(1,2) w1(1) assms(4) w1(2) assms(6)] d(2)
  obtain w2 where "read_resource p c cur w1 = Some (Inr None, w2)" "stored w2 = stored w1" by auto
  moreover from read_refines [OF assms] obtain r w3 where "read_resource p c cur w = Some (r, w3)" "stored w3 = stored w"
      "case stored w path of None \<Rightarrow> r = Inr None
      | Some m \<Rightarrow> \<exists>st. r = Inr (Some st) \<and> reports_stored p ty idAttrs cur m st" by blast
  ultimately show ?thesis using d by blast
qed

section \<open>Create\<close>

lemma put_item:
  assumes "fake_client enc cl" "ctx_error c w = None" "limiters_off w" "plain_url u path" "serves_item (w_srv w) path"
    and "\<not> fs_put_replaces (w_srv w) (snd (split_url u))"
  shows "\<exists>r w'. client_do cl c ''PUT'' u (Some (AObj m)) w = Some (r, w')
    \<and> (case stored w path of
        None \<Rightarrow> (let body = AList.update ''name'' (AStr (relative_name path)) (decoded_obj m) in
          r = Inr (Some (decoded_obj body)) \<and> stored w' = (stored w)(path \<mapsto> body) \<and> after_call w (w_srv w') w'
          \<and> same_items (w_srv w) (w_srv w'))
      | Some _ \<Rightarrow> (\<exists>e. r = Inl e) \<and> stored w' = stored w)"
proof -
  obtain r where rd: "request_read (request_of cl ''PUT'' u (Some (AObj m)) 0) = Some r"
      and r: "item_request ''PUT'' path (Object (decoded_obj m)) r"
    using plain_request_read [OF assms(4), of "Some (AObj m)" cl "''PUT''"] by auto
  note sv = serve_put [OF assms(5) r]
  show ?thesis
  proof (cases "stored w path")
    case None
    let ?body = "AList.update ''name'' (AStr (relative_name path)) (decoded_obj m)"
    let ?s = "store_at (seen_request (w_srv w) r) path ?body"
    have "serve_http (w_srv w) r = ((200, ?body), ?s)" using sv None by (simp add: Let_def)
    with fake_do [OF assms(1-3), of "''PUT''" u "Some (AObj m)" r 200 ?body ?s] rd
    obtain w' where w': "client_do cl c ''PUT'' u (Some (AObj m)) w = Some (Inr (Some (decoded_obj ?body)), w')" "after_call w ?s w'"
      by (auto simp: plain_full_url [OF assms(4)])
    have "same_items (w_srv w) ?s"
      unfolding same_items_def seen_request_def store_at_def
      by (intro exI [of _ "fs_requests (w_srv w) @ [r]"] exI [of _ "AList.update path ?body (fs_resources (w_srv w))"]) simp
    then show ?thesis using w' None by (auto simp: after_call_def store_at_def Let_def)
  next
    case (Some old)
    have esc: "hr_escaped r = snd (split_url u)"
      using rd by (auto simp: request_read_def request_of_def split: prod.splits)
    obtain b where b: "serve_http (w_srv w) r = ((409, b), seen_request (w_srv w) r)"
      and bm: "b = snd (write_error 409 ''ALREADY_EXISTS'' (''Resource already exists in the project (resource='' @ path @ '').''))"
      using sv Some assms(6) r esc
      by (simp add: handle_create_at_def Let_def item_request_def seen_request_def write_error_def)
    have "\<exists>e. read_reply cl rq now (Reply 409 [] (CHR ''{'' # t) (Some (AObj (decoded_obj b)))) = Inl e
        \<and> classify_error e \<noteq> SafeToRetry" for rq now t
      by (simp add: bm read_reply_def write_error_def decoded_obj_def explain_quota_project_def
          decode_api_error_def decode_envelope_def decode_string_def decode_int_def decode_array_def whole_int64_def
          reason_of_def classify_error_def retryable_codes_def retryable_reasons_def not_retryable_codes_def
          retryable_status_def Let_def)
    from fake_refused [OF assms(1-4) rd b this] show ?thesis using Some by (auto simp: after_call_def)
  qed
qed

text \<open>What is stored of a create: the request's body, under the resource's full name.\<close>

definition put_object :: "ctype \<Rightarrow> attrs \<Rightarrow> string \<Rightarrow> json" where
  "put_object ty attrs path =
     AList.update ''name'' (AStr (relative_name path)) (decoded_obj (request_body ty (create_template ty) attrs))"

text \<open>
  A type made by a PUT at one plain url that is also the one the made resource is read at, whose
  create is answered at once and sends no setter after it.
\<close>

definition made_at_its_url :: "'s gcp_provider \<Rightarrow> ctype \<Rightarrow> attrs \<Rightarrow> string \<Rightarrow> string \<Rightarrow> attrs \<Rightarrow> string \<Rightarrow> bool" where
  "made_at_its_url p ty attrs u rid ids path \<longleftrightarrow> t_create_verb ty = ''PUT'' \<and> t_await ty = AwaitNone
     \<and> unresolved_create_placeholders ty = [] \<and> t_setters ty = [] \<and> 0 < t_timeout_seconds ty
     \<and> t_read_via ty \<noteq> read_via_list_by_parent
     \<and> (let scoped = with_create_bindings (p_ext p) ty (with_scope p attrs) in
          expanded_url (p_ext p) ty (create_template ty) scoped = Inr u \<and> plain_url u path
        \<and> provider_id (p_ext p) ty (decoded_obj (put_object ty attrs path)) scoped = Inr rid
        \<and> outside_created_collection (p_ext p) ty rid scoped = None)
     \<and> parse_provider_id (p_ext p) ty rid = Inr ids
     \<and> (\<exists>u. item_url (p_ext p) ty [] rid ids = Inr u \<and> plain_url u path)"

text \<open>A configured value of an attribute that is stored, and reported, as it is.\<close>

definition plainly_configured :: "ctype \<Rightarrow> attrs \<Rightarrow> string \<Rightarrow> kind \<Rightarrow> any \<Rightarrow> bool" where
  "plainly_configured ty attrs n k raw \<longleftrightarrow> n \<noteq> ''name'' \<and> (\<exists>a src. map_of (t_attributes ty) n = Some a
     \<and> \<not> a_output a \<and> \<not> a_opaque a \<and> a_fields a = [] \<and> a_elem a = None \<and> a_equivalence a = [] \<and> a_canonical a \<noteq> ''name''
     \<and> n \<notin> set (placeholder_names (create_template ty)) \<and> a_canonical a \<notin> set (placeholder_names (create_template ty))
     \<and> map_of attrs n = Some (Val k True raw src) \<and> a_kind a = k
     \<and> ((\<exists>t. raw = AStr t \<and> k = KString \<and> \<not> looks_like_a_project_name t) \<or> (\<exists>b. raw = ABool b \<and> k = KBool)
       \<or> (\<exists>i. raw = AInt i \<and> k = KInt \<and> whole_int64 (of_int i))))"

lemma decoded_twice: "decoded (decoded a) = decoded a"
  by (induction a rule: decoded.induct) (auto simp: comp_def)

lemma decoded_obj_at: "map_of (decoded_obj m) k = map_option decoded (map_of m k)"
  by (induction m) (auto simp: decoded_obj_def)

lemma decoded_obj_twice: "decoded_obj (decoded_obj m) = decoded_obj m"
  by (simp add: decoded_obj_def comp_def case_prod_beta decoded_twice)

lemma put_object_at:
  "map_of (decoded_obj (put_object ty attrs path)) k =
     (if k = ''name'' then Some (AStr (relative_name path)) else map_option decoded (map_of (request_body ty (create_template ty) attrs) k))"
  by (simp add: decoded_obj_at put_object_def update_conv' option.map_comp comp_def decoded_twice)

lemma wf_put_object: "wf_map (put_object ty attrs path)"
  by (simp add: put_object_def wf_decoded_obj wf_request_body)

lemma configured_says:
  assumes ok: "level_ok (t_attributes ty)" "wf_map attrs" "\<forall>n \<in> set (keys attrs). has_key (t_attributes ty) n" "t_create_wrapper ty = []"
    and n: "plainly_configured ty attrs n k raw"
  shows "plainly_says ty (decoded_obj (put_object ty attrs path)) n (Val k True raw SourceProvider)"
proof -
  obtain a src where a: "map_of (t_attributes ty) n = Some a" "\<not> a_output a" "\<not> a_opaque a" "a_fields a = []" "a_elem a = None"
      "a_equivalence a = []" "a_canonical a \<noteq> ''name''" "n \<noteq> ''name''"
      "n \<notin> set (placeholder_names (create_template ty))" "a_canonical a \<notin> set (placeholder_names (create_template ty))"
      "map_of attrs n = Some (Val k True raw src)" "a_kind a = k"
      and raw: "(\<exists>t. raw = AStr t \<and> k = KString \<and> \<not> looks_like_a_project_name t) \<or> (\<exists>b. raw = ABool b \<and> k = KBool)
       \<or> (\<exists>i. raw = AInt i \<and> k = KInt \<and> whole_int64 (of_int i))"
    using n unfolding plainly_configured_def by blast
  have wire: "wire_value (Some a) (Val k True raw src) = raw"
    using raw a(3) by (auto simp: wire_value.simps)
  have "sends ty (create_template ty) attrs (\<lambda>a. True) (a_canonical a) raw"
    unfolding sends_def using a wire by (intro exI [of _ n] exI [of _ "Val k True raw src"] exI [of _ a]) auto
  then have body: "map_of (request_body ty (create_template ty) attrs) (a_canonical a) = Some raw"
    using request_body_sends [OF ok] by blast
  have own: "a_canonical a = n \<or> map_of (request_body ty (create_template ty) attrs) n = None"
  proof (rule ccontr)
    assume that: "\<not> (a_canonical a = n \<or> map_of (request_body ty (create_template ty) attrs) n = None)"
    then obtain v where "map_of (request_body ty (create_template ty) attrs) n = Some v" by blast
    then have "sends ty (create_template ty) attrs (\<lambda>a. True) n v" using request_body_sends [OF ok] by blast
    then obtain m b where b: "map_of (t_attributes ty) m = Some b" "a_canonical b = n" by (auto simp: sends_def)
    with level_ok_entry(2) [OF ok(1) b(1)] a(1) have "m = n" by auto
    with b a(1) that show False by simp
  qed
  show ?thesis
    unfolding plainly_says_def put_object_at
    using a raw body own by (intro conjI exI [of _ a] exI [of _ "decoded raw"]) auto
qed

text \<open>
  C3. Creating with a PUT against the in-process Google Cloud with no failure arranged. Where the
  path is free, the create succeeds: exactly the request's body is stored there, under the
  resource's full name, everything else is left as it was, also by the read that follows; and it
  reports the made resource, of the type that was asked for and at the id its identity gives,
  with what is stored of it and, for every plain attribute of a type without a wrapper,
  exactly the configured value. Where the path is taken the create answers an error and nothing
  is changed.
\<close>

theorem create_refines_store:
  assumes "fake_client enc (p_client p)" "ctx_end c = None" "limiters_off w"
    and ty: "catalog_type (p_catalog p) (ds_type des) = Some ty" "made_at_its_url p ty (ds_attrs des) u rid ids path"
    and s: "serves_item (w_srv w) path" "\<not> fs_put_replaces (w_srv w) (snd (split_url u))"
    and ok: "level_ok (t_attributes ty)" "wf_map (ds_attrs des)" "\<forall>n \<in> set (keys (ds_attrs des)). has_key (t_attributes ty) n"
  shows "case stored w path of
      None \<Rightarrow> (\<exists>st w'. create_resource p c des w = Some (Inr (Some st), w')
        \<and> stored w' = (stored w)(path \<mapsto> put_object ty (ds_attrs des) path)
        \<and> reports_stored p ty ids \<lparr>rs_address = [], rs_type = ds_type des, rs_provider_id = rid, rs_attributes = ds_attrs des\<rparr>
            (put_object ty (ds_attrs des) path) st
        \<and> (t_create_wrapper ty = [] \<longrightarrow> (\<forall>n k raw. plainly_configured ty (ds_attrs des) n k raw \<longrightarrow>
             map_of (rs_attributes st) n = Some (Val k True raw SourceProvider))))
    | Some _ \<Rightarrow> (\<exists>e w1. create_resource p c des w = Some (Inl e, w1) \<and> stored w1 = stored w)"
proof -
  let ?scoped = "with_create_bindings (p_ext p) ty (with_scope p (ds_attrs des))"
    and ?body = "put_object ty (ds_attrs des) path"
    and ?cur = "\<lparr>rs_address = [], rs_type = ds_type des, rs_provider_id = rid, rs_attributes = ds_attrs des\<rparr>"
  obtain u2 where m: "t_create_verb ty = ''PUT''" "t_await ty = AwaitNone" "unresolved_create_placeholders ty = []" "t_setters ty = []"
      "0 < t_timeout_seconds ty" "t_read_via ty \<noteq> read_via_list_by_parent"
      "expanded_url (p_ext p) ty (create_template ty) ?scoped = Inr u" "plain_url u path"
      "provider_id (p_ext p) ty (decoded_obj ?body) ?scoped = Inr rid"
      "outside_created_collection (p_ext p) ty rid ?scoped = None" "parse_provider_id (p_ext p) ty rid = Inr ids"
      "item_url (p_ext p) ty [] rid ids = Inr u2" "plain_url u2 path"
    using ty(2) by (auto simp: made_at_its_url_def Let_def)
  have name: "t_name ty = ds_type des" by (rule catalog_type_name [OF ty(1)])
  from put_item [OF assms(1) no_ctx_error [OF assms(2)] assms(3) m(8) s, of "request_body ty (create_template ty) (ds_attrs des)"]
  obtain r w1 where d: "client_do (p_client p) c ''PUT'' u (Some (AObj (request_body ty (create_template ty) (ds_attrs des)))) w = Some (r, w1)"
    and r: "case stored w path of
        None \<Rightarrow> r = Inr (Some (decoded_obj ?body)) \<and> stored w1 = (stored w)(path \<mapsto> ?body) \<and> after_call w (w_srv w1) w1
          \<and> same_items (w_srv w) (w_srv w1)
      | Some _ \<Rightarrow> (\<exists>e. r = Inl e) \<and> stored w1 = stored w" unfolding put_object_def Let_def by blast
  have c: "create_resource p c des w = (case r of Inl e \<Rightarrow> Some (Inl e, w1)
      | Inr resp \<Rightarrow> report_created p c ty des (with_scope p (ds_attrs des)) (Inr resp) w1)"
    using ty(1) m d assms(2)
    by (simp add: create_resource_def Let_def ctx_error_def await_def await_as_def split: sum.split)
  show ?thesis
  proof (cases "stored w path")
    case (Some old)
    with r c show ?thesis by auto
  next
    case None
    with r have w1: "r = Inr (Some (decoded_obj ?body))" "stored w1 = (stored w)(path \<mapsto> ?body)" "limiters_off w1"
        "same_items (w_srv w) (w_srv w1)" by (auto simp: after_call_def)
    have ctx: "ctx_error (detached (type_timeout ty) w1) w1 = None"
      using m(5) by (simp add: ctx_error_def detached_def type_timeout_def second_def)
    have at: "stored w1 path = Some ?body" by (simp add: w1(2))
    obtain st w2 where st: "read_loop p (detached (type_timeout ty) w1) ty ?cur ids u2 (w_now w1 + not_found_patience) 0 w1
        = Some (Inr (Some st), w2)" "stored w2 = stored w1" "reports_stored p ty ids ?cur ?body st"
      using read_stored [OF assms(1) ctx w1(3) m(13) serves_item_same [OF w1(4) s(1)] at ok(1) wf_put_object] by blast
    have "created_id (p_ext p) ty (Some (decoded_obj ?body)) ?scoped w1 = (Inr rid, w1)"
      using m(9,10) by (simp add: created_id_def)
    then have "read_after_create p ty (ds_attrs des) (with_scope p (ds_attrs des)) (Some (decoded_obj ?body)) w1
        = Some (Inr (Some st), w2)"
      using ty(1) m(6,11,12) st(1) by (simp add: read_after_create_def read_resource_def name)
    then have "create_resource p c des w = Some (Inr (Some st), w2)"
      using m(4) by (simp add: c w1(1) report_created_def set_after_create_def changed_setters_def)
    moreover have "map_of (rs_attributes st) n = Some (Val k True raw SourceProvider)"
      if "t_create_wrapper ty = []" "plainly_configured ty (ds_attrs des) n k raw" for n k raw
      using st(3) configured_says [OF ok that, of path] by (auto simp: reports_stored_def reports_object_def)
    ultimately show ?thesis using None st w1(2) by auto
  qed
qed

lemma topic_at_its_url: "at_its_url topic_provider topic_type topic_state topic_ids ''/v1/projects/p/topics/t''"
proof -
  have seg: "path_escape (last_path_segment ''projects/p/topics/t'') = ''t''" by code_simp
  have "item_url sample_ext topic_type [] ''projects/p/topics/t'' topic_ids
      = Inr ''https://api.example.com/v1/projects/p/topics/t''"
    by (simp add: item_url_def topic_expands Let_def abs_url_def base_url_for_def trim_suffix_def has_suffix_def seg)
  moreover have "plain_url ''https://api.example.com/v1/projects/p/topics/t'' ''/v1/projects/p/topics/t''"
    unfolding plain_url_def
    by (intro exI [of _ "''api.example.com''"] exI [of _ "''v1/projects/p/topics/t''"]) simp
  moreover have "catalog_type (p_catalog topic_provider) ''gcp.topic'' = Some topic_type"
    by (simp add: topic_provider_def new_provider_def sample_catalog_def catalog_type_def index_types_def)
  ultimately show ?thesis
    by (simp add: at_its_url_def topic_state_def read_via_list_by_parent_def delete_await_kind_def)
qed

definition typed_world :: "server world" where
  "typed_world = topic_world\<lparr>w_srv := topic_server\<lparr>fs_resources :=
     (''/v1/projects/p/topics/t'', (''type'', AStr ''A'') # topic_json ''t'') # fs_resources topic_server\<rparr>\<rparr>"

theorem delete_refines_store_witness:
  "\<exists>w1 w2 st w3. delete_resource topic_provider background topic_state typed_world = Some (None, w1)
    \<and> stored w1 = (stored typed_world)(''/v1/projects/p/topics/t'' := None)
    \<and> read_resource topic_provider background topic_state w1 = Some (Inr None, w2)
    \<and> read_resource topic_provider background topic_state typed_world = Some (Inr (Some st), w3)
    \<and> stored w3 = stored typed_world \<and> map_of (rs_attributes st) ''type_value'' = Some (v_string ''A'' SourceProvider)"
proof -
  let ?m = "(''type'', AStr ''A'') # topic_json ''t''"
  have p: "trim_version_prefix ''/v1/projects/p/topics/t'' = ''projects/p/topics/t''"
      "after_last (CHR ''/'') ''/v1/projects/p/topics/t'' = ''t''"
    by code_simp+
  have s: "serves_item (w_srv typed_world) ''/v1/projects/p/topics/t''"
    by (simp add: serves_item_def typed_world_def topic_world_def topic_server_def new_server_def operation_name_def
        compute_operation_name_def Let_def has_key_def has_suffix_def p)
  have at: "stored typed_world ''/v1/projects/p/topics/t'' = Some ?m" by (simp add: typed_world_def)
  have wf: "wf_map ?m" by (simp add: wf_map_def topic_json_def)
  have lvl: "level_ok (t_attributes topic_type)" by (simp add: sample_attrs level_ok_def wf_map_def has_key_def)
  have "ctx_end background = None" "limiters_off typed_world"
    by (simp_all add: background_def typed_world_def topic_world_def limiters_off_def)
  from delete_refines_store [OF topic_provider_sel(2) this topic_at_its_url s lvl] at wf obtain w1 w2 st w3 where
      r: "delete_resource topic_provider background topic_state typed_world = Some (None, w1)"
      "stored w1 = (stored typed_world)(''/v1/projects/p/topics/t'' := None)"
      "read_resource topic_provider background topic_state w1 = Some (Inr None, w2)"
      "read_resource topic_provider background topic_state typed_world = Some (Inr (Some st), w3)"
      "stored w3 = stored typed_world" "reports_stored topic_provider topic_type topic_ids topic_state ?m st" by auto
  have "plainly_says topic_type (decoded_obj ?m) ''type_value'' (v_string ''A'' SourceProvider)"
    by (simp add: plainly_says_def sample_attrs decoded_obj_def topic_json_def v_string_def looks_like_a_project_name_def
        cut_prefix_def has_prefix_def)
  with r(6) have "map_of (rs_attributes st) ''type_value'' = Some (v_string ''A'' SourceProvider)"
    by (simp add: reports_stored_def reports_object_def)
  with r show ?thesis by blast
qed

section \<open>A topic made with a PUT\<close>

definition put_type :: ctype where
  "put_type = topic_type\<lparr>t_create_verb := ''PUT'', t_create_url := ''projects/{{project}}/topics/{{topic}}''\<rparr>"

definition put_provider :: "server gcp_provider" where
  "put_provider = new_provider sample_settings (sample_catalog\<lparr>c_types := [put_type]\<rparr>)
     (new_client sample_ext (fake_transport (\<lambda>_. [])) (\<lambda>n m. 0) [] [] 0 0 None 0)"

definition fresh_world :: "server world" where
  "fresh_world = topic_world\<lparr>w_srv := new_server ''http://127.0.0.1''\<rparr>"

theorem create_refines_store_witness:
  "\<exists>st w1 body. create_resource put_provider background topic_desired fresh_world = Some (Inr (Some st), w1)
    \<and> stored w1 = [''/v1/projects/p/topics/t'' \<mapsto> body]
    \<and> map_of body ''name'' = Some (AStr ''projects/p/topics/t'') \<and> map_of body ''type'' = Some (AStr ''A'')
    \<and> map_of (rs_attributes st) ''type_value'' = Some (v_string ''A'' SourceProvider)"
proof -
  let ?path = "''/v1/projects/p/topics/t''" and ?u = "''https://api.example.com/v1/projects/p/topics/t''"
    and ?body = "[(''type'', AStr ''A''), (''name'', AStr ''projects/p/topics/t'')]"
  have cl: "fake_client (\<lambda>_. []) (p_client put_provider)" "ctx_end background = None" "limiters_off fresh_world"
    by (simp_all add: put_provider_def new_provider_def new_client_def fake_client_def client_timeout_def
        default_timeout_def second_def background_def fresh_world_def topic_world_def limiters_off_def)
  have ty: "catalog_type (p_catalog put_provider) (ds_type topic_desired) = Some put_type"
    by (simp add: put_provider_def new_provider_def catalog_type_def index_types_def put_type_def topic_desired_def)
  have creatable: "unresolved_create_placeholders put_type = []"
    by (simp add: unresolved_create_placeholders_def create_template_def put_type_def is_create_scope_setting_def
        url_placeholders.simps open_placeholder_def has_prefix_def trim_space_def is_space_def trim_prefix_def
        settable_top_level_def top_level_attr_def sample_attrs)
  have scoped: "with_create_bindings (p_ext put_provider) put_type (with_scope put_provider (ds_attrs topic_desired))
      = [(''topic'', v_string ''t'' SourceExplicit), (''type_value'', v_string ''A'' SourceExplicit),
         (''project'', v_string ''p'' SourceProvider)]"
    by (simp add: with_create_bindings_def with_scope_def scope_attrs_def topic_desired_def put_type_def
        topic_state_def put_provider_def new_provider_def sample_settings_def v_string_def raw_str_def vget_def zero_val_def)
  have u: "expanded_url (p_ext put_provider) put_type (create_template put_type)
      (with_create_bindings (p_ext put_provider) put_type (with_scope put_provider (ds_attrs topic_desired))) = Inr ?u"
    unfolding scoped
    by (simp add: expanded_url_def create_template_def put_type_def eval_template put_provider_def new_provider_def
        new_client_def sample_ext_def vget_def abs_url_def base_url_for_def)
  have plain: "plain_url ?u ?path"
    unfolding plain_url_def
    by (intro exI [of _ "''api.example.com''"] exI [of _ "''v1/projects/p/topics/t''"]) simp
  have p: "trim_version_prefix ?path = ''projects/p/topics/t''" "after_last (CHR ''/'') ?path = ''t''"
      "relative_name ?path = ''projects/p/topics/t''"
    by code_simp+
  have s: "serves_item (w_srv fresh_world) ?path" "\<not> fs_put_replaces (w_srv fresh_world) (snd (split_url ?u))"
    by (simp_all add: serves_item_def fresh_world_def new_server_def operation_name_def
        compute_operation_name_def Let_def has_key_def has_suffix_def p)
  have free: "stored fresh_world = Map.empty" by (simp add: fresh_world_def new_server_def)
  have ph: "placeholder_names (create_template put_type) = [''project'', ''topic'']"
    by (simp add: create_template_def put_type_def placeholder_names.simps match_placeholder_def brace_free_def is_brace_def
        capture_name_def trim_prefix_def has_prefix_def trim_space_def is_space_def)
  have put_level: "t_attributes put_type = t_attributes topic_type" "t_create_wrapper put_type = []" by (simp_all add: put_type_def)
  have b: "put_object put_type (ds_attrs topic_desired) ?path = ?body"
    unfolding put_object_def p
    by (simp add: request_body_def in_body_def in_wrapper_def body_entries_def ph decoded_obj_def
        topic_desired_def topic_state_def sample_attrs v_string_def put_level to_wire_def wire_value.simps)
  have made: "made_at_its_url put_provider put_type (ds_attrs topic_desired) ?u ''projects/p/topics/t'' topic_ids ?path"
  proof -
    have e: "p_ext put_provider = sample_ext" by (simp add: put_provider_def new_provider_def new_client_def)
    have d: "decoded_obj ?body = ?body" by (simp add: decoded_obj_def)
    have seg: "path_escape (last_path_segment ''projects/p/topics/t'') = ''t''" by code_simp
    have "provider_id sample_ext put_type ?body [(''topic'', v_string ''t'' SourceExplicit), (''type_value'', v_string ''A'' SourceExplicit),
         (''project'', v_string ''p'' SourceProvider)] = Inr ''projects/p/topics/t''"
      by (simp add: provider_id_def name_is_already_the_id_def any_str_def put_type_def topic_type_def parse_topic_id topic_not_bare)
    moreover have "outside_created_collection sample_ext put_type ''projects/p/topics/t''
        [(''topic'', v_string ''t'' SourceExplicit), (''type_value'', v_string ''A'' SourceExplicit),
         (''project'', v_string ''p'' SourceProvider)] = None"
      by (simp add: outside_created_collection_def create_template_def put_type_def path_part_def
          eval_template vget_def trim_suffix_def has_suffix_def)
    moreover have "parse_provider_id sample_ext put_type ''projects/p/topics/t'' = Inr topic_ids"
      by (simp add: parse_provider_id_def import_templates_def put_type_def topic_type_def parse_topic_id topic_ids_def)
    moreover have "item_url sample_ext put_type [] ''projects/p/topics/t'' topic_ids = Inr ?u"
      by (simp add: item_url_def topic_expands Let_def abs_url_def base_url_for_def trim_suffix_def has_suffix_def seg
          put_type_def topic_type_def)
    ultimately show ?thesis using creatable u plain scoped
      by (simp add: made_at_its_url_def b d e) (simp add: put_type_def read_via_list_by_parent_def)
  qed
  have ok: "level_ok (t_attributes put_type)" "wf_map (ds_attrs topic_desired)"
      "\<forall>n \<in> set (keys (ds_attrs topic_desired)). has_key (t_attributes put_type) n"
    by (simp_all add: put_type_def sample_attrs level_ok_def wf_map_def has_key_def topic_desired_def topic_state_def)
  have pc: "plainly_configured put_type (ds_attrs topic_desired) ''type_value'' KString (AStr ''A'')" "t_create_wrapper put_type = []"
    by (simp_all add: plainly_configured_def ph put_level sample_attrs topic_desired_def topic_state_def v_string_def looks_like_a_project_name_def
        cut_prefix_def has_prefix_def)
  from create_refines_store [OF cl ty made s ok] pc obtain st w1 where
      "create_resource put_provider background topic_desired fresh_world = Some (Inr (Some st), w1)"
      "stored w1 = [?path \<mapsto> ?body]" "map_of (rs_attributes st) ''type_value'' = Some (Val KString True (AStr ''A'') SourceProvider)"
    unfolding free option.case b by blast
  then show ?thesis
    by (intro exI [of _ st] exI [of _ w1] exI [of _ ?body]) (simp add: v_string_def)
qed

end
