(* ===== verification/FakeSetup.thy ===== *)
theory FakeSetup
  imports FakeServer
begin

text \<open>
  What a test asks of the in-process Google Cloud before it is used: every method of \<open>Server\<close> that
  sets a field under the lock (server.go, operations.go, cai.go), and the two that read it. A Go
  set of names is a list of them.
\<close>

section \<open>Resources and collections\<close>

definition seed :: "server \<Rightarrow> string \<Rightarrow> json \<Rightarrow> server" where
  "seed s path m = (let s1 = s\<lparr>fs_resources := AList.update path (decoded_obj m) (fs_resources s)\<rparr>;
       parent = parent_of path
     in if parent \<noteq> [] then s1\<lparr>fs_declared := parent # fs_declared s1\<rparr> else s1)"

definition declare_collection :: "server \<Rightarrow> string \<Rightarrow> server" where
  "declare_collection s path = s\<lparr>fs_declared := path # fs_declared s\<rparr>"

definition fake_get :: "server \<Rightarrow> string \<Rightarrow> json option" where
  "fake_get s path = map_of (fs_resources s) path"

definition requests_of :: "server \<Rightarrow> http_request list" where
  "requests_of s = fs_requests s"

definition set_list_field :: "server \<Rightarrow> string \<Rightarrow> string \<Rightarrow> server" where
  "set_list_field s path field = s\<lparr>fs_list_fields := AList.update path field (fs_list_fields s)\<rparr>"

section \<open>How mutations answer\<close>

definition set_operation_style :: "server \<Rightarrow> operation_style \<Rightarrow> server" where
  "set_operation_style s style = s\<lparr>fs_op_style := style\<rparr>"

definition set_operation_style_for :: "server \<Rightarrow> (string \<Rightarrow> string \<Rightarrow> operation_style option) \<Rightarrow> server" where
  "set_operation_style_for s style_for = s\<lparr>fs_style_for := style_for\<rparr>"

definition set_put_replaces :: "server \<Rightarrow> (string \<Rightarrow> bool) \<Rightarrow> server" where
  "set_put_replaces s replaces = s\<lparr>fs_put_replaces := replaces\<rparr>"

definition drop_on_create :: "server \<Rightarrow> string list \<Rightarrow> server" where
  "drop_on_create s fs = s\<lparr>fs_drop_on_create := fs @ fs_drop_on_create s\<rparr>"

definition one_field_per_patch :: "server \<Rightarrow> string \<Rightarrow> server" where
  "one_field_per_patch s path = s\<lparr>fs_one_field_patch := path # fs_one_field_patch s\<rparr>"

section \<open>Failures\<close>

definition fail_next :: "server \<Rightarrow> int \<Rightarrow> string \<Rightarrow> string \<Rightarrow> server" where
  "fail_next s status code message =
     s\<lparr>fs_fail_next := Some \<lparr>sp_status = status, sp_code = code, sp_message = message\<rparr>\<rparr>"

definition not_found_times :: "server \<Rightarrow> string \<Rightarrow> nat \<Rightarrow> server" where
  "not_found_times s path n = s\<lparr>fs_not_found_remaining := AList.update path n (fs_not_found_remaining s)\<rparr>"

definition create_then_fail_operation :: "server \<Rightarrow> string \<Rightarrow> string \<Rightarrow> string \<Rightarrow> server" where
  "create_then_fail_operation s path code message = s\<lparr>fs_create_then_fail :=
     AList.update path \<lparr>sp_status = 0, sp_code = code, sp_message = message\<rparr> (fs_create_then_fail s)\<rparr>"

definition delete_then_fail_operation :: "server \<Rightarrow> string \<Rightarrow> string \<Rightarrow> string \<Rightarrow> server" where
  "delete_then_fail_operation s path code message =
     (create_then_fail_operation s path code message)\<lparr>fs_delete_then_fail := path # fs_delete_then_fail s\<rparr>"

section \<open>Operations\<close>

definition seed_operation :: "server \<Rightarrow> string \<Rightarrow> json \<Rightarrow> server" where
  "seed_operation s name response = s\<lparr>fs_lro_ops := AList.update name
     \<lparr>lo_response = Some (decoded_obj response), lo_err_code = [], lo_err_msg = []\<rparr> (fs_lro_ops s)\<rparr>"

definition complete_operation_with_error :: "server \<Rightarrow> string \<Rightarrow> string \<Rightarrow> string \<Rightarrow> server" where
  "complete_operation_with_error s name code message = s\<lparr>fs_lro_ops := AList.update name
     \<lparr>lo_response = None, lo_err_code = code, lo_err_msg = message\<rparr> (fs_lro_ops s)\<rparr>"

definition seed_compute_operation :: "server \<Rightarrow> string \<Rightarrow> string \<Rightarrow> server" where
  "seed_compute_operation s name target = s\<lparr>fs_compute_ops := AList.update name
     \<lparr>cp_response = None, cp_self_link = compute_op_self_link s target name,
      cp_target_link = absolute s target, cp_err_code = [], cp_err_msg = []\<rparr> (fs_compute_ops s)\<rparr>"

definition never_complete_operations :: "server \<Rightarrow> server" where
  "never_complete_operations s = s\<lparr>fs_never_complete := True\<rparr>"

definition answer_compute_operation_targets_at :: "server \<Rightarrow> string \<Rightarrow> server" where
  "answer_compute_operation_targets_at s path = s\<lparr>fs_op_target_path := path\<rparr>"

definition answer_compute_operation_links_under :: "server \<Rightarrow> string \<Rightarrow> server" where
  "answer_compute_operation_links_under s version = s\<lparr>fs_op_link_version := version\<rparr>"

section \<open>Cloud Asset Inventory and tag bindings\<close>

definition seed_cai :: "server \<Rightarrow> string \<Rightarrow> asset list \<Rightarrow> server" where
  "seed_cai s parent assets = s\<lparr>fs_cai_assets := AList.update parent assets (fs_cai_assets s)\<rparr>"

definition fail_cai :: "server \<Rightarrow> int \<Rightarrow> string \<Rightarrow> string \<Rightarrow> server" where
  "fail_cai s status code message =
     s\<lparr>fs_cai_fail := Some \<lparr>sp_status = status, sp_code = code, sp_message = message\<rparr>\<rparr>"

definition seed_tag_bindings :: "server \<Rightarrow> string \<Rightarrow> json list \<Rightarrow> server" where
  "seed_tag_bindings s parent bindings = s\<lparr>fs_tag_bindings := AList.update parent
     ((case map_of (fs_tag_bindings s) parent of Some bs \<Rightarrow> bs | None \<Rightarrow> []) @ bindings) (fs_tag_bindings s)\<rparr>"

end
