(* ===== verification/Documents.thy ===== *)
theory Documents
  imports Disco
begin

text \<open>
  Properties of Discovery documents: expanding references ends with none left, whatever cycles the
  document has, and the flat list of collections is the tree, each node with methods once and in
  order.
\<close>

section \<open>References\<close>

fun refs_of :: "dschema \<Rightarrow> string list" where
  "refs_of (Schema i ps it ad) = (if sm_ref i \<noteq> [] then [sm_ref i] else [])
     @ concat (map (\<lambda>(n, p). refs_of p) ps)
     @ (case it of None \<Rightarrow> [] | Some s \<Rightarrow> refs_of s) @ (case ad of None \<Rightarrow> [] | Some s \<Rightarrow> refs_of s)"

definition refs_known :: "document \<Rightarrow> dschema \<Rightarrow> bool" where
  "refs_known d s \<longleftrightarrow> set (refs_of s) \<subseteq> set (keys (doc_schemas d))"

definition closed_document :: "document \<Rightarrow> bool" where
  "closed_document d \<longleftrightarrow> (\<forall>(n, s) \<in> set (doc_schemas d). refs_known d s)"

lemma as_referred_refs [simp]: "refs_of (as_referred i r) = refs_of r"
  by (cases r) (simp add: as_referred_def)

lemma refs_of_truncated [simp]: "refs_of (truncated i) = []"
  by (simp add: truncated_def no_facts_def)

definition says_no_less :: "dschema \<Rightarrow> dschema \<Rightarrow> bool" where
  "says_no_less s r \<longleftrightarrow> (sm_read_only (sm s) \<longrightarrow> sm_read_only (sm r))
     \<and> (sm_description (sm s) \<noteq> [] \<longrightarrow> sm_description (sm r) = sm_description (sm s))"

lemma as_referred_says: "says_no_less (Schema i ps it ad) (as_referred i r)"
  by (cases r) (simp add: says_no_less_def as_referred_def)

lemma refs_known_parts:
  "refs_known d (Schema i ps it ad) \<Longrightarrow> (\<forall>(n, p) \<in> set ps. refs_known d p)
     \<and> (\<forall>s \<in> set_option it. refs_known d s) \<and> (\<forall>s \<in> set_option ad. refs_known d s)"
  by (force simp: refs_known_def)

lemma resolve_at_complete:
  "closed_document d \<Longrightarrow> refs_known d s \<Longrightarrow> \<exists>r n. resolve_at d depth s = Inr (r, n) \<and> refs_of r = []
     \<and> (depth \<le> max_ref_depth \<longrightarrow> says_no_less s r)"
  "closed_document d \<Longrightarrow> \<forall>(n, p) \<in> set ps. refs_known d p \<Longrightarrow> \<exists>ps' n. resolve_props d depth ps = Inr (ps', n)
     \<and> keys ps' = keys ps \<and> concat (map (\<lambda>(n, p). refs_of p) ps') = []"
  "closed_document d \<Longrightarrow> \<forall>s \<in> set_option so. refs_known d s \<Longrightarrow> \<exists>so' n. resolve_opt d depth so = Inr (so', n)
     \<and> (case so' of None \<Rightarrow> [] | Some s \<Rightarrow> refs_of s) = []"
proof (induction d depth s and d depth ps and d depth so rule: resolve_at_resolve_props_resolve_opt.induct)
  case (1 d depth i ps it ad)
  show ?case
  proof (cases "depth > max_ref_depth")
    case shallow: False
    show ?thesis
    proof (cases "sm_ref i = []")
      case plain: True
      have k: "\<forall>(n, p) \<in> set ps. refs_known d p" "\<forall>s \<in> set_option it. refs_known d s" "\<forall>s \<in> set_option ad. refs_known d s"
        using "1.prems"(2) refs_known_parts [of d i ps it ad] by blast+
      from "1.IH"(2) [OF shallow] plain "1.prems"(1) k(1) obtain ps' n where
          ps': "resolve_props d depth ps = Inr (ps', n)" "concat (map (\<lambda>(n, p). refs_of p) ps') = []" by auto
      from "1.IH"(3) [OF shallow _ ps'(1) refl] plain "1.prems"(1) k(2) obtain it' n' where
          it': "resolve_opt d depth it = Inr (it', n')" "(case it' of None \<Rightarrow> [] | Some s \<Rightarrow> refs_of s) = []" by auto
      from "1.IH"(4) [OF shallow _ ps'(1) refl it'(1) refl] plain "1.prems"(1) k(3) obtain ad' n'' where
          ad': "resolve_opt d depth ad = Inr (ad', n'')" "(case ad' of None \<Rightarrow> [] | Some s \<Rightarrow> refs_of s) = []" by auto
      show ?thesis using shallow plain ps' it' ad' by (simp add: says_no_less_def)
    next
      case False
      then obtain target where t: "map_of (doc_schemas d) (sm_ref i) = Some target"
        using "1.prems"(2) by (cases "map_of (doc_schemas d) (sm_ref i)")
          (auto simp: refs_known_def map_of_eq_None_iff split: if_splits)
      have "refs_known d target" using "1.prems"(1) map_of_SomeD [OF t] by (auto simp: closed_document_def)
      with "1.IH"(1) [OF shallow False t] "1.prems"(1) obtain r n where
          r: "resolve_at d (Suc depth) target = Inr (r, n)" "refs_of r = []" by auto
      show ?thesis using shallow False t r by (simp add: as_referred_says)
    qed
  qed simp
next
  case (3 d depth name p ps)
  from "3.IH"(1) "3.prems" obtain r n where r: "resolve_at d depth p = Inr (r, n)" "refs_of r = []" by auto
  from "3.IH"(2) [OF r(1) refl] "3.prems" obtain ps' n' where
      "resolve_props d depth ps = Inr (ps', n')" "keys ps' = keys ps" "concat (map (\<lambda>(n, p). refs_of p) ps') = []" by auto
  with r show ?case by simp
qed auto

text \<open>
  C40. Expanding a schema's references ends, whatever cycles the document has, and where every
  reference of the document names a schema it succeeds: the result has no reference left, stays
  read-only where the schema was, and keeps the schema's own description.
\<close>

theorem resolve_complete:
  assumes "closed_document d" "refs_known d s"
  shows "\<exists>r. resolve d s = Inr r \<and> refs_of r = [] \<and> says_no_less s r"
  using resolve_at_complete(1) [OF assms, of 0] by (auto simp: resolve_def)

definition a_schema :: "string \<Rightarrow> string \<Rightarrow> (string \<times> dschema) list \<Rightarrow> dschema" where
  "a_schema type ref ps = Schema (no_facts\<lparr>sm_type := type, sm_ref := ref\<rparr>) ps None None"

text \<open>Container's own cycle: an operation's progress holds the progress of its stages.\<close>

definition progress_document :: document where
  "progress_document = \<lparr>doc_name = ''container'', doc_root_url = ''https://container.googleapis.com/'',
     doc_service_path = [], doc_schemas = [(''OperationProgress'', Schema (no_facts\<lparr>sm_type := ''object''\<rparr>)
        [(''name'', a_schema ''string'' [] []),
         (''stages'', Schema (no_facts\<lparr>sm_type := ''array''\<rparr>) [] (Some (a_schema [] ''OperationProgress'' [])) None)] None None)],
     doc_resources = [], doc_endpoints = []\<rparr>"

theorem resolve_complete_witness:
  "\<exists>r. resolve progress_document (a_schema [] ''OperationProgress'' []) = Inr r \<and> refs_of r = []"
proof -
  have "closed_document progress_document" "refs_known progress_document (a_schema [] ''OperationProgress'' [])"
    by (simp_all add: closed_document_def refs_known_def progress_document_def a_schema_def no_facts_def)
  from resolve_complete [OF this] show ?thesis by blast
qed

section \<open>Collections\<close>

fun node_at :: "(string \<times> dresource) list \<Rightarrow> string list \<Rightarrow> dresource option" where
  "node_at rs [] = None"
| "node_at rs [n] = map_of rs n"
| "node_at rs (n # m # path) = (case map_of rs n of None \<Rightarrow> None | Some r \<Rightarrow> node_at (re_resources r) (m # path))"

text \<open>A tree of Go maps names nothing twice on a level.\<close>

function wf_level :: "(string \<times> dresource) list \<Rightarrow> bool" where
  "wf_level rs \<longleftrightarrow> distinct (keys rs) \<and> list_all (\<lambda>(n, r). wf_level (re_resources r)) rs"
  by pat_completeness auto
termination by (relation "measure (size_list (size_prod (\<lambda>_. 0) size))") (auto simp: size_in_level)

declare wf_level.simps [simp del]

abbreviation below :: "string list \<Rightarrow> string \<times> dresource \<Rightarrow> collection list" where
  "below path \<equiv> \<lambda>(n, r). (if re_methods r \<noteq> [] then [\<lparr>co_path = path @ [n], co_methods = re_methods r\<rparr>] else [])
     @ collections_below (path @ [n]) (re_resources r)"

lemma collections_below_prefix: "c \<in> set (collections_below path rs) \<Longrightarrow> \<exists>n q. co_path c = path @ n # q"
proof (induction path rs arbitrary: c rule: collections_below.induct)
  case (1 path rs)
  from "1.prems" obtain n r where r: "(n, r) \<in> set (sort_key fst rs)" and c: "c \<in> set (below path (n, r))"
    by (subst (asm) collections_below.simps) auto
  show ?case using c "1.IH" [OF r refl, of c] by (auto split: if_splits)
qed

lemma below_prefix: "c \<in> set (below path (n, r)) \<Longrightarrow> \<exists>q. co_path c = path @ n # q"
  using collections_below_prefix [of c "path @ [n]"] by (auto split: if_splits)

lemma append_less [simp]: "(xs @ ys :: 'a::order list) < xs @ zs \<longleftrightarrow> ys < zs"
  by (induction xs) auto

lemma collections_ascending:
  "wf_level rs \<Longrightarrow> sorted_wrt (<) (map co_path (collections_below path rs))"
proof (induction path rs rule: collections_below.induct)
  case (1 path rs)
  have step: "sorted_wrt (<) (map co_path (below path x))" if "x \<in> set rs" for x
  proof -
    obtain n r where x: "x = (n, r)" by (cases x)
    have "wf_level (re_resources r)" using "1.prems" that by (subst (asm) wf_level.simps) (auto simp: x list_all_iff)
    then have s: "sorted_wrt (<) (map co_path (collections_below (path @ [n]) (re_resources r)))"
      by (rule "1.IH" [of x, rotated 2]) (use that x in auto)
    have "path @ [n] < co_path c" if "c \<in> set (collections_below (path @ [n]) (re_resources r))" for c
      using collections_below_prefix [OF that] by auto
    with s show ?thesis by (auto simp: x)
  qed
  have blocks: "sorted_wrt (<) (map co_path (concat (map (below path) xs)))"
    if "sorted (map fst xs)" "distinct (map fst xs)" "set xs \<subseteq> set rs" for xs
    using that
  proof (induction xs)
    case (Cons x xs)
    have "co_path a < co_path b" if "a \<in> set (below path x)" "y \<in> set xs" "b \<in> set (below path y)" for a b y
    proof -
      have "fst x < fst y" using Cons.prems that(2) by (auto simp: order_less_le image_iff)
      with below_prefix [of a path "fst x" "snd x"] below_prefix [of b path "fst y" "snd y"] that show ?thesis
        by (auto simp del: split_conv)
    qed
    with Cons step [of x] show ?case by (auto simp: sorted_wrt_append simp del: split_conv)
  qed simp
  moreover have "distinct (map fst (sort_key fst rs))"
  proof -
    have "mset (map fst (sort_key fst rs)) = mset (map fst rs)" by simp
    moreover have "distinct (map fst rs)" using "1.prems" by (simp add: wf_level.simps [of rs])
    ultimately show ?thesis by (metis mset_eq_imp_distinct_iff)
  qed
  ultimately have "sorted_wrt (<) (map co_path (concat (map (below path) (sort_key fst rs))))"
    by (intro blocks) simp_all
  then show ?case unfolding collections_below.simps [of path rs] .
qed

lemma in_collections_below:
  "wf_level rs \<Longrightarrow> c \<in> set (collections_below path rs) \<longleftrightarrow>
     (\<exists>q r. co_path c = path @ q \<and> node_at rs q = Some r \<and> re_methods r = co_methods c \<and> co_methods c \<noteq> [])"
proof (induction path rs arbitrary: c rule: collections_below.induct)
  case (1 path rs)
  have d: "distinct (map fst rs)" using "1.prems" by (simp add: wf_level.simps [of rs])
  have sub: "c \<in> set (collections_below (path @ [n]) (re_resources r)) \<longleftrightarrow>
      (\<exists>q r'. co_path c = path @ n # q \<and> node_at (re_resources r) q = Some r' \<and> re_methods r' = co_methods c \<and> co_methods c \<noteq> [])"
    if "(n, r) \<in> set rs" for n r
  proof -
    have "wf_level (re_resources r)" using "1.prems" that by (subst (asm) wf_level.simps) (auto simp: list_all_iff)
    from "1.IH" [OF _ refl this] that show ?thesis by simp
  qed
  define C where "C n \<longleftrightarrow> (\<exists>q r'. co_path c = path @ n # q \<and> node_at rs (n # q) = Some r'
      \<and> re_methods r' = co_methods c \<and> co_methods c \<noteq> [])" for n
  have key: "c \<in> set (below path (n, r)) \<longleftrightarrow> C n" if n: "(n, r) \<in> set rs" for n r
  proof -
    from n have m: "map_of rs n = Some r" using d by simp
    have "c \<in> set (below path (n, r)) \<longleftrightarrow> (re_methods r = co_methods c \<and> co_methods c \<noteq> [] \<and> co_path c = path @ [n])
        \<or> (\<exists>q r'. co_path c = path @ n # q \<and> node_at (re_resources r) q = Some r' \<and> re_methods r' = co_methods c \<and> co_methods c \<noteq> [])"
      using sub [OF n] by (cases c) auto
    also have "\<dots> \<longleftrightarrow> (\<exists>q r'. co_path c = path @ n # q \<and> node_at rs (n # q) = Some r'
        \<and> re_methods r' = co_methods c \<and> co_methods c \<noteq> [])" (is "?A \<or> ?B \<longleftrightarrow> ?C")
    proof
      assume "?A \<or> ?B"
      then show ?C
      proof
        assume ?A then show ?C using m by (intro exI [of _ "[]"] exI [of _ r]) auto
      next
        assume ?B
        then obtain q r' where q: "co_path c = path @ n # q" "node_at (re_resources r) q = Some r'"
            "re_methods r' = co_methods c" "co_methods c \<noteq> []" by blast
        then obtain x xs where "q = x # xs" by (cases q) auto
        with q m show ?C by auto
      qed
    next
      assume ?C
      then obtain q r' where q: "co_path c = path @ n # q" "node_at rs (n # q) = Some r'"
          "re_methods r' = co_methods c" "co_methods c \<noteq> []" by blast
      then show "?A \<or> ?B" using m by (cases q) auto
    qed
    finally show ?thesis by (simp only: C_def)
  qed
  have "c \<in> set (collections_below path rs) \<longleftrightarrow> (\<exists>x \<in> set rs. c \<in> set (below path x))"
    by (subst collections_below.simps) (simp del: split_conv)
  also have "\<dots> \<longleftrightarrow> (\<exists>(n, r) \<in> set rs. C n)"
  proof (rule bex_cong [OF refl])
    fix x assume x: "x \<in> set rs"
    obtain n r where "x = (n, r)" by (rule prod.exhaust)
    with x key [of n r] show "c \<in> set (below path x) \<longleftrightarrow> (case x of (n, r) \<Rightarrow> C n)" by simp
  qed
  also have "\<dots> \<longleftrightarrow> (\<exists>q r. co_path c = path @ q \<and> node_at rs q = Some r \<and> re_methods r = co_methods c \<and> co_methods c \<noteq> [])"
  proof
    assume "\<exists>q r. co_path c = path @ q \<and> node_at rs q = Some r \<and> re_methods r = co_methods c \<and> co_methods c \<noteq> []"
    then obtain q r where q: "co_path c = path @ q" "node_at rs q = Some r" "re_methods r = co_methods c" "co_methods c \<noteq> []"
      by blast
    then obtain n q' r' where "q = n # q'" "map_of rs n = Some r'"
      by (cases "(rs, q)" rule: node_at.cases) (auto split: option.splits)
    then show "\<exists>(n, r) \<in> set rs. C n" using q by (force simp: C_def dest: map_of_SomeD)
  qed (auto simp only: C_def)
  finally show ?case .
qed

text \<open>
  The flat list of a document's collections is its tree of resources: a path is listed, with the
  methods found there, exactly when the tree has a node with methods at it, each once, and the
  list is in ascending order of the paths, so it does not depend on how the document was read.
\<close>

theorem collections_exact:
  assumes "wf_level (doc_resources d)"
  shows "sorted_wrt (<) (map co_path (collections d))
    \<and> (\<forall>path ms. \<lparr>co_path = path, co_methods = ms\<rparr> \<in> set (collections d) \<longleftrightarrow>
        ms \<noteq> [] \<and> (\<exists>sub. node_at (doc_resources d) path = Some (Resource ms sub)))"
proof -
  have "re_methods r = ms \<longleftrightarrow> (\<exists>sub. r = Resource ms sub)" for r ms by (cases r) auto
  then show ?thesis using collections_ascending [OF assms, of "[]"] in_collections_below [OF assms, of _ "[]"]
    by (auto simp: collections_def)
qed

definition a_method :: "string \<Rightarrow> dmethod" where
  "a_method path = \<lparr>me_id = [], me_path = path, me_flat_path = [], me_http_method = ''GET'', me_description = [],
     me_request = None, me_response = None, me_parameters = []\<rparr>"

definition pubsub_document :: document where
  "pubsub_document = progress_document\<lparr>doc_resources := [(''projects'', Resource []
     [(''topics'', Resource [(''get'', a_method ''v1/{+topic}'')] []),
      (''snapshots'', Resource [(''get'', a_method ''v1/{+snapshot}'')] [])])]\<rparr>"

theorem collections_exact_witness:
  "sorted_wrt (<) (map co_path (collections pubsub_document))
    \<and> \<lparr>co_path = [''projects'', ''topics''], co_methods = [(''get'', a_method ''v1/{+topic}'')]\<rparr> \<in> set (collections pubsub_document)"
proof -
  have "wf_level (doc_resources pubsub_document)"
    by code_simp
  note all = collections_exact [OF this]
  have "node_at (doc_resources pubsub_document) [''projects'', ''topics'']
      = Some (Resource [(''get'', a_method ''v1/{+topic}'')] [])"
    by (simp add: pubsub_document_def)
  then have "[(''get'', a_method ''v1/{+topic}'')] \<noteq> []
      \<and> (\<exists>sub. node_at (doc_resources pubsub_document) [''projects'', ''topics'']
          = Some (Resource [(''get'', a_method ''v1/{+topic}'')] sub))" by blast
  from conjunct2 [OF all, THEN spec, THEN spec, THEN iffD2, OF this] conjunct1 [OF all] show ?thesis by (rule conjI [rotated])
qed

end
