(* ===== verification/Spelling.thy ===== *)
theory Spelling
  imports Segments
begin

text \<open>
  The spellings of one name (internal/gen/attrs.go, \<open>snake\<close>; internal/gen/build.go, \<open>snakeToCamel\<close>,
  \<open>singularSegment\<close>, \<open>lowerFirst\<close>). Names in Discovery documents and in magic-modules are ASCII, so a
  rune is a byte.
\<close>

definition is_upper :: "char \<Rightarrow> bool" where
  "is_upper c \<longleftrightarrow> (let n = (of_char c :: nat) in 65 \<le> n \<and> n \<le> 90)"

definition is_lower :: "char \<Rightarrow> bool" where
  "is_lower c \<longleftrightarrow> (let n = (of_char c :: nat) in 97 \<le> n \<and> n \<le> 122)"

definition to_upper_char :: "char \<Rightarrow> char" where
  "to_upper_char c = (if is_lower c then char_of ((of_char c :: nat) - 32) else c)"

definition acronym_tail :: "string \<Rightarrow> nat \<Rightarrow> bool" where
  "acronym_tail r i \<longleftrightarrow>
     (r ! i = CHR ''s'' \<and> (i + 1 = length r \<or> is_upper (r ! (i + 1))))
     \<or> ((r ! i = CHR ''v'' \<or> r ! i = CHR ''V'') \<and> i + 1 < length r \<and> is_digit (r ! (i + 1)))"

definition starts_word :: "string \<Rightarrow> nat \<Rightarrow> bool" where
  "starts_word r i =
     (if \<not> is_upper (r ! i) then False
      else if \<not> is_upper (r ! (i - 1)) then True
      else if i + 1 \<ge> length r \<or> \<not> is_lower (r ! (i + 1)) then False
      else \<not> acronym_tail r (i + 1))"

definition snake :: "string \<Rightarrow> string" where
  "snake s = concat (map (\<lambda>i. (if i > 0 \<and> starts_word s i then ''_'' else []) @ [to_lower_char (s ! i)]) [0..<length s])"

definition lower_first :: "string \<Rightarrow> string" where
  "lower_first s = map to_lower_char (take 1 s) @ drop 1 s"

definition upper_first :: "string \<Rightarrow> string" where
  "upper_first s = map to_upper_char (take 1 s) @ drop 1 s"

definition snake_to_camel :: "string \<Rightarrow> string" where
  "snake_to_camel s = (case split_on (CHR ''_'') s of [] \<Rightarrow> [] | p # ps \<Rightarrow> p @ concat (map upper_first ps))"

definition singular_segment :: "string \<Rightarrow> string" where
  "singular_segment s =
     (if has_suffix s ''ies'' then drop_last 3 s @ ''y''
      else if has_suffix s ''sses'' \<or> has_suffix s ''xes'' \<or> has_suffix s ''zes''
        \<or> has_suffix s ''ches'' \<or> has_suffix s ''shes'' then drop_last 2 s
      else if has_suffix s ''s'' then drop_last 1 s
      else s)"

section \<open>Snake case and back\<close>

text \<open>Camel case with no two capitals in a row and no capital first.\<close>

definition plain_camel :: "string \<Rightarrow> bool" where
  "plain_camel s \<longleftrightarrow> CHR ''_'' \<notin> set s \<and> (\<forall>i < length s. is_upper (s ! i) \<longrightarrow> 0 < i \<and> \<not> is_upper (s ! (i - 1)))"

definition unfolded :: "string \<Rightarrow> string" where
  "unfolded s = concat (map (\<lambda>c. (if is_upper c then ''_'' else []) @ [to_lower_char c]) s)"

lemma lower_upper [simp]: "is_upper c \<Longrightarrow> to_upper_char (to_lower_char c) = c"
proof -
  assume u: "is_upper c"
  have "to_lower_char c = char_of ((of_char c :: nat) + 32)" "(of_char c :: nat) + 32 < 256"
    using u by (auto simp: is_upper_def to_lower_char_def Let_def)
  then have "(of_char (to_lower_char c) :: nat) = of_char c + 32" by simp
  with u show ?thesis by (simp add: to_upper_char_def is_lower_def is_upper_def Let_def)
qed

lemma not_upper_lower [simp]: "\<not> is_upper c \<Longrightarrow> to_lower_char c = c"
  by (auto simp add: is_upper_def to_lower_char_def Let_def)

lemma upper_not_underscore [simp]: "is_upper c \<Longrightarrow> to_lower_char c \<noteq> CHR ''_''"
proof
  assume "is_upper c" "to_lower_char c = CHR ''_''"
  then have "c = to_upper_char (CHR ''_'')" using lower_upper by metis
  then have "c = CHR ''_''" by (simp add: to_upper_char_def is_lower_def)
  with \<open>is_upper c\<close> show False by (simp add: is_upper_def)
qed

lemma snake_unfolded:
  assumes "plain_camel s"
  shows "snake s = unfolded s"
proof -
  have "(i > 0 \<and> starts_word s i) \<longleftrightarrow> is_upper (s ! i)" if "i < length s" for i
    using assms that by (auto simp: plain_camel_def starts_word_def)
  then have "snake s = concat (map (\<lambda>i. (if is_upper (s ! i) then ''_'' else []) @ [to_lower_char (s ! i)]) [0..<length s])"
    unfolding snake_def by (intro arg_cong [where f = concat] map_cong) auto
  also have "\<dots> = unfolded (map ((!) s) [0..<length s])" by (simp add: unfolded_def comp_def)
  finally show ?thesis by (simp add: map_nth)
qed

lemma camel_unfolded:
  "CHR ''_'' \<notin> set s \<Longrightarrow> hd (split_on (CHR ''_'') (unfolded s)) @ concat (map upper_first (tl (split_on (CHR ''_'') (unfolded s)))) = s"
proof (induction s)
  case (Cons c s)
  obtain p ps where p: "split_on (CHR ''_'') (unfolded s) = p # ps"
    by (cases "split_on (CHR ''_'') (unfolded s)") auto
  with Cons show ?case
    by (cases "is_upper c") (auto simp: unfolded_def upper_first_def)
qed (simp add: unfolded_def)

text \<open>
  The spelling an attribute is given in snake case leads back to the one name it came from: for
  every camel-case name without a run of capitals, the Discovery spelling of its snake-case
  spelling is the name itself, and the snake-case spelling has no capital left.
\<close>

theorem snake_camel_roundtrip:
  assumes "plain_camel s"
  shows "snake_to_camel (snake s) = s \<and> (\<forall>c \<in> set (snake s). \<not> is_upper c)"
proof
  have "hd (split_on (CHR ''_'') (unfolded s)) @ concat (map upper_first (tl (split_on (CHR ''_'') (unfolded s)))) = s"
    using assms by (intro camel_unfolded) (simp add: plain_camel_def)
  then show "snake_to_camel (snake s) = s"
    unfolding snake_unfolded [OF assms] snake_to_camel_def
    by (cases "split_on (CHR ''_'') (unfolded s)") auto
  have "\<not> is_upper (to_lower_char c)" for c
    by (cases "is_upper c") (auto simp: is_upper_def to_lower_char_def Let_def)
  moreover have "\<not> is_upper (CHR ''_'')" by (simp add: is_upper_def)
  ultimately show "\<forall>c \<in> set (snake s). \<not> is_upper c"
    unfolding snake_unfolded [OF assms] by (auto simp: unfolded_def split: if_splits)
qed

theorem snake_camel_roundtrip_witness:
  "snake ''datasetId'' = ''dataset_id'' \<and> snake_to_camel (snake ''datasetId'') = ''datasetId''
    \<and> snake ''natIP'' = ''nat_ip'' \<and> snake ''IPv4Range'' = ''ipv4_range''"
proof (intro conjI)
  have "plain_camel ''datasetId''"
    by (auto simp: plain_camel_def is_upper_def less_Suc_eq numeral_eq_Suc)
  then show "snake_to_camel (snake ''datasetId'') = ''datasetId''" by (rule snake_camel_roundtrip [THEN conjunct1])
qed code_simp+

end
