(* ===== verification/Templates.thy ===== *)
theory Templates
  imports Urls Spelling MagicModules
begin

text \<open>
  The generator's url templates (internal/gen/build.go, createid.go, patchlimits.go, setters.go): the
  placeholders they name, the shapes two of them share, and their rewritings. A regular expression
  of the source is the function giving the text it matches at the start of a string; \<open>scan\<close> finds its
  matches from left to right, as \<open>FindAllString\<close> and \<open>ReplaceAllString\<close> do. A missing method is \<open>None\<close>.
\<close>

section \<open>Matches\<close>

datatype piece = Lit char | Hit string

function scan :: "(string \<Rightarrow> string option) \<Rightarrow> string \<Rightarrow> piece list" where
  "scan m s = (case s of [] \<Rightarrow> []
     | c # cs \<Rightarrow> (case m s of
         None \<Rightarrow> Lit c # scan m cs
       | Some t \<Rightarrow> if t = [] then Lit c # scan m cs else Hit t # scan m (drop (length t) s)))"
  by pat_completeness auto
termination by (relation "measure (\<lambda>(m, s). length s)") auto

declare scan.simps [simp del]

definition hits :: "piece list \<Rightarrow> string list" where
  "hits ps = concat (map (\<lambda>p. case p of Hit t \<Rightarrow> [t] | Lit c \<Rightarrow> []) ps)"

definition put_back :: "(string \<Rightarrow> string) \<Rightarrow> piece list \<Rightarrow> string" where
  "put_back f ps = concat (map (\<lambda>p. case p of Hit t \<Rightarrow> f t | Lit c \<Rightarrow> [c]) ps)"

definition trim_set :: "char list \<Rightarrow> string \<Rightarrow> string" where
  "trim_set cs s = rev (dropWhile (\<lambda>c. c \<in> set cs) (rev (dropWhile (\<lambda>c. c \<in> set cs) s)))"

definition is_word :: "char \<Rightarrow> bool" where
  "is_word c \<longleftrightarrow> is_alnum c \<or> c = CHR ''_''"

text \<open>\<open>placeholderShapeRE\<close>: \<open>\{\{[^{}]+\}\}|\{[^{}]+\}\<close>.\<close>

definition shape_match :: "string \<Rightarrow> string option" where
  "shape_match s = (let d = brace_free (drop 2 s); b = brace_free (drop 1 s) in
     if take 2 s = ''{{'' \<and> d \<noteq> [] \<and> has_prefix (drop (2 + length d) s) ''}}'' then Some (take (length d + 4) s)
     else if take 1 s = ''{'' \<and> b \<noteq> [] \<and> has_prefix (drop (1 + length b) s) ''}'' then Some (take (length b + 2) s)
     else None)"

definition shapes_in :: "string \<Rightarrow> string list" where
  "shapes_in tmpl = hits (scan shape_match tmpl)"

definition template_shape :: "string \<Rightarrow> string" where
  "template_shape tmpl = put_back (\<lambda>_. [CHR 0x00]) (scan shape_match tmpl)"

text \<open>\<open>placeholderRE\<close>: \<open>\{\+?(\w+)\}\<close>; the name it captures.\<close>

definition captured_name :: "string \<Rightarrow> string" where
  "captured_name t = takeWhile is_word (trim_prefix (drop 1 t) ''+'')"

definition word_match :: "string \<Rightarrow> string option" where
  "word_match s = (let r = trim_prefix (drop 1 s) ''+''; w = takeWhile is_word r in
     if take 1 s = ''{'' \<and> w \<noteq> [] \<and> has_prefix (drop (length w) r) ''}''
     then Some (take (length s - length r + length w + 1) s) else None)"

section \<open>Placeholders\<close>

text \<open>\<open>pathPlaceholders\<close> is the scan of the catalog's \<open>urlPlaceholders\<close>, line for line.\<close>

definition path_placeholders :: "string \<Rightarrow> string list" where
  "path_placeholders tmpl = url_placeholders tmpl"

record url_placeholder =
  up_name :: string
  up_reserved :: bool

function template_placeholders :: "string \<Rightarrow> url_placeholder list" where
  "template_placeholders s = (case s of [] \<Rightarrow> []
     | c # cs \<Rightarrow>
         if c \<noteq> CHR ''{'' then template_placeholders cs
         else (case open_placeholder cs of
             None \<Rightarrow> []
           | Some (content, double, rest) \<Rightarrow>
               \<lparr>up_name = trim_prefix (trim_prefix content ''+'') ''%'', up_reserved = has_prefix content ''+''\<rparr>
               # template_placeholders rest))"
  by pat_completeness auto
termination by (relation "measure length") (auto dest: open_placeholder_shorter)

declare template_placeholders.simps [simp del]

text \<open>\<open>urlPlaceholderNames\<close> keeps the content as it is written, white space and \<open>%\<close> included.\<close>

function raw_placeholders :: "string \<Rightarrow> string list" where
  "raw_placeholders s = (case s of [] \<Rightarrow> []
     | c # cs \<Rightarrow>
         if c \<noteq> CHR ''{'' then raw_placeholders cs
         else (let double = (take 1 cs = ''{''); rest = (if double then drop 1 cs else cs);
                   close = (if double then ''}}'' else ''}'')
           in case str_index rest close of
                None \<Rightarrow> []
              | Some i \<Rightarrow> take i rest # raw_placeholders (drop (i + length close) rest)))"
  by pat_completeness auto
termination by (relation "measure length") auto

declare raw_placeholders.simps [simp del]

definition url_placeholder_names :: "string \<Rightarrow> string list" where
  "url_placeholder_names tmpl =
     firsts [] (filter (\<lambda>n. n \<noteq> []) (map (\<lambda>c. trim_prefix c ''+'') (raw_placeholders tmpl)))"

definition template_placeholder_names :: "string \<Rightarrow> string list" where
  "template_placeholder_names tmpl = map (trim_set ''{}+%'') (shapes_in tmpl)"

definition bare_capture :: "string \<Rightarrow> bool" where
  "bare_capture tmpl \<longleftrightarrow> (case template_placeholders tmpl of
      [ph] \<Rightarrow> up_reserved ph \<and> tmpl = ''{+'' @ up_name ph @ ''}'' | _ \<Rightarrow> False)"

definition addresses_the_resource :: "string \<Rightarrow> bool" where
  "addresses_the_resource tmpl \<longleftrightarrow> (let last_seg = after_last (CHR ''/'') (path_part tmpl) in
     has_prefix last_seg ''{{'' \<and> has_suffix last_seg ''}}'' \<and> CHR '':'' \<notin> set last_seg)"

section \<open>Versions\<close>

text \<open>\<open>^v[0-9][0-9a-zA-Z]*$\<close>.\<close>

definition version_segment :: "string \<Rightarrow> bool" where
  "version_segment s \<longleftrightarrow> (case s of
      c # d # rest \<Rightarrow> c = CHR ''v'' \<and> is_digit d \<and> list_all is_alnum rest | _ \<Rightarrow> False)"

fun prefix_upto_version :: "string list \<Rightarrow> string list option" where
  "prefix_upto_version [] = None"
| "prefix_upto_version (s # segs) =
     (if version_segment s then Some [s] else map_option (Cons s) (prefix_upto_version segs))"

definition path_prefix_of :: "string \<Rightarrow> string" where
  "path_prefix_of path = (case prefix_upto_version (split_slash (trim_prefix path ''/'')) of
      Some segs \<Rightarrow> join_slash segs @ ''/'' | None \<Rightarrow> [])"

text \<open>\<open>^v[0-9][0-9a-z]*/\<close>.\<close>

definition version_prefix_of :: "string \<Rightarrow> string" where
  "version_prefix_of path = (let seg = takeWhile (\<lambda>c. c \<noteq> CHR ''/'') path in
     if version_segment seg \<and> list_all (\<lambda>c. \<not> is_upper c) seg \<and> length seg < length path then seg @ ''/'' else [])"

text \<open>\<open>^(?:v[0-9][0-9a-z]*/)?\{\{[a-z_]+\}\}$\<close>.\<close>

definition bare_mm_placeholder :: "string \<Rightarrow> bool" where
  "bare_mm_placeholder s \<longleftrightarrow> (let r = drop (length (version_prefix_of s)) s;
       name = takeWhile (\<lambda>c. is_lower c \<or> c = CHR ''_'') (drop 2 r)
     in name \<noteq> [] \<and> r = ''{{'' @ name @ ''}}'')"

section \<open>Collections\<close>

definition collection_leaf :: "string \<Rightarrow> string" where
  "collection_leaf tmpl = (let p = trim_suffix (path_part tmpl) ''/''; last_seg = after_last (CHR ''/'') p in
     if p = [] \<or> set last_seg \<inter> set ''{}'' \<noteq> {} then [] else last_seg)"

definition same_literals :: "string \<Rightarrow> string list \<Rightarrow> bool" where
  "same_literals tmpl path \<longleftrightarrow>
     filter (\<lambda>seg. seg \<noteq> [] \<and> CHR ''{'' \<notin> set seg) (split_slash (trim_char (CHR ''/'') (path_part tmpl))) = path"

definition without_item_tail :: "string \<Rightarrow> string \<Rightarrow> string" where
  "without_item_tail tmpl disco_path = (case str_cut tmpl ''?'' of (path0, query, has_query) \<Rightarrow>
     (let path = trim_suffix path0 ''/''; dlast = after_last (CHR ''/'') (trim_suffix disco_path ''/'') in
      case cut_last_slash path of
        None \<Rightarrow> tmpl
      | Some (dir, last_seg) \<Rightarrow>
          if CHR ''{'' \<notin> set last_seg \<or> set dlast \<inter> set ''{:'' \<noteq> {} then tmpl
          else if has_query then dir @ ''?'' @ query else dir))"

section \<open>Parents\<close>

definition parent_shapes :: "(string \<times> string) list" where
  "parent_shapes =
     [(''^projects/[^/]+$'', ''projects/{{project}}''),
      (''^projects/[^/]+/locations/[^/]+$'', ''projects/{{project}}/locations/{{location}}''),
      (''^projects/[^/]+/regions/[^/]+$'', ''projects/{{project}}/regions/{{region}}''),
      (''^projects/[^/]+/locations/global$'', ''projects/{{project}}/locations/global'')]"

definition parameter_of :: "dmethod option \<Rightarrow> string \<Rightarrow> dparameter option" where
  "parameter_of m name = (case m of None \<Rightarrow> None | Some m \<Rightarrow> map_of (me_parameters m) name)"

definition bind_parent_placeholders :: "string \<Rightarrow> dmethod option \<Rightarrow> string" where
  "bind_parent_placeholders tmpl create = foldl (\<lambda>out name.
     case parameter_of create name of
       None \<Rightarrow> out
     | Some p \<Rightarrow> (case map_of parent_shapes (pa_pattern p) of
         None \<Rightarrow> out | Some shape \<Rightarrow> replace_all out (''{+'' @ name @ ''}'') shape))
     tmpl (path_placeholders tmpl)"

text \<open>A wildcard of a pattern, \<open>[^/]+\<close> with or without a group around it.\<close>

definition wildcard_match :: "string \<Rightarrow> string option" where
  "wildcard_match s = (if has_prefix s ''([^/]+)'' then Some ''([^/]+)''
     else if has_prefix s ''[^/]+'' then Some ''[^/]+'' else None)"

abbreviation wildcard_mark :: string where "wildcard_mark \<equiv> [CHR 0x00]"

definition pattern_meta_chars :: "char list" where
  "pattern_meta_chars = ''[](){}^$+*?.|'' @ [CHR 0x5C]"

fun segments_named :: "string option \<Rightarrow> string list \<Rightarrow> string list option" where
  "segments_named prev [] = Some []"
| "segments_named prev (seg # segs) =
     (if seg \<noteq> wildcard_mark then
        (if seg = [] \<or> CHR 0x00 \<in> set seg \<or> set seg \<inter> set pattern_meta_chars \<noteq> {} then None
         else map_option (Cons seg) (segments_named (Some seg) segs))
      else (case prev of
          None \<Rightarrow> None
        | Some p \<Rightarrow> if p = wildcard_mark then None
            else map_option (Cons (''{'' @ lower_first (singular_segment p) @ ''}'')) (segments_named (Some seg) segs)))"

definition template_from_pattern :: "string \<Rightarrow> string" where
  "template_from_pattern pattern = (let p = trim_suffix (trim_prefix pattern ''^'') ''$'' in
     if p = [] then []
     else case segments_named None (split_slash (put_back (\<lambda>_. wildcard_mark) (scan wildcard_match p))) of
       None \<Rightarrow> [] | Some segs \<Rightarrow> join_slash segs)"

definition after_placeholder :: "string \<Rightarrow> string \<Rightarrow> string option" where
  "after_placeholder url name = (case filter (\<lambda>sp. str_contains url sp) [''{{'' @ name @ ''}}'', ''{+'' @ name @ ''}'', ''{'' @ name @ ''}''] of
      [] \<Rightarrow> None
    | sp # _ \<Rightarrow> map_option (\<lambda>i. drop (i + length sp) url) (str_index url sp))"

definition without_repeated_tail :: "string \<Rightarrow> string \<Rightarrow> string \<Rightarrow> string" where
  "without_repeated_tail binding url name = (case after_placeholder (path_part url) name of
      None \<Rightarrow> binding
    | Some rest \<Rightarrow> (let after = split_slash (trim_char (CHR ''/'') rest); bind = split_slash binding in
        case find (\<lambda>k. k \<le> length after
            \<and> map template_shape (drop (length bind - k) bind) = map template_shape (take k after)) (rev [1..<length bind]) of
          None \<Rightarrow> binding | Some k \<Rightarrow> join_slash (take (length bind - k) bind)))"

section \<open>Queries\<close>

definition ampersands :: "string \<Rightarrow> string list" where
  "ampersands query = split_on (CHR ''&'') query"

definition with_query :: "string \<Rightarrow> string list \<Rightarrow> string" where
  "with_query path kept = (if kept = [] then path else path @ ''?'' @ join_with ''&'' kept)"

definition query_param_for :: "string \<Rightarrow> string \<Rightarrow> string" where
  "query_param_for query ph = (case filter (\<lambda>(k, v, ok). ok \<and> v = ''{{'' @ ph @ ''}}'')
       (map (\<lambda>kv. str_cut kv ''='') (ampersands (trim_prefix query ''?''))) of
     (k, _, _) # _ \<Rightarrow> k | [] \<Rightarrow> [])"

definition fillable_names :: "ctype \<Rightarrow> string list" where
  "fillable_names t = [''project'', ''region'', ''zone'', ''location''] @ template_placeholder_names (t_self_link t)
     @ concat (map (\<lambda>(name, a). [name, a_canonical a, snake name] @ i_aliases (a_info a)) (t_attributes t))"

definition drop_unfillable_query :: "string \<Rightarrow> ctype \<Rightarrow> string" where
  "drop_unfillable_query tmpl t = (case str_cut tmpl ''?'' of (path, query, ok) \<Rightarrow>
     if \<not> ok then tmpl
     else with_query path (filter (\<lambda>kv. case str_cut kv ''='' of (_, v, _) \<Rightarrow>
         shape_match v = Some v \<longrightarrow> trim_set ''{}+%'' v \<in> set (fillable_names t)) (ampersands query)))"

definition squashed :: "string \<Rightarrow> string" where
  "squashed p = map to_lower_char (filter (\<lambda>c. c \<noteq> CHR ''_'') p)"

definition drop_unpublished_create_query :: "ctype \<Rightarrow> dmethod option \<Rightarrow> ctype" where
  "drop_unpublished_create_query t create = (case (str_cut (t_create_url t) ''?'', create) of
      ((path, query, True), Some m) \<Rightarrow>
        t\<lparr>t_create_url := with_query path (filter (\<lambda>kv. squashed (fst (str_cut kv ''=''))
            \<in> set (map squashed (keys (me_parameters m)))) (ampersands query))\<rparr>
    | _ \<Rightarrow> t)"

section \<open>Addresses\<close>

definition address_of :: "dmethod \<Rightarrow> string" where
  "address_of m = put_back (\<lambda>ph. case map_of (me_parameters m) (captured_name ph) of
       Some p \<Rightarrow> if pa_pattern p \<noteq> [] then ''<'' @ trim_set ''^$'' (pa_pattern p) @ ''>'' else ''<*>''
     | None \<Rightarrow> ''<*>'')
     (scan word_match (trim_prefix (me_path m) (path_prefix_of (me_path m))))"

definition same_address :: "dmethod option \<Rightarrow> dmethod option \<Rightarrow> bool" where
  "same_address a b \<longleftrightarrow> (case (a, b) of (Some a, Some b) \<Rightarrow> address_of a = address_of b | _ \<Rightarrow> False)"

definition normalize_path_shape :: "string \<Rightarrow> string" where
  "normalize_path_shape p = join_slash (map (\<lambda>seg. if has_prefix seg ''{'' then ''*'' else seg)
     (filter (\<lambda>seg. seg \<noteq> []) (split_slash (trim_char (CHR ''/'') p))))"

definition same_path_shape :: "string \<Rightarrow> string \<Rightarrow> bool" where
  "same_path_shape a b \<longleftrightarrow> (let na = normalize_path_shape a; nb = normalize_path_shape b in
     na \<noteq> [] \<and> (na = nb \<or> has_suffix nb (''/'' @ na) \<or> has_suffix na (''/'' @ nb)))"

text \<open>The patterns of an address read as wildcards: the replacements of a \<open>strings.Replacer\<close>, tried in order.\<close>

definition angle_match :: "string \<Rightarrow> string option" where
  "angle_match s = find (has_prefix s) [''<*>'', ''[^/]+'', ''<'', ''>'']"

definition template_addresses_method :: "string \<Rightarrow> dmethod option \<Rightarrow> bool" where
  "template_addresses_method tmpl m \<longleftrightarrow> (case m of None \<Rightarrow> False
    | Some m \<Rightarrow> (let want = normalize_path_shape (fst (str_cut tmpl ''?''));
          got = put_back (\<lambda>t. if t = ''<'' \<or> t = ''>'' then [] else ''*'') (scan angle_match (address_of m))
        in want \<noteq> [] \<and> normalize_path_shape got = want))"

definition update_url_matches_patch :: "string \<Rightarrow> dmethod option \<Rightarrow> bool" where
  "update_url_matches_patch url patch \<longleftrightarrow> (case patch of None \<Rightarrow> False
    | Some m \<Rightarrow> (case str_cut url ''?'' of (path, query, _) \<Rightarrow>
        same_path_shape path (me_path m)
        \<and> list_all (\<lambda>kv. kv = [] \<or> (case map_of (me_parameters m) (fst (str_cut kv ''='')) of
             Some p \<Rightarrow> pa_location p = ''query'' | None \<Rightarrow> False)) (ampersands query)))"

text \<open>The method's placeholders renamed by position; the shapes being equal, there are as many names.\<close>

fun put_in_turn :: "piece list \<Rightarrow> string list \<Rightarrow> string" where
  "put_in_turn [] names = []"
| "put_in_turn (Lit c # ps) names = c # put_in_turn ps names"
| "put_in_turn (Hit t # ps) names = (case names of [] \<Rightarrow> t @ put_in_turn ps [] | n # ns \<Rightarrow> n @ put_in_turn ps ns)"

definition setter_path :: "string \<Rightarrow> string \<Rightarrow> string \<Rightarrow> string" where
  "setter_path path meth self_link = (let base = trim_suffix path (''/'' @ meth); own = shapes_in self_link in
     if template_shape base = template_shape self_link then put_in_turn (scan shape_match base) own @ ''/'' @ meth
     else if list_all (\<lambda>p. trim_set ''{}+'' p \<in> set (map (trim_set ''{}+'') own)) (shapes_in base) then path
     else [])"

end
