(* ===== verification/AttrLevels.thy ===== *)
theory AttrLevels
  imports Spelling MagicModules Names
begin

text \<open>
  A type's attributes from its Discovery schema and its magic-modules fields (internal/gen/attrs.go,
  \<open>BuildAttributes\<close>). Of the record of where a fact came from (\<open>Sources\<close>, never serialised) nothing is
  kept. The conflicts \<open>BuildAttributes\<close> prints are part of its answer.
\<close>

section \<open>One property\<close>

definition keyword_keys :: "(string \<times> string) list" where
  "keyword_keys = [(''type'', ''type_value''), (''provider'', ''provider_value''), (''lifecycle'', ''lifecycle_value'')]"

definition kind_of_type :: "string \<Rightarrow> kind" where
  "kind_of_type t = (if t = ''integer'' then KInt else if t = ''number'' then KFloat else if t = ''boolean'' then KBool
     else if t = ''array'' then KList else if t = ''object'' then KMap else KString)"

definition kind_of_schema :: "dschema \<Rightarrow> kind" where
  "kind_of_schema s = kind_of_type (sm_type (sm s))"

text \<open>\<open>^[a-z0-9]+#[A-Za-z0-9]+$\<close>.\<close>

definition kind_constant :: "string \<Rightarrow> bool" where
  "kind_constant s \<longleftrightarrow> (case str_cut s ''#'' of (service, type, found) \<Rightarrow>
     found \<and> service \<noteq> [] \<and> type \<noteq> [] \<and> list_all (\<lambda>c. is_lower c \<or> is_digit c) service \<and> list_all is_alnum type)"

definition describes_kind :: "string \<Rightarrow> bool" where
  "describes_kind text \<longleftrightarrow> (let d = to_lower (trim_space text) in
     str_contains d ''identifies what kind'' \<or> str_contains d ''the kind of item this is''
     \<or> has_prefix d ''type of resource'' \<or> has_prefix d ''type of the resource'')"

definition is_kind_constant :: "string \<Rightarrow> dschema \<Rightarrow> bool" where
  "is_kind_constant name p \<longleftrightarrow> name = ''kind''
     \<and> ((case sm_default (sm p) of AStr s \<Rightarrow> kind_constant s | _ \<Rightarrow> False) \<or> describes_kind (sm_description (sm p)))"

definition equivalences :: "(string \<times> string) list" where
  "equivalences =
     [(''PortRangeDiffSuppress'', ''port_range''),
      (''tpgresource.CompareSelfLinkOrResourceName'', ''self_link''),
      (''tpgresource.CompareSelfLinkRelativePaths'', ''self_link''),
      (''tpgresource.CompareSelfLinkCanonicalPaths'', ''self_link''),
      (''tpgresource.CompareResourceNames'', ''resource_name''),
      (''tpgresource.CaseDiffSuppress'', ''case''),
      (''tpgresource.DurationDiffSuppress'', ''duration'')]"

definition is_resource_ref :: "mm_field \<Rightarrow> bool" where
  "is_resource_ref f \<longleftrightarrow> mf_type (mf f) = ''ResourceRef''
     \<or> (case mf_item_type f of None \<Rightarrow> False | Some it \<Rightarrow> mf_type (mf it) = ''ResourceRef'')"

definition accepts_several_types :: "mm_field \<Rightarrow> bool" where
  "accepts_several_types f \<longleftrightarrow> has_suffix (mf_custom_expand (mf f)) ''/reference_to_backend.tmpl''"

definition mm_equivalence :: "mm_field \<Rightarrow> string" where
  "mm_equivalence f = (case map_of equivalences (mf_diff_suppress (mf f)) of
      Some e \<Rightarrow> e | None \<Rightarrow> if is_resource_ref f then ''self_link'' else [])"

definition equivalence_of :: "string \<Rightarrow> string \<Rightarrow> mm_field option \<Rightarrow> string" where
  "equivalence_of name description f =
     (if name = ''kmsKeyName'' \<and> str_contains description ''cryptoKeyVersions'' then ''kms_key''
      else if name = ''sourceImage'' then ''image''
      else case f of None \<Rightarrow> [] | Some f \<Rightarrow> mm_equivalence f)"

definition spellings :: "string \<Rightarrow> (string \<times> string) list \<Rightarrow> string list" where
  "spellings name aliases = (let alias = (case map_of aliases name of Some al \<Rightarrow> al | None \<Rightarrow> []); sn = snake name in
     (if alias \<noteq> [] then [alias] else []) @ (if sn \<noteq> name \<and> sn \<noteq> alias then [sn] else []))"

definition ref_of_field :: "mm_field \<Rightarrow> ref_target option" where
  "ref_of_field f = (if mf_type (mf f) = ''ResourceRef'' \<and> mf_resource (mf f) \<noteq> [] \<and> \<not> accepts_several_types f
     then Some \<lparr>r_type = mf_resource (mf f), r_attribute = (if mf_imports (mf f) = [] then ''selfLink'' else mf_imports (mf f))\<rparr>
     else None)"

text \<open>Everything an attribute says but its fields and elements, and whether required lost to output.\<close>

definition attr_facts :: "string \<Rightarrow> dschema \<Rightarrow> mm_field option \<Rightarrow> (string \<times> string) list \<Rightarrow> bool \<Rightarrow> attr_info" where
  "attr_facts name p f aliases outer =
     (let d = sm_description (sm p); bs = behaviors d;
          says = (\<lambda>g. case f of None \<Rightarrow> False | Some f \<Rightarrow> g (mf f));
          output0 = (output_only p \<or> is_kind_constant name p);
          output1 = (output0 \<or> says mf_output)
      in \<lparr>i_canonical = name, i_aliases = spellings name aliases, i_kind = kind_of_schema p,
          i_required = says mf_required \<and> \<not> output1,
          i_force_new = (''immutable'' \<in> set bs \<or> says mf_immutable),
          i_output = output1,
          i_sensitive = (says mf_sensitive \<or> says mf_write_only),
          i_equivalence = equivalence_of name d f,
          i_description = trim_space d,
          i_ref = (if outer then Option.bind f ref_of_field else None),
          i_opaque = False, i_create_only = False,
          i_input_only = (''input only'' \<in> set bs \<and> \<not> output0 \<or> says mf_ignore_read) \<and> \<not> output1,
          i_send_with_update = False,
          i_unordered = says mf_is_set\<rparr>)"

definition required_conflicts :: "string \<Rightarrow> string \<Rightarrow> dschema \<Rightarrow> mm_field option \<Rightarrow> string list" where
  "required_conflicts service name p f = (case f of
      None \<Rightarrow> []
    | Some f \<Rightarrow> if mf_required (mf f) \<and> (output_only p \<or> is_kind_constant name p \<or> mf_output (mf f))
        then [''gen: '' @ service @ ''.'' @ name
          @ '' is required per magic-modules but output-only per Discovery; treating it as output-only'' @ [CHR 0x0A]]
        else [])"

section \<open>The index of magic-modules' fields\<close>

definition index_by :: "(mm_field \<Rightarrow> string) \<Rightarrow> (string \<times> mm_field) list \<Rightarrow> mm_field list \<Rightarrow> (string \<times> mm_field) list" where
  "index_by key out fs =
     foldl (\<lambda>out f. if key f \<noteq> [] \<and> \<not> has_key out (key f) then out @ [(key f, f)] else out) out fs"

definition mm_index :: "mm_field list \<Rightarrow> (string \<times> mm_field) list" where
  "mm_index fs = index_by (\<lambda>f. mf_api_name (mf f)) (index_by (\<lambda>f. mf_name (mf f)) [] fs) fs"

definition mm_children :: "mm_field option \<Rightarrow> (string \<times> mm_field) list" where
  "mm_children f = (case f of
      None \<Rightarrow> []
    | Some f \<Rightarrow> (case mf_item_type f of
        Some it \<Rightarrow> if mf_properties it \<noteq> [] then mm_index (mf_properties it) else mm_index (mf_properties f)
      | None \<Rightarrow> mm_index (mf_properties f)))"

section \<open>A level\<close>

abbreviation level_size :: "(string \<times> dschema) list \<Rightarrow> nat" where
  "level_size \<equiv> size_list (size_prod (\<lambda>_. 0) size)"

lemma level_size_props: "(n, p) \<in> set ps \<Longrightarrow> level_size (sm_props p) < level_size ps"
proof (induction ps)
  case (Cons a ps)
  have "level_size (sm_props p) < size p" by (cases p) simp
  with Cons show ?case by fastforce
qed simp

lemma level_size_items: "(n, p) \<in> set ps \<Longrightarrow> sm_items p = Some it \<Longrightarrow> level_size (sm_props it) < level_size ps"
proof (induction ps)
  case (Cons a ps)
  have "level_size (sm_props it) < size it" by (cases it) simp
  moreover have "size it < size p" using Cons.prems(2) by (cases p) auto
  ultimately show ?case using Cons by fastforce
qed simp

definition key_of :: "bool \<Rightarrow> string \<Rightarrow> string" where
  "key_of outer name = (if outer then case map_of keyword_keys name of Some k \<Rightarrow> k | None \<Rightarrow> name else name)"

definition elem_info :: "attr_info \<Rightarrow> dschema \<Rightarrow> attr_info" where
  "elem_info i it = \<lparr>i_canonical = i_canonical i, i_aliases = [], i_kind = kind_of_schema it, i_required = False,
     i_force_new = False, i_output = False, i_sensitive = False, i_equivalence = i_equivalence i, i_description = [],
     i_ref = None, i_opaque = (sm_type (sm it) = ''object'' \<and> sm_props it = []), i_create_only = False,
     i_input_only = False, i_send_with_update = False, i_unordered = False\<rparr>"

function build_level ::
  "string \<Rightarrow> (string \<times> dschema) list \<Rightarrow> (string \<times> mm_field) list \<Rightarrow> (string \<times> string) list \<Rightarrow> bool \<Rightarrow> level \<times> string list" where
  "build_level service ps idx aliases outer =
     (let built = map (\<lambda>(name, p).
        (let f = map_of idx name; i = attr_facts name p f aliases outer; cs = required_conflicts service name p f in
         if sm_type (sm p) = ''object'' then
           (if sm_props p = [] then (key_of outer name, Attr (i\<lparr>i_opaque := True\<rparr>) [] None, cs)
            else (case build_level service (sm_props p) (mm_children f) [] False of
                (fs, cs') \<Rightarrow> (key_of outer name, Attr i fs None, cs @ cs')))
         else if sm_type (sm p) = ''array'' then
           (case sm_items p of
              None \<Rightarrow> (key_of outer name, Attr i [] None, cs)
            | Some it \<Rightarrow>
                if sm_type (sm it) = ''object'' \<and> sm_props it \<noteq> [] then
                  (case build_level service (sm_props it) (mm_children f) [] False of
                     (fs, cs') \<Rightarrow> (key_of outer name, Attr i [] (Some (Attr (elem_info i it) fs None)), cs @ cs'))
                else (key_of outer name, Attr i [] (Some (Attr (elem_info i it) [] None)), cs))
         else (key_of outer name, Attr i [] None, cs))) ps
      in (overlay [] (map (\<lambda>(k, a, cs). (k, a)) built), concat (map (\<lambda>(k, a, cs). cs) built)))"
  by pat_completeness auto
termination
  by (relation "measure (\<lambda>(_, ps, _). level_size ps)") (auto dest: level_size_props level_size_items)

declare build_level.simps [simp del]

section \<open>All attributes\<close>

definition not_required :: "attr \<Rightarrow> attr" where
  "not_required a = (case a of Attr i fs e \<Rightarrow> Attr (i\<lparr>i_required := False\<rparr>) fs e)"

fun clear_nested_required :: "attr \<Rightarrow> attr" where
  "clear_nested_required (Attr i fs e) =
     Attr i (map (\<lambda>(n, f). (n, not_required (clear_nested_required f))) fs)
       (map_option (\<lambda>el. not_required (clear_nested_required el)) e)"

definition build_attributes ::
  "string \<Rightarrow> dschema option \<Rightarrow> mm_resource option \<Rightarrow> (string \<times> string) list \<Rightarrow> gerr + level \<times> string list" where
  "build_attributes service body mm aliases = (case body of
      None \<Rightarrow> Inl (Errorf ''no request body schema'' [])
    | Some s \<Rightarrow>
        (let idx = (case mm of None \<Rightarrow> [] | Some r \<Rightarrow> mm_index (mm_parameters r @ mm_properties r)) in
         case build_level service (sm_props s) idx aliases True of
           (lvl, conflicts) \<Rightarrow>
             Inr ((case mm of
                 Some r \<Rightarrow> if mm_exclude_resource r then map (\<lambda>(k, a). (k, clear_nested_required a)) lvl else lvl
               | None \<Rightarrow> lvl), sort conflicts)))"

end
