(* ===== verification/Methods.thy ===== *)
theory Methods
  imports Templates AttrLevels
begin

text \<open>
  What the generator reads off a collection's methods (internal/gen/build.go, attrs.go and
  patchlimits.go): how a mutation completes, which method updates the resource and with which body,
  where deletes go, what the ids look like, and where operations are polled. The methods of a
  collection are those of one document, so that two of them are the same method when they have the
  same name. The constant second answer of \<open>AwaitOf\<close> is left out.
\<close>

section \<open>Methods by name\<close>

definition meth :: "collection \<Rightarrow> string \<Rightarrow> dmethod option" where
  "meth col name = map_of (co_methods col) name"

definition create_key :: "collection \<Rightarrow> string" where
  "create_key col = (if has_key (co_methods col) ''insert'' then ''insert'' else ''create'')"

definition create_method :: "collection \<Rightarrow> dmethod option" where
  "create_method col = meth col (create_key col)"

definition create_path_of :: "collection \<Rightarrow> string" where
  "create_path_of col = (case create_method col of None \<Rightarrow> [] | Some m \<Rightarrow> me_path m)"

definition prefix_method_path :: "collection \<Rightarrow> string" where
  "prefix_method_path col = (case filter (\<lambda>p. p \<noteq> []) (map me_path
       (List.map_filter (meth col) [''get'', ''list'', ''insert'', ''create''])) of [] \<Rightarrow> [] | p # _ \<Rightarrow> p)"

text \<open>The first method, in the order of names, of which \<open>P\<close> holds.\<close>

definition first_method :: "(string \<Rightarrow> dmethod \<Rightarrow> bool) \<Rightarrow> collection \<Rightarrow> dmethod option" where
  "first_method P col = map_option snd (find (\<lambda>(n, m). P n m) (sort_key fst (co_methods col)))"

definition patch_method_of :: "collection \<Rightarrow> dmethod option" where
  "patch_method_of col = (case Option.bind (meth col ''patch'') (\<lambda>m. if me_http_method m = ''PATCH'' then Some m else None) of
      Some m \<Rightarrow> Some m
    | None \<Rightarrow> first_method (\<lambda>_ m. me_http_method m = ''PATCH'' \<and> same_address (Some m) (meth col ''get'')) col)"

section \<open>How a mutation completes\<close>

definition is_long_running_operation :: "dschema \<Rightarrow> bool" where
  "is_long_running_operation s \<longleftrightarrow> (let p = has_key (sm_props s) in
     p ''done'' \<and> p ''name'' \<and> (p ''response'' \<or> p ''error''))"

definition is_compute_operation :: "dschema \<Rightarrow> bool" where
  "is_compute_operation s \<longleftrightarrow> (let p = has_key (sm_props s) in p ''status'' \<and> p ''targetLink'' \<and> p ''operationType'')"

definition await_of :: "document \<Rightarrow> dmethod option \<Rightarrow> await_kind" where
  "await_of d m = (case Option.bind (Option.bind m me_response)
       (\<lambda>ref. if ref = [] then None else map_of (doc_schemas d) ref) of
      None \<Rightarrow> AwaitNone
    | Some s \<Rightarrow> if is_long_running_operation s then AwaitLongRunning
        else if is_compute_operation s then AwaitComputeOperation else AwaitNone)"

definition scope_of :: "string \<Rightarrow> scope" where
  "scope_of url = (if str_contains url ''/zones/'' then ScopeZonal
     else if str_contains url ''/regions/'' \<or> str_contains url ''/locations/'' then ScopeRegional
     else ScopeGlobal)"

definition list_field_blocklist :: "string list" where
  "list_field_blocklist = [''unreachable'', ''unreachables'', ''warnings'', ''warning'']"

definition list_field_of :: "document \<Rightarrow> collection \<Rightarrow> string" where
  "list_field_of d col = (case Option.bind (Option.bind (meth col ''list'') me_response)
       (\<lambda>ref. if ref = [] then None else map_of (doc_schemas d) ref) of
      None \<Rightarrow> []
    | Some raw \<Rightarrow> (case resolve d raw of
        Inl _ \<Rightarrow> []
      | Inr s \<Rightarrow>
          (let names = sort (map fst (filter (\<lambda>(_, p). sm_type (sm p) = ''array'') (sm_props s)));
               leaf = (case rev (co_path col) of [] \<Rightarrow> [] | l # _ \<Rightarrow> l)
           in case find (\<lambda>n. to_lower n = to_lower leaf \<or> to_lower n = to_lower (singular leaf)) names of
                Some n \<Rightarrow> n
              | None \<Rightarrow> (case find (\<lambda>n. to_lower n \<notin> set list_field_blocklist) names of Some n \<Rightarrow> n | None \<Rightarrow> []))))"

section \<open>The magic-modules resource of a collection\<close>

definition match_resource :: "mm_resource list \<Rightarrow> string \<Rightarrow> string \<Rightarrow> mm_resource option" where
  "match_resource mms leaf create_path =
     (case find (\<lambda>mm. to_lower (mm_name mm) = to_lower (singular leaf)) mms of
        None \<Rightarrow> None
      | Some by_name \<Rightarrow>
          (let want = collection_leaf create_path;
               own = (let c = collection_leaf (mm_create_url by_name) in if c = [] then collection_leaf (mm_base_url by_name) else c)
           in if own = [] \<or> want = [] \<or> own = want then Some by_name
              else (case filter (\<lambda>mm. collection_leaf (mm_base_url mm) = want) mms of
                  [mm] \<Rightarrow> Some mm | _ \<Rightarrow> Some by_name)))"

definition prefer_exact_collection :: "mm_resource list \<Rightarrow> string list \<Rightarrow> mm_resource option \<Rightarrow> mm_resource option" where
  "prefer_exact_collection mms path matched = (case matched of
      None \<Rightarrow> None
    | Some m \<Rightarrow>
        if path = [] \<or> same_literals (mm_base_url m) path \<or> has_prefix (trim_prefix (mm_base_url m) ''/'') ''{{'' then Some m
        else (case filter (\<lambda>mm. has_suffix (to_lower (mm_name mm)) (to_lower (singular (last path)))
                 \<and> same_literals (mm_base_url mm) path) mms of
            [mm] \<Rightarrow> Some mm | _ \<Rightarrow> Some m))"

section \<open>Prose\<close>

text \<open>The words of a description with one space between them.\<close>

fun squeezed :: "string \<Rightarrow> string" where
  "squeezed [] = []"
| "squeezed (c # cs) = (if is_space c then (case squeezed cs of [] \<Rightarrow> [] | d # ds \<Rightarrow> if d = CHR '' '' then d # ds else CHR '' '' # d # ds)
     else c # squeezed cs)"

definition word_boundary :: "string \<Rightarrow> nat \<Rightarrow> bool" where
  "word_boundary s i \<longleftrightarrow> (0 < i \<and> i \<le> length s \<and> is_word (s ! (i - 1))) \<noteq> (i < length s \<and> is_word (s ! i))"

definition text_at :: "string \<Rightarrow> nat \<Rightarrow> string \<Rightarrow> bool" where
  "text_at s i w \<longleftrightarrow> has_prefix (drop i s) w"

definition words_at :: "string \<Rightarrow> nat \<Rightarrow> string \<Rightarrow> bool" where
  "words_at s i w \<longleftrightarrow> word_boundary s i \<and> text_at s i w \<and> word_boundary s (i + length w)"

text \<open>\<open>P\<close> holds after at most \<open>n\<close> characters that are not full stops.\<close>

definition within_sentence :: "string \<Rightarrow> nat \<Rightarrow> nat \<Rightarrow> (nat \<Rightarrow> bool) \<Rightarrow> bool" where
  "within_sentence s i n P \<longleftrightarrow> list_ex (\<lambda>k. CHR ''.'' \<notin> set (take k (drop i s)) \<and> P (i + k)) [0..<Suc n]"

definition only_some_changed :: "string \<Rightarrow> nat \<Rightarrow> bool" where
  "only_some_changed s i \<longleftrightarrow> words_at s i ''only'' \<and> within_sentence s (i + 4) 90 (\<lambda>j.
     list_ex (\<lambda>w. words_at s j w \<and> within_sentence s (j + length w) 40 (\<lambda>k.
       word_boundary s k \<and> list_ex (text_at s k) [''modified'', ''updated'', ''changed'', ''mutable'']))
     [''can be'', ''are''])"

definition restriction_prose :: "string \<Rightarrow> bool" where
  "restriction_prose description \<longleftrightarrow> (let s = to_lower description in
     list_ex (only_some_changed s) [0..<length s]
     \<or> list_ex (\<lambda>i. list_ex (words_at s i) [''can only patch'', ''can only update'', ''can only modify'', ''can only change''])
         [0..<length s]
     \<or> str_contains s ''only certain fields'' \<or> str_contains s ''fingerprint'')"

definition restricted_patch :: "collection \<Rightarrow> bool" where
  "restricted_patch col \<longleftrightarrow> (case patch_method_of col of
      None \<Rightarrow> False | Some m \<Rightarrow> restriction_prose (squeezed (trim_space (me_description m))))"

text \<open>Words with white space between them, at the start of a text.\<close>

fun spaced_words :: "string list \<Rightarrow> string \<Rightarrow> bool" where
  "spaced_words [] s \<longleftrightarrow> True"
| "spaced_words [w] s \<longleftrightarrow> has_prefix s w"
| "spaced_words (w # ws) s \<longleftrightarrow> has_prefix s w \<and> (let r = drop (length w) s in
     re_space (case r of [] \<Rightarrow> CHR ''x'' | c # _ \<Rightarrow> c) \<and> spaced_words ws (dropWhile re_space r))"

definition lock_phrases :: "string list list" where
  "lock_phrases = [[''in'', ''order'', ''to'', ''update''], [''in'', ''order'', ''to'', ''patch''],
     [''include'', ''the'', ''fingerprint'', ''in'', ''patch'', ''request'']]"

definition lock_field_of :: "level \<Rightarrow> string" where
  "lock_field_of lvl = (case map_of lvl ''fingerprint'' of
      None \<Rightarrow> []
    | Some a \<Rightarrow> (let s = to_lower (i_description (a_info a)) in
        if list_ex (\<lambda>i. list_ex (\<lambda>ws. spaced_words ws (drop i s)) lock_phrases) [0..<length s]
        then a_canonical a else []))"

section \<open>Updates\<close>

definition discovered_update :: "collection \<Rightarrow> string \<Rightarrow> (string \<times> bool) option" where
  "discovered_update col update_url = (case (patch_method_of col, meth col ''get'') of
      (Some p, Some g) \<Rightarrow>
        if me_http_method p \<noteq> ''PATCH'' then None
        else if update_url = [] \<and> \<not> same_address (Some p) (Some g) then None
        else if update_url \<noteq> [] \<and> \<not> update_url_matches_patch update_url (Some p) then None
        else if me_request p = None \<or> me_response g = None \<or> me_request p \<noteq> me_response g then None
        else Some (''PATCH'', case map_of (me_parameters p) ''updateMask'' of
            Some q \<Rightarrow> pa_location q = ''query'' | None \<Rightarrow> False)
    | _ \<Rightarrow> None)"

definition discovered_put :: "collection \<Rightarrow> dmethod option" where
  "discovered_put col = (case Option.bind (meth col ''get'') me_response of
      None \<Rightarrow> None
    | Some ref \<Rightarrow> if ref = [] then None
        else first_method (\<lambda>n m. n \<noteq> create_key col \<and> me_http_method m = ''PUT'' \<and> me_request m = Some ref
          \<and> same_address (Some m) (meth col ''get'')) col)"

text \<open>The property of the request that holds the resource and the one that is the mask, if each is the only one.\<close>

definition patch_envelope :: "document \<Rightarrow> string \<Rightarrow> dschema \<Rightarrow> (string \<times> string) option" where
  "patch_envelope d resource_ref raw =
     (let ps = sort_key fst (sm_props raw);
          wrappers = filter (\<lambda>(_, p). sm_ref (sm p) = resource_ref) ps;
          masks = filter (\<lambda>(_, p). sm_ref (sm p) \<noteq> resource_ref \<and> sm_format (sm p) = ''google-fieldmask'') ps
      in case (wrappers, masks) of ([(w, _)], [(m, _)]) \<Rightarrow> if w = [] then None else Some (w, m) | _ \<Rightarrow> None)"

definition discovered_update_wrapper :: "document \<Rightarrow> collection \<Rightarrow> (string \<times> string) option" where
  "discovered_update_wrapper d col = (case (patch_method_of col, meth col ''get'') of
      (Some p, Some g) \<Rightarrow>
        if me_http_method p \<noteq> ''PATCH'' \<or> \<not> same_address (Some p) (Some g) then None
        else (case (me_request p, me_response g) of
            (Some request_ref, Some resource_ref) \<Rightarrow>
              if resource_ref = [] \<or> request_ref = resource_ref then None
              else Option.bind (map_of (doc_schemas d) request_ref) (patch_envelope d resource_ref)
          | _ \<Rightarrow> None)
    | _ \<Rightarrow> None)"

definition immutable_resource_patch_fields :: "mm_resource \<Rightarrow> string list" where
  "immutable_resource_patch_fields mm = map mm_api_name
     (filter (\<lambda>f. equal_fold (mf_update_verb (mf f)) ''PATCH'' \<and> addresses_the_resource (mf_update_url (mf f)))
       (mm_properties mm))"

section \<open>Deletes\<close>

definition flat_address :: "dmethod \<Rightarrow> string" where
  "flat_address m = (if me_flat_path m = [] then me_path m else me_flat_path m)"

definition flat_shape :: "dmethod \<Rightarrow> string" where
  "flat_shape m = (let p = flat_address m in put_back (\<lambda>_. ''{}'') (scan word_match (trim_prefix p (path_prefix_of p))))"

text \<open>A delete on the collection that names the item, by the last placeholder of the get's address, in its query.\<close>

definition delete_by_query :: "dmethod \<Rightarrow> dmethod \<Rightarrow> string \<Rightarrow> string" where
  "delete_by_query del get self = (case rev (hits (scan word_match (flat_address get))) of
      [] \<Rightarrow> []
    | ph # _ \<Rightarrow> (let name = captured_name ph in
        case (map_of (me_parameters del) name, cut_last_slash self) of
          (Some p, Some (dir, item)) \<Rightarrow> if pa_location p = ''query'' then dir @ ''?'' @ name @ ''='' @ item else []
        | _ \<Rightarrow> []))"

definition discovered_delete_url :: "ctype \<Rightarrow> collection \<Rightarrow> string" where
  "discovered_delete_url t col = (case (meth col ''delete'', meth col ''get'') of
      (Some del, Some get) \<Rightarrow>
        if t_delete_url t \<noteq> [] \<or> me_http_method del \<noteq> ''DELETE'' \<or> t_self_link t = [] then t_delete_url t
        else (let ds = flat_shape del; gs = flat_shape get; tail = trim_prefix ds gs; self = path_part (t_self_link t) in
          if ds = gs then []
          else if tail \<noteq> ds \<and> has_prefix tail ''/'' \<and> CHR ''{'' \<notin> set tail then self @ tail
          else (case cut_last_slash gs of
              None \<Rightarrow> []
            | Some (dir, _) \<Rightarrow> if ds \<noteq> dir then [] else delete_by_query del get self))
    | _ \<Rightarrow> t_delete_url t)"

section \<open>Ids\<close>

text \<open>\<open>^\^([A-Za-z0-9]+)/\.\*\$$\<close>: the literal a pattern starts with when anything may follow it.\<close>

definition pattern_literal_prefix :: "string \<Rightarrow> string option" where
  "pattern_literal_prefix p = (let w = takeWhile is_alnum (drop 1 p) in
     if w \<noteq> [] \<and> p = ''^'' @ w @ ''/.*$'' then Some w else None)"

definition id_template_from_delete :: "collection \<Rightarrow> string" where
  "id_template_from_delete col = (case meth col ''delete'' of
      None \<Rightarrow> []
    | Some del \<Rightarrow>
        (let path = trim_prefix (me_path del) (path_prefix_of (me_path del)) in
         if me_path del = [] then []
         else if \<not> bare_capture path then path
         else (case map_of (me_parameters del) (up_name (hd (template_placeholders path))) of
             None \<Rightarrow> path
           | Some p \<Rightarrow> if pa_location p \<noteq> ''path'' then path
               else (case pattern_literal_prefix (pa_pattern p) of None \<Rightarrow> path | Some w \<Rightarrow> w @ ''/'' @ path))))"

text \<open>\<open>^\^(?:[A-Za-z][A-Za-z0-9-]*/\[\^/\]\+/?)+\$$\<close>; \<open>clean_chain\<close> reads it from the first group on.\<close>

lemma takeWhile_Cons_nonempty: "takeWhile P s = c # cs \<Longrightarrow> 0 < length s"
  by (cases s) auto

function clean_chain :: "string \<Rightarrow> bool" where
  "clean_chain s = (let w = takeWhile (\<lambda>c. is_alnum c \<or> c = CHR ''-'') s; r = drop (length w) s in
     case w of [] \<Rightarrow> False
     | c # _ \<Rightarrow> (is_upper c \<or> is_lower c) \<and> has_prefix r ''/[^/]+''
         \<and> (let rest = trim_prefix (drop 6 r) ''/'' in rest = ''$'' \<or> clean_chain rest))"
  by pat_completeness auto
termination
proof (relation "measure length")
  fix s w r c cs rest
  assume "w = takeWhile (\<lambda>c. is_alnum c \<or> c = CHR ''-'') s" "w = c # cs" "r = drop (length w) s"
    "rest = trim_prefix (drop 6 r) ''/''"
  then have "0 < length s" "length rest \<le> length s - 6"
    by (auto simp: trim_prefix_def dest: takeWhile_Cons_nonempty [OF sym])
  then show "(rest, s) \<in> measure length" unfolding in_measure by linarith
qed simp

declare clean_chain.simps [simp del]

fun id_pairs :: "string list \<Rightarrow> string list \<Rightarrow> string list option" where
  "id_pairs seen (coll # any # rest) = (let n = singular_segment coll in
     if n \<in> set seen then None
     else map_option (\<lambda>segs. coll # (''{'' @ n @ ''}'') # segs) (id_pairs (n # seen) rest))"
| "id_pairs seen _ = Some []"

definition structured_id_template :: "collection \<Rightarrow> string \<Rightarrow> string" where
  "structured_id_template col self_link = (case template_placeholders self_link of
      [ph] \<Rightarrow> (case find (\<lambda>m. has_suffix (me_path m) (''{+'' @ up_name ph @ ''}''))
            (List.map_filter (meth col) [''get'', ''delete'']) of
          None \<Rightarrow> []
        | Some m \<Rightarrow> (case map_of (me_parameters m) (up_name ph) of
            None \<Rightarrow> []
          | Some p \<Rightarrow>
              if pa_location p \<noteq> ''path'' \<or> \<not> has_prefix (pa_pattern p) ''^'' \<or> \<not> clean_chain (drop 1 (pa_pattern p)) then []
              else (case id_pairs [] (split_slash (replace_all (trim_set ''^$'' (pa_pattern p)) ''[^/]+'' ''*'')) of
                  None \<Rightarrow> [] | Some segs \<Rightarrow> join_slash segs)))
    | _ \<Rightarrow> [])"

definition endpoint_template :: "document \<Rightarrow> mm_resource option \<Rightarrow> ctype \<Rightarrow> string" where
  "endpoint_template d mm t = (case mm of
      None \<Rightarrow> []
    | Some r \<Rightarrow>
        if \<not> str_contains (mm_product_base_url r) ''{{location}}'' \<or> doc_endpoints d = []
          \<or> \<not> str_contains (t_self_link t) ''locations/'' then []
        else (let tmpl = replace_all (trim_suffix (mm_product_base_url r) (t_path_prefix t)) ''{{location}}'' ''{location}'' in
          if \<not> has_suffix tmpl ''/'' \<or> str_contains tmpl ''{{'' then []
          else if list_all (\<lambda>e. replace_all tmpl ''{location}'' (ep_location e) = ep_url e) (doc_endpoints d) then tmpl
          else []))"

end
