(* ===== verification/CreateIds.thy ===== *)
theory CreateIds
  imports Methods
begin

text \<open>
  How a create url is filled (internal/gen/build.go, \<open>createBindings\<close> and its neighbours;
  internal/gen/createid.go): placeholders bound to a parent or to an attribute further down, declared
  as attributes of their own, or given a create-only attribute named after a query parameter. A type
  and its attributes are changed in place in the source; here each pass gives the changed type. The
  create method is \<open>None\<close> for the nil pointer. Bindings are visited in the order they were made.
\<close>

text \<open>A new \<open>catalog.Type\<close>: every field at its zero value.\<close>

definition zero_type :: ctype where
  "zero_type = \<lparr>t_name = [], t_service = [], t_description = [], t_tier = 0, t_tier_reason = [], t_api_base_url = [],
     t_path_prefix = [], t_base_url = [], t_create_url = [], t_update_url = [], t_delete_url = [], t_self_link = [],
     t_create_wrapper = [], t_update_wrapper = [], t_update_mask_field = [], t_lock_field = [], t_setters = [],
     t_endpoint_template = [], t_clear_before_delete = [], t_patch_one_field = False, t_create_verb = [],
     t_update_verb = [], t_update_mask = False, t_operation_poll_path = [], t_operation_param_patterns = [],
     t_await = AwaitNone, t_delete_await = None, t_update_await = None, t_operation_wait_path = [],
     t_timeout_seconds = 0, t_read_via = [], t_import_format = [], t_asset_type = [], t_scope = ScopeGlobal,
     t_parent_root = [], t_list_field = [], t_create_bindings = [], t_attributes = []\<rparr>"

section \<open>Bindings\<close>

lemma size_in_fields: "(k, f) \<in> set (a_fields a) \<Longrightarrow> size f < size a"
  by (cases a) (auto dest: size_entry)

function attr_candidates :: "(string \<Rightarrow> attr \<Rightarrow> bool) \<Rightarrow> string \<Rightarrow> string \<Rightarrow> nat \<Rightarrow> bool \<Rightarrow> attr \<Rightarrow> (string \<times> nat) list" where
  "attr_candidates want prefix key depth in_list (Attr i fs e) =
     (let path = (if prefix = [] then key else prefix @ ''.'' @ key) in
      (if \<not> in_list \<and> \<not> i_output i \<and> want key (Attr i fs e) then [(path, depth)] else [])
      @ concat (map (\<lambda>(k, f). attr_candidates want path k (Suc depth) in_list f) fs)
      @ (case e of None \<Rightarrow> []
         | Some el \<Rightarrow> concat (map (\<lambda>(k, f). attr_candidates want (path @ ''[]'') k (Suc depth) True f) (a_fields el))))"
  by pat_completeness auto
termination
  by (relation "measure (\<lambda>(_, _, _, _, _, a). size a)") (auto dest: size_in_fields size_entry)

definition find_attr_path :: "level \<Rightarrow> string \<Rightarrow> string" where
  "find_attr_path lvl ph =
     (let names = [ph, snake_to_camel ph];
          want = (\<lambda>key a. key \<in> set names \<or> a_canonical a \<in> set names \<or> ph \<in> set (i_aliases (a_info a)))
      in case sort_key snd (sort_key fst (concat (map (\<lambda>(k, a). attr_candidates want [] k 1 False a) lvl))) of
           [] \<Rightarrow> []
         | [(path, _)] \<Rightarrow> path
         | (path, depth) # (_, depth') # _ \<Rightarrow> if depth' = depth then [] else path)"

definition pattern_binding :: "ctype \<Rightarrow> dmethod option \<Rightarrow> string \<Rightarrow> string option" where
  "pattern_binding t create ph = (case parameter_of create ph of
      None \<Rightarrow> None
    | Some p \<Rightarrow> if pa_location p = ''path'' \<and> pa_pattern p \<noteq> [] \<and> template_from_pattern (pa_pattern p) \<noteq> []
        then Some (without_repeated_tail (template_from_pattern (pa_pattern p)) (create_template t) ph) else None)"

definition binding_for :: "ctype \<Rightarrow> dmethod option \<Rightarrow> url_placeholder \<Rightarrow> create_binding option" where
  "binding_for t create ph =
     (if is_create_scope_setting (up_name ph) \<or> settable_top_level t (up_name ph) then None
      else case pattern_binding t create (up_name ph) of
        Some tmpl \<Rightarrow> Some \<lparr>b_attr = [], b_template = tmpl\<rparr>
      | None \<Rightarrow>
          (let path = find_attr_path (t_attributes t) (up_name ph) in
           if up_reserved ph \<or> path = [] then None else Some \<lparr>b_attr = path, b_template = []\<rparr>))"

definition create_bindings :: "ctype \<Rightarrow> dmethod option \<Rightarrow> (string \<times> create_binding) list" where
  "create_bindings t create = foldl (\<lambda>out ph.
     if has_key out (up_name ph) then out
     else case binding_for t create ph of None \<Rightarrow> out | Some b \<Rightarrow> out @ [(up_name ph, b)])
     [] (template_placeholders (create_template t))"

text \<open>A bound parent spelled out in every url of the type.\<close>

definition spell_out :: "string \<Rightarrow> string \<Rightarrow> ctype \<Rightarrow> ctype" where
  "spell_out ph tmpl t = (let r = (\<lambda>s. replace_all s ph tmpl) in
     t\<lparr>t_base_url := r (t_base_url t), t_create_url := r (t_create_url t), t_self_link := r (t_self_link t),
       t_update_url := r (t_update_url t), t_delete_url := r (t_delete_url t), t_import_format := r (t_import_format t)\<rparr>)"

definition spell_out_binding :: "ctype \<Rightarrow> string \<times> create_binding \<Rightarrow> ctype" where
  "spell_out_binding t nb = (case nb of (name, b) \<Rightarrow>
     (let ph = ''{{'' @ name @ ''}}'' in
      if b_template b = [] \<or> \<not> str_contains (create_template t) ph then t
      else (spell_out ph (b_template b) t)\<lparr>t_create_bindings := filter (\<lambda>(n, _). n \<noteq> name) (t_create_bindings t)\<rparr>))"

definition spell_out_bound_parents :: "ctype \<Rightarrow> ctype" where
  "spell_out_bound_parents t = foldl spell_out_binding t (t_create_bindings t)"

section \<open>Parameters of the url\<close>

definition new_info :: "string \<Rightarrow> kind \<Rightarrow> string \<Rightarrow> attr_info" where
  "new_info canonical k description = \<lparr>i_canonical = canonical, i_aliases = [], i_kind = k, i_required = False,
     i_force_new = True, i_output = False, i_sensitive = False, i_equivalence = [], i_description = description,
     i_ref = None, i_opaque = False, i_create_only = False, i_input_only = False, i_send_with_update = False,
     i_unordered = False\<rparr>"

definition with_attribute :: "string \<Rightarrow> attr_info \<Rightarrow> ctype \<Rightarrow> ctype" where
  "with_attribute key i t = t\<lparr>t_attributes := AList.update key (Attr i [] None) (t_attributes t)\<rparr>"

definition parameter_text :: "ctype \<Rightarrow> dmethod option \<Rightarrow> string \<Rightarrow> string" where
  "parameter_text t create ph =
     (let own = ''The '' @ ph @ '' this '' @ t_name t @ '' belongs to. It is part of the resource's name, ''
        @ ''supplied in the create url rather than in the request body.''
      in case parameter_of create ph of
           Some p \<Rightarrow> if pa_description p \<noteq> [] then trim_space (pa_description p) else own
         | None \<Rightarrow> own)"

definition declare_parameter :: "dmethod option \<Rightarrow> ctype \<Rightarrow> string \<Rightarrow> ctype" where
  "declare_parameter create t ph =
     (if ph \<notin> set (path_placeholders (t_self_link t)) \<or> top_level_attr t ph \<noteq> None \<or> has_key keyword_keys ph then t
      else with_attribute ph ((new_info ph KString (parameter_text t create ph))\<lparr>i_required := True\<rparr>) t)"

definition declare_create_url_parameters :: "ctype \<Rightarrow> dmethod option \<Rightarrow> ctype" where
  "declare_create_url_parameters t create = foldl (declare_parameter create) t (unresolved_create_placeholders t)"

section \<open>Ids in the query\<close>

text \<open>One placeholder of the query: the type, the query and the parameters bound so far.\<close>

definition bind_query_id :: "dmethod \<Rightarrow> ctype \<times> string \<times> string list \<Rightarrow> string \<Rightarrow> ctype \<times> string \<times> string list" where
  "bind_query_id create st ph = (case st of (t, query, bound) \<Rightarrow>
     (let param = query_param_for query ph in
      if settable_top_level t ph \<or> param = [] \<or> param = ph \<or> has_key (t_attributes t) param then st
      else case map_of (me_parameters create) param of
        None \<Rightarrow> st
      | Some p \<Rightarrow> if pa_location p \<noteq> ''query'' then st
          else (with_attribute param ((new_info param KString (trim_space (pa_description p)))\<lparr>i_create_only := True\<rparr>) t,
            replace_all query (''{{'' @ ph @ ''}}'') (''{{'' @ param @ ''}}''), bound @ [param])))"

definition bind_create_query_id :: "ctype \<Rightarrow> dmethod option \<Rightarrow> ctype" where
  "bind_create_query_id t create =
     (let tmpl = create_template t in case (str_index tmpl ''?'', create) of
        (Some q, Some m) \<Rightarrow>
          (case foldl (bind_query_id m) (t, drop q tmpl, []) (url_placeholder_names (drop q tmpl)) of
            (t', query, bound) \<Rightarrow> if bound = [] then t else t'\<lparr>t_create_url := take q tmpl @ query\<rparr>)
      | _ \<Rightarrow> t)"

definition ends_in_name :: "string \<Rightarrow> bool" where
  "ends_in_name tmpl \<longleftrightarrow> has_suffix tmpl ''/{{name}}'' \<or> has_suffix tmpl ''/{name}''"

text \<open>The name Google gives: no longer the user's to send.\<close>

fun named_by_google :: "attr \<Rightarrow> attr" where
  "named_by_google (Attr i fs e) =
     (if i_output i then Attr i fs e else Attr (i\<lparr>i_output := True, i_required := False, i_force_new := False\<rparr>) fs e)"

definition last_literal :: "string \<Rightarrow> string" where
  "last_literal path = (case rev (filter (\<lambda>seg. seg \<noteq> [] \<and> \<not> has_prefix seg ''{'') (split_slash (trim_char (CHR ''/'') path))) of
      [] \<Rightarrow> [] | seg # _ \<Rightarrow> seg)"

definition id_parameter :: "string \<Rightarrow> dmethod \<Rightarrow> (string \<times> dparameter) option" where
  "id_parameter tmpl create = (case str_cut tmpl ''?'' of (path, query, _) \<Rightarrow>
     (let leaf = last_literal path; param = singular_segment leaf @ ''Id'' in
      if leaf = [] then None
      else case map_of (me_parameters create) param of
        None \<Rightarrow> None
      | Some p \<Rightarrow>
          if pa_location p \<noteq> ''query''
            \<or> list_ex (\<lambda>kv. fst (str_cut kv ''='') \<in> {param, snake param}) (ampersands query) then None
          else Some (param, p)))"

definition add_create_id_parameter :: "ctype \<Rightarrow> dmethod option \<Rightarrow> ctype" where
  "add_create_id_parameter t create =
     (let tmpl = create_template t; sep = (if fst (snd (str_cut tmpl ''?'')) = [] then ''?'' else ''&'') in
      if t_create_verb t = ''PUT'' then t
      else case Option.bind create (id_parameter tmpl) of
        None \<Rightarrow> t
      | Some (param, p) \<Rightarrow>
          if (case map_of (t_attributes t) ''name'' of Some n \<Rightarrow> \<not> a_output n | None \<Rightarrow> False) \<and> ends_in_name (t_self_link t)
          then t\<lparr>t_create_url := tmpl @ sep @ param @ ''={{name}}''\<rparr>
          else if has_key (t_attributes t) param then t
          else (let t' = with_attribute param ((new_info param KString (trim_space (pa_description p)))
                    \<lparr>i_create_only := True, i_required := (''required'' \<in> set (behaviors (pa_description p)))\<rparr>) t
            in t'\<lparr>t_create_url := tmpl @ sep @ param @ ''={{'' @ param @ ''}}'',
                  t_attributes := AList.map_entry ''name'' named_by_google (t_attributes t')\<rparr>))"

section \<open>Tokens of magic-modules\<close>

definition pre_create_token :: string where "pre_create_token = ''PRE_CREATE_REPLACE_ME''"

definition fill_token :: "dmethod \<Rightarrow> ctype \<times> string list \<Rightarrow> string \<Rightarrow> ctype \<times> string list" where
  "fill_token create st kv = (case st of (t, kvs) \<Rightarrow> (case str_cut kv ''='' of (k, v, _) \<Rightarrow>
     (case map_of (me_parameters create) k of
        None \<Rightarrow> (t, kvs @ [kv])
      | Some p \<Rightarrow>
          if v \<noteq> pre_create_token \<or> pa_location p \<noteq> ''query'' then (t, kvs @ [kv])
          else (let filled = k @ ''={{'' @ k @ ''}}'' in case map_of (t_attributes t) k of
              None \<Rightarrow> (with_attribute k ((new_info k (kind_of_type (pa_type p)) (trim_space (pa_description p)))
                  \<lparr>i_create_only := True, i_required := pa_required p\<rparr>) t, kvs @ [filled])
            | Some a \<Rightarrow> (t, kvs @ [if a_output a then kv else filled])))))"

definition fill_pre_create_tokens :: "ctype \<Rightarrow> dmethod option \<Rightarrow> ctype" where
  "fill_pre_create_tokens t create = (case (str_cut (t_create_url t) ''?'', create) of
      ((path, query, True), Some m) \<Rightarrow>
        if \<not> str_contains query pre_create_token then t
        else (case foldl (fill_token m) (t, []) (ampersands query) of
            (t', kvs) \<Rightarrow> t'\<lparr>t_create_url := path @ ''?'' @ join_with ''&'' kvs\<rparr>)
    | _ \<Rightarrow> t)"

text \<open>The passes in the order \<open>buildType\<close> runs them.\<close>

definition create_inputs :: "ctype \<Rightarrow> dmethod option \<Rightarrow> ctype" where
  "create_inputs t create =
     (let t = spell_out_bound_parents (t\<lparr>t_create_bindings := create_bindings t create\<rparr>);
          t = declare_create_url_parameters t create;
          t = bind_create_query_id t create;
          t = add_create_id_parameter t create;
          t = fill_pre_create_tokens t create
      in drop_unpublished_create_query t create)"

end
