(* ===== verification/CreateInputs.thy ===== *)
theory CreateInputs
  imports CreateIds
begin

text \<open>
  Properties of the passes that fill a create url: they never touch what the resource itself has,
  and a placeholder the id can give back is never left unfilled.
\<close>

section \<open>The passes only add\<close>

text \<open>An attribute a pass adds: a settable value named as it is keyed, part of what the resource is.\<close>

definition url_input :: "string \<Rightarrow> attr \<Rightarrow> bool" where
  "url_input k a \<longleftrightarrow> a_canonical a = k \<and> \<not> a_output a \<and> i_force_new (a_info a) \<and> a_fields a = [] \<and> a_elem a = None
     \<and> (i_required (a_info a) \<or> a_create_only a)"

definition only_adds :: "level \<Rightarrow> level \<Rightarrow> bool" where
  "only_adds l l' \<longleftrightarrow> (\<forall>k. case map_of l k of
      Some a \<Rightarrow> map_of l' k = Some a \<or> k = ''name'' \<and> map_of l' k = Some (named_by_google a)
    | None \<Rightarrow> (\<forall>a. map_of l' k = Some a \<longrightarrow> k = ''name'' \<or> url_input k a))"

lemma named_by_google_twice [simp]: "named_by_google (named_by_google a) = named_by_google a"
  by (cases a) simp

lemma only_adds_refl [simp, intro]: "only_adds l l"
  by (simp add: only_adds_def split: option.splits)

lemma only_adds_trans [trans]: "only_adds l m \<Longrightarrow> only_adds m n \<Longrightarrow> only_adds l n"
  unfolding only_adds_def
  by (intro allI, drule_tac x = k in spec, drule_tac x = k in spec) (auto split: option.splits)

lemma only_adds_update:
  "map_of l k = None \<Longrightarrow> url_input k (Attr i [] None) \<Longrightarrow> only_adds l (AList.update k (Attr i [] None) l)"
  by (auto simp: only_adds_def update_conv' split: option.splits)

lemma only_adds_with_attribute:
  "map_of (t_attributes t) k = None \<Longrightarrow> url_input k (Attr i [] None)
   \<Longrightarrow> only_adds (t_attributes t) (t_attributes (with_attribute k i t))"
  by (simp add: with_attribute_def only_adds_update)

lemma only_adds_name: "only_adds l (AList.map_entry ''name'' named_by_google l)"
  by (auto simp: only_adds_def AList.map_of_map_entry split: option.splits)

lemma only_adds_foldl:
  assumes "\<And>t x. only_adds (t_attributes t) (t_attributes (f t x))"
  shows "only_adds (t_attributes t) (t_attributes (foldl f t xs))"
proof (induction xs arbitrary: t)
  case (Cons x xs)
  show ?case using only_adds_trans [OF assms Cons.IH [of "f t x"]] by simp
qed simp

lemma only_adds_foldl_fst:
  assumes "\<And>st x. only_adds (t_attributes (fst st)) (t_attributes (fst (f st x)))"
  shows "only_adds (t_attributes (fst st)) (t_attributes (fst (foldl f st xs)))"
proof (induction xs arbitrary: st)
  case (Cons x xs)
  show ?case using only_adds_trans [OF assms Cons.IH [of "f st x"]] by simp
qed simp

lemma spell_out_attributes [simp]: "t_attributes (spell_out_bound_parents t) = t_attributes t"
proof -
  have "t_attributes (foldl spell_out_binding t bs) = t_attributes t" for bs t
    by (induction bs arbitrary: t) (auto simp: spell_out_binding_def spell_out_def Let_def split: prod.splits)
  then show ?thesis by (simp add: spell_out_bound_parents_def)
qed

lemma declare_adds: "only_adds (t_attributes t) (t_attributes (declare_create_url_parameters t create))"
  unfolding declare_create_url_parameters_def
proof (rule only_adds_foldl)
  show "only_adds (t_attributes t) (t_attributes (declare_parameter create t ph))" for t ph
    by (auto simp: declare_parameter_def top_level_attr_def url_input_def new_info_def split: option.splits
        intro!: only_adds_with_attribute)
qed

lemma bind_query_adds: "only_adds (t_attributes t) (t_attributes (bind_create_query_id t create))"
proof -
  have step: "only_adds (t_attributes (fst st)) (t_attributes (fst (bind_query_id m st ph)))" for m st ph
    by (cases st) (auto simp: bind_query_id_def Let_def url_input_def new_info_def has_key_iff split: option.splits
        intro!: only_adds_with_attribute, simp add: map_of_eq_None_iff)
  show ?thesis
  proof (cases "\<exists>q m. str_index (create_template t) ''?'' = Some q \<and> create = Some m")
    case True
    then obtain q m where q: "str_index (create_template t) ''?'' = Some q" "create = Some m" by blast
    let ?fold = "foldl (bind_query_id m) (t, drop q (create_template t), []) (url_placeholder_names (drop q (create_template t)))"
    have "only_adds (t_attributes t) (t_attributes (fst ?fold))"
      using only_adds_foldl_fst [of "bind_query_id m", OF step, of "(t, drop q (create_template t), [])"] by simp
    then show ?thesis by (auto simp: bind_create_query_id_def Let_def q split: prod.splits)
  qed (auto simp: bind_create_query_id_def Let_def split: option.splits)
qed

lemma add_id_adds: "only_adds (t_attributes t) (t_attributes (add_create_id_parameter t create))"
proof -
  have "only_adds (t_attributes t) (AList.map_entry ''name'' named_by_google (t_attributes (with_attribute param
      ((new_info param KString d)\<lparr>i_create_only := True, i_required := r\<rparr>) t)))"
    if "\<not> has_key (t_attributes t) param" for param d r
    using that by (intro only_adds_trans [OF only_adds_with_attribute only_adds_name])
      (auto simp: has_key_iff map_of_eq_None_iff url_input_def new_info_def)
  then show ?thesis by (auto simp: add_create_id_parameter_def Let_def split: option.splits prod.splits)
qed

lemma fill_tokens_adds: "only_adds (t_attributes t) (t_attributes (fill_pre_create_tokens t create))"
proof -
  have step: "only_adds (t_attributes (fst st)) (t_attributes (fst (fill_token m st kv)))" for m st kv
    by (cases st) (auto simp: fill_token_def Let_def url_input_def new_info_def split: option.splits prod.splits
        intro!: only_adds_with_attribute)
  have "only_adds (t_attributes t) (t_attributes (fst (foldl (fill_token m) (t, []) kvs)))" for m kvs
    using only_adds_foldl_fst [of "fill_token m", OF step, of "(t, [])"] by simp
  then show ?thesis
    by (auto simp: fill_pre_create_tokens_def split: option.splits prod.splits bool.splits) (metis fst_conv)
qed

lemma drop_unpublished_attributes [simp]: "t_attributes (drop_unpublished_create_query t create) = t_attributes t"
  by (auto simp: drop_unpublished_create_query_def split: option.splits prod.splits bool.splits)

text \<open>
  Making a type creatable leaves its resource alone: through all the passes that fill a create
  url every attribute the resource has keeps its meaning, but that its name may become Google's to
  give, and whatever is added is a plain settable value under its own name, fixed at creation.
\<close>

theorem create_inputs_only_add: "only_adds (t_attributes t) (t_attributes (create_inputs t create))"
proof -
  let ?a = "spell_out_bound_parents (t\<lparr>t_create_bindings := create_bindings t create\<rparr>)"
  let ?b = "declare_create_url_parameters ?a create"
  let ?c = "bind_create_query_id ?b create"
  let ?d = "add_create_id_parameter ?c create"
  have "only_adds (t_attributes t) (t_attributes ?b)" using declare_adds [of ?a create] by simp
  also have "only_adds (t_attributes ?b) (t_attributes ?c)" by (rule bind_query_adds)
  also have "only_adds (t_attributes ?c) (t_attributes ?d)" by (rule add_id_adds)
  also have "only_adds (t_attributes ?d) (t_attributes (fill_pre_create_tokens ?d create))" by (rule fill_tokens_adds)
  finally show ?thesis by (simp add: create_inputs_def Let_def)
qed

section \<open>Declared parameters\<close>

lemma check_placeholders_unsettable:
  "n \<in> set (check_placeholders t ex ns out) \<Longrightarrow> n \<in> set out \<or> \<not> settable_top_level t n"
proof (induction t ex ns out rule: check_placeholders.induct)
  case (2 t ex name names out)
  then show ?case by (auto split: option.splits if_splits)
qed simp

lemma check_placeholders_mono:
  assumes "t_create_bindings t' = t_create_bindings t" "\<And>n. settable_top_level t n \<Longrightarrow> settable_top_level t' n"
    and "set out' \<subseteq> set out"
  shows "set (check_placeholders t' ex ns out') \<subseteq> set (check_placeholders t ex ns out)"
  using assms
proof (induction t ex ns out arbitrary: out' rule: check_placeholders.induct)
  case (2 t ex name names out)
  let ?new = "\<lambda>t out. if settable_top_level t name \<or> name \<in> set out then out else out @ [name]"
  have new: "set (?new t' out') \<subseteq> set (?new t out)" using "2.prems"(2) [of name] "2.prems"(3) by auto
  show ?case
  proof (cases "is_create_scope_setting name")
    case False
    show ?thesis
    proof (cases "map_of (t_create_bindings t) name")
      case None
      with "2.IH"(2) [OF False None "2.prems"(1,2) new] False show ?thesis using "2.prems"(1) by simp
    next
      case (Some b)
      consider (cyc) "name \<in> set ex" | (tmpl) "name \<notin> set ex" "b_template b \<noteq> []" | (att) "name \<notin> set ex" "\<not> b_template b \<noteq> []"
        by blast
      then show ?thesis
      proof cases
        case cyc
        with "2.IH"(3) [OF False Some cyc "2.prems"(1,2) new] False Some show ?thesis using "2.prems"(1) by simp
      next
        case tmpl
        have "set (check_placeholders t' (name # ex) (url_placeholders (b_template b)) out')
            \<subseteq> set (check_placeholders t (name # ex) (url_placeholders (b_template b)) out)"
          by (rule "2.IH"(4) [OF False Some tmpl "2.prems"])
        with "2.IH"(5) [OF False Some tmpl "2.prems"(1,2)] False Some tmpl show ?thesis using "2.prems"(1) by simp
      next
        case att
        with "2.IH"(6) [OF False Some att "2.prems"] False Some show ?thesis using "2.prems"(1) by simp
      qed
    qed
  qed (use 2 in simp)
qed simp

lemma declare_keeps:
  "t_create_bindings (foldl (declare_parameter create) t ns) = t_create_bindings t"
  "t_create_url (foldl (declare_parameter create) t ns) = t_create_url t"
  "t_base_url (foldl (declare_parameter create) t ns) = t_base_url t"
  "t_self_link (foldl (declare_parameter create) t ns) = t_self_link t"
  by (induction ns arbitrary: t) (auto simp: declare_parameter_def with_attribute_def)

lemma find_append: "find P (xs @ ys) = (case find P xs of None \<Rightarrow> find P ys | Some x \<Rightarrow> Some x)"
  by (induction xs) auto

lemma top_level_attr_added:
  assumes "top_level_attr t ph = None"
  shows "top_level_attr t n = Some a \<Longrightarrow> top_level_attr (with_attribute ph i t) n = Some a"
    and "top_level_attr (with_attribute ph i t) ph = Some (Attr i [] None)"
    and "n \<noteq> ph \<Longrightarrow> i_canonical i = ph \<Longrightarrow> top_level_attr t n = None \<Longrightarrow> top_level_attr (with_attribute ph i t) n = None"
proof -
  have none: "map_of (t_attributes t) ph = None" using assms by (auto simp: top_level_attr_def split: option.splits)
  then have fresh: "AList.update ph (Attr i [] None) (t_attributes t) = t_attributes t @ [(ph, Attr i [] None)]"
    by (simp add: update_append_fresh map_of_eq_None_iff)
  show "top_level_attr (with_attribute ph i t) ph = Some (Attr i [] None)"
    by (simp add: top_level_attr_def with_attribute_def update_conv')
  show "top_level_attr (with_attribute ph i t) n = None" if "n \<noteq> ph" "i_canonical i = ph" "top_level_attr t n = None"
    using that by (auto simp: top_level_attr_def with_attribute_def fresh find_canonical_def find_append map_add_def split: option.splits)
  assume "top_level_attr t n = Some a"
  moreover from this assms have "n \<noteq> ph" by auto
  ultimately show "top_level_attr (with_attribute ph i t) n = Some a"
    by (auto simp: top_level_attr_def with_attribute_def fresh find_canonical_def find_append map_add_def split: option.splits)
qed

lemma declare_parameter_keeps: "top_level_attr t n = Some a \<Longrightarrow> top_level_attr (declare_parameter create t ph) n = Some a"
  by (simp add: declare_parameter_def top_level_attr_added(1))

lemma settable_declared:
  "settable_top_level t n \<Longrightarrow> settable_top_level (foldl (declare_parameter create) t ns) n"
proof (induction ns arbitrary: t)
  case (Cons ph ns)
  then have "settable_top_level (declare_parameter create t ph) n"
    by (auto simp: settable_top_level_def declare_parameter_keeps split: option.splits)
  then show ?case by (simp add: Cons.IH)
qed simp

lemma declared_settable:
  "ph \<in> set ns \<Longrightarrow> ph \<in> set (path_placeholders (t_self_link t)) \<Longrightarrow> top_level_attr t ph = None
    \<Longrightarrow> \<not> has_key keyword_keys ph \<Longrightarrow> settable_top_level (foldl (declare_parameter create) t ns) ph"
proof (induction ns arbitrary: t)
  case (Cons n ns)
  show ?case
  proof (cases "n = ph")
    case True
    with Cons.prems have "settable_top_level (declare_parameter create t n) ph"
      by (simp add: settable_top_level_def declare_parameter_def top_level_attr_added(2) new_info_def)
    then show ?thesis by (simp add: settable_declared)
  next
    case False
    with Cons.prems have "top_level_attr (declare_parameter create t n) ph = None"
      by (simp add: declare_parameter_def top_level_attr_added(3) new_info_def)
    with False Cons.prems show ?thesis using declare_keeps(4) [of create t "[n]"] by (simp add: Cons.IH)
  qed
qed simp

text \<open>
  A placeholder of a create url the configuration can supply is always supplied: after the url's
  parameters are declared, what is still unresolved was unresolved before, and is either a name the
  id does not give back, or the name of an attribute the resource already has, or a word the host
  keeps for itself.
\<close>

theorem declared_parameters_resolve:
  assumes "ph \<in> set (unresolved_create_placeholders (declare_create_url_parameters t create))"
  shows "ph \<in> set (unresolved_create_placeholders t)
    \<and> (ph \<notin> set (path_placeholders (t_self_link t)) \<or> top_level_attr t ph \<noteq> None \<or> has_key keyword_keys ph)"
proof -
  let ?ns = "unresolved_create_placeholders t" and ?t = "declare_create_url_parameters t create"
  have kept: "create_template ?t = create_template t" "t_create_bindings ?t = t_create_bindings t"
    by (simp_all add: declare_create_url_parameters_def create_template_def declare_keeps)
  have "set (unresolved_create_placeholders ?t) \<subseteq> set ?ns"
    using check_placeholders_mono [of ?t t "[]" "[]", OF kept(2) settable_declared [of t _ create ?ns, folded declare_create_url_parameters_def]]
    by (simp add: unresolved_create_placeholders_def kept(1))
  with assms have n: "ph \<in> set ?ns" by blast
  have "\<not> settable_top_level ?t ph"
    using assms check_placeholders_unsettable [of ph ?t "[]" _ "[]"] by (auto simp: unresolved_create_placeholders_def)
  with n declared_settable [OF n] show ?thesis by (auto simp: declare_create_url_parameters_def)
qed

lemma parent_placeholder: "url_placeholders ''{+parent}/scopes'' = [''parent'']" "url_placeholders ''{+name}'' = [''name'']"
  by (simp_all add: url_placeholders.simps open_placeholder_def has_prefix_def trim_space_def is_space_def trim_prefix_def)

theorem declared_parameters_resolve_witness:
  "''parent'' \<in> set (unresolved_create_placeholders (zero_type\<lparr>t_base_url := ''{+parent}/scopes'', t_self_link := ''{+name}''\<rparr>))"
proof -
  let ?t = "zero_type\<lparr>t_base_url := ''{+parent}/scopes'', t_self_link := ''{+name}''\<rparr>"
  have u: "unresolved_create_placeholders ?t = [''parent'']"
    by (simp add: unresolved_create_placeholders_def create_template_def zero_type_def parent_placeholder
      is_create_scope_setting_def settable_top_level_def top_level_attr_def find_canonical_def)
  have "declare_create_url_parameters ?t None = ?t"
    unfolding declare_create_url_parameters_def u by (simp add: declare_parameter_def path_placeholders_def parent_placeholder)
  with u have "''parent'' \<in> set (unresolved_create_placeholders (declare_create_url_parameters ?t None))" by simp
  then show ?thesis by (rule declared_parameters_resolve [THEN conjunct1])
qed

end
