(* ===== verification/GenSetters.thy ===== *)
theory GenSetters
  imports CreateIds
begin

text \<open>
  Fields changed through a method of their own (internal/gen/setters.go) and the list of fields a
  PATCH takes (internal/gen/patchlimits.go, \<open>applyPatchAllowlist\<close>). Setters of one method name come
  in the order they were found, which the source leaves to its sort.
\<close>

abbreviation with_info :: "(attr_info \<Rightarrow> attr_info) \<Rightarrow> attr \<Rightarrow> attr" where
  "with_info f a \<equiv> Attr (f (a_info a)) (a_fields a) (a_elem a)"

definition apply_patch_allowlist :: "string list \<Rightarrow> level \<Rightarrow> level" where
  "apply_patch_allowlist allowed lvl = map (\<lambda>(name, a). (name,
     if a_output a \<or> name \<in> set allowed \<or> a_canonical a \<in> set allowed then a
     else with_info (\<lambda>i. i\<lparr>i_force_new := True\<rparr>) a)) lvl"

section \<open>Finding the setters\<close>

definition is_fingerprint :: "string \<Rightarrow> bool" where
  "is_fingerprint name \<longleftrightarrow> has_suffix (to_lower name) ''fingerprint''"

definition setter_method :: "collection \<Rightarrow> string \<Rightarrow> string \<Rightarrow> dmethod option" where
  "setter_method col name verb = Option.bind (meth col name)
     (\<lambda>m. if equal_fold (me_http_method m) verb \<and> has_suffix (me_path m) (''/'' @ name) then Some m else None)"

definition request_is_exactly :: "dschema \<Rightarrow> string list \<Rightarrow> string \<Rightarrow> bool" where
  "request_is_exactly req fs lock \<longleftrightarrow> (let want = remdups (fs @ (if lock = [] then [] else [lock])) in
     length (sm_props req) = length want \<and> list_all (\<lambda>(n, _). n \<in> set want) (sm_props req))"

definition resolved_request :: "document \<Rightarrow> dmethod \<Rightarrow> dschema option" where
  "resolved_request d m = Option.bind (Option.bind (me_request m) (map_of (doc_schemas d)))
     (\<lambda>s. case resolve d s of Inl _ \<Rightarrow> None | Inr r \<Rightarrow> Some r)"

text \<open>The method and path of a setter, once Discovery agrees that its request has these fields and this lock.\<close>

definition admitted_setter ::
  "document \<Rightarrow> collection \<Rightarrow> ctype \<Rightarrow> string \<Rightarrow> string \<Rightarrow> string list \<Rightarrow> string \<Rightarrow> setter option" where
  "admitted_setter d col t name verb fs lock = (case setter_method col name verb of
      None \<Rightarrow> None
    | Some m \<Rightarrow>
        (let path = setter_path (trim_prefix (me_path m) (t_path_prefix t)) name (t_self_link t) in
         if path = [] then None
         else case resolved_request d m of
           None \<Rightarrow> None
         | Some req \<Rightarrow> if fs = [] \<or> \<not> request_is_exactly req fs lock then None
             else Some \<lparr>s_method = name, s_path = path, s_verb = verb, s_fields = sort fs, s_lock = lock\<rparr>))"

definition labels_setter :: "document \<Rightarrow> collection \<Rightarrow> ctype \<Rightarrow> setter list \<Rightarrow> setter list" where
  "labels_setter d col t out =
     (if list_ex (\<lambda>s. ''labels'' \<in> set (s_fields s)) out then out
      else case map_of (t_attributes t) ''labels'' of
        None \<Rightarrow> out
      | Some a \<Rightarrow> if a_output a then out
          else (case admitted_setter d col t ''setLabels'' ''POST'' [''labels''] ''labelFingerprint'' of
              None \<Rightarrow> out | Some s \<Rightarrow> out @ [s]))"

text \<open>The fields of a resource that have an update url of their own, with their verb and that url.\<close>

definition setter_members :: "mm_resource \<Rightarrow> ((string \<times> string) \<times> string) list" where
  "setter_members mm = map (\<lambda>f. ((map to_upper_char (mf_update_verb (mf f)), mf_update_url (mf f)), mm_api_name f))
     (filter (\<lambda>f. mf_update_url (mf f) \<noteq> [] \<and> \<not> addresses_the_resource (mf_update_url (mf f))
        \<and> map to_upper_char (mf_update_verb (mf f)) \<in> {''POST'', ''PATCH''}) (mm_properties mm))"

definition setter_groups :: "mm_resource \<Rightarrow> ((string \<times> string) \<times> string list) list" where
  "setter_groups mm = map (\<lambda>k. (k, map snd (filter (\<lambda>(k', _). k' = k) (setter_members mm))))
     (firsts [] (map fst (setter_members mm)))"

definition setter_of_group ::
  "document \<Rightarrow> collection \<Rightarrow> ctype \<Rightarrow> (string \<times> string) \<times> string list \<Rightarrow> setter option" where
  "setter_of_group d col t g = (case g of ((verb, url), members) \<Rightarrow>
     (let name = after_last (CHR ''/'') (path_part url);
          known = filter (\<lambda>n. list_ex (\<lambda>(_, a). a_canonical a = n) (t_attributes t)) members;
          locks = filter is_fingerprint known
      in if name = [] \<or> set name \<inter> set ''{}:'' \<noteq> {} then None
         else admitted_setter d col t name verb (filter (\<lambda>n. \<not> is_fingerprint n) known) (if locks = [] then [] else last locks)))"

definition discovered_setters :: "document \<Rightarrow> collection \<Rightarrow> mm_resource option \<Rightarrow> ctype \<Rightarrow> setter list" where
  "discovered_setters d col mm t = (case mm of
      None \<Rightarrow> labels_setter d col t []
    | Some r \<Rightarrow> sort_key s_method (labels_setter d col t (List.map_filter (setter_of_group d col t) (setter_groups r))))"

section \<open>What setters change\<close>

definition mm_says_output :: "mm_resource option \<Rightarrow> string \<Rightarrow> bool" where
  "mm_says_output mm name = (case mm of
      None \<Rightarrow> False
    | Some r \<Rightarrow> (case find (\<lambda>f. mm_api_name f = name) (rev (mm_properties r)) of
        None \<Rightarrow> False | Some f \<Rightarrow> mf_output (mf f)))"

definition apply_setters :: "ctype \<Rightarrow> mm_resource option \<Rightarrow> ctype" where
  "apply_setters t mm =
     (if t_setters t = [] then t
      else (let lvl = (if t_update_verb t = [] then apply_patch_allowlist (concat (map s_fields (t_setters t))) (t_attributes t)
              else t_attributes t)
        in t\<lparr>t_attributes := map (\<lambda>(k, a). (k,
             if setter_for t (a_canonical a) = None then a
             else with_info (\<lambda>i. i\<lparr>i_force_new := False,
               i_output := i_output i \<and> mm_says_output mm (i_canonical i)\<rparr>) a)) lvl\<rparr>))"

section \<open>Properties\<close>

text \<open>A document's schemas name no property twice.\<close>

definition wf_schemas :: "document \<Rightarrow> bool" where
  "wf_schemas d \<longleftrightarrow> list_all (\<lambda>(_, s). wf_map (sm_props s)) (doc_schemas d)"

lemma resolve_wf:
  "wf_schemas d \<Longrightarrow> resolve_at d k s = Inr (r, n) \<Longrightarrow> wf_map (sm_props s) \<Longrightarrow> wf_map (sm_props r)"
  "wf_schemas d \<Longrightarrow> resolve_props d k ps = Inr (ps', n) \<Longrightarrow> keys ps' = keys ps"
  "wf_schemas d \<Longrightarrow> resolve_opt d k os = Inr (os', n) \<Longrightarrow> True"
proof (induction d k s and d k ps and d k os arbitrary: r n and ps' n and os' n rule: resolve_at_resolve_props_resolve_opt.induct)
  case (1 d depth i ps it ad)
  show ?case
  proof (cases "depth > max_ref_depth \<or> sm_ref i = []")
    case True
    with 1 show ?thesis
      by (auto simp: truncated_def wf_map_def split: sum.splits if_splits)
  next
    case False
    then obtain target r' n' where t: "map_of (doc_schemas d) (sm_ref i) = Some target"
        "resolve_at d (Suc depth) target = Inr (r', n')" "r = as_referred i r'"
      using 1(6) by (auto split: option.splits sum.splits)
    have "wf_map (sm_props target)"
      using 1(5) t(1) by (auto simp: wf_schemas_def list_all_iff dest: map_of_SomeD)
    with 1(1) [OF _ _ t(1) 1(5) t(2)] False have "wf_map (sm_props r')" by simp
    then show ?thesis by (cases r') (simp add: t(3) as_referred_def)
  qed
qed (auto split: sum.splits)

lemma resolved_request_wf:
  assumes "wf_schemas d" "resolved_request d m = Some req"
  shows "wf_map (sm_props req)"
proof -
  obtain ref s where s: "map_of (doc_schemas d) ref = Some s"
      "(case resolve d s of Inl _ \<Rightarrow> None | Inr r \<Rightarrow> Some r) = Some req"
    using assms(2) by (auto simp: resolved_request_def Option.bind_eq_Some_conv)
  then obtain n where r: "map_of (doc_schemas d) ref = Some s" "resolve_at d 0 s = Inr (req, n)"
    by (cases "resolve_at d 0 s") (auto simp: resolve_def)
  have "wf_map (sm_props s)" using assms(1) r(1) by (auto simp: wf_schemas_def list_all_iff dest: map_of_SomeD)
  then show ?thesis by (rule resolve_wf(1) [OF assms(1) r(2)])
qed

lemma request_exactly:
  assumes "wf_map (sm_props req)" "request_is_exactly req fs lock"
  shows "set (keys (sm_props req)) = set fs \<union> (if lock = [] then {} else {lock})"
proof -
  let ?want = "set fs \<union> (if lock = [] then {} else {lock})"
  have "card (set (keys (sm_props req))) = length (sm_props req)"
    using distinct_card [of "keys (sm_props req)"] assms(1) by (simp add: wf_map_def)
  moreover have "length (sm_props req) = card ?want" "set (keys (sm_props req)) \<subseteq> ?want"
    using assms(2) by (auto simp: request_is_exactly_def Let_def list_all_iff length_remdups_card_conv split: if_splits)
  ultimately show ?thesis by (simp add: card_subset_eq)
qed

lemma setter_of_group_admitted:
  assumes "setter_of_group d col t g = Some s"
  shows "\<exists>name verb fs lock. admitted_setter d col t name verb fs lock = Some s"
proof -
  obtain verb url members where "g = ((verb, url), members)" by (cases g) auto
  then show ?thesis
    using assms by (simp add: setter_of_group_def Let_def del: split_paired_Ex split: if_split_asm) blast+
qed

lemma admitted_agrees:
  assumes "wf_schemas d" "admitted_setter d col t name verb fs lock = Some s"
  shows "\<exists>m req. meth col (s_method s) = Some m \<and> equal_fold (me_http_method m) (s_verb s)
    \<and> resolved_request d m = Some req \<and> s_fields s \<noteq> []
    \<and> set (keys (sm_props req)) = set (s_fields s) \<union> (if s_lock s = [] then {} else {s_lock s})"
proof -
  obtain m req where m: "setter_method col name verb = Some m" "resolved_request d m = Some req" "fs \<noteq> []"
      "request_is_exactly req fs lock"
      "s = \<lparr>s_method = name, s_path = setter_path (trim_prefix (me_path m) (t_path_prefix t)) name (t_self_link t),
        s_verb = verb, s_fields = sort fs, s_lock = lock\<rparr>"
    using assms(2) by (auto simp: admitted_setter_def Let_def split: option.splits if_splits)
  then have "meth col name = Some m" "equal_fold (me_http_method m) verb"
    by (auto simp: setter_method_def Option.bind_eq_Some_conv split: if_splits)
  moreover have "sort fs \<noteq> []" using m(3) by (metis set_empty2 set_sort)
  ultimately show ?thesis
    using m(2,5) request_exactly [OF resolved_request_wf [OF assms(1) m(2)] m(4)] by auto
qed

text \<open>
  C11. The provider calls a method of its own for a field only where the API agrees: every setter of a
  type names a method its collection publishes under that verb, and the body it will be sent, the
  setter's fields and its lock, has exactly the properties of that method's request.
\<close>

theorem setters_agree:
  assumes "wf_schemas d" "s \<in> set (discovered_setters d col mm t)"
  shows "\<exists>m req. meth col (s_method s) = Some m \<and> equal_fold (me_http_method m) (s_verb s)
    \<and> resolved_request d m = Some req \<and> s_fields s \<noteq> []
    \<and> set (keys (sm_props req)) = set (s_fields s) \<union> (if s_lock s = [] then {} else {s_lock s})"
proof -
  have "\<exists>name verb fs lock. admitted_setter d col t name verb fs lock = Some s"
  proof (cases mm)
    case None
    with assms(2) show ?thesis by (auto simp: discovered_setters_def labels_setter_def split: option.splits if_splits)
  next
    case (Some r)
    with assms(2) have "s \<in> set (labels_setter d col t (List.map_filter (setter_of_group d col t) (setter_groups r)))"
      by (simp add: discovered_setters_def)
    then have "admitted_setter d col t ''setLabels'' ''POST'' [''labels''] ''labelFingerprint'' = Some s
        \<or> (\<exists>g \<in> set (setter_groups r). setter_of_group d col t g = Some s)"
      by (auto simp: labels_setter_def map_filter_def split: option.splits if_splits)
    then show ?thesis using setter_of_group_admitted by blast
  qed
  then show ?thesis using admitted_agrees [OF assms(1)] by blast
qed

definition plain_schema :: "string \<Rightarrow> dschema" where
  "plain_schema t = Schema (no_facts\<lparr>sm_type := t\<rparr>) [] None None"

definition labels_document :: document where
  "labels_document = \<lparr>doc_name = ''compute'', doc_root_url = [], doc_service_path = [],
     doc_schemas = [(''R'', Schema (no_facts\<lparr>sm_type := ''object''\<rparr>)
       [(''labels'', plain_schema ''object''), (''labelFingerprint'', plain_schema ''string'')] None None)],
     doc_resources = [], doc_endpoints = []\<rparr>"

definition labels_collection :: collection where
  "labels_collection = \<lparr>co_path = [''disks''], co_methods = [(''setLabels'', \<lparr>me_id = [], me_path = ''d/{r}/setLabels'',
     me_flat_path = [], me_http_method = ''POST'', me_description = [], me_request = Some ''R'', me_response = None,
     me_parameters = []\<rparr>)]\<rparr>"

definition labelled_type :: ctype where
  "labelled_type = zero_type\<lparr>t_self_link := ''d/{disk}'', t_attributes := [(''labels'', Attr (new_info ''labels'' KMap []) [] None)]\<rparr>"

theorem setters_agree_witness:
  "\<exists>req. resolved_request labels_document (snd (hd (co_methods labels_collection))) = Some req
    \<and> set (keys (sm_props req)) = {''labels'', ''labelFingerprint''}"
proof -
  let ?s = "\<lparr>s_method = ''setLabels'', s_path = ''d/{disk}/setLabels'', s_verb = ''POST'', s_fields = [''labels''],
    s_lock = ''labelFingerprint''\<rparr>"
  have "discovered_setters labels_document labels_collection None labelled_type = [?s]" by code_simp
  then have "?s \<in> set (discovered_setters labels_document labels_collection None labelled_type)" by simp
  moreover have "wf_schemas labels_document" by code_simp
  ultimately obtain m req where "meth labels_collection ''setLabels'' = Some m"
      "resolved_request labels_document m = Some req" "set (keys (sm_props req)) = {''labels'', ''labelFingerprint''}"
    using setters_agree [of labels_document ?s labels_collection None labelled_type] by auto
  moreover from this have "m = snd (hd (co_methods labels_collection))" by (simp add: meth_def labels_collection_def)
  ultimately show ?thesis by blast
qed

end
