(* ===== verification/AttrEdits.thy ===== *)
theory AttrEdits
  imports GenSetters
begin

text \<open>
  Human decisions applied to a type's attributes (internal/gen/build.go): finding an attribute by
  its key, its name on the wire or a path, and changing it. The source changes it through a pointer;
  here the level is rebuilt. An edit that fails leaves nothing behind, as its type or the whole
  catalog is refused. Iteration over a level is in its own order.
\<close>

section \<open>Results\<close>

definition on_ok :: "gerr + 'a \<Rightarrow> ('a \<Rightarrow> gerr + 'b) \<Rightarrow> gerr + 'b" where
  "on_ok r f = (case r of Inl e \<Rightarrow> Inl e | Inr a \<Rightarrow> f a)"

primrec each_ok :: "('x \<Rightarrow> 'a \<Rightarrow> gerr + 'a) \<Rightarrow> 'x list \<Rightarrow> 'a \<Rightarrow> gerr + 'a" where
  "each_ok f [] a = Inr a"
| "each_ok f (x # xs) a = on_ok (f x a) (each_ok f xs)"

lemma on_ok_Inr: "on_ok r f = Inr b \<longleftrightarrow> (\<exists>a. r = Inr a \<and> f a = Inr b)"
  by (cases r) (auto simp: on_ok_def)

lemma each_ok_invariant:
  assumes "each_ok f xs a = Inr b" "P a" "\<And>x a b. x \<in> set xs \<Longrightarrow> P a \<Longrightarrow> f x a = Inr b \<Longrightarrow> P b"
  shows "P b"
  using assms by (induction xs arbitrary: a) (auto simp: on_ok_Inr)

section \<open>Finding an attribute\<close>

definition attr_key :: "level \<Rightarrow> string \<Rightarrow> string option" where
  "attr_key lvl name = (if has_key lvl name then Some name else map_option fst (find_canonical lvl name))"

definition attr_named :: "level \<Rightarrow> string \<Rightarrow> attr option" where
  "attr_named lvl name = Option.bind (attr_key lvl name) (map_of lvl)"

text \<open>The attribute at the segments of a path; a segment ending in \<open>[]\<close> is the element of a list.\<close>

definition step_into :: "string \<Rightarrow> level \<Rightarrow> attr option" where
  "step_into seg lvl = Option.bind (map_of lvl (trim_suffix seg ''[]''))
     (\<lambda>a. if has_suffix seg ''[]'' then a_elem a else Some a)"

fun attr_at :: "string list \<Rightarrow> level \<Rightarrow> attr option" where
  "attr_at [] lvl = None"
| "attr_at [seg] lvl = step_into seg lvl"
| "attr_at (seg # segs) lvl = Option.bind (step_into seg lvl) (\<lambda>a. attr_at segs (a_fields a))"

definition path_segments :: "string \<Rightarrow> string list" where
  "path_segments path = split_on (CHR ''.'') path"

definition attr_at_path :: "level \<Rightarrow> string \<Rightarrow> attr option" where
  "attr_at_path lvl path = attr_at (path_segments path) lvl"

section \<open>Changing one\<close>

abbreviation with_fields :: "(level \<Rightarrow> level) \<Rightarrow> attr \<Rightarrow> attr" where
  "with_fields f a \<equiv> Attr (a_info a) (f (a_fields a)) (a_elem a)"

definition at_step :: "string \<Rightarrow> (attr \<Rightarrow> attr) \<Rightarrow> attr \<Rightarrow> attr" where
  "at_step seg f a = (if has_suffix seg ''[]'' then Attr (a_info a) (a_fields a) (map_option f (a_elem a)) else f a)"

fun change_at :: "(attr_info \<Rightarrow> attr_info) \<Rightarrow> string list \<Rightarrow> level \<Rightarrow> level" where
  "change_at f [] lvl = lvl"
| "change_at f [seg] lvl = AList.map_entry (trim_suffix seg ''[]'') (at_step seg (with_info f)) lvl"
| "change_at f (seg # segs) lvl =
     AList.map_entry (trim_suffix seg ''[]'') (at_step seg (with_fields (change_at f segs))) lvl"

fun force_new_attr :: "attr \<Rightarrow> attr" where
  "force_new_attr (Attr i fs e) = Attr (if i_output i then i else i\<lparr>i_force_new := True\<rparr>)
     (map (\<lambda>(n, f). (n, force_new_attr f)) fs) (map_option force_new_attr e)"

definition force_new_all :: "level \<Rightarrow> level" where
  "force_new_all lvl = map (\<lambda>(n, a). (n, force_new_attr a)) lvl"

section \<open>A leaf changed in place\<close>

text \<open>A block stops being replaced as a whole; its fields but the one on the path are each.\<close>

definition opened :: "string \<Rightarrow> attr \<Rightarrow> attr" where
  "opened next_seg a = (if \<not> i_force_new (a_info a) then a
     else Attr ((a_info a)\<lparr>i_force_new := False\<rparr>)
       (map (\<lambda>(n, f). (n, if n \<noteq> next_seg \<and> \<not> a_output f then with_info (\<lambda>i. i\<lparr>i_force_new := True\<rparr>) f else f)) (a_fields a))
       (a_elem a))"

fun mark_in_place_at :: "string \<Rightarrow> string list \<Rightarrow> level \<Rightarrow> gerr + level" where
  "mark_in_place_at path [] lvl = Inr lvl"
| "mark_in_place_at path (seg # segs) lvl = (case map_of lvl seg of
      None \<Rightarrow> Inl (Errorf ''in_place names %q, which has no %q'' [path, seg])
    | Some a \<Rightarrow> (case segs of
        [] \<Rightarrow> Inr (AList.update seg (with_info (\<lambda>i. i\<lparr>i_force_new := False\<rparr>) a) lvl)
      | next_seg # _ \<Rightarrow> on_ok (mark_in_place_at path segs (a_fields (opened next_seg a)))
          (\<lambda>fs. Inr (AList.update seg (with_fields (\<lambda>_. fs) (opened next_seg a)) lvl))))"

definition mark_in_place :: "string \<Rightarrow> level \<Rightarrow> gerr + level" where
  "mark_in_place path lvl = mark_in_place_at path (path_segments path) lvl"

section \<open>What a ruling decides\<close>

definition make_settable :: "string \<Rightarrow> level \<Rightarrow> gerr + level" where
  "make_settable f lvl = (case attr_key lvl f of
      None \<Rightarrow> Inl (Errorf ''settable names %q, which is not an attribute of this type'' [f])
    | Some k \<Rightarrow> Inr (AList.map_entry k (with_info (\<lambda>i. i\<lparr>i_output := False\<rparr>)) lvl))"

definition send_along :: "string \<Rightarrow> level \<Rightarrow> gerr + level" where
  "send_along path lvl = (case attr_at_path lvl path of
      None \<Rightarrow> Inl (Errorf ''send_with_update names %q, which is not an attribute outside a list'' [path])
    | Some a \<Rightarrow>
        if str_contains path ''[]'' then Inl (Errorf ''send_with_update names %q, which is not an attribute outside a list'' [path])
        else if \<not> a_input_only a \<or> a_output a then Inl (Errorf ''send_with_update names %q, which is not input-only'' [path])
        else Inr (change_at (\<lambda>i. i\<lparr>i_send_with_update := True\<rparr>) (path_segments path) lvl))"

definition make_required :: "string \<Rightarrow> level \<Rightarrow> gerr + level" where
  "make_required f lvl =
     (let refused = Inl (Errorf ''required names %q, which is not a settable attribute of this type'' [f]) in
      case attr_key lvl f of
        None \<Rightarrow> refused
      | Some k \<Rightarrow> (case map_of lvl k of
          None \<Rightarrow> refused
        | Some a \<Rightarrow> if a_output a then refused
            else Inr (AList.map_entry k (with_info (\<lambda>i. i\<lparr>i_required := True\<rparr>)) lvl)))"

definition may_clear :: "string \<Rightarrow> level \<Rightarrow> gerr + level" where
  "may_clear f lvl = (case map_of lvl f of
      Some a \<Rightarrow> if \<not> a_output a then Inr lvl
        else Inl (Errorf ''clear_before_delete names %q, which is not a settable attribute of this type'' [f])
    | None \<Rightarrow> Inl (Errorf ''clear_before_delete names %q, which is not a settable attribute of this type'' [f]))"

definition rule_attributes :: "ruling \<Rightarrow> level \<Rightarrow> gerr + level" where
  "rule_attributes r lvl =
     on_ok (each_ok make_settable (ru_settable r) lvl) (\<lambda>lvl.
     on_ok (each_ok mark_in_place (ru_in_place r) lvl) (\<lambda>lvl.
     on_ok (each_ok send_along (ru_send_with_update r) lvl) (\<lambda>lvl.
     on_ok (each_ok make_required (ru_required r) lvl)
       (each_ok may_clear (ru_clear_before_delete r)))))"

end
