(* ===== verification/Operate.thy ===== *)
theory Operate
  imports Methods
begin

text \<open>
  The schema a type's attributes come from, the paths its operations are polled at, and the check
  that what a create makes is what the id names (internal/gen/build.go).
\<close>

section \<open>The schema of a resource\<close>

definition request_body_schema :: "document \<Rightarrow> dmethod \<Rightarrow> gerr + dschema" where
  "request_body_schema d m =
     (let ref = (case me_request m of Some r \<Rightarrow> r | None \<Rightarrow> (case me_response m of Some r \<Rightarrow> r | None \<Rightarrow> [])) in
      if ref = [] then Inl (Errorf ''%s has no request or response schema'' [me_id m])
      else case map_of (doc_schemas d) ref of
        None \<Rightarrow> Inl (Errorf ''%s references unknown schema %q'' [me_id m, ref])
      | Some raw \<Rightarrow> resolve d raw)"

text \<open>
  A create request that holds the resource under one of its properties: that property, the last of
  them in the order of names, and the other properties, which the resource does not have.
\<close>

definition create_envelope :: "string \<Rightarrow> dschema \<Rightarrow> string \<times> string list" where
  "create_envelope resource_ref raw =
     (let (holds, other) = partition (\<lambda>(_, p). sm_ref (sm p) = resource_ref) (sort_key fst (sm_props raw))
      in (if holds = [] then [] else fst (last holds), map fst other))"

definition resource_schema :: "document \<Rightarrow> collection \<Rightarrow> dmethod \<Rightarrow> gerr + dschema option \<times> string \<times> string list" where
  "resource_schema d col create =
     (let resource_ref = (case Option.bind (meth col ''get'') me_response of Some r \<Rightarrow> r | None \<Rightarrow> []);
          request_ref = (case me_request create of Some r \<Rightarrow> r | None \<Rightarrow> []);
          plain = map_sum id (\<lambda>s. (Some s, [], [])) (request_body_schema d create)
      in if resource_ref = [] \<or> resource_ref = request_ref then plain
         else case map_of (doc_schemas d) request_ref of
           None \<Rightarrow> plain
         | Some raw \<Rightarrow> (case create_envelope resource_ref raw of (wrapper, create_only) \<Rightarrow>
             if wrapper = [] then plain
             else (case map_of (doc_schemas d) resource_ref of
                 None \<Rightarrow> Inr (None, wrapper, create_only)
               | Some s \<Rightarrow> map_sum id (\<lambda>s. (Some s, wrapper, create_only)) (resolve d s))))"

section \<open>Where operations are polled\<close>

lemma mset_eq_imp_sum_list: "mset xs = mset ys \<Longrightarrow> sum_list xs = sum_list (ys :: nat list)"
  by (simp flip: sum_mset_sum_list)

lemma size_sorted_level [termination_simp]:
  "size_list f (sort_key k rs) = size_list f rs"
proof -
  have "mset (map f (sort_key k rs)) = mset (map f rs)" by simp
  from mset_eq_imp_sum_list [OF this] have "sum_list (map f (sort_key k rs)) = sum_list (map f rs)" .
  then show ?thesis unfolding size_list_conv_sum_list sum_list_Suc length_sort by simp
qed

lemma size_below_node [termination_simp]: "size_list (size_prod (\<lambda>_. 0) size) (re_resources r) < size r"
  by (cases r) simp

text \<open>Every resource of the tree, with its name, in the order of the walk.\<close>

function (sequential) resource_nodes :: "(string \<times> dresource) list \<Rightarrow> (string \<times> dresource) list"
and nodes_in_turn :: "(string \<times> dresource) list \<Rightarrow> (string \<times> dresource) list" where
  "resource_nodes rs = nodes_in_turn (sort_key fst rs)"
| "nodes_in_turn [] = []"
| "nodes_in_turn ((n, r) # rs) = (n, r) # resource_nodes (re_resources r) @ nodes_in_turn rs"
  by pat_completeness auto
termination
  by (relation "measures
      [\<lambda>x. case x of Inl rs \<Rightarrow> size_list (size_prod (\<lambda>_. 0) size) rs | Inr rs \<Rightarrow> size_list (size_prod (\<lambda>_. 0) size) rs,
       \<lambda>x. case x of Inl _ \<Rightarrow> 1 | Inr _ \<Rightarrow> 0]")
    (auto simp: size_sorted_level intro!: less_SucI trans_less_add1 size_below_node)

definition runtime_operation_placeholders :: "string list" where
  "runtime_operation_placeholders = [''operation'', ''name'', ''project'', ''zone'', ''region'']"

definition runtime_can_expand :: "string \<Rightarrow> bool" where
  "runtime_can_expand path \<longleftrightarrow> list_all (\<lambda>n. n \<in> set runtime_operation_placeholders) (path_placeholders path)"

definition poll_rank :: "string \<Rightarrow> nat" where
  "poll_rank path = (if runtime_can_expand path then if str_contains path ''{+name}'' then 2 else 1 else 0)"

definition operation_get_paths :: "document \<Rightarrow> string list" where
  "operation_get_paths d = sort (filter (\<lambda>p. p \<noteq> []) (map me_path (List.map_filter (\<lambda>(n, r).
     if n = ''operations'' then map_of (re_methods r) ''get'' else None) (resource_nodes (doc_resources d)))))"

definition operation_poll_path :: "document \<Rightarrow> string" where
  "operation_poll_path d = (case operation_get_paths d of
      [] \<Rightarrow> []
    | p # ps \<Rightarrow> foldl (\<lambda>best path. if poll_rank path > poll_rank best then path else best) p ps)"

text \<open>Every pattern an operations method at this path publishes for a parameter of the path.\<close>

definition published_patterns :: "document \<Rightarrow> string \<Rightarrow> (string \<times> string) list" where
  "published_patterns d path = concat (map (\<lambda>(n, r).
     if n = ''operations'' \<or> has_suffix n ''Operations'' then
       concat (map (\<lambda>(_, m). if me_path m \<noteq> path then []
         else map (\<lambda>(pn, p). (pn, pa_pattern p))
           (filter (\<lambda>(pn, p). pn \<in> set (path_placeholders path) \<and> pa_pattern p \<noteq> []) (me_parameters m))) (re_methods r))
     else []) (resource_nodes (doc_resources d)))"

definition operation_param_patterns :: "document \<Rightarrow> string \<Rightarrow> (string \<times> string) list" where
  "operation_param_patterns d path = (if path = [] then []
     else let seen = published_patterns d path in
       List.map_filter (\<lambda>pn. case remdups (map snd (filter (\<lambda>(n, _). n = pn) seen)) of
           [pattern] \<Rightarrow> Some (pn, pattern) | _ \<Rightarrow> None)
         (sort (remdups (map fst seen))))"

definition operation_wait_path :: "document \<Rightarrow> scope \<Rightarrow> string" where
  "operation_wait_path d sc =
     (let coll = (case sc of ScopeGlobal \<Rightarrow> ''globalOperations'' | ScopeRegional \<Rightarrow> ''regionOperations''
         | ScopeZonal \<Rightarrow> ''zoneOperations'')
      in case Option.bind (map_of (doc_resources d) coll) (\<lambda>r. map_of (re_methods r) ''wait'') of
           None \<Rightarrow> [] | Some m \<Rightarrow> me_path m)"

section \<open>The id is inside the collection\<close>

definition check_self_link :: "ctype \<Rightarrow> gerr option" where
  "check_self_link t =
     (let coll = trim_suffix (path_part (create_template t)) ''/''; self = t_self_link t in
      if coll = [] \<or> self = [] \<or> str_contains coll ''{+'' \<or> str_contains self ''{+'' then None
      else if template_shape self = template_shape coll \<or> has_prefix (template_shape self) (template_shape coll @ ''/'') then None
      else Some (Errorf (''self_link %q is not inside %q, the collection its create posts to, ''
        @ ''so it would name a resource this type never creates'') [self, coll]))"

section \<open>Properties\<close>

lemma best_ranked:
  fixes rank :: "'a \<Rightarrow> nat"
  shows "foldl (\<lambda>best x. if rank x > rank best then x else best) b xs \<in> set (b # xs)
    \<and> (\<forall>x \<in> set (b # xs). rank x \<le> rank (foldl (\<lambda>best x. if rank x > rank best then x else best) b xs))"
proof (induction xs arbitrary: b)
  case (Cons y xs)
  let ?b = "if rank y > rank b then y else b" and ?step = "\<lambda>best x. if rank x > rank best then x else best"
  have b: "rank b \<le> rank ?b" "rank y \<le> rank ?b" "?b \<in> {b, y}" by auto
  have fold: "foldl ?step b (y # xs) = foldl ?step ?b xs" by simp
  have IH: "foldl ?step ?b xs \<in> set (?b # xs)" "\<forall>x \<in> set (?b # xs). rank x \<le> rank (foldl ?step ?b xs)"
    using Cons.IH [of ?b] by (rule conjunct1, rule conjunct2)
  have "rank ?b \<le> rank (foldl ?step ?b xs)" using IH(2) by (meson list.set_intros(1))
  with b IH show ?case unfolding fold by (auto simp del: foldl.simps intro: le_trans)
qed simp

text \<open>
  The path an operation is polled at is one the document publishes as the get of its operations,
  whenever it publishes any, and no other published path serves the provider better: if one of
  them can be filled at run time then so can the chosen one, and if one of those takes the
  operation's whole name then so does the chosen one.
\<close>

theorem poll_path_serves_best:
  assumes "p \<in> set (operation_get_paths d)"
  shows "operation_poll_path d \<in> set (operation_get_paths d)
    \<and> (runtime_can_expand p \<longrightarrow> runtime_can_expand (operation_poll_path d))
    \<and> (runtime_can_expand p \<and> str_contains p ''{+name}'' \<longrightarrow> str_contains (operation_poll_path d) ''{+name}'')"
proof -
  obtain q qs where q: "operation_get_paths d = q # qs" using assms by (cases "operation_get_paths d") auto
  have "operation_poll_path d \<in> set (operation_get_paths d)" "poll_rank p \<le> poll_rank (operation_poll_path d)"
    using best_ranked [of poll_rank q qs] assms by (auto simp: operation_poll_path_def q)
  then show ?thesis by (auto simp: poll_rank_def split: if_splits)
qed

definition two_operations :: document where
  "two_operations = (let node = (\<lambda>path. Resource [(''get'', \<lparr>me_id = ''get'', me_path = path, me_flat_path = [],
       me_http_method = ''GET'', me_description = [], me_request = None, me_response = None, me_parameters = []\<rparr>)] [])
     in \<lparr>doc_name = ''container'', doc_root_url = ''https://container.googleapis.com/'', doc_service_path = [],
       doc_schemas = [], doc_resources = [(''projects'', Resource []
         [(''zones'', Resource [] [(''operations'', node ''v1/zones/{zone}/operations/{operationId}'')]),
          (''locations'', Resource [] [(''operations'', node ''v1/{+name}'')])])],
       doc_endpoints = []\<rparr>)"

theorem poll_path_serves_best_witness:
  "operation_poll_path two_operations \<in> set (operation_get_paths two_operations)
   \<and> str_contains (operation_poll_path two_operations) ''{+name}''"
proof -
  have "''v1/{+name}'' \<in> set (operation_get_paths two_operations)" by code_simp
  moreover have "runtime_can_expand ''v1/{+name}'' \<and> str_contains ''v1/{+name}'' ''{+name}''" by code_simp
  ultimately show ?thesis using poll_path_serves_best by blast
qed

end
