(* ===== verification/BuildType.thy ===== *)
theory BuildType
  imports AttrEdits Operate
begin

text \<open>
  One catalog type from its collection, its magic-modules resource and the overlay
  (internal/gen/build.go, \<open>buildType\<close>), as the sequence of the steps the function takes. The record of
  where each fact came from is not kept.
\<close>

section \<open>Attributes\<close>

text \<open>A create parameter the resource does not have; the resource's own attribute wins.\<close>

definition add_create_only :: "level \<Rightarrow> string \<times> attr \<Rightarrow> level" where
  "add_create_only lvl na = (case na of (n, a) \<Rightarrow> if has_key lvl n then lvl
     else lvl @ [(n, with_info (\<lambda>i. i\<lparr>i_force_new := True, i_create_only := True, i_output := False\<rparr>) a)])"

definition create_only_attributes :: "document \<Rightarrow> dmethod \<Rightarrow> string list \<Rightarrow> gerr + level" where
  "create_only_attributes d create names =
     (let raw = Option.bind (me_request create) (map_of (doc_schemas d));
          props = List.map_filter (\<lambda>n. Option.bind raw (\<lambda>s. map_option (Pair n) (map_of (sm_props s) n))) names
      in case build_attributes (doc_name d) (Some (Schema (no_facts\<lparr>sm_type := ''object''\<rparr>) props None None)) None [] of
           Inl e \<Rightarrow> Inl (Wrapf ''create-only parameters of %s: %w'' [me_id create] e)
         | Inr (lvl, _) \<Rightarrow> Inr lvl)"

definition type_attributes ::
  "document \<Rightarrow> dmethod \<Rightarrow> dschema option \<Rightarrow> string \<Rightarrow> string list \<Rightarrow> mm_resource option \<Rightarrow> ruling option
    \<Rightarrow> (string \<times> string) list \<Rightarrow> gerr + level" where
  "type_attributes d create body wrapper create_only mm ru aliases =
     on_ok (build_attributes (doc_name d) body mm aliases) (\<lambda>(own, _).
     on_ok (if wrapper \<noteq> [] \<and> create_only \<noteq> [] then create_only_attributes d create create_only else Inr []) (\<lambda>extra.
       let lvl = foldl add_create_only own extra in
       Inr (case ru of Some r \<Rightarrow> if ru_all_force_new r then force_new_all lvl else lvl | None \<Rightarrow> lvl)))"

section \<open>Where the type is\<close>

definition from_magic_modules :: "mm_resource \<Rightarrow> ctype \<Rightarrow> ctype" where
  "from_magic_modules r t =
     (let patched = (mm_update_verb r = [] \<or> equal_fold (mm_update_verb r) ''PATCH'') in
      t\<lparr>t_description := mm_description r, t_base_url := mm_base_url r, t_create_url := mm_create_url r,
        t_delete_url := mm_delete_url r, t_self_link := mm_self_link r,
        t_update_verb := (if patched then mm_update_verb r else []),
        t_update_url := (if patched then mm_update_url r else []),
        t_update_mask := mm_update_mask r,
        t_import_format := join_with [CHR 0x0A] (mm_import_format r)\<rparr>)"

definition start_type ::
  "document \<Rightarrow> collection \<Rightarrow> mm_resource option \<Rightarrow> string \<Rightarrow> dschema option \<Rightarrow> string \<Rightarrow> level \<Rightarrow> ctype" where
  "start_type d col mm name body wrapper lvl =
     (let t = zero_type\<lparr>t_name := name, t_service := doc_name d, t_api_base_url := resolved_base_url d,
          t_parent_root := hierarchy_root (co_path col), t_attributes := lvl, t_create_wrapper := wrapper\<rparr>
      in case mm of
           Some r \<Rightarrow> from_magic_modules r t
         | None \<Rightarrow> t\<lparr>t_description := (case body of None \<Rightarrow> [] | Some s \<Rightarrow> trim_space (sm_description (sm s)))\<rparr>)"

text \<open>\<open>self_link\<close> from the collection's get where magic-modules has none, or only one placeholder.\<close>

definition find_self_link :: "collection \<Rightarrow> ctype \<Rightarrow> ctype" where
  "find_self_link col t = (case meth col ''get'' of
      None \<Rightarrow> t
    | Some g \<Rightarrow>
        (let self = (if t_self_link t = [] then me_path g else t_self_link t);
             path = me_path g
         in t\<lparr>t_self_link := (if bare_mm_placeholder self \<and> bare_capture (trim_prefix path (version_prefix_of path))
              then path else self)\<rparr>))"

section \<open>How it is updated\<close>

definition allow_patch :: "patchable option \<Rightarrow> ctype \<Rightarrow> ctype" where
  "allow_patch allow t = (case allow of
      None \<Rightarrow> t
    | Some p \<Rightarrow> t\<lparr>t_attributes := apply_patch_allowlist (pt_fields p) (t_attributes t),
        t_patch_one_field := pt_one_field_per_patch p\<rparr>)"

definition update_by_envelope :: "document \<Rightarrow> collection \<Rightarrow> patchable option \<Rightarrow> ctype \<Rightarrow> ctype" where
  "update_by_envelope d col allow t =
     (if t_update_verb t \<notin> {[], ''PATCH''}
        \<or> \<not> (t_update_url t = [] \<or> template_addresses_method (t_update_url t) (patch_method_of col)) then t
      else case discovered_update_wrapper d col of
        None \<Rightarrow> t
      | Some (wrapper, mask_field) \<Rightarrow>
          if restricted_patch col \<and> allow = None then t
          else allow_patch allow (t\<lparr>t_update_verb := ''PATCH'', t_update_wrapper := wrapper,
            t_update_mask_field := mask_field, t_update_url := [], t_update_mask := False\<rparr>))"

definition update_by_patch :: "collection \<Rightarrow> patchable option \<Rightarrow> ctype \<Rightarrow> ctype" where
  "update_by_patch col allow t =
     (if t_update_verb t \<noteq> [] then t
      else case discovered_update col (t_update_url t) of
        None \<Rightarrow> t
      | Some (verb, masked) \<Rightarrow>
          (let updated = t\<lparr>t_update_verb := verb, t_update_mask := masked\<rparr> in
           if \<not> restricted_patch col then updated
           else if allow \<noteq> None then allow_patch allow updated else t))"

definition update_by_put :: "collection \<Rightarrow> ctype \<Rightarrow> ctype" where
  "update_by_put col t =
     (if t_update_verb t = [] \<and> discovered_put col \<noteq> None \<and> \<not> restricted_patch col
      then t\<lparr>t_update_verb := ''PUT'', t_update_mask := False, t_update_url := []\<rparr> else t)"

definition immutable_resource :: "mm_resource option \<Rightarrow> patchable option \<Rightarrow> ctype \<Rightarrow> ctype" where
  "immutable_resource mm allow t = (case mm of
      None \<Rightarrow> t
    | Some r \<Rightarrow>
        if \<not> mm_immutable r \<or> t_update_verb t = [] \<or> allow \<noteq> None then t
        else if immutable_resource_patch_fields r \<noteq> []
        then t\<lparr>t_attributes := apply_patch_allowlist (immutable_resource_patch_fields r) (t_attributes t)\<rparr>
        else t\<lparr>t_update_verb := [], t_update_mask := False, t_update_url := [], t_update_wrapper := [],
          t_update_mask_field := []\<rparr>)"

definition find_update :: "document \<Rightarrow> collection \<Rightarrow> mm_resource option \<Rightarrow> patchable option \<Rightarrow> ctype \<Rightarrow> ctype" where
  "find_update d col mm allow t =
     immutable_resource mm allow (update_by_put col (update_by_patch col allow (update_by_envelope d col allow t)))"

text \<open>A PATCH that is not published is dropped; a spelling of the resource's own address gives way to it; a mask the API requires is sent.\<close>

definition mask_required :: "collection \<Rightarrow> bool" where
  "mask_required col \<longleftrightarrow> (case Option.bind (patch_method_of col) (\<lambda>m. map_of (me_parameters m) ''updateMask'') of
      None \<Rightarrow> False
    | Some p \<Rightarrow> pa_location p = ''query'' \<and> ''required'' \<in> set (behaviors (pa_description p)))"

definition settle_update :: "collection \<Rightarrow> ctype \<Rightarrow> ctype" where
  "settle_update col t =
     (if t_update_verb t \<noteq> ''PATCH'' then t
      else if patch_method_of col = None then t\<lparr>t_update_verb := [], t_update_url := [], t_update_mask := False\<rparr>
      else (let own = (t_update_url t \<noteq> [] \<and> CHR ''?'' \<notin> set (t_update_url t)
              \<and> template_addresses_method (t_update_url t) (patch_method_of col)
              \<and> same_address (patch_method_of col) (meth col ''get''))
        in t\<lparr>t_update_url := (if own then [] else t_update_url t),
             t_update_mask := (t_update_mask t \<or> t_update_wrapper t = [] \<and> mask_required col)\<rparr>))"

section \<open>How it is named and created\<close>

definition item_shape :: "collection \<Rightarrow> ctype \<Rightarrow> ctype" where
  "item_shape col t =
     (let import_format = (if t_import_format t = [] then t_self_link t else t_import_format t);
          self = path_part (t_self_link t);
          del = id_template_from_delete col;
          first_line = fst (str_cut import_format [CHR 0x0A])
      in if \<not> has_suffix self ''/'' \<and> self \<noteq> [] then t\<lparr>t_import_format := import_format, t_self_link := self\<rparr>
         else if del \<noteq> [] then t\<lparr>t_self_link := del, t_import_format := del @ [CHR 0x0A] @ import_format, t_delete_url := del\<rparr>
         else t\<lparr>t_import_format := import_format, t_self_link := (if first_line = [] then self else first_line)\<rparr>)"

definition find_create :: "dmethod \<Rightarrow> ctype \<Rightarrow> ctype" where
  "find_create create t =
     (let base = (if t_base_url t = [] then me_path create else t_base_url t);
          verb = (if me_http_method create \<notin> {[], ''POST''} then me_http_method create else t_create_verb t)
      in t\<lparr>t_base_url := base, t_scope := scope_of base, t_create_verb := verb,
           t_create_url := (if me_http_method create = ''PUT'' then me_path create else t_create_url t)\<rparr>)"

definition create_at_collection :: "dmethod \<Rightarrow> ctype \<Rightarrow> ctype" where
  "create_at_collection create t =
     (if t_create_verb t \<noteq> [] then t
      else if t_create_url t \<noteq> [] then t\<lparr>t_create_url := without_item_tail (t_create_url t) (me_path create)\<rparr>
      else t\<lparr>t_base_url := without_item_tail (t_base_url t) (me_path create)\<rparr>)"

section \<open>How its mutations complete\<close>

text \<open>The kind whose paths the type records: the create's, or the other's where the create waits for nothing.\<close>

fun joint_await :: "await_kind \<Rightarrow> await_kind option list \<Rightarrow> await_kind option" where
  "joint_await a [] = Some a"
| "joint_await a (None # ks) = joint_await a ks"
| "joint_await a (Some k # ks) = (if k = AwaitNone then joint_await a ks
     else if a = AwaitNone then joint_await k ks
     else if k \<noteq> a then None else joint_await a ks)"

definition operation_paths :: "document \<Rightarrow> await_kind \<Rightarrow> ctype \<Rightarrow> ctype" where
  "operation_paths d kind t = (let poll = operation_poll_path d; wait = operation_wait_path d (t_scope t) in case kind of
      AwaitComputeOperation \<Rightarrow> t\<lparr>t_operation_wait_path := wait, t_operation_poll_path := poll, t_timeout_seconds := 600,
        t_operation_param_patterns := operation_param_patterns d (if wait \<noteq> [] then wait else poll)\<rparr>
    | AwaitLongRunning \<Rightarrow> t\<lparr>t_operation_poll_path := poll, t_timeout_seconds := 1200,
        t_operation_param_patterns := operation_param_patterns d poll\<rparr>
    | AwaitNone \<Rightarrow> t\<lparr>t_timeout_seconds := 60\<rparr>)"

definition find_await :: "document \<Rightarrow> collection \<Rightarrow> dmethod \<Rightarrow> ctype \<Rightarrow> gerr + ctype" where
  "find_await d col create t =
     (let own = await_of d (Some create);
          differs = (\<lambda>k. if k = own then None else Some k);
          upd = (if t_update_verb t = ''PUT'' then discovered_put col else patch_method_of col);
          delete_await = differs (await_of d (meth col ''delete''));
          update_await = (if t_update_verb t \<noteq> [] \<and> upd \<noteq> None then differs (await_of d upd) else None)
      in case joint_await own [delete_await, update_await] of
           None \<Rightarrow> Inl (Errorf ''its mutations complete as two different kinds of operation'' [])
         | Some kind \<Rightarrow> Inr (operation_paths d kind
             (t\<lparr>t_await := own, t_delete_await := delete_await, t_update_await := update_await\<rparr>)))"

definition asset_type_of :: "document \<Rightarrow> dschema option \<Rightarrow> string" where
  "asset_type_of d body = (case body of
      None \<Rightarrow> []
    | Some s \<Rightarrow> if sm_id (sm s) = [] then []
        else trim_suffix (trim_prefix (doc_root_url d) ''https://'') ''/'' @ ''/'' @ sm_id (sm s))"

section \<open>The ruling and the templates\<close>

definition apply_ruling :: "ruling option \<Rightarrow> ctype \<Rightarrow> gerr + ctype" where
  "apply_ruling ru t = (case ru of
      None \<Rightarrow> Inr t
    | Some r \<Rightarrow> on_ok (rule_attributes r (t_attributes t)) (\<lambda>lvl.
        Inr (t\<lparr>t_attributes := lvl, t_clear_before_delete := ru_clear_before_delete r, t_read_via := ru_read_via r\<rparr>)))"

definition bind_parents :: "dmethod \<Rightarrow> ctype \<Rightarrow> ctype" where
  "bind_parents create t = t\<lparr>t_base_url := bind_parent_placeholders (t_base_url t) (Some create),
     t_create_url := bind_parent_placeholders (t_create_url t) (Some create)\<rparr>"

definition strip_version :: "collection \<Rightarrow> ctype \<Rightarrow> ctype" where
  "strip_version col t =
     (let p = path_prefix_of (prefix_method_path col); strip = (\<lambda>s. trim_prefix s p) in
      t\<lparr>t_path_prefix := p, t_base_url := strip (t_base_url t), t_create_url := strip (t_create_url t),
        t_update_url := strip (t_update_url t), t_delete_url := strip (t_delete_url t),
        t_self_link := strip (t_self_link t), t_import_format := strip (t_import_format t)\<rparr>)"

definition show_id_shape :: "collection \<Rightarrow> ctype \<Rightarrow> ctype" where
  "show_id_shape col t =
     (let shape = structured_id_template col (t_self_link t) in
      if bare_capture (t_self_link t) \<and> t_import_format t \<in> {[], t_self_link t} \<and> shape \<noteq> []
      then t\<lparr>t_import_format := shape\<rparr> else t)"

section \<open>What is refused, and the end\<close>

definition refused_type :: "collection \<Rightarrow> mm_resource option \<Rightarrow> ctype \<Rightarrow> gerr option" where
  "refused_type col mm t = (case check_self_link t of
      Some e \<Rightarrow> Some e
    | None \<Rightarrow>
        (let mm_verb = (case mm of None \<Rightarrow> [] | Some r \<Rightarrow> if mm_exclude_delete r then [] else mm_delete_verb r);
             del_verb = (case meth col ''delete'' of None \<Rightarrow> ''DELETE'' | Some m \<Rightarrow> me_http_method m)
         in if mm_verb \<noteq> [] \<and> \<not> equal_fold mm_verb ''DELETE''
            then Some (Errorf ''magic-modules deletes it with %s, and this provider sends only DELETE'' [mm_verb])
            else if del_verb \<noteq> ''DELETE''
            then Some (Errorf ''its delete method is a %s, and this provider sends only DELETE'' [del_verb])
            else if str_contains (t_create_url t) pre_create_token
            then Some (Errorf (''create url %q carries a token magic-modules' pre_create hook replaces, ''
              @ ''which this provider cannot fill'') [t_create_url t])
            else None))"

definition finish_type :: "document \<Rightarrow> collection \<Rightarrow> mm_resource option \<Rightarrow> ctype \<Rightarrow> ctype" where
  "finish_type d col mm t =
     (let t = t\<lparr>t_endpoint_template := endpoint_template d mm t\<rparr>;
          t = t\<lparr>t_update_url := drop_unfillable_query (t_update_url t) t\<rparr>;
          t = t\<lparr>t_delete_url := drop_unfillable_query (t_delete_url t) t\<rparr>
      in apply_setters (t\<lparr>t_setters := discovered_setters d col mm t\<rparr>) mm)"

text \<open>The steps that cannot fail, before and after the ruling.\<close>

definition located_type :: "document \<Rightarrow> collection \<Rightarrow> mm_resource option \<Rightarrow> dmethod \<Rightarrow> patchable option \<Rightarrow> ctype \<Rightarrow> ctype" where
  "located_type d col mm create allow t0 =
     (let t = find_self_link col t0;
          t = t\<lparr>t_lock_field := lock_field_of (t_attributes t)\<rparr>;
          t = find_update d col mm allow t;
          t = settle_update col (find_create create (item_shape col t));
          t = t\<lparr>t_delete_url := discovered_delete_url t col\<rparr>
      in create_at_collection create t)"

definition addressed_type :: "document \<Rightarrow> collection \<Rightarrow> dmethod \<Rightarrow> ctype \<Rightarrow> ctype" where
  "addressed_type d col create t =
     create_inputs (show_id_shape col (strip_version col (bind_parents create (t\<lparr>t_list_field := list_field_of d col\<rparr>)))) (Some create)"

definition build_type :: "document \<Rightarrow> collection \<Rightarrow> mm_resource option \<Rightarrow> string \<Rightarrow> gen_overlay \<Rightarrow> gerr + ctype" where
  "build_type d col mm name ov = (case create_method col of
      None \<Rightarrow> Inl (Errorf ''no insert or create method'' [])
    | Some create \<Rightarrow>
        on_ok (resource_schema d col create) (\<lambda>(body, wrapper, create_only).
        (let ru = Option.bind mm (\<lambda>r. map_of (ov_rulings ov) (doc_name d @ ''/'' @ mm_name r));
             aliases = (case map_of (ov_aliases ov) name of None \<Rightarrow> [] | Some al \<Rightarrow> al);
             allow = map_of (ov_patchable ov) name
         in on_ok (type_attributes d create body wrapper create_only mm ru aliases) (\<lambda>lvl.
            on_ok (find_await d col create (located_type d col mm create allow (start_type d col mm name body wrapper lvl))) (\<lambda>t.
            on_ok (apply_ruling ru (t\<lparr>t_asset_type := asset_type_of d body\<rparr>)) (\<lambda>t.
              let t = addressed_type d col create t in
              case refused_type col mm t of Some e \<Rightarrow> Inl e | None \<Rightarrow> Inr (finish_type d col mm t)))))))"

end
