(* ===== verification/AttrFacts.thy ===== *)
theory AttrFacts
  imports AttrLevels
begin

text \<open>
  Properties of the attributes the generator builds: what the provider's theorems ask of a level of
  attributes, and what the host asks of an attribute, holds of them by construction.
\<close>

section \<open>What is built of a property\<close>

definition built :: "string \<Rightarrow> string \<Rightarrow> dschema \<Rightarrow> mm_field option \<Rightarrow> (string \<times> string) list \<Rightarrow> bool \<Rightarrow> attr" where
  "built service name p f aliases outer = (let i = attr_facts name p f aliases outer in
     if sm_type (sm p) = ''object'' then
       (if sm_props p = [] then Attr (i\<lparr>i_opaque := True\<rparr>) [] None
        else Attr i (fst (build_level service (sm_props p) (mm_children f) [] False)) None)
     else if sm_type (sm p) = ''array'' then
       (case sm_items p of None \<Rightarrow> Attr i [] None
        | Some it \<Rightarrow>
            Attr i [] (Some (Attr (elem_info i it)
              (if sm_type (sm it) = ''object'' \<and> sm_props it \<noteq> []
               then fst (build_level service (sm_props it) (mm_children f) [] False) else []) None)))
     else Attr i [] None)"

lemma build_level_built:
  "fst (build_level service ps idx aliases outer)
     = overlay [] (map (\<lambda>(n, p). (key_of outer n, built service n p (map_of idx n) aliases outer)) ps)"
  unfolding build_level.simps [of service ps]
  by (auto simp: Let_def built_def split: prod.splits option.splits intro!: arg_cong [where f = "overlay []"])

section \<open>Well-formed schemas\<close>

text \<open>Go maps of properties name nothing twice; a property has a name; and no two keys of the outer level clash.\<close>

function wf_props :: "(string \<times> dschema) list \<Rightarrow> bool" where
  "wf_props ps \<longleftrightarrow> wf_map ps \<and> list_all (\<lambda>(n, p). n \<noteq> [] \<and> wf_props (sm_props p)
     \<and> (case sm_items p of None \<Rightarrow> True | Some it \<Rightarrow> wf_props (sm_props it))) ps"
  by pat_completeness auto
termination by (relation "measure level_size") (auto dest: level_size_props level_size_items)

declare wf_props.simps [simp del]

lemma wf_props_map: "wf_props ps \<Longrightarrow> wf_map ps"
  by (subst (asm) wf_props.simps) simp

lemma wf_props_below:
  assumes "wf_props ps" "(n, p) \<in> set ps"
  shows "n \<noteq> []" "wf_props (sm_props p)" "sm_items p = Some it \<Longrightarrow> wf_props (sm_props it)"
proof -
  have "list_all (\<lambda>(n, p). n \<noteq> [] \<and> wf_props (sm_props p)
      \<and> (case sm_items p of None \<Rightarrow> True | Some it \<Rightarrow> wf_props (sm_props it))) ps"
    using assms(1) by (subst (asm) wf_props.simps) (rule conjunct2)
  with assms(2) have "n \<noteq> [] \<and> wf_props (sm_props p) \<and> (case sm_items p of None \<Rightarrow> True | Some it \<Rightarrow> wf_props (sm_props it))"
    unfolding list_all_iff by blast
  then show "n \<noteq> []" "wf_props (sm_props p)" "sm_items p = Some it \<Longrightarrow> wf_props (sm_props it)" by simp_all
qed

definition free_keys :: "(string \<times> dschema) list \<Rightarrow> bool" where
  "free_keys ps \<longleftrightarrow> (\<forall>(n, k) \<in> set keyword_keys. \<not> (has_key ps n \<and> has_key ps k))"

lemma key_of_inner [simp]: "key_of False n = n"
  by (simp add: key_of_def)

lemma key_of_inj:
  "outer \<longrightarrow> free_keys ps \<Longrightarrow> m \<in> set (keys ps) \<Longrightarrow> n \<in> set (keys ps) \<Longrightarrow> key_of outer m = key_of outer n \<Longrightarrow> m = n"
  by (cases outer) (auto simp: key_of_def free_keys_def keyword_keys_def has_key_iff split: option.splits if_splits)

lemma distinct_keys_of:
  assumes "wf_map ps" "outer \<longrightarrow> free_keys ps"
  shows "distinct (map (key_of outer) (keys ps))"
  unfolding distinct_map [of "key_of outer"] using assms(1) key_of_inj [OF assms(2)] by (auto simp only: wf_map_def inj_on_def)

lemma key_of_other:
  "outer \<longrightarrow> free_keys ps \<Longrightarrow> n \<in> set (keys ps) \<Longrightarrow> key_of outer n \<noteq> n \<Longrightarrow> n \<notin> key_of outer ` set (keys ps)"
  by (cases outer) (auto simp: key_of_def free_keys_def keyword_keys_def has_key_iff split: option.splits if_splits)

text \<open>What the host refuses of an attribute, and what its kind says of its shape.\<close>

fun sound_attr :: "bool \<Rightarrow> attr \<Rightarrow> bool" where
  "sound_attr outer (Attr i fs e) \<longleftrightarrow> \<not> (i_output i \<and> (i_required i \<or> i_input_only i)) \<and> (\<not> outer \<longrightarrow> i_ref i = None)
     \<and> (fs \<noteq> [] \<longrightarrow> i_kind i = KMap) \<and> (e \<noteq> None \<longrightarrow> i_kind i = KList) \<and> (i_opaque i \<longrightarrow> fs = [] \<and> e = None)
     \<and> list_all (\<lambda>(n, f). sound_attr False f) fs \<and> (case e of None \<Rightarrow> True | Some el \<Rightarrow> sound_attr False el)"

lemma attr_facts_simps [simp]:
  "i_canonical (attr_facts n p f al outer) = n" "i_kind (attr_facts n p f al outer) = kind_of_schema p"
  "i_opaque (attr_facts n p f al outer) = False" "i_ref (attr_facts n p f al False) = None"
  "i_output (attr_facts n p f al outer) \<Longrightarrow> \<not> i_required (attr_facts n p f al outer)"
  "i_output (attr_facts n p f al outer) \<Longrightarrow> \<not> i_input_only (attr_facts n p f al outer)"
  by (auto simp: attr_facts_def Let_def)

lemma built_canonical [simp]: "a_canonical (built service n p f al outer) = n"
  by (auto simp: built_def Let_def split: option.splits)

definition level_sound :: "bool \<Rightarrow> level \<Rightarrow> bool" where
  "level_sound outer lvl \<longleftrightarrow> list_all (\<lambda>(n, a). sound_attr outer a) lvl"

lemma build_level_list:
  assumes "wf_map ps" "outer \<longrightarrow> free_keys ps"
  shows "fst (build_level service ps idx al outer)
    = map (\<lambda>(n, p). (key_of outer n, built service n p (map_of idx n) al outer)) ps"
proof -
  have "keys (map (\<lambda>(n, p). (key_of outer n, built service n p (map_of idx n) al outer)) ps) = map (key_of outer) (keys ps)"
    by (simp add: case_prod_unfold)
  then have "wf_map (map (\<lambda>(n, p). (key_of outer n, built service n p (map_of idx n) al outer)) ps)"
    unfolding wf_map_def by (simp only: distinct_keys_of [OF assms])
  then show ?thesis unfolding build_level_built by (rule overlay_Nil_distinct)
qed

lemma build_level_ok:
  "wf_props ps \<Longrightarrow> outer \<longrightarrow> free_keys ps \<Longrightarrow>
     level_deep_ok (fst (build_level service ps idx al outer)) \<and> level_sound outer (fst (build_level service ps idx al outer))"
proof (induction ps arbitrary: idx al outer rule: measure_induct_rule [of level_size])
  case (less ps)
  note wf = wf_props_map [OF less.prems(1)] and below = wf_props_below [OF less.prems(1)]
  note l = build_level_list [OF wf less.prems(2), of service idx al]
  let ?l = "fst (build_level service ps idx al outer)"
  have sub: "level_deep_ok (fst (build_level service (sm_props p) idx' al' False)) \<and> level_sound False (fst (build_level service (sm_props p) idx' al' False))"
    if "(n, p) \<in> set ps" for n p idx' al'
    using less.IH [OF level_size_props [OF that], of False] below(2) [OF that] by simp
  have items: "level_deep_ok (fst (build_level service (sm_props it) idx' al' False)) \<and> level_sound False (fst (build_level service (sm_props it) idx' al' False))"
    if "(n, p) \<in> set ps" "sm_items p = Some it" for n p it idx' al'
    using less.IH [OF level_size_items [OF that], of False] below(3) [OF that] by simp
  have empty: "level_ok []" by (simp add: level_ok_def wf_map_def)
  have each: "attr_ok (built service n p f al outer) \<and> sound_attr outer (built service n p f al outer)"
    if "(n, p) \<in> set ps" for n p f
    using sub [OF that, of "mm_children f" "[]"] items [OF that, of _ "mm_children f" "[]"]
    by (auto simp: built_def Let_def level_deep_ok_def level_sound_def empty elem_info_def kind_of_schema_def kind_of_type_def
        split: option.splits)
  have names: "[] \<notin> set (keys ps)" using below(1) by fastforce
  have keys: "keys ?l = map (key_of outer) (keys ps)" and canon: "map (a_canonical \<circ> snd) ?l = keys ps"
    unfolding l by (simp_all add: case_prod_unfold comp_def)
  have "wf_map ?l" unfolding wf_map_def keys using wf less.prems(2) by (rule distinct_keys_of)
  moreover have "distinct (map (a_canonical \<circ> snd) ?l)" unfolding canon using wf by (simp add: wf_map_def)
  moreover have "list_all (\<lambda>(k, a). a_canonical a \<noteq> [] \<and> (a_canonical a \<noteq> k \<longrightarrow> \<not> has_key ?l (a_canonical a))) ?l"
    unfolding list_all_iff
  proof clarify
    fix k a assume "(k, a) \<in> set ?l"
    then obtain n where n: "n \<in> set (keys ps)" "k = key_of outer n" "a_canonical a = n" unfolding l by force
    have "n \<noteq> []" using names n(1) by metis
    moreover have "n \<notin> set (keys ?l)" if "n \<noteq> k"
      using key_of_other [OF less.prems(2) n(1)] that unfolding keys n(2) set_map by metis
    ultimately show "a_canonical a \<noteq> [] \<and> (a_canonical a \<noteq> k \<longrightarrow> \<not> has_key ?l (a_canonical a))"
      unfolding has_key_iff n(3) by blast
  qed
  ultimately have "level_ok ?l" by (simp add: level_ok_def)
  moreover have "list_all (\<lambda>(n, a). attr_ok a) ?l" "level_sound outer ?l"
    unfolding l level_sound_def using each by (auto simp: list_all_iff)
  ultimately show ?case by (simp add: level_deep_ok_def)
qed

section \<open>All attributes\<close>

definition on_level :: "(attr \<Rightarrow> attr) \<Rightarrow> level \<Rightarrow> level" where
  "on_level g lvl = map (\<lambda>(k, a). (k, g a)) lvl"

lemma on_level_keys [simp]: "keys (on_level g lvl) = keys lvl"
  by (simp add: on_level_def case_prod_unfold)

lemma level_ok_on_level:
  assumes "\<And>a. a_canonical (g a) = a_canonical a"
  shows "level_ok (on_level g lvl) = level_ok lvl"
    and "map (a_canonical \<circ> snd) (on_level g lvl) = map (a_canonical \<circ> snd) lvl"
proof -
  show c: "map (a_canonical \<circ> snd) (on_level g lvl) = map (a_canonical \<circ> snd) lvl"
    by (simp add: on_level_def assms case_prod_unfold)
  have h: "has_key (on_level g lvl) n = has_key lvl n" for n by (simp add: has_key_iff)
  show "level_ok (on_level g lvl) = level_ok lvl"
    unfolding level_ok_def c h wf_map_def on_level_keys
    by (auto simp: on_level_def list_all_iff assms)
qed

lemma not_required_simps [simp]:
  "a_canonical (not_required a) = a_canonical a" "attr_ok (not_required a) = attr_ok a"
  by (cases a; simp add: not_required_def)+

lemma sound_not_required: "sound_attr outer a \<Longrightarrow> sound_attr outer (not_required a)"
  by (cases a) (auto simp: not_required_def)

lemma clear_nested_canonical [simp]: "a_canonical (clear_nested_required a) = a_canonical a"
  by (cases a) simp

lemma clear_nested_ok:
  "attr_ok a \<Longrightarrow> attr_ok (clear_nested_required a)"
  "sound_attr outer a \<Longrightarrow> sound_attr outer (clear_nested_required a)"
proof (induction a arbitrary: outer rule: clear_nested_required.induct)
  case (1 i fs e)
  {
    case 1
    have "level_ok (on_level (\<lambda>f. not_required (clear_nested_required f)) fs)"
      using 1 by (simp add: level_ok_on_level(1))
    with 1 "1.IH"(1,3) show ?case by (auto simp: on_level_def list_all_iff split: option.splits)
  next
    case 2
    with "1.IH"(2,4) show ?case
      by (auto simp: list_all_iff sound_not_required split: option.splits)
  }
qed

section \<open>What a schema says of an attribute\<close>

text \<open>The kind a word of the Discovery document names; every other word is a string.\<close>

definition kind_words :: "(string \<times> kind) list" where
  "kind_words = [(''integer'', KInt), (''number'', KFloat), (''boolean'', KBool), (''array'', KList), (''object'', KMap)]"

definition of_kind :: "dschema \<Rightarrow> attr_info \<Rightarrow> bool" where
  "of_kind s i \<longleftrightarrow> i_kind i = (case map_of kind_words (sm_type (sm s)) of Some k \<Rightarrow> k | None \<Rightarrow> KString)"

lemma of_kind_of_schema: "i_kind i = kind_of_schema s \<Longrightarrow> of_kind s i"
  by (simp add: of_kind_def kind_words_def kind_of_schema_def kind_of_type_def)

text \<open>
  An attribute follows a schema when it is of the schema's kind, its fields are those of the schema's
  properties, each under the property's own name and following it, and its element is that of the
  schema's items. An object of which the schema says nothing is opaque.
\<close>

inductive follows :: "dschema \<Rightarrow> attr \<Rightarrow> bool" where
  object: "sm_type (sm s) = ''object'' \<Longrightarrow> of_kind s i \<Longrightarrow> i_opaque i = (sm_props s = []) \<Longrightarrow>
    list_all2 (\<lambda>np ka. fst ka = fst np \<and> a_canonical (snd ka) = fst np \<and> follows (snd np) (snd ka)) (sm_props s) fs \<Longrightarrow>
    follows s (Attr i fs None)"
| of_objects: "sm_type (sm s) = ''array'' \<Longrightarrow> of_kind s i \<Longrightarrow> \<not> i_opaque i \<Longrightarrow> sm_items s = Some it \<Longrightarrow>
    sm_type (sm it) = ''object'' \<Longrightarrow> follows it el \<Longrightarrow> follows s (Attr i [] (Some el))"
| of_others: "sm_type (sm s) = ''array'' \<Longrightarrow> of_kind s i \<Longrightarrow> \<not> i_opaque i \<Longrightarrow> sm_items s = Some it \<Longrightarrow>
    sm_type (sm it) \<noteq> ''object'' \<Longrightarrow> of_kind it j \<Longrightarrow> \<not> i_opaque j \<Longrightarrow> follows s (Attr i [] (Some (Attr j [] None)))"
| of_unknown: "sm_type (sm s) = ''array'' \<Longrightarrow> of_kind s i \<Longrightarrow> \<not> i_opaque i \<Longrightarrow> sm_items s = None \<Longrightarrow>
    follows s (Attr i [] None)"
| leaf: "sm_type (sm s) \<noteq> ''object'' \<Longrightarrow> sm_type (sm s) \<noteq> ''array'' \<Longrightarrow> of_kind s i \<Longrightarrow> \<not> i_opaque i \<Longrightarrow>
    follows s (Attr i [] None)"

text \<open>The key of an outer property: its name, but for the three words the host keeps to itself.\<close>

definition outer_key :: "string \<Rightarrow> string \<Rightarrow> bool" where
  "outer_key n k \<longleftrightarrow> (n, k) \<in> {(''type'', ''type_value''), (''provider'', ''provider_value''), (''lifecycle'', ''lifecycle_value'')}
     \<or> n \<notin> {''type'', ''provider'', ''lifecycle''} \<and> k = n"

lemma outer_key_of: "outer_key n (key_of True n)"
  by (auto simp: outer_key_def key_of_def keyword_keys_def)

lemma follows_clear_nested: "follows s a \<Longrightarrow> follows s (clear_nested_required a)"
  "follows s a \<Longrightarrow> follows s (not_required a)"
proof -
  have nr: "follows s (not_required a)" if "follows s a" for s a
  proof -
    have k: "of_kind s (i\<lparr>i_required := False\<rparr>) = of_kind s i" for i by (simp add: of_kind_def)
    from that show ?thesis
    proof cases
      case of_others
      then show ?thesis by (simp add: not_required_def follows.of_others k)
    qed (simp_all add: not_required_def follows.object follows.of_objects follows.of_unknown follows.leaf k)
  qed
  then show "follows s a \<Longrightarrow> follows s (not_required a)" .
  show "follows s a \<Longrightarrow> follows s (clear_nested_required a)"
  proof (induction rule: follows.induct)
    case (object s i fs)
    have "list_all2 (\<lambda>np ka. fst ka = fst np \<and> a_canonical (snd ka) = fst np \<and> follows (snd np) (snd ka)) (sm_props s)
        (map (\<lambda>(n, f). (n, not_required (clear_nested_required f))) fs)"
      using object(4) unfolding list.rel_map by (rule list.rel_mono_strong) (auto intro: nr)
    with object(1-3) show ?case by (auto intro: follows.object)
  next
    case (of_objects s i it el)
    then show ?case by (auto intro: follows.of_objects nr)
  next
    case (of_others s i it j)
    then show ?case by (auto simp: not_required_def of_kind_def intro!: follows.of_others)
  qed (auto intro: follows.intros)
qed

lemma build_level_follows:
  "wf_props ps \<Longrightarrow> outer \<longrightarrow> free_keys ps \<Longrightarrow>
     list_all2 (\<lambda>np ka. fst ka = key_of outer (fst np) \<and> a_canonical (snd ka) = fst np \<and> follows (snd np) (snd ka))
       ps (fst (build_level service ps idx al outer))"
proof (induction ps arbitrary: idx al outer rule: measure_induct_rule [of level_size])
  case (less ps)
  note below = wf_props_below [OF less.prems(1)]
  note l = build_level_list [OF wf_props_map [OF less.prems(1)] less.prems(2), of service idx al]
  let ?rel = "list_all2 (\<lambda>np ka. fst ka = fst np \<and> a_canonical (snd ka) = fst np \<and> follows (snd np) (snd ka))"
  have sub: "?rel (sm_props p) (fst (build_level service (sm_props p) idx' [] False))" if "(n, p) \<in> set ps" for n p idx'
    using less.IH [OF level_size_props [OF that], of False] below(2) [OF that] by simp
  have items: "?rel (sm_props it) (fst (build_level service (sm_props it) idx' [] False))"
    if "(n, p) \<in> set ps" "sm_items p = Some it" for n p it idx'
    using less.IH [OF level_size_items [OF that], of False] below(3) [OF that] by simp
  have each: "follows p (built service n p f al outer)" if "(n, p) \<in> set ps" for n p f
  proof -
    consider (object) "sm_type (sm p) = ''object''" | (unknown) "sm_type (sm p) = ''array''" "sm_items p = None"
      | (objects) it where "sm_type (sm p) = ''array''" "sm_items p = Some it" "sm_type (sm it) = ''object''"
      | (others) it where "sm_type (sm p) = ''array''" "sm_items p = Some it" "sm_type (sm it) \<noteq> ''object''"
      | (leaf) "sm_type (sm p) \<noteq> ''object''" "sm_type (sm p) \<noteq> ''array''" by (cases "sm_items p") auto
    then show ?thesis
    proof cases
      case object
      then show ?thesis using sub [OF that, of "mm_children f"]
        by (auto simp: built_def Let_def intro!: follows.object of_kind_of_schema)
    next
      case objects
      have "follows it (Attr (elem_info (attr_facts n p f al outer) it)
          (if sm_props it \<noteq> [] then fst (build_level service (sm_props it) (mm_children f) [] False) else []) None)"
        using objects(3) items [OF that objects(2), of "mm_children f"]
        by (auto simp: elem_info_def intro!: follows.object of_kind_of_schema)
      then show ?thesis using objects
        by (auto simp: built_def Let_def intro!: follows.of_objects of_kind_of_schema)
    next
      case others
      then show ?thesis by (auto simp: built_def Let_def elem_info_def intro!: follows.of_others of_kind_of_schema)
    next
      case unknown
      then show ?thesis by (auto simp: built_def Let_def intro!: follows.of_unknown of_kind_of_schema)
    next
      case leaf
      then show ?thesis by (auto simp: built_def Let_def intro!: follows.leaf of_kind_of_schema)
    qed
  qed
  then show ?case unfolding l list.rel_map by (auto intro!: list.rel_refl_strong)
qed

text \<open>
  C39. The attributes the generator builds are those of the schema, at every depth. For a schema whose
  properties are named once and do not clash with the renaming of the host's own keywords: the outer
  attributes are the schema's properties in turn, each under its name or, for the host's three
  keywords, the name that replaces it, and each follows its property: its kind is the one the
  schema's type names, its fields are the attributes of the sub-schema's properties, a list's element
  has the fields of the items' schema, and an object of unknown content is opaque. Besides, at every
  depth no two attributes share a key or a name on the wire, none is both output and required or
  input-only, and only an outer attribute refers to another type.
\<close>

theorem built_attributes_ok:
  assumes "wf_props (sm_props body)" "free_keys (sm_props body)"
    and "build_attributes service (Some body) mm aliases = Inr (lvl, conflicts)"
  shows "list_all2 (\<lambda>np ka. outer_key (fst np) (fst ka) \<and> a_canonical (snd ka) = fst np \<and> follows (snd np) (snd ka))
      (sm_props body) lvl
    \<and> level_deep_ok lvl \<and> level_sound True lvl"
proof -
  define idx where "idx = (case mm of None \<Rightarrow> [] | Some r \<Rightarrow> mm_index (mm_parameters r @ mm_properties r))"
  define l where "l = fst (build_level service (sm_props body) idx aliases True)"
  let ?rel = "list_all2 (\<lambda>np ka. outer_key (fst np) (fst ka) \<and> a_canonical (snd ka) = fst np \<and> follows (snd np) (snd ka)) (sm_props body)"
  have ok: "level_deep_ok l" "level_sound True l"
    unfolding l_def using build_level_ok [of "sm_props body" True service idx aliases] assms(1,2) by auto
  have c: "?rel l" unfolding l_def
    by (rule list.rel_mono_strong [OF build_level_follows [of "sm_props body" True service idx aliases]])
      (use assms(1,2) outer_key_of in auto)
  have lvl: "lvl = l \<or> lvl = on_level clear_nested_required l"
    using assms(3) by (auto simp: build_attributes_def l_def idx_def on_level_def split: prod.splits option.splits if_splits)
  have "?rel (on_level clear_nested_required l)" unfolding on_level_def list.rel_map
    by (rule list.rel_mono_strong [OF c]) (auto intro: follows_clear_nested)
  moreover have "level_deep_ok (on_level clear_nested_required l)" "level_sound True (on_level clear_nested_required l)"
    using ok by (auto simp: level_deep_ok_def level_sound_def level_ok_on_level(1))
      (auto simp: on_level_def list_all_iff clear_nested_ok)
  ultimately show ?thesis using ok c lvl by auto
qed

definition topic_schema :: dschema where
  "topic_schema = Schema (no_facts\<lparr>sm_id := ''Topic'', sm_type := ''object''\<rparr>)
     [(''name'', Schema (no_facts\<lparr>sm_type := ''string'', sm_description := ''Required. Identifier. The name.''\<rparr>) [] None None),
      (''type'', Schema (no_facts\<lparr>sm_type := ''integer'', sm_description := ''Immutable. The type.''\<rparr>) [] None None),
      (''rules'', Schema (no_facts\<lparr>sm_type := ''array''\<rparr>) [] (Some (Schema (no_facts\<lparr>sm_type := ''object''\<rparr>)
         [(''kept'', Schema (no_facts\<lparr>sm_type := ''boolean''\<rparr>) [] None None)] None None)) None)] None None"

theorem built_attributes_ok_witness:
  "\<exists>a b c conflicts. build_attributes ''pubsub'' (Some topic_schema) None []
      = Inr ([(''name'', a), (''type_value'', b), (''rules'', c)], conflicts)
    \<and> follows (snd (sm_props topic_schema ! 2)) c
    \<and> level_deep_ok [(''name'', a), (''type_value'', b), (''rules'', c)]"
proof -
  have wf: "wf_props (sm_props topic_schema)" "free_keys (sm_props topic_schema)"
    by (code_simp+)
  obtain lvl conflicts where b: "build_attributes ''pubsub'' (Some topic_schema) None [] = Inr (lvl, conflicts)"
    by (cases "build_level ''pubsub'' (sm_props topic_schema) [] [] True") (auto simp: build_attributes_def)
  from built_attributes_ok [OF wf b] b show ?thesis by (auto simp: topic_schema_def list_all2_Cons1 outer_key_def)
qed

end
