(* ===== verification/BuildFacts.thy ===== *)
theory BuildFacts
  imports BuildType AttrFacts CreateInputs
begin

text \<open>
  Properties of the types the generator builds: how each is updated and named, and that no attribute
  of one, at any depth, is both Google's to set and the user's duty to give.
\<close>

section \<open>What later steps keep\<close>

named_theorems keeps \<open>fields of a type a step leaves alone\<close>

lemma with_attribute_keeps [keeps]:
  "t_update_verb (with_attribute k i t) = t_update_verb t" "t_update_wrapper (with_attribute k i t) = t_update_wrapper t"
  "t_update_mask (with_attribute k i t) = t_update_mask t" "t_name (with_attribute k i t) = t_name t"
  by (simp_all add: with_attribute_def)

definition same_update :: "ctype \<Rightarrow> ctype \<Rightarrow> bool" where
  "same_update t u \<longleftrightarrow> t_name t = t_name u \<and> t_update_verb t = t_update_verb u
     \<and> t_update_wrapper t = t_update_wrapper u \<and> t_update_mask t = t_update_mask u"

lemma same_update_refl [simp, intro]: "same_update t t" by (simp add: same_update_def)

lemma same_update_trans [trans]: "same_update t u \<Longrightarrow> same_update u v \<Longrightarrow> same_update t v"
  by (simp add: same_update_def)

lemma same_update_foldl: "(\<And>t x. same_update (f t x) t) \<Longrightarrow> same_update (foldl f t xs) t"
  by (induction xs arbitrary: t) (auto intro: same_update_trans)

lemma same_update_foldl_fst: "(\<And>st x. same_update (fst (f st x)) (fst st)) \<Longrightarrow> same_update (fst (foldl f st xs)) (fst st)"
proof (induction xs arbitrary: st)
  case (Cons x xs)
  show ?case using same_update_trans [OF Cons.IH [of "f st x", OF Cons.prems] Cons.prems] by simp
qed simp

lemma create_inputs_same: "same_update (create_inputs t create) t"
proof -
  let ?a = "spell_out_bound_parents (t\<lparr>t_create_bindings := create_bindings t create\<rparr>)"
  let ?b = "declare_create_url_parameters ?a create"
  let ?c = "bind_create_query_id ?b create"
  let ?d = "add_create_id_parameter ?c create"
  let ?e = "fill_pre_create_tokens ?d create"
  have "same_update (foldl spell_out_binding u bs) u" for u bs
    by (rule same_update_foldl) (auto simp: spell_out_binding_def spell_out_def same_update_def Let_def split: prod.splits)
  from this [of "t\<lparr>t_create_bindings := create_bindings t create\<rparr>"] have a: "same_update ?a t"
    by (simp add: spell_out_bound_parents_def same_update_def)
  have b: "same_update ?b ?a"
    unfolding declare_create_url_parameters_def
    by (rule same_update_foldl) (simp add: declare_parameter_def same_update_def keeps)
  have "same_update (fst (foldl (bind_query_id m) st ns)) (fst st)" for m st ns
    by (rule same_update_foldl_fst)
      (auto simp: bind_query_id_def Let_def same_update_def keeps split: prod.splits option.splits)
  from this [of _ "(?b, q, [])" for q] have c: "same_update ?c ?b"
    by (auto simp: bind_create_query_id_def Let_def same_update_def split: option.splits prod.splits) (metis fst_conv)+
  have d: "same_update ?d ?c"
    by (auto simp: add_create_id_parameter_def Let_def same_update_def keeps split: option.splits prod.splits)
  have "same_update (fst (foldl (fill_token m) st kvs)) (fst st)" for m st kvs
    by (rule same_update_foldl_fst)
      (auto simp: fill_token_def Let_def same_update_def keeps split: prod.splits option.splits)
  from this [of _ "(?d, [])"] have e: "same_update ?e ?d"
    by (auto simp: fill_pre_create_tokens_def same_update_def split: option.splits prod.splits bool.splits) (metis fst_conv)+
  have "same_update (drop_unpublished_create_query ?e create) ?e"
    by (auto simp: drop_unpublished_create_query_def same_update_def split: option.splits prod.splits bool.splits)
  also note e also note d also note c also note b also note a
  finally show ?thesis by (simp add: create_inputs_def Let_def)
qed

lemma addressed_same: "same_update (addressed_type d col create t) t"
proof -
  have "same_update (show_id_shape col (strip_version col (bind_parents create (t\<lparr>t_list_field := l\<rparr>)))) t" for l
    by (simp add: same_update_def show_id_shape_def strip_version_def bind_parents_def Let_def)
  then show ?thesis unfolding addressed_type_def using create_inputs_same same_update_trans by blast
qed

lemma finish_same: "same_update (finish_type d col mm t) t"
  by (simp add: finish_type_def apply_setters_def same_update_def Let_def)

lemma finish_addresses:
  "t_self_link (finish_type d col mm t) = t_self_link t" "create_template (finish_type d col mm t) = create_template t"
  "t_create_url (finish_type d col mm t) = t_create_url t"
  by (simp_all add: finish_type_def apply_setters_def create_template_def Let_def)

lemma ruling_same: "apply_ruling ru t = Inr u \<Longrightarrow> same_update u t"
  by (auto simp: apply_ruling_def on_ok_Inr same_update_def split: option.splits)

lemma await_same: "find_await d col create t = Inr u \<Longrightarrow> same_update u t"
  by (auto simp: find_await_def operation_paths_def Let_def same_update_def split: option.splits await_kind.splits)

section \<open>How a type is updated\<close>

text \<open>What the first steps establish, each on what the one before left.\<close>

definition update_ok :: "collection \<Rightarrow> ctype \<Rightarrow> bool" where
  "update_ok col t \<longleftrightarrow> (t_update_verb t = [] \<or> equal_fold (t_update_verb t) ''PATCH''
      \<or> t_update_verb t = ''PUT'' \<and> discovered_put col \<noteq> None \<and> \<not> restricted_patch col)
    \<and> (t_update_wrapper t \<noteq> [] \<longrightarrow> \<not> t_update_mask t)"

lemma not_put: "\<not> equal_fold ''PUT'' ''PATCH''" by (simp add: equal_fold_def to_lower_char_def)

lemma patch_fold: "equal_fold ''PATCH'' ''PATCH''" by (simp add: equal_fold_def)

lemma envelope_ok:
  assumes "update_ok col t" "t_update_wrapper t = []"
  shows "update_ok col (update_by_envelope d col allow t)"
    and "t_update_wrapper (update_by_envelope d col allow t) \<noteq> [] \<Longrightarrow> t_update_verb (update_by_envelope d col allow t) = ''PATCH''"
  using assms by (auto simp: update_by_envelope_def allow_patch_def update_ok_def patch_fold split: option.splits if_splits)

lemma discovered_update_patch: "discovered_update col url = Some (verb, masked) \<Longrightarrow> verb = ''PATCH''"
  by (auto simp: discovered_update_def split: option.splits if_splits)

lemma patch_ok:
  assumes "update_ok col t" "t_update_wrapper t \<noteq> [] \<Longrightarrow> t_update_verb t \<noteq> []"
  shows "update_ok col (update_by_patch col allow t)"
    and "t_update_wrapper (update_by_patch col allow t) \<noteq> [] \<Longrightarrow> t_update_verb (update_by_patch col allow t) \<noteq> []"
  using assms by (auto simp: update_by_patch_def allow_patch_def update_ok_def Let_def patch_fold
    dest!: discovered_update_patch split: option.splits)

lemma found_update_ok:
  assumes "update_ok col t" "t_update_wrapper t = []"
  shows "update_ok col (find_update d col mm allow t)"
proof -
  let ?e = "update_by_envelope d col allow t"
  have p: "update_ok col (update_by_patch col allow ?e)"
      "t_update_wrapper (update_by_patch col allow ?e) \<noteq> [] \<Longrightarrow> t_update_verb (update_by_patch col allow ?e) \<noteq> []"
    using patch_ok [OF envelope_ok(1) [OF assms]] envelope_ok(2) [OF assms] by fastforce+
  then have "update_ok col (update_by_put col (update_by_patch col allow ?e))"
    by (auto simp: update_by_put_def update_ok_def)
  then show ?thesis
    by (auto simp: find_update_def immutable_resource_def update_ok_def split: option.splits)
qed

lemma settled_update_ok:
  "update_ok col t \<Longrightarrow> update_ok col (settle_update col t)
    \<and> (t_update_verb (settle_update col t) = ''PATCH'' \<longrightarrow> patch_method_of col \<noteq> None)"
  by (auto simp: settle_update_def update_ok_def Let_def)

lemma update_ok_same:
  "t_update_verb t = t_update_verb u \<Longrightarrow> t_update_wrapper t = t_update_wrapper u \<Longrightarrow> t_update_mask t = t_update_mask u
    \<Longrightarrow> update_ok col t \<longleftrightarrow> update_ok col u"
  by (simp add: update_ok_def)

lemma located_update_ok:
  assumes "update_ok col t" "t_update_wrapper t = []"
  shows "update_ok col (located_type d col mm create allow t)
    \<and> (t_update_verb (located_type d col mm create allow t) = ''PATCH'' \<longrightarrow> patch_method_of col \<noteq> None)"
proof -
  let ?l = "(find_self_link col t)\<lparr>t_lock_field := lock_field_of (t_attributes (find_self_link col t))\<rparr>"
  let ?u = "find_update d col mm allow ?l"
  let ?c = "find_create create (item_shape col ?u)"
  have "update_ok col ?l" "t_update_wrapper ?l = []"
    using assms by (auto simp: find_self_link_def update_ok_def Let_def split: option.splits)
  then have "update_ok col ?u" by (rule found_update_ok)
  then have "update_ok col ?c" by (simp add: update_ok_def find_create_def item_shape_def Let_def)
  then have "update_ok col (settle_update col ?c) \<and> (t_update_verb (settle_update col ?c) = ''PATCH'' \<longrightarrow> patch_method_of col \<noteq> None)"
    by (rule settled_update_ok)
  then show ?thesis by (simp add: located_type_def create_at_collection_def Let_def update_ok_def)
qed

lemma start_update_ok:
  "update_ok col (start_type d col mm name body wrapper lvl)" "t_update_wrapper (start_type d col mm name body wrapper lvl) = []"
  "t_name (start_type d col mm name body wrapper lvl) = name"
  by (auto simp: start_type_def from_magic_modules_def zero_type_def update_ok_def Let_def split: option.splits)

lemma step_names [keeps]:
  "t_name (find_self_link col t) = t_name t" "t_name (allow_patch allow t) = t_name t"
  "t_name (update_by_envelope d col allow t) = t_name t" "t_name (update_by_patch col allow t) = t_name t"
  "t_name (update_by_put col t) = t_name t" "t_name (immutable_resource mm allow t) = t_name t"
  "t_name (settle_update col t) = t_name t" "t_name (item_shape col t) = t_name t"
  "t_name (find_create create t) = t_name t" "t_name (create_at_collection create t) = t_name t"
proof -
  show allow: "t_name (allow_patch allow t) = t_name t" for allow t by (simp add: allow_patch_def split: option.split)
  show "t_name (find_self_link col t) = t_name t" by (simp add: find_self_link_def Let_def split: option.split)
  show "t_name (update_by_envelope d col allow t) = t_name t"
    by (simp add: update_by_envelope_def allow split: option.split prod.split)
  show "t_name (update_by_patch col allow t) = t_name t"
    by (simp add: update_by_patch_def allow Let_def split: option.split prod.split)
qed (simp_all add: update_by_put_def immutable_resource_def settle_update_def item_shape_def find_create_def
  create_at_collection_def Let_def split: option.split)

lemma located_name: "t_name (located_type d col mm create allow t) = t_name t"
  by (simp add: located_type_def find_update_def Let_def keeps)

text \<open>
  What is declared of a verb is the only other thing an update verb can be: the steps set it to
  PATCH or PUT or take it away.
\<close>

definition verb_from :: "string \<Rightarrow> ctype \<Rightarrow> bool" where
  "verb_from v t \<longleftrightarrow> t_update_verb t \<in> {[], ''PATCH'', ''PUT'', v}"

lemma verb_from_same: "t_update_verb t = t_update_verb u \<Longrightarrow> verb_from v t \<longleftrightarrow> verb_from v u"
  by (simp add: verb_from_def)

lemma verb_from_found: "verb_from v t \<Longrightarrow> verb_from v (find_update d col mm allow t)"
proof -
  have allow: "t_update_verb (allow_patch allow t) = t_update_verb t" for t by (simp add: allow_patch_def split: option.split)
  have "verb_from v (update_by_envelope d col allow t)" if "verb_from v t" for t
    using that by (simp add: update_by_envelope_def verb_from_def allow split: option.split prod.split)
  moreover have "verb_from v (update_by_patch col allow t)" if "verb_from v t" for t
    using that by (auto simp: update_by_patch_def verb_from_def allow Let_def dest: discovered_update_patch split: option.split)
  moreover have "verb_from v (update_by_put col t)" if "verb_from v t" for t
    using that by (simp add: update_by_put_def verb_from_def)
  moreover have "verb_from v (immutable_resource mm allow t)" if "verb_from v t" for t
    using that by (auto simp: immutable_resource_def verb_from_def split: option.split)
  ultimately show "verb_from v t \<Longrightarrow> verb_from v (find_update d col mm allow t)" by (simp add: find_update_def)
qed

lemma verb_from_located:
  "verb_from (t_update_verb t) (located_type d col mm create allow t)"
proof -
  let ?l = "(find_self_link col t)\<lparr>t_lock_field := lock_field_of (t_attributes (find_self_link col t))\<rparr>"
  let ?u = "find_update d col mm allow ?l"
  have "verb_from (t_update_verb t) ?l" by (simp add: verb_from_def find_self_link_def Let_def split: option.split)
  then have "verb_from (t_update_verb t) ?u" by (rule verb_from_found)
  then have "verb_from (t_update_verb t) (find_create create (item_shape col ?u))"
    by (simp add: verb_from_def find_create_def item_shape_def Let_def)
  then have "verb_from (t_update_verb t) (settle_update col (find_create create (item_shape col ?u)))"
    by (auto simp: verb_from_def settle_update_def Let_def)
  then show ?thesis by (simp add: located_type_def create_at_collection_def Let_def verb_from_def)
qed

lemma declared_verb:
  "t_update_verb (start_type d col mm name body wrapper lvl) = v \<Longrightarrow> v \<noteq> [] \<Longrightarrow>
     \<exists>r. mm = Some r \<and> v = mm_update_verb r \<and> equal_fold v ''PATCH''"
  by (auto simp: start_type_def from_magic_modules_def zero_type_def Let_def split: option.splits if_splits)

section \<open>Inside the create's collection\<close>

text \<open>A whole placeholder, in either spelling, and two templates that are alike but for their placeholders.\<close>

definition whole_placeholder :: "string \<Rightarrow> bool" where
  "whole_placeholder p \<longleftrightarrow> (\<exists>b. b \<noteq> [] \<and> CHR ''{'' \<notin> set b \<and> CHR ''}'' \<notin> set b
     \<and> (p = ''{'' @ b @ ''}'' \<or> p = ''{{'' @ b @ ''}}''))"

inductive alike :: "string \<Rightarrow> string \<Rightarrow> bool" where
  ends: "alike [] []"
| same: "alike s t \<Longrightarrow> alike (c # s) (c # t)"
| both: "whole_placeholder p \<Longrightarrow> whole_placeholder q \<Longrightarrow> alike s t \<Longrightarrow> alike (p @ s) (q @ t)"

lemma shape_step:
  "template_shape s = (case shape_match s of
      Some p \<Rightarrow> CHR 0x00 # template_shape (drop (length p) s)
    | None \<Rightarrow> (case s of [] \<Rightarrow> [] | c # cs \<Rightarrow> c # template_shape cs))"
proof -
  have m: "shape_match [] = None" "\<And>p. shape_match s = Some p \<Longrightarrow> p \<noteq> []"
    by (auto simp: shape_match_def Let_def brace_free_def split: if_splits)
  then show ?thesis
    unfolding template_shape_def by (subst scan.simps) (auto simp: put_back_def split: list.split option.split)
qed

lemma shape_match_whole:
  assumes "shape_match s = Some p"
  shows "whole_placeholder p \<and> s = p @ drop (length p) s"
proof -
  have bf: "CHR ''{'' \<notin> set (brace_free r) \<and> CHR ''}'' \<notin> set (brace_free r)" for r
    by (auto simp: brace_free_def is_brace_def dest: set_takeWhileD)
  have pre: "r = brace_free r @ drop (length (brace_free r)) r" for r
    by (simp add: brace_free_def flip: dropWhile_eq_drop)
  show ?thesis
  proof (cases "take 2 s = ''{{'' \<and> brace_free (drop 2 s) \<noteq> [] \<and> has_prefix (drop (2 + length (brace_free (drop 2 s))) s) ''}}''")
    case True
    let ?d = "brace_free (drop 2 s)"
    obtain rest where "drop (length ?d) (drop 2 s) = ''}}'' @ rest"
      using True unfolding has_prefix_iff drop_drop add.commute [of 2] by blast
    with True pre [of "drop 2 s"] have s: "s = ''{{'' @ ?d @ ''}}'' @ rest"
      by (metis append.assoc append_take_drop_id)
    have "p = take (length ?d + 4) s" using assms True by (simp add: shape_match_def Let_def)
    also have "\<dots> = ''{{'' @ ?d @ ''}}''" by (rule trans [OF arg_cong [OF s]]) (simp add: numeral_eq_Suc)
    finally have p: "p = ''{{'' @ ?d @ ''}}''" .
    have "whole_placeholder p" unfolding whole_placeholder_def using p bf True by blast
    moreover have "s = p @ drop (length p) s" using s p by (metis append.assoc append_eq_conv_conj)
    ultimately show ?thesis by simp
  next
    case False
    let ?b = "brace_free (drop 1 s)"
    have m: "take 1 s = ''{''" "?b \<noteq> []" "has_prefix (drop (1 + length ?b) s) ''}''" "p = take (length ?b + 2) s"
      using assms False by (auto simp: shape_match_def Let_def split: if_splits)
    obtain rest where "drop (length ?b) (drop 1 s) = ''}'' @ rest"
      using m(3) unfolding has_prefix_iff drop_drop add.commute [of 1] by blast
    with m(1) pre [of "drop 1 s"] have s: "s = ''{'' @ ?b @ ''}'' @ rest"
      by (metis append.assoc append_take_drop_id)
    have "p = ''{'' @ ?b @ ''}''" unfolding m(4) by (rule trans [OF arg_cong [OF s]]) (simp add: numeral_eq_Suc)
    moreover from this have "s = p @ drop (length p) s" using s by (metis append.assoc append_eq_conv_conj)
    ultimately show ?thesis unfolding whole_placeholder_def using bf m(2) by blast
  qed
qed

lemma shape_split:
  "CHR 0x00 \<notin> set self \<Longrightarrow> CHR 0x00 \<notin> set coll \<Longrightarrow> template_shape self = template_shape coll @ rest \<Longrightarrow>
     \<exists>head tail. self = head @ tail \<and> alike coll head \<and> template_shape tail = rest"
proof (induction "length coll" arbitrary: coll self rule: less_induct)
  case less
  show ?case
  proof (cases "shape_match coll")
    case (Some q)
    note q = shape_match_whole [OF Some]
    then have q0: "q \<noteq> []" by (auto simp: whole_placeholder_def)
    have coll: "template_shape coll = CHR 0x00 # template_shape (drop (length q) coll)"
      using Some by (subst shape_step) simp
    have "shape_match self \<noteq> None"
    proof
      assume "shape_match self = None"
      then have "template_shape self = (case self of [] \<Rightarrow> [] | c # cs \<Rightarrow> c # template_shape cs)" by (subst shape_step) simp
      with coll less.prems(1,3) show False by (cases self) auto
    qed
    then obtain p where p: "shape_match self = Some p" by blast
    note pw = shape_match_whole [OF p]
    have "template_shape self = CHR 0x00 # template_shape (drop (length p) self)" using p by (subst shape_step) simp
    with coll less.prems(3) have eq: "template_shape (drop (length p) self) = template_shape (drop (length q) coll) @ rest" by simp
    have "length (drop (length q) coll) < length coll" using q q0 by (cases coll; cases q) auto
    from less.hyps [OF this _ _ eq] less.prems(1,2) obtain head tail where
      ht: "drop (length p) self = head @ tail" "alike (drop (length q) coll) head" "template_shape tail = rest"
      by (meson in_set_dropD)
    have "alike (q @ drop (length q) coll) (p @ head)" using alike.both [OF _ _ ht(2)] pw q by blast
    with q pw ht show ?thesis by (intro exI [of _ "p @ head"] exI [of _ tail]) (metis append.assoc)
  next
    case None
    show ?thesis
    proof (cases coll)
      case Nil
      then have "template_shape coll = []" by (subst shape_step) (simp add: None [unfolded Nil])
      with less.prems(3) Nil show ?thesis by (intro exI [of _ "[]"] exI [of _ self]) (simp add: alike.ends)
    next
      case (Cons c cs)
      have coll: "template_shape coll = c # template_shape cs" by (subst shape_step) (simp add: None Cons [symmetric], simp add: Cons)
      have "shape_match self = None"
      proof (rule ccontr)
        assume "shape_match self \<noteq> None"
        then have "\<exists>r. template_shape self = CHR 0x00 # r" by (subst shape_step) auto
        with coll less.prems(2,3) Cons show False by auto
      qed
      then have sh: "template_shape self = (case self of [] \<Rightarrow> [] | c # cs \<Rightarrow> c # template_shape cs)" by (subst shape_step) simp
      with coll less.prems(3) obtain ss where ss: "self = c # ss" "template_shape ss = template_shape cs @ rest"
        by (cases self) auto
      from less.hyps [of cs ss] Cons ss less.prems(1,2) obtain head tail where
        "ss = head @ tail" "alike cs head" "template_shape tail = rest" by auto
      with ss(1) Cons show ?thesis by (intro exI [of _ "c # head"] exI [of _ tail]) (simp add: alike.same)
    qed
  qed
qed

lemma shape_slash: "template_shape s = CHR ''/'' # r \<Longrightarrow> \<exists>t. s = CHR ''/'' # t"
  by (subst (asm) shape_step) (auto split: option.splits list.splits)

text \<open>
  The template lies inside the collection: it begins with a part that is like the collection's
  template, placeholder for placeholder, and ends there or goes on with a slash.
\<close>

definition lies_inside :: "string \<Rightarrow> string \<Rightarrow> bool" where
  "lies_inside self coll \<longleftrightarrow> (\<exists>head tail. self = head @ tail \<and> alike coll head \<and> (tail = [] \<or> hd tail = CHR ''/''))"

lemma check_self_link_inside:
  assumes "check_self_link t = None"
    and "t_self_link t \<noteq> []" "coll = trim_suffix (path_part (create_template t)) ''/''" "coll \<noteq> []"
    and "\<not> str_contains coll ''{+''" "\<not> str_contains (t_self_link t) ''{+''" "CHR 0x00 \<notin> set coll" "CHR 0x00 \<notin> set (t_self_link t)"
  shows "lies_inside (t_self_link t) coll"
proof -
  have "template_shape (t_self_link t) = template_shape coll
      \<or> has_prefix (template_shape (t_self_link t)) (template_shape coll @ ''/'')"
    using assms by (auto simp: check_self_link_def Let_def split: if_splits)
  then obtain rest where rest: "template_shape (t_self_link t) = template_shape coll @ rest" "rest = [] \<or> hd rest = CHR ''/''"
    by (auto simp: has_prefix_iff)
  from shape_split [OF assms(8,7) rest(1)] obtain head tail where
    ht: "t_self_link t = head @ tail" "alike coll head" "template_shape tail = rest" by blast
  have "tail = [] \<or> hd tail = CHR ''/''"
  proof (cases rest)
    case Nil
    with ht(3) show ?thesis by (subst (asm) shape_step) (auto split: option.splits list.splits)
  next
    case (Cons c r)
    with rest(2) ht(3) shape_slash show ?thesis by fastforce
  qed
  with ht show ?thesis unfolding lies_inside_def by blast
qed

text \<open>
  C9. What the generator ships is safe to act on. A type carries the name it was given. It is
  replaced, or patched where its collection publishes a patch, or put where the collection
  publishes such a put and restricts nothing, unless magic-modules itself declares another
  spelling of PATCH, which is taken as it is. A mask is never sent both in the body and in the
  query. Where neither template takes a whole path in one placeholder, its self link lies inside
  the collection its create posts to: it begins like the create's template, placeholder for
  placeholder, and goes on with a slash or ends there. Its delete is a DELETE, and no create url
  of its own still carries a token of magic-modules.
\<close>

theorem built_type_safe:
  assumes "build_type d col mm name ov = Inr t"
  shows "t_name t = name
    \<and> (t_update_verb t = [] \<or> t_update_verb t = ''PATCH'' \<and> patch_method_of col \<noteq> None
       \<or> t_update_verb t = ''PUT'' \<and> discovered_put col \<noteq> None \<and> \<not> restricted_patch col
       \<or> (\<exists>r. mm = Some r \<and> t_update_verb t = mm_update_verb r \<and> t_update_verb t \<noteq> ''PATCH'' \<and> equal_fold (t_update_verb t) ''PATCH''))
    \<and> (t_update_wrapper t \<noteq> [] \<longrightarrow> \<not> t_update_mask t)
    \<and> (\<forall>coll. coll = trim_suffix (path_part (if t_create_url t \<noteq> [] then t_create_url t else t_base_url t)) ''/''
         \<and> coll \<noteq> [] \<and> t_self_link t \<noteq> [] \<and> \<not> str_contains coll ''{+'' \<and> \<not> str_contains (t_self_link t) ''{+''
         \<and> CHR 0x00 \<notin> set coll \<and> CHR 0x00 \<notin> set (t_self_link t) \<longrightarrow> lies_inside (t_self_link t) coll)
    \<and> (\<forall>m. meth col ''delete'' = Some m \<longrightarrow> me_http_method m = ''DELETE'')
    \<and> \<not> str_contains (t_create_url t) pre_create_token"
proof -
  obtain create body wrapper lvl aw ru t1 where
    aw: "find_await d col create (located_type d col mm create (map_of (ov_patchable ov) name)
      (start_type d col mm name body wrapper lvl)) = Inr aw"
    and ru: "apply_ruling ru (aw\<lparr>t_asset_type := asset_type_of d body\<rparr>) = Inr t1"
    and ok: "refused_type col mm (addressed_type d col create t1) = None"
    and t: "t = finish_type d col mm (addressed_type d col create t1)"
    using assms by (auto simp: build_type_def on_ok_Inr Let_def split: option.splits prod.splits)
  let ?a = "addressed_type d col create t1"
  let ?l = "located_type d col mm create (map_of (ov_patchable ov) name) (start_type d col mm name body wrapper lvl)"
  have "same_update t ?a" unfolding t by (rule finish_same)
  also have "same_update ?a t1" by (rule addressed_same)
  also have "same_update t1 (aw\<lparr>t_asset_type := asset_type_of d body\<rparr>)" using ru by (rule ruling_same)
  also have "same_update (aw\<lparr>t_asset_type := asset_type_of d body\<rparr>) aw" by (simp add: same_update_def)
  also have "same_update aw ?l" using aw by (rule await_same)
  finally have same: "same_update t ?l" .
  have l: "update_ok col ?l \<and> (t_update_verb ?l = ''PATCH'' \<longrightarrow> patch_method_of col \<noteq> None)"
    by (rule located_update_ok [OF start_update_ok(1,2)])
  have "check_self_link t = check_self_link ?a" unfolding t check_self_link_def finish_addresses ..
  moreover have "check_self_link ?a = None" "\<not> str_contains (t_create_url ?a) pre_create_token"
      "\<forall>m. meth col ''delete'' = Some m \<longrightarrow> me_http_method m = ''DELETE''"
    using ok by (auto simp: refused_type_def Let_def split: option.splits if_splits)
  moreover have "t_create_url t = t_create_url ?a" unfolding t by (rule finish_addresses(3))
  moreover have "t_name t = name" using same by (simp add: same_update_def located_name start_update_ok(3))
  moreover have "t_update_verb t \<in> {[], ''PATCH'', ''PUT''} \<or> (\<exists>r. mm = Some r \<and> t_update_verb t = mm_update_verb r \<and> equal_fold (t_update_verb t) ''PATCH'')"
  proof -
    have "verb_from (t_update_verb (start_type d col mm name body wrapper lvl)) ?l" by (rule verb_from_located)
    then show ?thesis
      using same declared_verb [of d col mm name body wrapper lvl "t_update_verb t"] by (auto simp: same_update_def verb_from_def)
  qed
  moreover have "create_template t = (if t_create_url t \<noteq> [] then t_create_url t else t_base_url t)" by (simp add: create_template_def)
  ultimately show ?thesis using l same not_put check_self_link_inside [of t]
    by (auto simp: same_update_def update_ok_def)
qed

text \<open>A collection of buckets: made at the collection, patched at its own address.\<close>

definition bucket_method :: "string \<Rightarrow> string \<Rightarrow> string option \<Rightarrow> string option \<Rightarrow> dmethod" where
  "bucket_method verb path request response = \<lparr>me_id = verb, me_path = path, me_flat_path = [], me_http_method = verb,
     me_description = [], me_request = request, me_response = response, me_parameters = []\<rparr>"

definition buckets :: collection where
  "buckets = \<lparr>co_path = [''b''], co_methods =
     [(''insert'', bucket_method ''POST'' ''b'' (Some ''B'') (Some ''B'')),
      (''get'', bucket_method ''GET'' ''b/{bucket}'' None (Some ''B'')),
      (''patch'', bucket_method ''PATCH'' ''b/{bucket}'' (Some ''B'') (Some ''B'')),
      (''delete'', bucket_method ''DELETE'' ''b/{bucket}'' None None)]\<rparr>"

definition bucket_document :: document where
  "bucket_document = \<lparr>doc_name = ''s'', doc_root_url = ''https://s/'', doc_service_path = [],
     doc_schemas = [(''B'', Schema (no_facts\<lparr>sm_id := ''B'', sm_type := ''object''\<rparr>) [(''acl'', plain_schema ''string'')] None None)],
     doc_resources = [], doc_endpoints = []\<rparr>"

definition no_overlay :: gen_overlay where
  "no_overlay = \<lparr>ov_rulings = [], ov_patchable = [], ov_aliases = [], ov_discover_default = [], ov_product_aliases = [],
     ov_sensitive = [], ov_observed = []\<rparr>"

definition bucket_schema :: dschema where
  "bucket_schema = snd (hd (doc_schemas bucket_document))"

definition bucket_insert :: dmethod where
  "bucket_insert = bucket_method ''POST'' ''b'' (Some ''B'') (Some ''B'')"

definition bucket_level :: level where
  "bucket_level = projr (type_attributes bucket_document bucket_insert (Some bucket_schema) [] [] None None [])"

definition bucket_located :: ctype where
  "bucket_located = projr (find_await bucket_document buckets bucket_insert (located_type bucket_document buckets None
     bucket_insert None (start_type bucket_document buckets None ''gcp.b'' (Some bucket_schema) [] bucket_level)))"

definition bucket_type :: ctype where
  "bucket_type = finish_type bucket_document buckets None (addressed_type bucket_document buckets bucket_insert
     (bucket_located\<lparr>t_asset_type := ''s/B''\<rparr>))"

lemma bucket_built: "build_type bucket_document buckets None ''gcp.b'' no_overlay = Inr bucket_type"
proof -
  have c: "create_method buckets = Some bucket_insert" by code_simp
  have r: "resource_schema bucket_document buckets bucket_insert = Inr (Some bucket_schema, [], [])" by code_simp
  have "\<not> isl (type_attributes bucket_document bucket_insert (Some bucket_schema) [] [] None None [])" by code_simp
  then have l: "type_attributes bucket_document bucket_insert (Some bucket_schema) [] [] None None [] = Inr bucket_level"
    by (simp add: bucket_level_def sum.collapse(2))
  have "\<not> isl (find_await bucket_document buckets bucket_insert (located_type bucket_document buckets None
     bucket_insert None (start_type bucket_document buckets None ''gcp.b'' (Some bucket_schema) [] bucket_level)))" by code_simp
  then have w: "find_await bucket_document buckets bucket_insert (located_type bucket_document buckets None
     bucket_insert None (start_type bucket_document buckets None ''gcp.b'' (Some bucket_schema) [] bucket_level))
     = Inr bucket_located" by (simp add: bucket_located_def sum.collapse(2))
  have a: "asset_type_of bucket_document (Some bucket_schema) = ''s/B''" by code_simp
  have g: "refused_type buckets None (addressed_type bucket_document buckets bucket_insert
      (bucket_located\<lparr>t_asset_type := ''s/B''\<rparr>)) = None" by code_simp
  have o: "ov_rulings no_overlay = []" "ov_patchable no_overlay = []" "ov_aliases no_overlay = []" by (simp_all add: no_overlay_def)
  show ?thesis
    unfolding build_type_def c option.case r on_ok_def sum.case prod.case Let_def bind.simps o map_of.simps l w apply_ruling_def
      a g bucket_type_def ..
qed

lemma bucket_patched: "t_update_verb bucket_type = ''PATCH''"
  by code_simp

theorem built_type_safe_witness:
  "build_type bucket_document buckets None ''gcp.b'' no_overlay = Inr bucket_type
   \<and> t_update_verb bucket_type = ''PATCH'' \<and> patch_method_of buckets \<noteq> None \<and> lies_inside (t_self_link bucket_type) ''b''"
proof -
  have "t_create_url bucket_type = []" "t_base_url bucket_type = ''b''" "t_self_link bucket_type = ''b/{bucket}''" by code_simp+
  moreover have "trim_suffix (path_part ''b'') ''/'' = ''b''" "\<not> str_contains ''b'' ''{+''" "\<not> str_contains ''b/{bucket}'' ''{+''"
    by code_simp+
  ultimately show ?thesis
    using bucket_built bucket_patched built_type_safe [OF bucket_built] not_put by auto
qed

end
