(* ===== verification/Settled.thy ===== *)
theory Settled
  imports BuildFacts
begin

text \<open>
  The host refuses an attribute that is both required and computed. No type the generator builds has
  one, at any depth: the building of the attributes, every later pass and every decision of a ruling
  keep it so.
\<close>

section \<open>Settled attributes\<close>

fun settled :: "attr \<Rightarrow> bool" where
  "settled (Attr i fs e) \<longleftrightarrow> \<not> (i_output i \<and> i_required i) \<and> list_all (\<lambda>(_, f). settled f) fs
     \<and> (case e of None \<Rightarrow> True | Some el \<Rightarrow> settled el)"

definition settled_level :: "level \<Rightarrow> bool" where
  "settled_level lvl \<longleftrightarrow> (\<forall>(n, a) \<in> set lvl. settled a)"

lemma settled_iff:
  "settled a \<longleftrightarrow> \<not> (a_output a \<and> i_required (a_info a)) \<and> settled_level (a_fields a) \<and> (\<forall>el. a_elem a = Some el \<longrightarrow> settled el)"
  by (cases a) (auto simp: settled_level_def list_all_iff split: option.splits)

lemma settled_Attr [simp]:
  "settled (Attr i fs e) \<longleftrightarrow> \<not> (i_output i \<and> i_required i) \<and> settled_level fs \<and> (\<forall>el. e = Some el \<longrightarrow> settled el)"
  by (simp add: settled_iff [of "Attr i fs e"] del: settled.simps)

declare settled.simps [simp del]

lemma settledD:
  assumes "settled a"
  shows "settled_level (a_fields a)" "a_elem a = Some el \<Longrightarrow> settled el" "a_output a \<Longrightarrow> \<not> i_required (a_info a)"
  using assms settled_iff [of a] by blast+

lemma settled_Cons [simp]: "settled_level ((k, a) # lvl) \<longleftrightarrow> settled a \<and> settled_level lvl"
  by (simp add: settled_level_def)

lemma settled_mem: "settled_level lvl \<Longrightarrow> (k, a) \<in> set lvl \<Longrightarrow> settled a"
  by (auto simp: settled_level_def)

lemma settled_lookup: "settled_level lvl \<Longrightarrow> map_of lvl k = Some a \<Longrightarrow> settled a"
  by (auto simp: settled_level_def dest: map_of_SomeD)

lemma settled_Nil [simp]: "settled_level []" by (simp add: settled_level_def)

lemma settled_append [simp]: "settled_level (l @ m) \<longleftrightarrow> settled_level l \<and> settled_level m"
  by (auto simp: settled_level_def)

lemma settled_map:
  "settled_level lvl \<Longrightarrow> (\<And>n a. settled a \<Longrightarrow> settled (f n a)) \<Longrightarrow> settled_level (map (\<lambda>(n, a). (n, f n a)) lvl)"
  by (auto simp: settled_level_def)

lemma settled_update:
  "settled_level lvl \<Longrightarrow> settled a \<Longrightarrow> settled_level (AList.update k a lvl)"
  by (induction lvl) (auto simp: settled_level_def)

lemma settled_map_entry:
  "settled_level lvl \<Longrightarrow> (\<And>a. map_of lvl k = Some a \<Longrightarrow> settled a \<Longrightarrow> settled (f a)) \<Longrightarrow> settled_level (AList.map_entry k f lvl)"
  by (induction lvl) (auto simp: settled_level_def split: if_splits)

lemma settled_overlay: "settled_level m \<Longrightarrow> settled_level kvs \<Longrightarrow> settled_level (overlay m kvs)"
proof (induction kvs arbitrary: m)
  case (Cons kv kvs)
  then show ?case by (cases kv) (simp add: settled_update)
qed simp

text \<open>A change of what an attribute says of itself that requires nothing new of what Google sets.\<close>

lemma settled_with_info:
  "settled a \<Longrightarrow> (i_output (f (a_info a)) \<Longrightarrow> i_required (f (a_info a)) \<Longrightarrow> a_output a \<and> i_required (a_info a))
    \<Longrightarrow> settled (with_info f a)"
  by (auto dest: settledD)

section \<open>Building them\<close>

lemma built_settled: "settled_level (fst (build_level service ps idx aliases outer))"
proof (induction "level_size ps" arbitrary: ps idx aliases outer rule: less_induct)
  case less
  have sub: "settled_level (fst (build_level service (sm_props p) idx' al' False))" if "(n, p) \<in> set ps" for n p idx' al'
    by (rule less [OF level_size_props [OF that]])
  have items: "settled_level (fst (build_level service (sm_props it) idx' al' False))"
    if "(n, p) \<in> set ps" "sm_items p = Some it" for n p it idx' al'
    by (rule less [OF level_size_items [OF that]])
  have "settled (built service n p f al outer)" if np: "(n, p) \<in> set ps" for n p f al
  proof -
    have i: "\<not> (i_output (attr_facts n p f al outer) \<and> i_required (attr_facts n p f al outer))"
      using attr_facts_simps(5) by blast
    show ?thesis
      using i sub [OF np, of "mm_children f" "[]"] items [OF np, of _ "mm_children f" "[]"]
      by (simp add: built_def Let_def elem_info_def split: option.split)
  qed
  then show ?case unfolding build_level_built by (intro settled_overlay) (auto simp: settled_level_def)
qed

lemma clear_nested_settled: "settled a \<Longrightarrow> settled (clear_nested_required a)"
proof (induction a rule: clear_nested_required.induct)
  case (1 i fs e)
  have "settled (not_required a)" if "settled a" for a using that by (cases a) (auto simp: not_required_def)
  with 1 show ?case by (auto simp: settled_level_def)
qed

lemma build_attributes_settled: "build_attributes service body mm aliases = Inr (lvl, cs) \<Longrightarrow> settled_level lvl"
proof -
  assume b: "build_attributes service body mm aliases = Inr (lvl, cs)"
  then obtain s idx where "lvl \<in> {fst (build_level service (sm_props s) idx aliases True),
      map (\<lambda>(k, a). (k, clear_nested_required a)) (fst (build_level service (sm_props s) idx aliases True))}"
    by (auto simp: build_attributes_def Let_def split: option.splits prod.splits if_splits) (metis fst_conv)+
  then show ?thesis using built_settled [of service "sm_props s" idx aliases True] clear_nested_settled
    by (auto intro: settled_map)
qed

section \<open>Changing them\<close>

lemma force_new_settled: "settled a \<Longrightarrow> settled (force_new_attr a)"
  by (induction a rule: force_new_attr.induct) (auto simp: settled_level_def)

lemma force_new_all_settled: "settled_level lvl \<Longrightarrow> settled_level (force_new_all lvl)"
  unfolding force_new_all_def by (intro settled_map force_new_settled)

lemma add_create_only_settled: "settled_level lvl \<Longrightarrow> settled_level extra \<Longrightarrow> settled_level (foldl add_create_only lvl extra)"
proof (induction extra arbitrary: lvl)
  case (Cons na extra)
  obtain n a where na: "na = (n, a)" by fastforce
  with Cons.prems have "settled a" "settled_level extra" "settled_level lvl" by simp_all
  moreover from this have "settled_level (add_create_only lvl na)"
    by (auto simp: add_create_only_def na dest: settledD)
  ultimately show ?case by (simp add: Cons.IH)
qed simp

lemma type_attributes_settled:
  assumes "type_attributes d create body wrapper create_only mm ru aliases = Inr lvl"
  shows "settled_level lvl"
proof -
  obtain oc where oc: "build_attributes (doc_name d) body mm aliases = Inr oc"
      and rest: "(\<lambda>(own, _). on_ok (if wrapper \<noteq> [] \<and> create_only \<noteq> [] then create_only_attributes d create create_only else Inr []) (\<lambda>extra.
       let lvl = foldl add_create_only own extra in
       Inr (case ru of Some r \<Rightarrow> if ru_all_force_new r then force_new_all lvl else lvl | None \<Rightarrow> lvl))) oc = Inr lvl"
    using assms unfolding type_attributes_def on_ok_Inr by blast
  obtain own cs where own: "oc = (own, cs)" by (cases oc)
  note b = oc [unfolded own]
  obtain extra where e: "(if wrapper \<noteq> [] \<and> create_only \<noteq> [] then create_only_attributes d create create_only else Inr []) = Inr extra"
      and l: "(case ru of Some r \<Rightarrow> if ru_all_force_new r then force_new_all (foldl add_create_only own extra)
        else foldl add_create_only own extra | None \<Rightarrow> foldl add_create_only own extra) = lvl"
    using rest unfolding own prod.case on_ok_Inr Let_def by blast
  have lvl: "lvl \<in> {foldl add_create_only own extra, force_new_all (foldl add_create_only own extra)}"
    using l by (auto split: option.splits if_splits)
  have "settled_level extra"
    using e build_attributes_settled by (auto simp: create_only_attributes_def Let_def split: sum.splits if_splits)
  with build_attributes_settled [OF b] lvl show ?thesis using add_create_only_settled force_new_all_settled by blast
qed

lemma allowlist_settled: "settled_level lvl \<Longrightarrow> settled_level (apply_patch_allowlist fs lvl)"
  unfolding apply_patch_allowlist_def by (rule settled_map) (auto dest: settledD)

lemma with_fields_settled: "settled a \<Longrightarrow> settled_level fs \<Longrightarrow> settled (with_fields (\<lambda>_. fs) a)"
  by (auto dest: settledD)

lemma change_at_settled:
  assumes f: "\<And>i. i_output (f i) \<Longrightarrow> i_required (f i) \<Longrightarrow> i_output i \<and> i_required i"
  shows "settled_level lvl \<Longrightarrow> settled_level (change_at f segs lvl)"
proof (induction segs arbitrary: lvl)
  case (Cons seg segs)
  have step: "settled (at_step seg g a)" if "settled a" "\<And>b. settled b \<Longrightarrow> settled (g b)" for g a
    using that by (auto simp: at_step_def dest: settledD)
  have leaf: "settled (with_info f a)" if "settled a" for a
    using that f [of "a_info a"] by (auto dest: settledD)
  have inner: "settled (with_fields (change_at f segs) a)" if "settled a" for a
    using that Cons.IH by (auto dest: settledD)
  show ?case
    using step leaf inner Cons.prems by (cases segs) (auto intro!: settled_map_entry)
qed simp

lemma opened_settled:
  assumes "settled a"
  shows "settled (opened seg a)"
proof -
  have "settled_level (map (\<lambda>(n, f). (n, if n \<noteq> seg \<and> \<not> a_output f then with_info (\<lambda>i. i\<lparr>i_force_new := True\<rparr>) f else f)) (a_fields a))"
    by (rule settled_map [OF settledD(1) [OF assms]]) (auto dest: settledD)
  with assms show ?thesis by (auto simp: opened_def dest: settledD)
qed

lemma mark_in_place_settled:
  "settled_level lvl \<Longrightarrow> mark_in_place_at path segs lvl = Inr lvl' \<Longrightarrow> settled_level lvl'"
proof (induction segs arbitrary: lvl lvl')
  case (Cons seg segs)
  then obtain a where a: "map_of lvl seg = Some a" by (auto split: option.splits)
  then have sa: "settled a" using Cons.prems(1) by (simp add: settled_lookup)
  show ?case
  proof (cases segs)
    case Nil
    have "settled (with_info (\<lambda>i. i\<lparr>i_force_new := False\<rparr>) a)" using sa by (intro settled_with_info) auto
    then show ?thesis using Cons.prems a Nil by (auto intro: settled_update)
  next
    case (Cons next_seg rest)
    then obtain fs where "mark_in_place_at path segs (a_fields (opened next_seg a)) = Inr fs"
        "lvl' = AList.update seg (with_fields (\<lambda>_. fs) (opened next_seg a)) lvl"
      using Cons.prems(2) a by (auto simp: on_ok_Inr)
    moreover have "settled (opened next_seg a)" using sa by (rule opened_settled)
    ultimately show ?thesis using Cons.IH Cons.prems(1) by (metis settledD(1) settled_update with_fields_settled)
  qed
qed simp

lemma rule_attributes_settled:
  assumes "rule_attributes r lvl = Inr lvl'" "settled_level lvl"
  shows "settled_level lvl'"
proof -
  have settable: "settled_level m'" if "settled_level m" "make_settable f m = Inr m'" for f m m'
    using that by (auto simp: make_settable_def split: option.splits intro!: settled_map_entry dest: settledD)
  have place: "settled_level m'" if "settled_level m" "mark_in_place f m = Inr m'" for f m m'
    using mark_in_place_settled that by (auto simp: mark_in_place_def)
  have send: "settled_level m'" if "settled_level m" "send_along f m = Inr m'" for f m m'
    using that by (auto simp: send_along_def split: option.splits if_splits intro!: change_at_settled)
  have required: "settled_level m'" if "settled_level m" "make_required f m = Inr m'" for f m m'
    using that by (auto simp: make_required_def Let_def split: option.splits if_splits intro!: settled_map_entry dest: settledD)
  have clear: "settled_level m'" if "settled_level m" "may_clear f m = Inr m'" for f m m'
    using that by (auto simp: may_clear_def split: option.splits if_splits)
  obtain a b c d where
    "each_ok make_settable (ru_settable r) lvl = Inr a" "each_ok mark_in_place (ru_in_place r) a = Inr b"
    "each_ok send_along (ru_send_with_update r) b = Inr c" "each_ok make_required (ru_required r) c = Inr d"
    "each_ok may_clear (ru_clear_before_delete r) d = Inr lvl'"
    using assms(1) unfolding rule_attributes_def on_ok_Inr by blast
  then show ?thesis
    using each_ok_invariant [where P = settled_level] settable place send required clear assms(2) by metis
qed

section \<open>The whole of a type\<close>

lemma allow_patch_settled: "settled_level (t_attributes t) \<Longrightarrow> settled_level (t_attributes (allow_patch allow t))"
  by (simp add: allow_patch_def allowlist_settled split: option.split)

lemma find_update_settled:
  assumes "settled_level (t_attributes t)"
  shows "settled_level (t_attributes (find_update d col mm allow t))"
proof -
  have e: "settled_level (t_attributes (update_by_envelope d col allow t))"
    using assms by (auto simp: update_by_envelope_def intro!: allow_patch_settled split: option.split prod.split)
  then have p: "settled_level (t_attributes (update_by_patch col allow (update_by_envelope d col allow t)))"
    by (auto simp: update_by_patch_def Let_def intro!: allow_patch_settled split: option.split prod.split)
  have "settled_level (t_attributes (immutable_resource mm allow (update_by_put col u)))"
    if "settled_level (t_attributes u)" for u
    using that allowlist_settled by (simp add: immutable_resource_def update_by_put_def split: option.split)
  from this [OF p] show ?thesis by (simp add: find_update_def)
qed

lemma located_settled:
  assumes "settled_level (t_attributes t)"
  shows "settled_level (t_attributes (located_type d col mm create allow t))"
proof -
  let ?l = "(find_self_link col t)\<lparr>t_lock_field := lock_field_of (t_attributes (find_self_link col t))\<rparr>"
  have "t_attributes ?l = t_attributes t" by (simp add: find_self_link_def Let_def split: option.split)
  then have "settled_level (t_attributes (find_update d col mm allow ?l))" using assms by (simp add: find_update_settled)
  moreover have "t_attributes (item_shape col u) = t_attributes u" "t_attributes (find_create create u) = t_attributes u"
      "t_attributes (settle_update col u) = t_attributes u" "t_attributes (create_at_collection create u) = t_attributes u" for u
    by (simp_all add: item_shape_def find_create_def settle_update_def create_at_collection_def Let_def)
  ultimately show ?thesis by (simp add: located_type_def Let_def)
qed

lemma with_attribute_settled:
  "settled_level (t_attributes t) \<Longrightarrow> \<not> (i_output i \<and> i_required i) \<Longrightarrow> settled_level (t_attributes (with_attribute k i t))"
  by (simp add: with_attribute_def settled_update)

lemma settled_foldl:
  "(\<And>t x. settled_level (t_attributes t) \<Longrightarrow> settled_level (t_attributes (f t x)))
    \<Longrightarrow> settled_level (t_attributes t) \<Longrightarrow> settled_level (t_attributes (foldl f t xs))"
  by (induction xs arbitrary: t) auto

lemma settled_foldl_fst:
  "(\<And>st x. settled_level (t_attributes (fst st)) \<Longrightarrow> settled_level (t_attributes (fst (f st x))))
    \<Longrightarrow> settled_level (t_attributes (fst st)) \<Longrightarrow> settled_level (t_attributes (fst (foldl f st xs)))"
proof (induction xs arbitrary: st)
  case (Cons x xs)
  show ?case using Cons.IH [of "f st x", OF Cons.prems(1)] Cons.prems by simp
qed simp

lemma declare_settled:
  "settled_level (t_attributes t) \<Longrightarrow> settled_level (t_attributes (declare_create_url_parameters t create))"
  unfolding declare_create_url_parameters_def
  by (rule settled_foldl) (auto simp: declare_parameter_def new_info_def intro: with_attribute_settled)

lemma bind_query_settled:
  assumes "settled_level (t_attributes t)"
  shows "settled_level (t_attributes (bind_create_query_id t create))"
proof -
  have "settled_level (t_attributes (fst (bind_query_id m st ph)))" if "settled_level (t_attributes (fst st))" for m st ph
    using that by (cases st) (auto simp: bind_query_id_def Let_def new_info_def split: option.split intro: with_attribute_settled)
  from settled_foldl_fst [of "bind_query_id m" for m, OF this, of "(t, q, [])" for q] assms
  have "settled_level (t_attributes (fst (foldl (bind_query_id m) (t, q, []) ns)))" for m q ns by simp
  then show ?thesis using assms
    by (auto simp: bind_create_query_id_def Let_def split: option.split prod.split) (metis fst_conv)
qed

lemma add_id_settled:
  assumes "settled_level (t_attributes t)"
  shows "settled_level (t_attributes (add_create_id_parameter t create))"
proof -
  have "settled (named_by_google a)" if "settled a" for a using that by (cases a) auto
  then have "settled_level (AList.map_entry ''name'' named_by_google lvl)" if "settled_level lvl" for lvl
    using that by (auto intro: settled_map_entry)
  moreover have "settled_level (t_attributes (with_attribute k ((new_info k KString s)\<lparr>i_create_only := True, i_required := r\<rparr>) t))" for k s r
    using assms by (rule with_attribute_settled) (simp add: new_info_def)
  ultimately show ?thesis using assms
    by (simp add: add_create_id_parameter_def Let_def split: option.split prod.split)
qed

lemma fill_tokens_settled:
  assumes "settled_level (t_attributes t)"
  shows "settled_level (t_attributes (fill_pre_create_tokens t create))"
proof -
  have "settled_level (t_attributes (fst (fill_token m st kv)))" if "settled_level (t_attributes (fst st))" for m st kv
    using that by (cases st) (auto simp: fill_token_def Let_def new_info_def split: option.split prod.split intro: with_attribute_settled)
  from settled_foldl_fst [of "fill_token m" for m, OF this, of "(t, [])"] assms
  have "settled_level (t_attributes (fst (foldl (fill_token m) (t, []) kvs)))" for m kvs by simp
  then show ?thesis using assms
    by (auto simp: fill_pre_create_tokens_def split: option.split prod.split bool.split) (metis fst_conv)
qed

lemma create_inputs_settled:
  "settled_level (t_attributes t) \<Longrightarrow> settled_level (t_attributes (create_inputs t create))"
  by (simp add: create_inputs_def Let_def declare_settled bind_query_settled add_id_settled fill_tokens_settled)

lemma addressed_settled: "settled_level (t_attributes t) \<Longrightarrow> settled_level (t_attributes (addressed_type d col create t))"
  unfolding addressed_type_def
  by (rule create_inputs_settled) (simp add: show_id_shape_def strip_version_def bind_parents_def Let_def)

lemma finish_settled:
  assumes "settled_level (t_attributes t)"
  shows "settled_level (t_attributes (finish_type d col mm t))"
proof -
  have "settled_level (t_attributes (apply_setters u mm))" if "settled_level (t_attributes u)" for u
  proof -
    have "settled_level (map (\<lambda>(k, a). (k, if setter_for u (a_canonical a) = None then a
       else with_info (\<lambda>i. i\<lparr>i_force_new := False, i_output := i_output i \<and> mm_says_output mm (i_canonical i)\<rparr>) a)) lvl)"
      if "settled_level lvl" for lvl
      by (rule settled_map [OF that]) (auto dest: settledD)
    with that show ?thesis by (simp add: apply_setters_def Let_def allowlist_settled)
  qed
  then show ?thesis using assms by (simp add: finish_type_def Let_def)
qed

text \<open>
  C10. No type the generator ships has an attribute, at any depth, that is both required of the user
  and set by Google: whatever Discovery, magic-modules and the overlay say of it, and whatever the
  passes that make the type creatable and updatable change.
\<close>

theorem built_type_settled:
  assumes "build_type d col mm name ov = Inr t"
  shows "settled_level (t_attributes t)"
proof -
  obtain create body wrapper create_only lvl aw ru ru' aliases t1 where
    lvl: "type_attributes d create body wrapper create_only mm ru aliases = Inr lvl"
    and aw: "find_await d col create (located_type d col mm create (map_of (ov_patchable ov) name)
      (start_type d col mm name body wrapper lvl)) = Inr aw"
    and ru: "apply_ruling ru' (aw\<lparr>t_asset_type := asset_type_of d body\<rparr>) = Inr t1"
    and t: "t = finish_type d col mm (addressed_type d col create t1)"
    using assms by (auto simp: build_type_def on_ok_Inr Let_def split: option.splits prod.splits)
  have "t_attributes (start_type d col mm name body wrapper lvl) = lvl"
    by (simp add: start_type_def from_magic_modules_def Let_def split: option.split)
  then have "settled_level (t_attributes (located_type d col mm create (map_of (ov_patchable ov) name)
      (start_type d col mm name body wrapper lvl)))"
    using type_attributes_settled [OF lvl] by (simp add: located_settled)
  moreover have "t_attributes u' = t_attributes u" if "find_await d col create u = Inr u'" for u u'
    using that by (auto simp: find_await_def operation_paths_def Let_def split: option.splits await_kind.splits)
  ultimately have "settled_level (t_attributes aw)" using aw by simp
  then have "settled_level (t_attributes t1)"
    using ru rule_attributes_settled by (auto simp: apply_ruling_def on_ok_Inr split: option.splits)
  then show ?thesis unfolding t by (intro finish_settled addressed_settled)
qed

theorem built_type_settled_witness: "settled_level (t_attributes bucket_type)"
  by (rule built_type_settled [OF bucket_built])

end
