(* ===== verification/Observations.thy ===== *)
theory Observations
  imports BuildType
begin

text \<open>
  The facts a catalog acts on and what live tests saw (internal/gen/facts.go), and the check of the
  overlay (internal/gen/overlay.go). The sources recorded on types and attributes while they are
  built are not kept, so an observation is checked but not recorded; the facts of gen/facts.tsv are
  taken as listed, each with its sources.
\<close>

section \<open>The values of facts\<close>

definition type_facts :: "string list" where
  "type_facts = [''create_verb'', ''create_url'', ''create_await'', ''update_verb'', ''update_mask'', ''update_await'',
     ''delete_url'', ''delete_await'', ''setters'', ''lock_field'', ''patch_one_field'', ''clear_before_delete'', ''timeout'']"

definition attribute_facts :: "string list" where
  "attribute_facts = [''output'', ''required'', ''immutable'', ''input_only'', ''sensitive'', ''equivalence'', ''unordered'',
     ''send_with_update'']"

definition await_name :: "await_kind \<Rightarrow> string" where
  "await_name k = (case k of AwaitLongRunning \<Rightarrow> ''longrunning'' | AwaitComputeOperation \<Rightarrow> ''compute_operation''
     | AwaitNone \<Rightarrow> ''none'')"

definition format_bool :: "bool \<Rightarrow> string" where
  "format_bool b = (if b then ''true'' else ''false'')"

definition or_else :: "string \<Rightarrow> string \<Rightarrow> string" where
  "or_else s alt = (if s = [] then alt else s)"

definition setters_value :: "setter list \<Rightarrow> string" where
  "setters_value ss = or_else (join_with '','' (sort (map (\<lambda>s. join_with ''+'' (s_fields s) @ ''='' @ s_method s) ss))) ''none''"

definition type_fact_value :: "ctype \<Rightarrow> string \<Rightarrow> string" where
  "type_fact_value t what =
     (if what = ''create_verb'' then or_else (t_create_verb t) ''POST''
      else if what = ''create_url'' then create_template t
      else if what = ''create_await'' then await_name (t_await t)
      else if what = ''update_verb'' then or_else (t_update_verb t) ''none''
      else if what = ''update_mask'' then
        (if t_update_wrapper t \<noteq> [] then ''body:'' @ t_update_mask_field t else if t_update_mask t then ''query'' else ''none'')
      else if what = ''update_await'' then (if t_update_verb t = [] then ''none'' else await_name (update_await_kind t))
      else if what = ''delete_url'' then or_else (t_delete_url t) (t_self_link t)
      else if what = ''delete_await'' then await_name (delete_await_kind t)
      else if what = ''setters'' then setters_value (t_setters t)
      else if what = ''lock_field'' then or_else (t_lock_field t) ''none''
      else if what = ''patch_one_field'' then format_bool (t_patch_one_field t)
      else if what = ''clear_before_delete'' then
        (if t_clear_before_delete t = [] then ''none'' else join_with '','' (t_clear_before_delete t))
      else if what = ''timeout'' then format_int (t_timeout_seconds t)
      else [])"

definition attr_fact_value :: "attr \<Rightarrow> string \<Rightarrow> string \<times> bool" where
  "attr_fact_value a what =
     (let i = a_info a; flag = (\<lambda>b. (format_bool b, b)) in
      if what = ''output'' then flag (i_output i)
      else if what = ''required'' then flag (i_required i)
      else if what = ''immutable'' then flag (i_force_new i)
      else if what = ''input_only'' then flag (i_input_only i)
      else if what = ''sensitive'' then flag (i_sensitive i)
      else if what = ''equivalence'' then (i_equivalence i, i_equivalence i \<noteq> [])
      else if what = ''unordered'' then flag (i_unordered i)
      else if what = ''send_with_update'' then flag (i_send_with_update i)
      else ([], False))"

text \<open>Every attribute of a level and below with its path: its fields, then its element and that one's fields.\<close>

function attrs_below :: "string \<Rightarrow> attr \<Rightarrow> (string \<times> attr) list" where
  "attrs_below path (Attr i fs e) = (path, Attr i fs e)
     # concat (map snd (sort_key fst (map (\<lambda>(n, f). (n, attrs_below (path @ ''.'' @ n) f)) fs)))
     @ (case e of None \<Rightarrow> []
        | Some el \<Rightarrow> (path @ ''[]'', el) # concat (map snd (sort_key fst (map (\<lambda>(n, f).
            (n, attrs_below (path @ ''[].'' @ n) f)) (a_fields el)))))"
  by pat_completeness auto
termination by (relation "measure (\<lambda>(_, a). size a)") (auto dest: size_in_fields size_entry)

definition walk_attrs :: "level \<Rightarrow> (string \<times> attr) list" where
  "walk_attrs lvl = concat (map (\<lambda>(n, a). attrs_below n a) (sort_key fst lvl))"

section \<open>Observations\<close>

text \<open>\<open>^\d{4}-\d{2}-\d{2} TestLive\w+$\<close>.\<close>

definition seen_text :: "string \<Rightarrow> bool" where
  "seen_text s \<longleftrightarrow> list_all is_digit (take 4 s) \<and> take 1 (drop 4 s) = ''-'' \<and> list_all is_digit (take 2 (drop 5 s))
     \<and> take 1 (drop 7 s) = ''-'' \<and> list_all is_digit (take 2 (drop 8 s)) \<and> has_prefix (drop 10 s) '' TestLive''
     \<and> drop 19 s \<noteq> [] \<and> list_all is_word (drop 19 s)"

text \<open>What the catalog says of an observed fact; a test sees the setters it exercised, not all of them.\<close>

definition catalog_says :: "string \<Rightarrow> ctype \<Rightarrow> observation \<Rightarrow> gerr + string" where
  "catalog_says name t ob =
     (if ob_path ob = [] \<and> ob_fact ob \<in> set type_facts then
        (let got = type_fact_value t (ob_fact ob) in
         Inr (if ob_fact ob = ''setters'' \<and> ob_value ob \<in> set (split_on (CHR '','') got) then ob_value ob else got))
      else if ob_path ob \<noteq> [] \<and> ob_fact ob \<in> set attribute_facts then
        (case attr_at_path (t_attributes t) (ob_path ob) of
           None \<Rightarrow> Inl (Errorf ''observed: %s has no attribute %q'' [name, ob_path ob])
         | Some a \<Rightarrow> Inr (fst (attr_fact_value a (ob_fact ob))))
      else Inl (Errorf ''observed: %s: %q is not a fact of the vocabulary for %s''
        [name, ob_fact ob, if ob_path ob = [] then ''a type'' else ''an attribute'']))"

definition check_observation :: "string \<Rightarrow> ctype \<Rightarrow> observation \<Rightarrow> gerr option" where
  "check_observation name t ob =
     (if \<not> seen_text (ob_seen ob)
      then Some (Errorf ''observed: %s %s: seen %q is not \"YYYY-MM-DD TestLiveName\"'' [name, ob_fact ob, ob_seen ob])
      else case catalog_says name t ob of
        Inl e \<Rightarrow> Some e
      | Inr got \<Rightarrow> if got = ob_value ob then None
          else Some (Errorf (''observed: %s %s %s is %q on Google (%s), but the catalog says %q: ''
            @ ''whatever changed it contradicts evidence'')
            [name, ob_path ob, ob_fact ob, ob_value ob, ob_seen ob, got]))"

fun first_fault :: "('x \<Rightarrow> gerr option) \<Rightarrow> 'x list \<Rightarrow> gerr option" where
  "first_fault f [] = None"
| "first_fault f (x # xs) = (case f x of Some e \<Rightarrow> Some e | None \<Rightarrow> first_fault f xs)"

definition apply_observed :: "(string \<times> observation list) list \<Rightarrow> ctype list \<Rightarrow> gerr option" where
  "apply_observed observed ts = first_fault (\<lambda>(name, obs). case map_of (index_types ts) name of
       None \<Rightarrow> Some (Errorf ''observed: %s does not ship'' [name])
     | Some t \<Rightarrow> first_fault (check_observation name t) obs)
     (sort_key fst observed)"

section \<open>Facts with their sources\<close>

record catalog_fact =
  fa_type :: string
  fa_path :: string
  fa_fact :: string
  fa_value :: string
  fa_sources :: "string list"

definition lost_mark :: string where "lost_mark = ''!''"

definition winning_sources :: "string list \<Rightarrow> string list" where
  "winning_sources srcs = filter (\<lambda>s. \<not> has_prefix s lost_mark) srcs"

text \<open>The facts of a catalog; \<open>sources\<close> gives what was recorded of a type, a path and a fact.\<close>

definition facts_of_type :: "(string \<Rightarrow> string \<Rightarrow> string \<Rightarrow> string list) \<Rightarrow> ctype \<Rightarrow> catalog_fact list" where
  "facts_of_type sources t =
     map (\<lambda>f. \<lparr>fa_type = t_name t, fa_path = [], fa_fact = f, fa_value = type_fact_value t f,
       fa_sources = sources (t_name t) [] f\<rparr>) type_facts
     @ concat (map (\<lambda>(path, a). List.map_filter (\<lambda>f. case attr_fact_value a f of (v, is_set) \<Rightarrow>
         (let srcs = sources (t_name t) path f in
          if \<not> is_set \<and> srcs = [] then None
          else Some \<lparr>fa_type = t_name t, fa_path = path, fa_fact = f, fa_value = v,
            fa_sources = (if is_set \<and> winning_sources srcs = [] then srcs @ [''unrecorded''] else srcs)\<rparr>)) attribute_facts)
       (walk_attrs (t_attributes t)))"

definition facts_of :: "(string \<Rightarrow> string \<Rightarrow> string \<Rightarrow> string list) \<Rightarrow> catalog \<Rightarrow> catalog_fact list" where
  "facts_of sources c = sort_key fa_type (sort_key fa_path (sort_key fa_fact
     (concat (map (facts_of_type sources) (c_types c)))))"

definition unrecorded :: "catalog_fact list \<Rightarrow> catalog_fact list" where
  "unrecorded fs = filter (\<lambda>f. ''unrecorded'' \<in> set (fa_sources f)) fs"

definition request_shaping :: "string list" where
  "request_shaping = [''create_verb'', ''create_url'', ''create_await'', ''update_verb'', ''update_mask'', ''update_await'',
     ''delete_url'', ''delete_await'', ''setters'', ''lock_field'', ''patch_one_field'', ''clear_before_delete'',
     ''output'', ''required'', ''immutable'', ''input_only'', ''send_with_update'']"

definition never_checked :: "catalog_fact \<Rightarrow> bool" where
  "never_checked f \<longleftrightarrow> fa_fact f \<in> set request_shaping
     \<and> set (winning_sources (fa_sources f)) \<inter> {''observed'', ''ruling''} = {}"

definition says_discovery :: "catalog_fact \<Rightarrow> bool" where
  "says_discovery f \<longleftrightarrow> ''discovery'' \<in> set (winning_sources (fa_sources f))"

definition unknowns :: "catalog_fact list \<Rightarrow> catalog_fact list \<times> catalog_fact list" where
  "unknowns fs =
     (filter (\<lambda>f. never_checked f \<and> \<not> says_discovery f \<and> \<not> (fa_path f \<noteq> [] \<and> fa_value f \<in> {''false'', []})) fs,
      filter (\<lambda>f. never_checked f \<and> says_discovery f \<and> fa_path f = []) fs)"

section \<open>The overlay\<close>

definition corrects_a_fact :: "ruling \<Rightarrow> bool" where
  "corrects_a_fact r \<longleftrightarrow> ru_all_force_new r \<or> ru_clear_before_delete r \<noteq> [] \<or> ru_required r \<noteq> [] \<or> ru_settable r \<noteq> []
     \<or> ru_in_place r \<noteq> [] \<or> ru_send_with_update r \<noteq> []"

text \<open>The checks of \<open>LoadOverlay\<close>; \<open>is_dir\<close> says which directories exist under \<open>mmv1_dir\<close>.\<close>

definition check_overlay :: "string \<Rightarrow> string \<Rightarrow> (string \<Rightarrow> bool) \<Rightarrow> gen_overlay \<Rightarrow> gerr option" where
  "check_overlay path mmv1_dir is_dir ov =
     (case first_fault (\<lambda>(key, r).
        if ru_note r = [] then Some (Errorf ''%s: ruling %q has no note; a ruling with no reasoning is a rubber stamp'' [path, key])
        else if ru_hooks r = [] \<and> ru_read_via r = [] \<and> \<not> corrects_a_fact r
        then Some (Errorf ''%s: ruling %q names no hooks, no read_via and no fact to correct, so it rules on nothing'' [path, key])
        else None) (ov_rulings ov) of
        Some e \<Rightarrow> Some e
      | None \<Rightarrow> (case first_fault (\<lambda>(name, p).
          if pt_note p = [] then Some (Errorf ''%s: patchable %q has no note; a field list with no source behind it is a guess'' [path, name])
          else if pt_fields p = []
          then Some (Errorf ''%s: patchable %q lists no fields; to make a type non-updatable, leave it out entirely'' [path, name])
          else None) (ov_patchable ov) of
          Some e \<Rightarrow> Some e
        | None \<Rightarrow> first_fault (\<lambda>(api, dirs). first_fault (\<lambda>dir. if is_dir dir then None
            else Some (Errorf ''%s: product_aliases[%q] names directory %q, which does not exist under %s'' [path, api, dir, mmv1_dir])) dirs)
            (ov_product_aliases ov)))"

end
