(* ===== verification/Generate.thy ===== *)
theory Generate
  imports Observations Collisions
begin

text \<open>
  The whole generation pass (internal/gen/build.go, \<open>Build\<close>): what ships, under which name, each type
  built, references resolved between them, secrets marked, and the records of what was left out.
  The documents, the resources of each product, the overlay and the lock are its inputs, decoded;
  the day and the pinned commit are given. The new lock is part of the answer.
\<close>

section \<open>Records of what is left out\<close>

record warning =
  wa_service :: string
  wa_resource :: string
  wa_tier :: tier
  wa_reason :: string

record uncreatable =
  uc_type :: string
  uc_template :: string
  uc_placeholders :: "string list"

record unpatchable =
  up_type :: string
  up_says :: string

record generated =
  ge_catalog :: catalog
  ge_warnings :: "warning list"
  ge_uncreatable :: "uncreatable list"
  ge_unpatchable :: "unpatchable list"
  ge_lock :: lock

section \<open>What ships\<close>

definition resources_for :: "(string \<times> mm_resource list) list \<Rightarrow> gen_overlay \<Rightarrow> document \<Rightarrow> mm_resource list" where
  "resources_for by_product ov d =
     (let of_product = (\<lambda>p. case map_of by_product p of None \<Rightarrow> [] | Some rs \<Rightarrow> rs) in
      of_product (doc_name d)
        @ concat (map of_product (case map_of (ov_product_aliases ov) (doc_name d) of None \<Rightarrow> [] | Some ps \<Rightarrow> ps)))"

definition considered :: "mm_resource list \<Rightarrow> gen_overlay \<Rightarrow> document \<Rightarrow> collection \<Rightarrow> warning + pending" where
  "considered mms ov d col =
     (let leaf = last (co_path col);
          mm = prefer_exact_collection mms (co_path col) (match_resource mms leaf (create_path_of col));
          raw = (case mm of None \<Rightarrow> leaf | Some r \<Rightarrow> mm_name r);
          dec = classify col mm (Option.bind mm (\<lambda>r. map_of (ov_rulings ov) (doc_name d @ ''/'' @ mm_name r)))
      in if d_tier dec \<noteq> TierGeneric
         then Inl \<lparr>wa_service = doc_name d, wa_resource = raw, wa_tier = d_tier dec, wa_reason = d_reason dec\<rparr>
         else Inr \<lparr>pe_doc = d, pe_col = col, pe_mm = mm,
           pe_cand = \<lparr>ca_service = doc_name d, ca_resource = to_lower (singular leaf), ca_scope = scope_segment (co_path col),
             ca_qualified = False\<rparr>, pe_dec = dec, pe_raw = raw\<rparr>)"

definition all_considered :: "(string \<times> mm_resource list) list \<Rightarrow> gen_overlay \<Rightarrow> document list \<Rightarrow> (warning + pending) list" where
  "all_considered by_product ov docs =
     concat (map (\<lambda>d. map (considered (resources_for by_product ov d) ov d) (collections d)) docs)"

definition oks :: "('a + 'b) list \<Rightarrow> 'b list" where
  "oks rs = List.map_filter (\<lambda>r. case r of Inl _ \<Rightarrow> None | Inr b \<Rightarrow> Some b) rs"

definition faults :: "('a + 'b) list \<Rightarrow> 'a list" where
  "faults rs = List.map_filter (\<lambda>r. case r of Inl a \<Rightarrow> Some a | Inr _ \<Rightarrow> None) rs"

definition name_of :: "(candidate \<times> string) list \<Rightarrow> pending \<Rightarrow> string" where
  "name_of names p = (case map_of names (pe_cand p) of None \<Rightarrow> [] | Some n \<Rightarrow> n)"

definition alias_warning :: "(candidate \<times> string) list \<Rightarrow> alias_loser \<times> pending \<Rightarrow> warning" where
  "alias_warning names lw = (case lw of (l, w) \<Rightarrow>
     \<lparr>wa_service = al_service l, wa_resource = al_raw l, wa_tier = TierGeneric,
      wa_reason = ''legacy alias of '' @ name_of names w @ '' ('' @ join_with ''.'' (co_path (pe_col w)) @ '')''\<rparr>)"

section \<open>Building the types\<close>

definition tier_number :: "tier \<Rightarrow> int" where
  "tier_number t = (case t of TierGeneric \<Rightarrow> 1 | TierHooked \<Rightarrow> 2 | TierExcluded \<Rightarrow> 3)"

text \<open>\<open>text_of\<close> renders an error, which the host's \<open>fmt\<close> does.\<close>

definition built_pending ::
  "(gerr \<Rightarrow> string) \<Rightarrow> (candidate \<times> string) list \<Rightarrow> gen_overlay \<Rightarrow> pending \<Rightarrow> warning + pending \<times> ctype" where
  "built_pending text_of names ov p = (case build_type (pe_doc p) (pe_col p) (pe_mm p) (name_of names p) ov of
      Inl e \<Rightarrow> Inl \<lparr>wa_service = pe_service p, wa_resource = pe_raw p, wa_tier = TierExcluded, wa_reason = text_of e\<rparr>
    | Inr t \<Rightarrow> Inr (p, t\<lparr>t_tier := tier_number (d_tier (pe_dec p)), t_tier_reason := d_reason (pe_dec p)\<rparr>))"

definition check_names_are_unique :: "ctype list \<Rightarrow> gerr option" where
  "check_names_are_unique ts =
     (let names = map t_name ts; count = (\<lambda>n. length (filter (\<lambda>m. m = n) names));
          dups = map (\<lambda>n. n @ '' (x'' @ digits_of (count n) @ '')'') (filter (\<lambda>n. count n > 1) (remdups names))
      in if dups = [] then None
         else Some (Errorf (''gen: the naming pass assigned one name to more than one type, which should be ''
           @ ''impossible: %s'') [join_with '', '' (sort dups)]))"

section \<open>References\<close>

text \<open>Every reference of an attribute, at any depth, through one decision on its canonical name and target.\<close>

fun walk_refs :: "(string \<Rightarrow> ref_target \<Rightarrow> ref_target option \<times> warning list) \<Rightarrow> attr \<Rightarrow> attr \<times> warning list" where
  "walk_refs f (Attr i fs e) =
     (let (r, ws) = (case i_ref i of None \<Rightarrow> (None, []) | Some r \<Rightarrow> f (i_canonical i) r);
          fs' = map (\<lambda>(n, a). (n, walk_refs f a)) fs;
          e' = map_option (walk_refs f) e
      in (Attr (i\<lparr>i_ref := r\<rparr>) (map (\<lambda>(n, a). (n, fst a)) fs') (map_option fst e'),
          ws @ concat (map (\<lambda>(n, a). snd a) fs') @ (case e' of None \<Rightarrow> [] | Some a \<Rightarrow> snd a)))"

definition walk_level_refs ::
  "(string \<Rightarrow> ref_target \<Rightarrow> ref_target option \<times> warning list) \<Rightarrow> ctype \<Rightarrow> ctype \<times> warning list" where
  "walk_level_refs f t = (let lvl = map (\<lambda>(n, a). (n, walk_refs f a)) (t_attributes t) in
     (t\<lparr>t_attributes := map (\<lambda>(n, a). (n, fst a)) lvl\<rparr>, concat (map (\<lambda>(n, a). snd a) lvl)))"

text \<open>Which type ships for a product's resource; and the products that ship a resource of a name.\<close>

definition ref_by_product :: "(pending \<times> ctype) list \<Rightarrow> (string \<times> string) list" where
  "ref_by_product built = overlay [] (List.map_filter (\<lambda>(p, t).
     map_option (\<lambda>r. (mm_product r @ ''/'' @ mm_name r, t_name t)) (pe_mm p)) built)"

definition ref_candidates :: "(pending \<times> ctype) list \<Rightarrow> string \<Rightarrow> string list" where
  "ref_candidates built name = sort (remdups (map mm_product (filter (\<lambda>r. mm_name r = name)
     (List.map_filter (\<lambda>(p, t). pe_mm p) built))))"

definition resolve_one_ref ::
  "(pending \<times> ctype) list \<Rightarrow> string \<Rightarrow> ctype \<Rightarrow> string \<Rightarrow> ref_target \<Rightarrow> ref_target option \<times> warning list" where
  "resolve_one_ref built product t canonical r =
     (case map_of (ref_by_product built) (product @ ''/'' @ r_type r) of
        Some name \<Rightarrow> (Some (r\<lparr>r_type := name\<rparr>), [])
      | None \<Rightarrow> (case ref_candidates built (r_type r) of
          [] \<Rightarrow> (None, [])
        | [p] \<Rightarrow> (Some (r\<lparr>r_type := (case map_of (ref_by_product built) (p @ ''/'' @ r_type r) of None \<Rightarrow> [] | Some n \<Rightarrow> n)\<rparr>), [])
        | ps \<Rightarrow> (None, [\<lparr>wa_service = t_service t, wa_resource = t_name t @ ''.'' @ canonical, wa_tier = TierGeneric,
            wa_reason = ''reference to \"'' @ r_type r @ ''\" is ambiguous across products '' @ join_with '', '' ps
              @ ''; dropped rather than guessed''\<rparr>])))"

definition resolve_refs :: "(pending \<times> ctype) list \<Rightarrow> pending \<times> ctype \<Rightarrow> ctype \<times> warning list" where
  "resolve_refs built pt = (case pt of (p, t) \<Rightarrow>
     walk_level_refs (resolve_one_ref built (case pe_mm p of None \<Rightarrow> [] | Some r \<Rightarrow> mm_product r) t) t)"

definition keep_ref :: "ctype list \<Rightarrow> ctype \<Rightarrow> string \<Rightarrow> ref_target \<Rightarrow> ref_target option \<times> warning list" where
  "keep_ref ts t canonical r = (case map_of (index_types ts) (r_type r) of
      Some target \<Rightarrow>
        if has_key (t_attributes target) (r_attribute r) then (Some r, [])
        else (None, [\<lparr>wa_service = t_service t, wa_resource = t_name t @ ''.'' @ canonical, wa_tier = TierGeneric,
          wa_reason = ''reference to '' @ r_type r @ ''.'' @ r_attribute r @ '' dropped: '' @ r_type r
            @ '' has no attribute \"'' @ r_attribute r @ ''\"''\<rparr>])
    | None \<Rightarrow> (Some r, []))"

definition drop_refs_to_missing_attributes :: "ctype list \<Rightarrow> (ctype \<times> warning list) list" where
  "drop_refs_to_missing_attributes ts = map (\<lambda>t. walk_level_refs (keep_ref ts t) t) ts"

section \<open>Secrets\<close>

definition mark_sensitive :: "string \<Rightarrow> string \<Rightarrow> ctype \<Rightarrow> gerr + ctype" where
  "mark_sensitive name path t = (case attr_at_path (t_attributes t) path of
      None \<Rightarrow> Inl (Errorf ''overlay sensitive: %s has no attribute %q'' [name, path])
    | Some _ \<Rightarrow> Inr (t\<lparr>t_attributes := change_at (\<lambda>i. i\<lparr>i_sensitive := True\<rparr>) (path_segments path) (t_attributes t)\<rparr>))"

definition apply_sensitive_entry :: "string \<times> sensitive_fields \<Rightarrow> ctype list \<Rightarrow> gerr + ctype list" where
  "apply_sensitive_entry e ts = (case e of (name, fs) \<Rightarrow> (case map_of (index_types ts) name of
      None \<Rightarrow> Inl (Errorf ''overlay sensitive: %s does not ship'' [name])
    | Some t \<Rightarrow>
        if trim_space (sf_note fs) = [] then Inl (Errorf ''overlay sensitive: %s has no note saying why'' [name])
        else on_ok (each_ok (mark_sensitive name) (sf_fields fs) t)
          (\<lambda>t'. Inr (map (\<lambda>u. if t_name u = name then t' else u) ts))))"

definition apply_sensitive :: "(string \<times> sensitive_fields) list \<Rightarrow> ctype list \<Rightarrow> gerr + ctype list" where
  "apply_sensitive entries ts = each_ok apply_sensitive_entry (sort_key fst entries) ts"

section \<open>The records and the catalog\<close>

definition uncreatable_types :: "ctype list \<Rightarrow> uncreatable list" where
  "uncreatable_types ts = sort_key uc_type (map (\<lambda>t. \<lparr>uc_type = t_name t, uc_template = create_template t,
       uc_placeholders = unresolved_create_placeholders t\<rparr>)
     (filter (\<lambda>t. unresolved_create_placeholders t \<noteq> []) ts))"

definition restriction_of :: "collection \<Rightarrow> string" where
  "restriction_of col = (case patch_method_of col of None \<Rightarrow> [] | Some m \<Rightarrow> squeezed (trim_space (me_description m)))"

definition unpatched :: "gen_overlay \<Rightarrow> pending \<times> ctype \<Rightarrow> unpatchable option" where
  "unpatched ov pt = (case pt of (p, t) \<Rightarrow>
     if t_update_verb t \<noteq> [] \<or> has_key (ov_patchable ov) (t_name t) then None
     else if restricted_patch (pe_col p) then Some \<lparr>up_type = t_name t, up_says = restriction_of (pe_col p)\<rparr>
     else if (case pe_mm p of None \<Rightarrow> False | Some r \<Rightarrow> mm_immutable r) \<and> patch_method_of (pe_col p) \<noteq> None \<and> t_setters t = []
     then Some \<lparr>up_type = t_name t, up_says = ''magic-modules marks the resource immutable and names no field it patches''\<rparr>
     else None)"

text \<open>The last passes, over the types that were built, in the order they were.\<close>

definition resolved_types :: "(pending \<times> ctype) list \<Rightarrow> ctype list \<times> warning list" where
  "resolved_types built =
     (let resolved = map (resolve_refs built) built;
          kept = drop_refs_to_missing_attributes (map fst resolved)
      in (map fst kept, concat (map snd resolved) @ concat (map snd kept)))"

definition build_catalog ::
  "(gerr \<Rightarrow> string) \<Rightarrow> string \<Rightarrow> string \<Rightarrow> warning list \<Rightarrow> (string \<times> mm_resource list) list
    \<Rightarrow> gen_overlay \<Rightarrow> lock \<Rightarrow> document list \<Rightarrow> gerr + generated" where
  "build_catalog text_of day commit load_warnings by_product ov lock docs =
     (let all = all_considered by_product ov docs;
          (shipping, losers) = resolve_within_service_collisions (oks all)
      in on_ok (assign (map pe_cand shipping) lock) (\<lambda>(names, lock').
         let results = map (built_pending text_of names ov) shipping;
             built = oks results
         in case check_names_are_unique (map snd built) of Some e \<Rightarrow> Inl e | None \<Rightarrow>
            (case resolved_types built of (types, ref_warnings) \<Rightarrow>
              on_ok (apply_sensitive (ov_sensitive ov) types) (\<lambda>types.
                case apply_observed (ov_observed ov) types of Some e \<Rightarrow> Inl e | None \<Rightarrow>
                  Inr \<lparr>ge_catalog = \<lparr>c_generated = day, c_mmv1_commit = commit, c_types = sort_key t_name types,
                         c_discover_default = ov_discover_default ov\<rparr>,
                       ge_warnings = sort_key wa_service (sort_key wa_resource
                         (load_warnings @ faults all @ map (alias_warning names) losers @ faults results @ ref_warnings)),
                       ge_uncreatable = uncreatable_types types,
                       ge_unpatchable = sort_key up_type (List.map_filter (unpatched ov) (zip (map fst built) types)),
                       ge_lock = lock'\<rparr>))))"

end
