(* ===== verification/Generated.thy ===== *)
theory Generated
  imports Generate BuildFacts
begin

text \<open>
  Properties of a generated catalog: its types have names of their own, every reference leads to an
  attribute of a type it serves, and it contradicts nothing that was observed.
\<close>

section \<open>References at any depth\<close>

fun attr_refs :: "attr \<Rightarrow> ref_target list" where
  "attr_refs (Attr i fs e) = (case i_ref i of None \<Rightarrow> [] | Some r \<Rightarrow> [r]) @ concat (map (\<lambda>(_, f). attr_refs f) fs)
     @ (case e of None \<Rightarrow> [] | Some el \<Rightarrow> attr_refs el)"

definition type_refs :: "ctype \<Rightarrow> ref_target list" where
  "type_refs t = concat (map (\<lambda>(_, a). attr_refs a) (t_attributes t))"

lemma walk_refs_from:
  "r \<in> set (attr_refs (fst (walk_refs f a))) \<Longrightarrow> \<exists>c. \<exists>r0 \<in> set (attr_refs a). fst (f c r0) = Some r"
proof (induction a)
  case (Attr i fs e)
  let ?own = "case i_ref i of None \<Rightarrow> (None, []) | Some r \<Rightarrow> f (i_canonical i) r"
  have parts: "attr_refs (fst (walk_refs f (Attr i fs e)))
      = (case fst ?own of None \<Rightarrow> [] | Some r \<Rightarrow> [r]) @ concat (map (\<lambda>(_, a). attr_refs (fst (walk_refs f a))) fs)
        @ (case e of None \<Rightarrow> [] | Some el \<Rightarrow> attr_refs (fst (walk_refs f el)))"
    by (cases e) (simp_all add: Let_def case_prod_unfold comp_def)
  consider (own) "r \<in> set (case fst ?own of None \<Rightarrow> [] | Some r \<Rightarrow> [r])"
    | (field) n a where "(n, a) \<in> set fs" "r \<in> set (attr_refs (fst (walk_refs f a)))"
    | (elem) el where "e = Some el" "r \<in> set (attr_refs (fst (walk_refs f el)))"
    using Attr.prems unfolding parts by (auto split: option.splits)
  then show ?case
  proof cases
    case own
    then obtain r0 where "i_ref i = Some r0" "fst (f (i_canonical i) r0) = Some r"
      by (cases "i_ref i") (auto split: option.splits)
    then show ?thesis by auto
  next
    case field
    have "\<exists>c. \<exists>r0 \<in> set (attr_refs a). fst (f c r0) = Some r"
      by (rule Attr.IH(1) [OF field(1) _ field(2)]) simp
    with field(1) show ?thesis by fastforce
  next
    case elem
    have "\<exists>c. \<exists>r0 \<in> set (attr_refs el). fst (f c r0) = Some r"
      by (rule Attr.IH(2) [OF _ elem(2)]) (simp add: elem(1))
    with elem(1) show ?thesis by fastforce
  qed
qed

lemma walk_level_refs_from:
  assumes "r \<in> set (type_refs (fst (walk_level_refs f t)))"
  shows "\<exists>c. \<exists>r0 \<in> set (type_refs t). fst (f c r0) = Some r"
proof -
  obtain n a where a: "(n, a) \<in> set (t_attributes t)" "r \<in> set (attr_refs (fst (walk_refs f a)))"
    using assms by (auto simp: type_refs_def walk_level_refs_def Let_def)
  from walk_refs_from [OF a(2)] obtain c r0 where "r0 \<in> set (attr_refs a)" "fst (f c r0) = Some r" by blast
  moreover from this(1) a(1) have "r0 \<in> set (type_refs t)" by (force simp: type_refs_def)
  ultimately show ?thesis by blast
qed

lemma walk_level_refs_keeps [simp]:
  "t_name (fst (walk_level_refs f t)) = t_name t" "keys (t_attributes (fst (walk_level_refs f t))) = keys (t_attributes t)"
  by (simp_all add: walk_level_refs_def Let_def case_prod_unfold comp_def)

section \<open>Names\<close>

lemma unique_names: "check_names_are_unique ts = None \<Longrightarrow> distinct (map t_name ts)"
proof -
  assume none: "check_names_are_unique ts = None"
  have count: "length (filter (\<lambda>m. m = n) (map t_name ts)) \<le> 1" if "n \<in> set (map t_name ts)" for n
  proof (rule ccontr)
    assume "\<not> length (filter (\<lambda>m. m = n) (map t_name ts)) \<le> 1"
    with that have "n \<in> set (filter (\<lambda>n. length (filter (\<lambda>m. m = n) (map t_name ts)) > 1) (remdups (map t_name ts)))" by simp
    then have "filter (\<lambda>n. length (filter (\<lambda>m. m = n) (map t_name ts)) > 1) (remdups (map t_name ts)) \<noteq> []"
      by (metis empty_iff empty_set)
    with none show False unfolding check_names_are_unique_def Let_def by (simp del: filter_map split: if_split_asm)
  qed
  have "distinct ns" if "\<And>n. n \<in> set ns \<Longrightarrow> length (filter (\<lambda>m. m = n) ns) \<le> 1" for ns :: "string list"
    using that
  proof (induction ns)
    case (Cons m ns)
    have "m \<notin> set ns"
    proof
      assume "m \<in> set ns"
      then have "filter (\<lambda>k. k = m) ns \<noteq> []" by (auto simp: filter_empty_conv)
      with Cons.prems [of m] show False by (cases "filter (\<lambda>k. k = m) ns") auto
    qed
    moreover have "length (filter (\<lambda>k. k = n) ns) \<le> 1" if "n \<in> set ns" for n
      using Cons.prems [of n] that by (auto split: if_splits)
    ultimately show ?case using Cons.IH by simp
  qed simp
  from this [of "map t_name ts"] count show ?thesis by blast
qed

lemma index_lookup:
  assumes "map_of (index_types ts) n = Some t"
  shows "t \<in> set ts \<and> t_name t = n"
proof -
  have "(n, t) \<in> set (index_types ts)" using assms by (rule map_of_SomeD)
  then have "(n, t) \<in> set (map (\<lambda>t. (t_name t, t)) ts)"
    using set_overlay [of "[]" "map (\<lambda>t. (t_name t, t)) ts"] by (auto simp: index_types_def)
  then show ?thesis by auto
qed

lemma index_has: "t \<in> set ts \<Longrightarrow> map_of (index_types ts) (t_name t) \<noteq> None"
proof -
  assume "t \<in> set ts"
  then have "t_name t \<in> set (keys (map (\<lambda>t. (t_name t, t)) ts))" by force
  then have "t_name t \<in> set (keys (index_types ts))"
    unfolding index_types_def keys_overlay [of "[]" "map (\<lambda>t. (t_name t, t)) ts"] by blast
  then show ?thesis by (simp add: map_of_eq_None_iff)
qed

section \<open>Where references lead\<close>

text \<open>Every reference of a list of types names one of them, and an attribute that one has.\<close>

definition leads_in :: "ctype list \<Rightarrow> ref_target \<Rightarrow> bool" where
  "leads_in ts r \<longleftrightarrow> (\<exists>u \<in> set ts. t_name u = r_type r \<and> r_attribute r \<in> set (keys (t_attributes u)))"

definition refs_lead :: "ctype list \<Rightarrow> bool" where
  "refs_lead ts \<longleftrightarrow> (\<forall>t \<in> set ts. \<forall>r \<in> set (type_refs t). leads_in ts r)"

lemma ref_by_product_names:
  assumes "map_of (ref_by_product made) k = Some n"
  shows "n \<in> t_name ` snd ` set made"
proof -
  have "(k, n) \<in> set (ref_by_product made)" using assms by (rule map_of_SomeD)
  then have "(k, n) \<in> set (List.map_filter (\<lambda>(p, t). map_option (\<lambda>r. (mm_product r @ ''/'' @ mm_name r, t_name t)) (pe_mm p)) made)"
    using set_overlay unfolding ref_by_product_def by fastforce
  then show ?thesis by (force simp: map_filter_def)
qed

lemma candidate_has_product:
  assumes "p \<in> set (ref_candidates made name)"
  shows "map_of (ref_by_product made) (p @ ''/'' @ name) \<noteq> None"
proof -
  let ?entries = "List.map_filter (\<lambda>(p, t). map_option (\<lambda>r. (mm_product r @ ''/'' @ mm_name r, t_name t)) (pe_mm p)) made"
  obtain pe t r where r: "(pe, t) \<in> set made" "pe_mm pe = Some r" "mm_name r = name" "mm_product r = p"
    using assms by (auto simp: ref_candidates_def map_filter_def)
  then have "(p @ ''/'' @ name, t_name t) \<in> set ?entries" by (force simp: map_filter_def)
  then have "p @ ''/'' @ name \<in> set (keys ?entries)" by force
  then have "p @ ''/'' @ name \<in> set (keys (ref_by_product made))"
    unfolding ref_by_product_def keys_overlay by blast
  then show ?thesis by (simp add: map_of_eq_None_iff)
qed

lemma resolved_ref_named:
  assumes "fst (resolve_one_ref made product t c r0) = Some r"
  shows "r_type r \<in> t_name ` snd ` set made"
proof (cases "map_of (ref_by_product made) (product @ ''/'' @ r_type r0)")
  case (Some n)
  with assms have "r_type r = n" by (auto simp: resolve_one_ref_def)
  with ref_by_product_names [OF Some] show ?thesis by simp
next
  case None
  with assms obtain p where p: "ref_candidates made (r_type r0) = [p]"
    by (auto simp: resolve_one_ref_def split: list.splits)
  then obtain n where n: "map_of (ref_by_product made) (p @ ''/'' @ r_type r0) = Some n"
    using candidate_has_product [of p made "r_type r0"] by auto
  with assms None p have "r_type r = n" by (auto simp: resolve_one_ref_def)
  with ref_by_product_names [OF n] show ?thesis by simp
qed

lemma resolved_types_lead:
  assumes "resolved_types made = (ts, ws)"
  shows "refs_lead ts" "map t_name ts = map (t_name \<circ> snd) made"
proof -
  define us where "us = map (\<lambda>pt. fst (resolve_refs made pt)) made"
  have ts: "ts = map (\<lambda>u. fst (walk_level_refs (keep_ref us u) u)) us"
    using assms by (simp add: resolved_types_def drop_refs_to_missing_attributes_def Let_def us_def comp_def)
  have names: "map t_name us = map (t_name \<circ> snd) made"
    by (simp add: us_def resolve_refs_def case_prod_unfold comp_def)
  then show "map t_name ts = map (t_name \<circ> snd) made" by (simp add: ts comp_def)
  have named: "r_type r \<in> t_name ` set us" if u: "u \<in> set us" and r: "r \<in> set (type_refs u)" for u r
  proof -
    obtain pt where pt: "u = fst (resolve_refs made pt)" using u unfolding us_def set_map by blast
    obtain p t where "pt = (p, t)" by (cases pt) blast
    with pt have "u = fst (resolve_refs made (p, t))" by simp
    with r obtain product c r0 where "fst (resolve_one_ref made product t c r0) = Some r"
      by (auto simp: resolve_refs_def dest!: walk_level_refs_from)
    then have "r_type r \<in> t_name ` snd ` set made" by (rule resolved_ref_named)
    then show ?thesis using arg_cong [OF names, of set] by (auto simp: image_comp)
  qed
  have "leads_in ts r" if u: "u \<in> set us" and r: "r \<in> set (type_refs (fst (walk_level_refs (keep_ref us u) u)))" for u r
  proof -
    obtain c r0 where r0: "r0 \<in> set (type_refs u)" "fst (keep_ref us u c r0) = Some r"
      using walk_level_refs_from [OF r] by blast
    obtain v where "v \<in> set us" "t_name v = r_type r0" using named [OF u r0(1)] by auto
    then obtain target where target: "map_of (index_types us) (r_type r0) = Some target" using index_has by fastforce
    with r0(2) have "r = r0" "r_attribute r0 \<in> set (keys (t_attributes target))"
      by (auto simp: keep_ref_def has_key_iff split: if_splits)
    moreover define kept where "kept = fst (walk_level_refs (keep_ref us target) target)"
    moreover have "kept \<in> set ts" using index_lookup [OF target] by (simp add: kept_def ts)
    moreover have "t_name kept = r_type r0" "keys (t_attributes kept) = keys (t_attributes target)"
      using index_lookup [OF target] by (simp_all add: kept_def)
    ultimately show ?thesis unfolding leads_in_def by metis
  qed
  then show "refs_lead ts" by (auto simp: refs_lead_def ts)
qed

section \<open>Secrets change no name, key or reference\<close>

lemma attr_refs_with_info: "i_ref (f (a_info a)) = i_ref (a_info a) \<Longrightarrow> attr_refs (with_info f a) = attr_refs a"
  by (cases a) simp

lemma refs_map_entry:
  assumes "\<And>a. attr_refs (g a) = attr_refs a"
  shows "map (\<lambda>(_, a). attr_refs a) (AList.map_entry k g lvl) = map (\<lambda>(_, a). attr_refs a) lvl"
  by (induction lvl) (auto simp: assms)

lemma change_at_refs:
  assumes "\<And>i. i_ref (f i) = i_ref i"
  shows "map (\<lambda>(_, a). attr_refs a) (change_at f segs lvl) = map (\<lambda>(_, a). attr_refs a) lvl"
proof (induction segs arbitrary: lvl)
  case (Cons seg segs)
  have step: "attr_refs (at_step seg g a) = attr_refs a" if "\<And>b. attr_refs (g b) = attr_refs b" for g a
    using that by (cases a) (auto simp: at_step_def split: option.splits)
  have inner: "attr_refs (with_fields (change_at f segs) a) = attr_refs a" for a
    using Cons.IH [of "a_fields a"] by (cases a) simp
  have leaf: "attr_refs (with_info f a) = attr_refs a" for a by (rule attr_refs_with_info) (rule assms)
  show ?case
  proof (cases segs)
    case Nil
    show ?thesis unfolding Nil change_at.simps by (rule refs_map_entry) (rule step, rule leaf)
  next
    case (Cons s ss)
    show ?thesis unfolding Cons change_at.simps by (rule refs_map_entry) (rule step, rule inner [unfolded Cons])
  qed
qed simp

lemma keys_map_entry: "keys (AList.map_entry k g lvl) = keys lvl"
  by (induction lvl) auto

lemma change_at_keys: "keys (change_at f segs lvl) = keys lvl"
  by (cases segs; cases "tl segs") (auto simp: keys_map_entry)

definition alike :: "ctype \<Rightarrow> ctype \<Rightarrow> bool" where
  "alike t u \<longleftrightarrow> t_name t = t_name u \<and> keys (t_attributes t) = keys (t_attributes u) \<and> type_refs t = type_refs u"

lemma alike_refl [simp]: "alike t t" by (simp add: alike_def)

lemma mark_alike: "mark_sensitive name path t = Inr u \<Longrightarrow> alike u t"
  by (auto simp: mark_sensitive_def alike_def change_at_keys type_refs_def change_at_refs split: option.splits)

lemma sensitive_entry_alike:
  assumes "apply_sensitive_entry e ts = Inr us" "distinct (map t_name ts)"
  shows "list_all2 alike us ts"
proof -
  obtain name fs where e: "e = (name, fs)" by fastforce
  obtain t t' where t: "map_of (index_types ts) name = Some t" "each_ok (mark_sensitive name) (sf_fields fs) t = Inr t'"
      "us = map (\<lambda>u. if t_name u = name then t' else u) ts"
    using assms(1) by (auto simp: e apply_sensitive_entry_def on_ok_Inr split: option.splits if_splits)
  have "alike t' t"
    by (rule each_ok_invariant [OF t(2), of "\<lambda>u. alike u t"]) (auto dest!: mark_alike simp: alike_def)
  moreover have "u = t" if "u \<in> set ts" "t_name u = name" for u
    using index_lookup [OF t(1)] that assms(2) by (auto simp: distinct_map inj_on_def)
  ultimately show ?thesis unfolding t(3) list_all2_map1 by (intro list.rel_refl_strong) auto
qed

lemma alike_leads:
  assumes "list_all2 alike us ts" "refs_lead ts"
  shows "refs_lead us"
proof -
  have bk: "\<exists>u \<in> set us. alike u t" if "t \<in> set ts" for t
    using assms(1) that unfolding list_all2_conv_all_nth in_set_conv_nth [of t] by (metis nth_mem)
  have forth: "\<exists>t \<in> set ts. alike u t" if "u \<in> set us" for u
    using assms(1) that unfolding list_all2_conv_all_nth in_set_conv_nth [of u] by (metis nth_mem)
  have "leads_in us r" if r: "leads_in ts r" for r
  proof -
    obtain t where t: "t \<in> set ts" "t_name t = r_type r" "r_attribute r \<in> set (keys (t_attributes t))"
      using r by (auto simp: leads_in_def)
    then obtain u where "u \<in> set us" "alike u t" using bk by blast
    with t show ?thesis unfolding leads_in_def alike_def by metis
  qed
  then show ?thesis using assms(2) forth unfolding refs_lead_def alike_def by metis
qed

lemma alike_names: "list_all2 alike us ts \<Longrightarrow> map t_name us = map t_name ts"
  by (induction us ts rule: list_all2_induct) (auto simp: alike_def)

lemma apply_sensitive_leads:
  assumes "apply_sensitive entries ts = Inr us" "distinct (map t_name ts)" "refs_lead ts"
  shows "refs_lead us \<and> map t_name us = map t_name ts"
proof -
  have "refs_lead vs' \<and> map t_name vs' = map t_name ts"
    if "refs_lead vs \<and> map t_name vs = map t_name ts" "apply_sensitive_entry e vs = Inr vs'" for e vs vs'
    using that sensitive_entry_alike [OF that(2)] assms(2) alike_leads alike_names by metis
  from each_ok_invariant [OF assms(1) [unfolded apply_sensitive_def], of "\<lambda>vs. refs_lead vs \<and> map t_name vs = map t_name ts"]
    this assms(3) show ?thesis by blast
qed

text \<open>
  C8. A generated catalog hangs together: its types, in the order of their names, each have a name of
  their own, and every reference of an attribute, at any depth, names a type the catalog serves and
  an attribute that type has, so that the host, which checks every reference, accepts it.
\<close>

theorem references_resolve:
  assumes "build_catalog text_of day commit load_warnings by_product ov lock docs = Inr g"
  shows "sorted_wrt (<) (map t_name (c_types (ge_catalog g)))
    \<and> (\<forall>t \<in> set (c_types (ge_catalog g)). \<forall>r \<in> set (type_refs t).
        \<exists>u \<in> set (c_types (ge_catalog g)). t_name u = r_type r \<and> r_attribute r \<in> set (keys (t_attributes u)))"
proof -
  obtain made ts ws us where b: "check_names_are_unique (map snd made) = None" "resolved_types made = (ts, ws)"
      "apply_sensitive (ov_sensitive ov) ts = Inr us" "c_types (ge_catalog g) = sort_key t_name us"
    using assms by (auto simp: build_catalog_def on_ok_Inr Let_def split: option.splits prod.splits)
  have d: "distinct (map t_name ts)" using unique_names [OF b(1)] resolved_types_lead(2) [OF b(2)] by (simp add: comp_def)
  have u: "refs_lead us" "map t_name us = map t_name ts"
    using apply_sensitive_leads [OF b(3) d resolved_types_lead(1) [OF b(2)]] by simp_all
  have "mset (map t_name (sort_key t_name us)) = mset (map t_name us)" by simp
  then have "distinct (map t_name (sort_key t_name us))" using d u(2) by (metis mset_eq_imp_distinct_iff)
  then have "sorted_wrt (<) (map t_name (sort_key t_name us))" by (simp add: strict_sorted_iff)
  moreover have "refs_lead (sort_key t_name us)" using u(1) by (simp add: refs_lead_def leads_in_def)
  ultimately show ?thesis unfolding b(4) refs_lead_def leads_in_def by blast
qed

section \<open>Evidence\<close>

lemma first_fault_None: "first_fault f xs = None \<longleftrightarrow> (\<forall>x \<in> set xs. f x = None)"
  by (induction xs) (auto split: option.splits)

text \<open>The word an observation uses for the way a mutation completes, and for a flag.\<close>

inductive word_for_await :: "await_kind \<Rightarrow> string \<Rightarrow> bool" where
  "word_for_await AwaitNone ''none''"
| "word_for_await AwaitLongRunning ''longrunning''"
| "word_for_await AwaitComputeOperation ''compute_operation''"

inductive word_for_flag :: "bool \<Rightarrow> string \<Rightarrow> bool" where
  "word_for_flag True ''true''"
| "word_for_flag False ''false''"

text \<open>One of the pieces of a text between its commas.\<close>

definition piece_of :: "string \<Rightarrow> string \<Rightarrow> bool" where
  "piece_of v whole \<longleftrightarrow> (\<exists>pre post. whole = pre @ v @ post \<and> CHR '','' \<notin> set v
     \<and> (pre = [] \<or> last pre = CHR '','') \<and> (post = [] \<or> hd post = CHR '',''))"

text \<open>The text of a type's setters: the fields of each and its method, sorted, between commas.\<close>

definition setters_text :: "setter list \<Rightarrow> string" where
  "setters_text ss = join_with '','' (sort (map (\<lambda>s. join_with ''+'' (s_fields s) @ ''='' @ s_method s) ss))"

text \<open>What a type says of a fact: the facts of a type, each with the field of the type it is read from.\<close>

inductive type_says :: "ctype \<Rightarrow> string \<Rightarrow> string \<Rightarrow> bool" for t where
  "t_create_verb t = v \<Longrightarrow> v \<noteq> [] \<Longrightarrow> type_says t ''create_verb'' v"
| "t_create_verb t = [] \<Longrightarrow> type_says t ''create_verb'' ''POST''"
| "t_create_url t = v \<Longrightarrow> v \<noteq> [] \<Longrightarrow> type_says t ''create_url'' v"
| "t_create_url t = [] \<Longrightarrow> t_base_url t = v \<Longrightarrow> type_says t ''create_url'' v"
| "word_for_await (t_await t) v \<Longrightarrow> type_says t ''create_await'' v"
| "t_update_verb t = v \<Longrightarrow> v \<noteq> [] \<Longrightarrow> type_says t ''update_verb'' v"
| "t_update_verb t = [] \<Longrightarrow> type_says t ''update_verb'' ''none''"
| "t_update_wrapper t \<noteq> [] \<Longrightarrow> v = ''body:'' @ t_update_mask_field t \<Longrightarrow> type_says t ''update_mask'' v"
| "t_update_wrapper t = [] \<Longrightarrow> t_update_mask t \<Longrightarrow> type_says t ''update_mask'' ''query''"
| "t_update_wrapper t = [] \<Longrightarrow> \<not> t_update_mask t \<Longrightarrow> type_says t ''update_mask'' ''none''"
| "t_update_verb t = [] \<Longrightarrow> type_says t ''update_await'' ''none''"
| "t_update_verb t \<noteq> [] \<Longrightarrow> t_update_await t = Some k \<Longrightarrow> word_for_await k v \<Longrightarrow> type_says t ''update_await'' v"
| "t_update_verb t \<noteq> [] \<Longrightarrow> t_update_await t = None \<Longrightarrow> word_for_await (t_await t) v \<Longrightarrow> type_says t ''update_await'' v"
| "t_delete_url t = v \<Longrightarrow> v \<noteq> [] \<Longrightarrow> type_says t ''delete_url'' v"
| "t_delete_url t = [] \<Longrightarrow> t_self_link t = v \<Longrightarrow> type_says t ''delete_url'' v"
| "t_delete_await t = Some k \<Longrightarrow> word_for_await k v \<Longrightarrow> type_says t ''delete_await'' v"
| "t_delete_await t = None \<Longrightarrow> word_for_await (t_await t) v \<Longrightarrow> type_says t ''delete_await'' v"
| "setters_text (t_setters t) = [] \<Longrightarrow> type_says t ''setters'' ''none''"
| "setters_text (t_setters t) = v \<Longrightarrow> v \<noteq> [] \<Longrightarrow> type_says t ''setters'' v"
| "piece_of v (setters_text (t_setters t)) \<Longrightarrow> setters_text (t_setters t) \<noteq> [] \<Longrightarrow> type_says t ''setters'' v"
| "t_lock_field t = v \<Longrightarrow> v \<noteq> [] \<Longrightarrow> type_says t ''lock_field'' v"
| "t_lock_field t = [] \<Longrightarrow> type_says t ''lock_field'' ''none''"
| "word_for_flag (t_patch_one_field t) v \<Longrightarrow> type_says t ''patch_one_field'' v"
| "t_clear_before_delete t = [] \<Longrightarrow> type_says t ''clear_before_delete'' ''none''"
| "t_clear_before_delete t \<noteq> [] \<Longrightarrow> v = join_with '','' (t_clear_before_delete t) \<Longrightarrow> type_says t ''clear_before_delete'' v"
| "v = format_int (t_timeout_seconds t) \<Longrightarrow> type_says t ''timeout'' v"

text \<open>What an attribute says of a fact.\<close>

inductive attr_says :: "attr \<Rightarrow> string \<Rightarrow> string \<Rightarrow> bool" for a where
  "word_for_flag (a_output a) v \<Longrightarrow> attr_says a ''output'' v"
| "word_for_flag (i_required (a_info a)) v \<Longrightarrow> attr_says a ''required'' v"
| "word_for_flag (i_force_new (a_info a)) v \<Longrightarrow> attr_says a ''immutable'' v"
| "word_for_flag (a_input_only a) v \<Longrightarrow> attr_says a ''input_only'' v"
| "word_for_flag (i_sensitive (a_info a)) v \<Longrightarrow> attr_says a ''sensitive'' v"
| "a_equivalence a = v \<Longrightarrow> attr_says a ''equivalence'' v"
| "word_for_flag (i_unordered (a_info a)) v \<Longrightarrow> attr_says a ''unordered'' v"
| "word_for_flag (i_send_with_update (a_info a)) v \<Longrightarrow> attr_says a ''send_with_update'' v"

text \<open>The attribute a path names: by its keys, from the outside in, each followed by \<open>[]\<close> for a list's element.\<close>

inductive named_by :: "level \<Rightarrow> string \<Rightarrow> attr \<Rightarrow> bool" where
  top: "map_of lvl n = Some a \<Longrightarrow> named_by lvl n a"
| elem: "map_of lvl n = Some a \<Longrightarrow> a_elem a = Some e \<Longrightarrow> named_by lvl (n @ ''[]'') e"
| field: "map_of lvl n = Some a \<Longrightarrow> named_by (a_fields a) p b \<Longrightarrow> named_by lvl (n @ ''.'' @ p) b"
| field_of_elem: "map_of lvl n = Some a \<Longrightarrow> a_elem a = Some e \<Longrightarrow> named_by (a_fields e) p b \<Longrightarrow> named_by lvl (n @ ''[].'' @ p) b"

lemma join_dot_Cons: "xs \<noteq> [] \<Longrightarrow> join_with ''.'' (x # xs) = x @ ''.'' @ join_with ''.'' xs"
  by (cases xs) auto

lemma step_named:
  assumes "step_into seg lvl = Some a"
  shows "named_by lvl seg a" "named_by (a_fields a) p b \<Longrightarrow> named_by lvl (seg @ ''.'' @ p) b"
proof -
  obtain m where m: "map_of lvl (trim_suffix seg ''[]'') = Some m" "(if has_suffix seg ''[]'' then a_elem m else Some m) = Some a"
    using assms by (auto simp: step_into_def bind_eq_Some_conv)
  show "named_by lvl seg a"
  proof (cases "has_suffix seg ''[]''")
    case True
    then have "seg = trim_suffix seg ''[]'' @ ''[]''" by (auto simp: has_suffix_def trim_suffix_def) (metis append_take_drop_id)
    with named_by.elem [OF m(1)] m(2) True show ?thesis by metis
  qed (use m named_by.top in \<open>auto simp: trim_suffix_def\<close>)
  assume b: "named_by (a_fields a) p b"
  show "named_by lvl (seg @ ''.'' @ p) b"
  proof (cases "has_suffix seg ''[]''")
    case True
    then have "seg = trim_suffix seg ''[]'' @ ''[]''" by (auto simp: has_suffix_def trim_suffix_def) (metis append_take_drop_id)
    moreover have "named_by lvl (trim_suffix seg ''[]'' @ ''[].'' @ p) b"
      using named_by.field_of_elem [OF m(1) _ b] m(2) True by simp
    ultimately show ?thesis by (metis append.assoc append_Cons append_Nil)
  qed (use m named_by.field [OF _ b] in \<open>auto simp: trim_suffix_def\<close>)
qed

lemma attr_at_named: "attr_at segs lvl = Some a \<Longrightarrow> named_by lvl (join_with ''.'' segs) a"
proof (induction segs lvl rule: attr_at.induct)
  case (3 seg s segs lvl)
  then obtain m where m: "step_into seg lvl = Some m" "attr_at (s # segs) (a_fields m) = Some a"
    by (auto simp: bind_eq_Some_conv)
  from step_named(2) [OF m(1) "3.IH" [OF m]] show ?case by simp
qed (auto intro: step_named(1))

lemma join_piece:
  "v \<in> set xs \<Longrightarrow> \<exists>pre post. join_with [d] xs = pre @ v @ post \<and> (pre = [] \<or> last pre = d) \<and> (post = [] \<or> hd post = d)"
proof (induction xs)
  case (Cons x xs)
  show ?case
  proof (cases "xs = []")
    case True
    with Cons.prems show ?thesis by (intro exI [of _ "[]"]) simp
  next
    case False
    then have join: "join_with [d] (x # xs) = x @ d # join_with [d] xs" by (cases xs) auto
    show ?thesis
    proof (cases "v = x")
      case True
      with join show ?thesis by (intro exI [of _ "[]"] exI [of _ "d # join_with [d] xs"]) simp
    next
      case False
      with Cons obtain pre post where p: "join_with [d] xs = pre @ v @ post" "pre = [] \<or> last pre = d" "post = [] \<or> hd post = d"
        by auto
      with join show ?thesis by (intro exI [of _ "x @ d # pre"] exI [of _ post]) auto
    qed
  qed
qed simp

lemma split_piece: "v \<in> set (split_on (CHR '','') s) \<Longrightarrow> piece_of v s"
  using join_piece [of v "split_on (CHR '','') s" "CHR '',''"] split_on_parts unfolding piece_of_def by auto

lemma await_word: "word_for_await k (await_name k)"
  by (cases k) (auto simp: await_name_def intro: word_for_await.intros)

lemma flag_word: "word_for_flag b (format_bool b)"
  by (cases b) (auto simp: format_bool_def intro: word_for_flag.intros)

lemma type_fact_says:
  assumes "f \<in> set type_facts"
  shows "type_says t f (type_fact_value t f)"
proof -
  note ty = type_says.intros
  have "type_says t ''create_verb'' (or_else (t_create_verb t) ''POST'')"
    using ty(1) [OF refl] ty(2) by (cases "t_create_verb t = []") (simp_all add: or_else_def)
  moreover have "type_says t ''create_url'' (create_template t)"
    using ty(3) [OF refl] ty(4) [OF _ refl] by (simp add: create_template_def)
  moreover have "type_says t ''update_verb'' (or_else (t_update_verb t) ''none'')"
    using ty(6) [OF refl] ty(7) by (cases "t_update_verb t = []") (simp_all add: or_else_def)
  moreover have "type_says t ''update_mask'' (if t_update_wrapper t \<noteq> [] then ''body:'' @ t_update_mask_field t
      else if t_update_mask t then ''query'' else ''none'')"
    using ty(8) [OF _ refl] ty(9,10) by simp
  moreover have "type_says t ''update_await'' (if t_update_verb t = [] then ''none'' else await_name (update_await_kind t))"
    using ty(11) ty(12,13) [OF _ _ await_word]
    by (cases "t_update_await t") (simp_all add: update_await_kind_def)
  moreover have "type_says t ''delete_url'' (or_else (t_delete_url t) (t_self_link t))"
    using ty(14) [OF refl] ty(15) [OF _ refl] by (cases "t_delete_url t = []") (simp_all add: or_else_def)
  moreover have "type_says t ''delete_await'' (await_name (delete_await_kind t))"
    using ty(16,17) [OF _ await_word] by (cases "t_delete_await t") (simp_all add: delete_await_kind_def)
  moreover have "type_says t ''setters'' (setters_value (t_setters t))"
    using ty(18) ty(19) [OF refl] by (cases "setters_text (t_setters t) = []") (simp_all add: setters_value_def or_else_def setters_text_def)
  moreover have "type_says t ''lock_field'' (or_else (t_lock_field t) ''none'')"
    using ty(21) [OF refl] ty(22) by (cases "t_lock_field t = []") (simp_all add: or_else_def)
  moreover have "type_says t ''clear_before_delete'' (if t_clear_before_delete t = [] then ''none'' else join_with '','' (t_clear_before_delete t))"
    using ty(24) ty(25) [OF _ refl] by simp
  moreover note ty(5) [OF await_word] ty(23) [OF flag_word] ty(26) [OF refl]
  ultimately show ?thesis using assms unfolding type_facts_def by (auto simp: type_fact_value_def)
qed

lemma attr_fact_says: "f \<in> set attribute_facts \<Longrightarrow> attr_says a f (fst (attr_fact_value a f))"
  unfolding attribute_facts_def
  by (auto simp: attr_fact_value_def Let_def intro!: attr_says.intros flag_word)

lemma says_upheld:
  assumes "catalog_says name t ob = Inr (ob_value ob)"
  shows "if ob_path ob = [] then type_says t (ob_fact ob) (ob_value ob)
    else \<exists>a. named_by (t_attributes t) (ob_path ob) a \<and> attr_says a (ob_fact ob) (ob_value ob)"
proof (cases "ob_path ob = []")
  case True
  with assms have f: "ob_fact ob \<in> set type_facts" and v: "ob_value ob = type_fact_value t (ob_fact ob)
      \<or> ob_fact ob = ''setters'' \<and> ob_value ob \<in> set (split_on (CHR '','') (type_fact_value t (ob_fact ob)))"
    by (auto simp: catalog_says_def Let_def split: if_splits)
  have "type_says t (ob_fact ob) (ob_value ob)"
  proof (cases "ob_value ob = type_fact_value t (ob_fact ob)")
    case True
    with type_fact_says [OF f] show ?thesis by simp
  next
    case False
    with v have s: "ob_fact ob = ''setters''" "ob_value ob \<in> set (split_on (CHR '','') (setters_value (t_setters t)))"
        "ob_value ob \<noteq> setters_value (t_setters t)" by (auto simp: type_fact_value_def)
    have "setters_text (t_setters t) \<noteq> []"
      using s(2,3) by (auto simp: setters_value_def or_else_def setters_text_def)
    with s split_piece type_says.intros(20) show ?thesis by (auto simp: setters_value_def or_else_def setters_text_def)
  qed
  with True show ?thesis by simp
next
  case False
  with assms obtain a where a: "ob_fact ob \<in> set attribute_facts" "attr_at_path (t_attributes t) (ob_path ob) = Some a"
      "ob_value ob = fst (attr_fact_value a (ob_fact ob))"
    by (auto simp: catalog_says_def split: if_splits option.splits)
  have "named_by (t_attributes t) (ob_path ob) a"
    using attr_at_named [of "path_segments (ob_path ob)"] a(2) by (simp add: attr_at_path_def path_segments_def)
  with a attr_fact_says False show ?thesis by auto
qed

text \<open>
  C32. Nothing a generated catalog says contradicts the evidence: every fact a live test observed
  of a type, or of one of its attributes, is what the catalog says of it, in the vocabulary of the
  thirteen facts of a type and the eight of an attribute (of the setters, all of them or one the
  test exercised), and the type is in the catalog.
\<close>

theorem observations_upheld:
  assumes "build_catalog text_of day commit load_warnings by_product ov lock docs = Inr g"
    and "(name, obs) \<in> set (ov_observed ov)" "ob \<in> set obs"
  shows "\<exists>t \<in> set (c_types (ge_catalog g)). t_name t = name
    \<and> (if ob_path ob = [] then type_says t (ob_fact ob) (ob_value ob)
       else \<exists>a. named_by (t_attributes t) (ob_path ob) a \<and> attr_says a (ob_fact ob) (ob_value ob))"
proof -
  obtain us where us: "apply_observed (ov_observed ov) us = None" "c_types (ge_catalog g) = sort_key t_name us"
    using assms(1) by (auto simp: build_catalog_def on_ok_Inr Let_def split: option.splits prod.splits)
  have "\<exists>t. map_of (index_types us) name = Some t \<and> first_fault (check_observation name t) obs = None"
    using us(1) assms(2) by (force simp: apply_observed_def first_fault_None split: option.splits)
  then obtain t where t: "map_of (index_types us) name = Some t" "check_observation name t ob = None"
    using assms(3) by (auto simp: first_fault_None)
  then have "catalog_says name t ob = Inr (ob_value ob)"
    by (auto simp: check_observation_def split: sum.splits if_splits)
  from says_upheld [OF this] index_lookup [OF t(1)] us(2) show ?thesis by auto
qed

section \<open>A catalog of one type\<close>

text \<open>The buckets once more, with a magic-modules resource whose \<open>acl\<close> refers to another bucket.\<close>

definition bucket_resource :: mm_resource where
  "bucket_resource = \<lparr>mm_name = ''B'', mm_description = [], mm_base_url = ''b'', mm_create_url = [], mm_update_url = [],
     mm_delete_url = [], mm_self_link = ''b/{{name}}'', mm_update_verb = ''PATCH'', mm_update_mask = False, mm_exclude = False,
     mm_min_version = [], mm_import_format = [], mm_parameters = [],
     mm_properties = [MField (no_field_facts\<lparr>mf_name := ''acl'', mf_api_name := ''acl'', mf_type := ''ResourceRef'',
       mf_resource := ''B'', mf_imports := ''acl''\<rparr>) [] None],
     mm_custom_code = [], mm_immutable = False, mm_delete_verb = [], mm_exclude_delete = False, mm_exclude_resource = False,
     mm_product = ''s'', mm_product_base_url = []\<rparr>"

definition bucket_tree :: document where
  "bucket_tree = bucket_document\<lparr>doc_resources := [(''b'', Resource (co_methods buckets) [])]\<rparr>"

definition bucket_pending :: pending where
  "bucket_pending = \<lparr>pe_doc = bucket_tree, pe_col = buckets, pe_mm = Some bucket_resource,
     pe_cand = \<lparr>ca_service = ''s'', ca_resource = ''b'', ca_scope = [], ca_qualified = False\<rparr>,
     pe_dec = \<lparr>d_tier = TierGeneric, d_reason = ''generic-safe''\<rparr>, pe_raw = ''B''\<rparr>"

definition referring_level :: level where
  "referring_level = projr (type_attributes bucket_tree bucket_insert (Some bucket_schema) [] [] (Some bucket_resource) None [])"

definition referring_located :: ctype where
  "referring_located = projr (find_await bucket_tree buckets bucket_insert (located_type bucket_tree buckets (Some bucket_resource)
     bucket_insert None (start_type bucket_tree buckets (Some bucket_resource) ''gcp.b'' (Some bucket_schema) [] referring_level)))"

definition referring_type :: ctype where
  "referring_type = finish_type bucket_tree buckets (Some bucket_resource) (addressed_type bucket_tree buckets bucket_insert
     (referring_located\<lparr>t_asset_type := ''s/B''\<rparr>))"

lemma referring_built: "build_type bucket_tree buckets (Some bucket_resource) ''gcp.b'' (no_overlay\<lparr>ov_observed := seen\<rparr>) = Inr referring_type"
proof -
  have c: "create_method buckets = Some bucket_insert" by code_simp
  have r: "resource_schema bucket_tree buckets bucket_insert = Inr (Some bucket_schema, [], [])" by code_simp
  have "\<not> isl (type_attributes bucket_tree bucket_insert (Some bucket_schema) [] [] (Some bucket_resource) None [])" by code_simp
  then have l: "type_attributes bucket_tree bucket_insert (Some bucket_schema) [] [] (Some bucket_resource) None [] = Inr referring_level"
    by (simp add: referring_level_def sum.collapse(2))
  have "\<not> isl (find_await bucket_tree buckets bucket_insert (located_type bucket_tree buckets (Some bucket_resource)
     bucket_insert None (start_type bucket_tree buckets (Some bucket_resource) ''gcp.b'' (Some bucket_schema) [] referring_level)))"
    by code_simp
  then have w: "find_await bucket_tree buckets bucket_insert (located_type bucket_tree buckets (Some bucket_resource)
     bucket_insert None (start_type bucket_tree buckets (Some bucket_resource) ''gcp.b'' (Some bucket_schema) [] referring_level))
     = Inr referring_located" by (simp add: referring_located_def sum.collapse(2))
  have a: "asset_type_of bucket_tree (Some bucket_schema) = ''s/B''" by code_simp
  have g: "refused_type buckets (Some bucket_resource) (addressed_type bucket_tree buckets bucket_insert
      (referring_located\<lparr>t_asset_type := ''s/B''\<rparr>)) = None" by code_simp
  let ?ov = "no_overlay\<lparr>ov_observed := seen\<rparr>"
  have o: "ov_rulings ?ov = []" "ov_patchable ?ov = []" "ov_aliases ?ov = []" by (simp_all add: no_overlay_def)
  show ?thesis
    unfolding build_type_def c option.case r on_ok_def sum.case prod.case Let_def bind.simps o map_of.simps l w apply_ruling_def
      a g referring_type_def ..
qed

definition bucket_shipped :: "pending \<times> ctype" where
  "bucket_shipped = (bucket_pending, referring_type\<lparr>t_tier := 1, t_tier_reason := ''generic-safe''\<rparr>)"

definition bucket_generated :: generated where
  "bucket_generated = \<lparr>ge_catalog = \<lparr>c_generated = [], c_mmv1_commit = [],
       c_types = sort_key t_name (fst (resolved_types [bucket_shipped])), c_discover_default = []\<rparr>,
     ge_warnings = sort_key wa_service (sort_key wa_resource (snd (resolved_types [bucket_shipped]))),
     ge_uncreatable = uncreatable_types (fst (resolved_types [bucket_shipped])),
     ge_unpatchable = sort_key up_type (List.map_filter (unpatched no_overlay)
       (zip [bucket_pending] (fst (resolved_types [bucket_shipped])))),
     ge_lock = [(''s/b'', ''gcp.b'')]\<rparr>"

lemma bucket_catalog:
  assumes "apply_observed seen (fst (resolved_types [bucket_shipped])) = None"
  shows "build_catalog (\<lambda>_. []) [] [] [] [(''s'', [bucket_resource])] (no_overlay\<lparr>ov_observed := seen\<rparr>) [] [bucket_tree]
    = Inr bucket_generated"
proof -
  let ?ov = "no_overlay\<lparr>ov_observed := seen\<rparr>"
  have d: "doc_name bucket_tree = ''s''" by code_simp
  have e: "resources_for [(''s'', [bucket_resource])] ?ov bucket_tree = [bucket_resource]"
    by (simp add: resources_for_def d no_overlay_def)
  have m: "prefer_exact_collection [bucket_resource] (co_path buckets) (match_resource [bucket_resource] (last (co_path buckets))
      (create_path_of buckets)) = Some bucket_resource" by code_simp
  have w: "classify buckets (Some bucket_resource) None = \<lparr>d_tier = TierGeneric, d_reason = ''generic-safe''\<rparr>" by code_simp
  have g: "to_lower (singular (last (co_path buckets))) = ''b''" "scope_segment (co_path buckets) = []" "mm_name bucket_resource = ''B''"
    by code_simp+
  have "collections_below path [] = []" for path by (simp add: collections_below.simps [of path])
  then have l: "collections bucket_tree = [buckets]"
    unfolding collections_def by (subst collections_below.simps) (simp add: bucket_tree_def bucket_document_def buckets_def)
  have h: "considered [bucket_resource] ?ov bucket_tree buckets = Inr bucket_pending"
    unfolding considered_def Let_def m option.case bind.simps d g by (simp add: no_overlay_def w bucket_pending_def)
  have a: "all_considered [(''s'', [bucket_resource])] ?ov [bucket_tree] = [Inr bucket_pending]"
    by (simp add: all_considered_def e l h)
  have c: "resolve_within_service_collisions [bucket_pending] = ([bucket_pending], [])" by code_simp
  have n: "assign [pe_cand bucket_pending] [] = Inr ([(pe_cand bucket_pending, ''gcp.b'')], [(''s/b'', ''gcp.b'')])" by code_simp
  have p: "pe_doc bucket_pending = bucket_tree" "pe_col bucket_pending = buckets" "pe_mm bucket_pending = Some bucket_resource"
      "d_tier (pe_dec bucket_pending) = TierGeneric" "d_reason (pe_dec bucket_pending) = ''generic-safe''"
    by (simp_all add: bucket_pending_def)
  have b: "built_pending (\<lambda>_. []) [(pe_cand bucket_pending, ''gcp.b'')] ?ov bucket_pending = Inr bucket_shipped"
    by (simp add: built_pending_def name_of_def p referring_built tier_number_def bucket_shipped_def)
  have u: "check_names_are_unique [snd bucket_shipped] = None" by (simp add: check_names_are_unique_def)
  have o: "ov_sensitive ?ov = []" "ov_observed ?ov = seen" "ov_discover_default ?ov = []" "unpatched ?ov = unpatched no_overlay"
    by (simp_all add: no_overlay_def unpatched_def fun_eq_iff)
  obtain ts ws where t: "resolved_types [bucket_shipped] = (ts, ws)" by (cases "resolved_types [bucket_shipped]")
  have k: "oks [Inr x] = [x]" "faults [Inr x] = []" for x :: 'b by (simp_all add: oks_def faults_def map_filter_def)
  have s: "on_ok (apply_sensitive [] ts) f = f ts" for f :: "ctype list \<Rightarrow> gerr + generated"
    by (simp add: apply_sensitive_def on_ok_def)
  have "apply_observed seen ts = None" using assms by (simp add: t)
  then show ?thesis
    unfolding build_catalog_def a Let_def k c prod.case list.map n on_ok_def [of "Inr _"] sum.case b u option.case t o s
      bucket_generated_def by (simp add: bucket_shipped_def k)
qed

lemma referring_attributes:
  "map (\<lambda>(n, a). (n, i_ref (a_info a), a_fields a, a_elem a)) (t_attributes referring_type)
     = [(''acl'', Some \<lparr>r_type = ''B'', r_attribute = ''acl''\<rparr>, [], None)]"
  by code_simp

lemma bucket_catalog_unobserved:
  "build_catalog (\<lambda>_. []) [] [] [] [(''s'', [bucket_resource])] no_overlay [] [bucket_tree] = Inr bucket_generated"
proof -
  have "no_overlay\<lparr>ov_observed := []\<rparr> = no_overlay" by (simp add: no_overlay_def)
  then show ?thesis using bucket_catalog [of "[]"] by (simp add: apply_observed_def)
qed

lemma bucket_resolved:
  "\<exists>v i. fst (resolved_types [bucket_shipped]) = [v] \<and> t_name v = ''gcp.b'' \<and> t_create_verb v = []
     \<and> t_attributes v = [(''acl'', Attr i [] None)] \<and> i_ref i = Some \<lparr>r_type = ''gcp.b'', r_attribute = ''acl''\<rparr>"
proof -
  obtain a where a: "t_attributes referring_type = [(''acl'', a)]" "i_ref (a_info a) = Some \<lparr>r_type = ''B'', r_attribute = ''acl''\<rparr>"
      "a_fields a = []" "a_elem a = None"
    using referring_attributes by (cases "t_attributes referring_type") auto
  then obtain i where i: "a = Attr i [] None" "i_ref i = Some \<lparr>r_type = ''B'', r_attribute = ''acl''\<rparr>" by (cases a) simp
  have v: "t_create_verb referring_type = []" by code_simp
  have n: "t_name referring_type = ''gcp.b''" by code_simp
  have m: "ref_by_product [bucket_shipped] = [(''s/B'', ''gcp.b'')]"
    by (simp add: ref_by_product_def bucket_shipped_def bucket_pending_def bucket_resource_def n map_filter_def)
  have x: "index_types [t] = [(t_name t, t)]" for t :: ctype by (simp add: index_types_def)
  let ?r = "\<lparr>r_type = ''gcp.b'', r_attribute = ''acl''\<rparr>"
  define u where "u = (snd bucket_shipped)\<lparr>t_attributes := [(''acl'', Attr (i\<lparr>i_ref := Some ?r\<rparr>) [] None)]\<rparr>"
  have one: "resolve_one_ref [bucket_shipped] ''s'' t c \<lparr>r_type = ''B'', r_attribute = ''acl''\<rparr> = (Some ?r, [])" for t c
    by (simp add: resolve_one_ref_def m)
  have p: "pe_mm (fst bucket_shipped) = Some bucket_resource" "mm_product bucket_resource = ''s''"
      "t_attributes (snd bucket_shipped) = [(''acl'', Attr i [] None)]"
    by (simp_all add: bucket_shipped_def bucket_pending_def bucket_resource_def a i)
  have two: "fst (resolve_refs [bucket_shipped] bucket_shipped) = u"
    by (simp add: resolve_refs_def case_prod_unfold p walk_level_refs_def i one u_def)
  have names: "t_name u = ''gcp.b''" "t_attributes u = [(''acl'', Attr (i\<lparr>i_ref := Some ?r\<rparr>) [] None)]"
    by (simp_all add: u_def bucket_shipped_def n)
  have three: "keep_ref [u] u c ?r = (Some ?r, [])" for c by (simp add: keep_ref_def x names has_key_iff)
  have "fst (resolved_types [bucket_shipped]) = [fst (walk_level_refs (keep_ref [u] u) u)]"
    by (simp add: resolved_types_def drop_refs_to_missing_attributes_def Let_def two)
  moreover have "t_attributes (fst (walk_level_refs (keep_ref [u] u) u)) = [(''acl'', Attr (i\<lparr>i_ref := Some ?r\<rparr>) [] None)]"
    by (simp add: walk_level_refs_def names three)
  moreover have "t_create_verb (fst (walk_level_refs (keep_ref [u] u) u)) = []"
    using v by (simp add: walk_level_refs_def Let_def u_def bucket_shipped_def)
  ultimately show ?thesis by (simp add: names)
qed

theorem references_resolve_witness:
  "build_catalog (\<lambda>_. []) [] [] [] [(''s'', [bucket_resource])] no_overlay [] [bucket_tree] = Inr bucket_generated
   \<and> concat (map type_refs (c_types (ge_catalog bucket_generated))) = [\<lparr>r_type = ''gcp.b'', r_attribute = ''acl''\<rparr>]
   \<and> (\<exists>u \<in> set (c_types (ge_catalog bucket_generated)). t_name u = ''gcp.b'' \<and> ''acl'' \<in> set (keys (t_attributes u)))"
proof -
  have r: "concat (map type_refs (c_types (ge_catalog bucket_generated))) = [\<lparr>r_type = ''gcp.b'', r_attribute = ''acl''\<rparr>]"
    using bucket_resolved by (auto simp: bucket_generated_def type_refs_def)
  have "\<lparr>r_type = ''gcp.b'', r_attribute = ''acl''\<rparr> \<in> set (concat (map type_refs (c_types (ge_catalog bucket_generated))))"
    unfolding r by simp
  then obtain t where "t \<in> set (c_types (ge_catalog bucket_generated))" "\<lparr>r_type = ''gcp.b'', r_attribute = ''acl''\<rparr> \<in> set (type_refs t)"
    by auto
  then have "\<exists>u \<in> set (c_types (ge_catalog bucket_generated)). t_name u = ''gcp.b'' \<and> ''acl'' \<in> set (keys (t_attributes u))"
    using conjunct2 [OF references_resolve [OF bucket_catalog_unobserved]] by fastforce
  with r bucket_catalog_unobserved show ?thesis by blast
qed

definition bucket_seen :: "string \<times> observation list" where
  "bucket_seen = (''gcp.b'',
     [\<lparr>ob_path = [], ob_fact = ''create_verb'', ob_value = ''POST'', ob_seen = ''2026-01-02 TestLiveStorage''\<rparr>])"

theorem observations_upheld_witness:
  "\<exists>t \<in> set (c_types (ge_catalog bucket_generated)). t_name t = ''gcp.b''
     \<and> type_says t ''create_verb'' ''POST''"
proof -
  have s: "seen_text ''2026-01-02 TestLiveStorage''" by code_simp
  have c: "\<not> isl (catalog_says ''gcp.b'' t (hd (snd bucket_seen))) \<and> projr (catalog_says ''gcp.b'' t (hd (snd bucket_seen))) = ''POST''"
    if "t_create_verb t = []" for t :: ctype
    by (simp add: catalog_says_def bucket_seen_def type_facts_def type_fact_value_def that or_else_def Let_def)
  obtain v where v: "fst (resolved_types [bucket_shipped]) = [v]" "t_name v = ''gcp.b''" "t_create_verb v = []"
    using bucket_resolved by blast
  have "check_observation ''gcp.b'' v (hd (snd bucket_seen)) = None"
    using c [OF v(3)] by (cases "catalog_says ''gcp.b'' v (hd (snd bucket_seen))") (simp_all add: check_observation_def bucket_seen_def s)
  then have "apply_observed [bucket_seen] (fst (resolved_types [bucket_shipped])) = None"
    by (simp add: v apply_observed_def index_types_def bucket_seen_def)
  from observations_upheld [OF bucket_catalog [OF this], of "''gcp.b''" "snd bucket_seen" "hd (snd bucket_seen)"]
  show ?thesis by (simp add: bucket_seen_def)
qed

end
