(* ===== verification/Reports.thy ===== *)
theory Reports
  imports Generate
begin

text \<open>
  The files a generation leaves beside the catalog: the warnings (internal/gen/build.go,
  \<open>WriteWarnings\<close>), the facts and the unknown facts (internal/gen/facts.go, \<open>RenderFacts\<close>,
  \<open>RenderUnknowns\<close>, \<open>WriteFacts\<close>) and the methods (internal/gen/methods.go), as the texts written;
  and the order in which they are written (cmd/gen-gcp/main.go, \<open>generate\<close>).
\<close>

abbreviation newline :: string where "newline \<equiv> [CHR 0x0A]"
abbreviation tab :: string where "tab \<equiv> [CHR 0x09]"

text \<open>Lines, each with its line feed; columns, with a tab between them.\<close>

definition unlines :: "string list \<Rightarrow> string" where
  "unlines ls = concat (map (\<lambda>l. l @ newline) ls)"

definition columns :: "string list \<Rightarrow> string" where
  "columns cs = join_with tab cs"

section \<open>Warnings\<close>

definition warnings_header :: "string list" where
  "warnings_header =
    [''# Types this catalog does not serve, and why.'',
     ''# GENERATED by cmd/gen-gcp. Do not hand-edit.'',
     ''#'',
     ''# tier 1 here means something ELSE shipped fine, not this exact entry: either'',
     ''# a reference on some other type was dropped because its target name was'',
     ''# ambiguous across products, or this collection was a legacy alias -- an'',
     ''# older URL for the SAME resource another (named) collection already serves.'',
     ''# tier 2 needs a ruling in gen/overlay.yaml naming every hook.'',
     ''# tier 3 is not representable at all.'',
     []]"

definition uncreatable_header :: "string list" where
  "uncreatable_header =
    [[],
     ''# Types that SHIP but cannot be created, and the create-url placeholder'',
     ''# that stops them. Each of these reads, imports, discovers and deletes;'',
     ''# only create is refused, and it is refused before any request is sent'',
     ''# rather than by Google answering a url with an empty segment in it.'',
     ''# A placeholder here names a value nothing supplies: not an instance'',
     ''# setting (project, region, zone, location), not a stored create'',
     ''# binding, and not a settable attribute of the type's own.'',
     []]"

definition unpatchable_header :: "string list" where
  "unpatchable_header =
    [[],
     ''# Types that SHIP and are REPLACED rather than patched, with the API's own'',
     ''# sentence saying why. Google publishes the whole resource as the patch'',
     ''# request schema and then limits it in prose, which Discovery cannot carry.'',
     ''# A patch that silently drops the field you changed never converges, so'',
     ''# these are refused until a `patchable:` entry in gen/overlay.yaml names'',
     ''# the fields the API really takes. Replacement is destructive, but it is'',
     ''# loud and it settles.'',
     []]"

definition warning_line :: "warning \<Rightarrow> string" where
  "warning_line w = columns [''tier'' @ format_int (tier_number (wa_tier w)), wa_service w @ ''/'' @ wa_resource w, wa_reason w]"

definition uncreatable_line :: "uncreatable \<Rightarrow> string" where
  "uncreatable_line u = columns [''nocreate'', uc_type u, uc_template u, ''needs '' @ join_with '', '' (uc_placeholders u)]"

definition unpatchable_line :: "unpatchable \<Rightarrow> string" where
  "unpatchable_line u = columns [''noupdate'', up_type u, up_says u]"

definition warnings_text :: "warning list \<Rightarrow> uncreatable list \<Rightarrow> unpatchable list \<Rightarrow> string" where
  "warnings_text ws us ps = unlines (warnings_header @ map warning_line ws
     @ (if us = [] then [] else uncreatable_header @ map uncreatable_line us)
     @ (if ps = [] then [] else unpatchable_header @ map unpatchable_line ps))"

section \<open>Facts\<close>

definition fact_columns :: "catalog_fact \<Rightarrow> string list" where
  "fact_columns f = [fa_type f, fa_path f, fa_fact f, fa_value f, join_with ''+'' (fa_sources f)]"

definition facts_text :: "catalog_fact list \<Rightarrow> string" where
  "facts_text fs = unlines (
    [''# Every fact this catalog acts on, and which inputs decided it. See docs/FACTS.md.'',
     ''# GENERATED by cmd/gen-gcp. Do not hand-edit.'',
     ''# A source prefixed ! said the opposite and was overruled.'',
     ''#'',
     columns [''# type'', ''path'', ''fact'', ''value'', ''sources'']]
    @ map (\<lambda>f. columns (fact_columns f)) fs)"

text \<open>The kinds of fact, the most frequent first, and by name where they are as frequent.\<close>

definition fact_counts :: "catalog_fact list \<Rightarrow> (string \<times> nat) list" where
  "fact_counts fs = (let count = (\<lambda>k. length (filter (\<lambda>f. fa_fact f = k) fs)) in
     map (\<lambda>k. (k, count k)) (sort_key (\<lambda>k. - int (count k)) (sort (remdups (map fa_fact fs)))))"

definition counts_line :: "string \<Rightarrow> catalog_fact list \<Rightarrow> string" where
  "counts_line name fs = ''# '' @ name @ '' by fact:''
     @ concat (map (\<lambda>(k, n). '' '' @ k @ '' '' @ digits_of n @ '','') (fact_counts fs))"

definition unknowns_text :: "catalog_fact list \<times> catalog_fact list \<Rightarrow> string" where
  "unknowns_text u = (case u of (terraform_only, unverified) \<Rightarrow> unlines (
    [''# Facts that decide a request or a replace, and that nothing has checked. See docs/FACTS.md.'',
     ''# GENERATED by cmd/gen-gcp. Do not hand-edit.'',
     ''#'',
     counts_line ''terraform-only'' terraform_only,
     counts_line ''unverified'' unverified,
     ''#'',
     ''# terraform-only: '' @ digits_of (length terraform_only)
       @ '' facts backed by magic-modules or a default alone. Live probes start here.'']
    @ map (\<lambda>f. columns (''terraform-only'' # fact_columns f)) terraform_only
    @ [''#'',
     ''# unverified: '' @ digits_of (length unverified)
       @ '' type facts Discovery backs and no observation or ruling has checked.'']
    @ map (\<lambda>f. columns (''unverified'' # fact_columns f)) unverified))"

text \<open>Both files, unless some fact is set without a source.\<close>

definition facts_files :: "(string \<Rightarrow> string \<Rightarrow> string \<Rightarrow> string list) \<Rightarrow> catalog \<Rightarrow> gerr + string \<times> string" where
  "facts_files sources c = (let fs = facts_of sources c in case unrecorded fs of
      f # bad \<Rightarrow> Inl (Errorf ''%d facts are set with no recorded source, first %s %s %s''
        [digits_of (length (f # bad)), fa_type f, fa_path f, fa_fact f])
    | [] \<Rightarrow> Inr (facts_text fs, unknowns_text (unknowns fs)))"

section \<open>Methods\<close>

definition required_queries :: "dmethod \<Rightarrow> string list" where
  "required_queries m = sort (map fst (filter (\<lambda>(_, p). pa_location p = ''query''
     \<and> (pa_required p \<or> ''required'' \<in> set (behaviors (pa_description p)))) (me_parameters m)))"

definition method_line :: "document \<Rightarrow> dmethod \<Rightarrow> string" where
  "method_line d m = columns [doc_name d, me_http_method m, flat_address m, await_name (await_of d (Some m)),
     join_with '','' (required_queries m), me_id m]"

definition methods_text :: "document list \<Rightarrow> string" where
  "methods_text docs = unlines (
    [''# Every Discovery method the catalog's documents publish. GENERATED by cmd/gen-gcp.'',
     columns [''# service'', ''verb'', ''path'', ''answers'', ''required_query'', ''id'']]
    @ sort (concat (map (\<lambda>d. concat (map (\<lambda>col. map (\<lambda>(_, m). method_line d m) (co_methods col)) (collections d))) docs)))"

section \<open>A generation\<close>

text \<open>
  Files written one after another, until one cannot be made or cannot be written. \<open>refused\<close> says what
  the file system answers to a write, and for the lock what \<open>Save\<close> makes of that answer.
\<close>

fun written :: "(string \<Rightarrow> gerr option) \<Rightarrow> (gerr + string \<times> string) list \<Rightarrow> (string \<times> string) list \<times> gerr option" where
  "written refused [] = ([], None)"
| "written refused (Inl e # fs) = ([], Some e)"
| "written refused (Inr (path, content) # fs) = (case refused path of
      Some e \<Rightarrow> ([], Some e)
    | None \<Rightarrow> (case written refused fs of (files, err) \<Rightarrow> ((path, content) # files, err)))"

record output_paths =
  op_catalog :: string
  op_warnings :: string
  op_facts :: string
  op_unknowns :: string
  op_methods :: string
  op_lock :: string

text \<open>The lock is saved as soon as every candidate has its name, before any type is built.\<close>

definition named_lock :: "(string \<times> mm_resource list) list \<Rightarrow> gen_overlay \<Rightarrow> lock \<Rightarrow> document list \<Rightarrow> gerr + lock" where
  "named_lock by_product ov lock docs =
     map_sum id snd (assign (map pe_cand (fst (resolve_within_service_collisions (oks (all_considered by_product ov docs))))) lock)"

text \<open>
  \<open>encode\<close> renders the catalog and \<open>encode_lock\<close> the lock, which are the standard library's JSON and
  gzip; \<open>sources\<close> is what was recorded of each fact.
\<close>

definition generation ::
  "(catalog \<Rightarrow> gerr + string) \<Rightarrow> (lock \<Rightarrow> string) \<Rightarrow> (string \<Rightarrow> string \<Rightarrow> string \<Rightarrow> string list) \<Rightarrow> output_paths
    \<Rightarrow> gerr + lock \<Rightarrow> gerr + generated \<Rightarrow> document list \<Rightarrow> (gerr + string \<times> string) list" where
  "generation encode encode_lock sources paths named built docs = (case named of
      Inl e \<Rightarrow> [Inl e]
    | Inr lock \<Rightarrow> Inr (op_lock paths, encode_lock lock) # (case built of
        Inl e \<Rightarrow> [Inl e]
      | Inr g \<Rightarrow>
          [map_sum id (Pair (op_catalog paths)) (encode (ge_catalog g)),
           Inr (op_warnings paths, warnings_text (ge_warnings g) (ge_uncreatable g) (ge_unpatchable g))]
          @ (case facts_files sources (ge_catalog g) of
               Inl e \<Rightarrow> [Inl e]
             | Inr (facts, unknown) \<Rightarrow> [Inr (op_facts paths, facts), Inr (op_unknowns paths, unknown)])
          @ [Inr (op_methods paths, methods_text docs)]))"

definition generate ::
  "(string \<Rightarrow> gerr option) \<Rightarrow> (catalog \<Rightarrow> gerr + string) \<Rightarrow> (lock \<Rightarrow> string)
    \<Rightarrow> (string \<Rightarrow> string \<Rightarrow> string \<Rightarrow> string list) \<Rightarrow> output_paths
    \<Rightarrow> (gerr \<Rightarrow> string) \<Rightarrow> string \<Rightarrow> string \<Rightarrow> warning list \<Rightarrow> (string \<times> mm_resource list) list
    \<Rightarrow> gen_overlay \<Rightarrow> lock \<Rightarrow> document list \<Rightarrow> (string \<times> string) list \<times> gerr option" where
  "generate refused encode encode_lock sources paths text_of day commit load_warnings by_product ov lock docs =
     written refused (generation encode encode_lock sources paths (named_lock by_product ov lock docs)
       (build_catalog text_of day commit load_warnings by_product ov lock docs) docs)"

end
