(* ===== verification/Docs.thy ===== *)
theory Docs
  imports Reports
begin

text \<open>
  The reference pages (cmd/gen-docs/main.go): the warnings file read back, the pages rendered from a
  catalog, and what is on disk compared with them. A page is its lines. \<open>kind_name\<close> is the host's name
  of a kind of value; \<open>shape\<close>, the digest of an attribute's JSON, is the standard library's. The files
  below the output directory are an association list from their slash-separated paths; a failing
  disk is not modelled. White space and letters are those of ASCII.
\<close>

section \<open>The warnings file\<close>

record warn_row =
  wr_tier :: string
  wr_subject :: string
  wr_template :: string
  wr_reason :: string

text \<open>The lines of a \<open>bufio.Scanner\<close>: without their ends, and none for an empty rest.\<close>

definition scanned :: "string \<Rightarrow> string list" where
  "scanned text = (let ls = split_on (CHR 0x0A) text in
     map (\<lambda>l. trim_suffix l [CHR 0x0D]) (if last ls = [] then butlast ls else ls))"

text \<open>A line the scanner's buffer cannot hold ends the scan.\<close>

definition max_token :: nat where "max_token = 65536"

definition lines_of :: "string \<Rightarrow> string list \<times> gerr option" where
  "lines_of text = (let fits = takeWhile (\<lambda>l. length l < max_token) (split_on (CHR 0x0A) text) in
     if fits = split_on (CHR 0x0A) text then (scanned text, None)
     else (map (\<lambda>l. trim_suffix l [CHR 0x0D]) fits, Some (Errorf ''bufio.Scanner: token too long'' [])))"

definition warn_fields :: "nat \<Rightarrow> string \<Rightarrow> gerr + warn_row" where
  "warn_fields n s = (case split_on (CHR 0x09) s of
      [a, b, c] \<Rightarrow> Inr \<lparr>wr_tier = a, wr_subject = b, wr_template = [], wr_reason = c\<rparr>
    | [a, b, c, d] \<Rightarrow> Inr \<lparr>wr_tier = a, wr_subject = b, wr_template = c, wr_reason = d\<rparr>
    | fs \<Rightarrow> Inl (Errorf ''line %d: %d tab-separated fields, want 3 or 4: %q'' [digits_of n, digits_of (length fs), s]))"

fun warn_rows :: "nat \<Rightarrow> string list \<Rightarrow> gerr + warn_row list" where
  "warn_rows n [] = Inr []"
| "warn_rows n (s # ls) =
     (if trim_space s = [] \<or> has_prefix s ''#'' then warn_rows (Suc n) ls
      else on_ok (warn_fields n s) (\<lambda>w. on_ok (warn_rows (Suc n) ls) (\<lambda>ws. Inr (w # ws))))"

definition parse_warnings :: "string \<Rightarrow> gerr + warn_row list" where
  "parse_warnings text = (case lines_of text of (ls, e) \<Rightarrow>
     on_ok (warn_rows 1 ls) (\<lambda>ws. case e of None \<Rightarrow> Inr ws | Some e \<Rightarrow> Inl e))"

text \<open>A reason up to its first colon or semicolon, and what follows.\<close>

definition cut_reason :: "string \<Rightarrow> (string \<times> string) option" where
  "cut_reason r = (case dropWhile (\<lambda>c. c \<notin> set '':;'') r of
      [] \<Rightarrow> None | _ # rest \<Rightarrow> Some (takeWhile (\<lambda>c. c \<notin> set '':;'') r, rest))"

definition category :: "string \<Rightarrow> string" where
  "category r = (case cut_reason r of
      Some (a, _) \<Rightarrow> trim_space a
    | None \<Rightarrow> if has_prefix r ''legacy alias of '' then ''legacy alias of a type that does ship'' else r)"

definition detail :: "string \<Rightarrow> string" where
  "detail r = (case cut_reason r of
      Some (_, b) \<Rightarrow> trim_space b
    | None \<Rightarrow> if has_prefix r ''legacy alias of '' then trim_prefix r ''legacy alias of '' else [])"

section \<open>Text\<close>

text \<open>The dash, the middle dot and the ellipsis of the pages, as UTF-8.\<close>

definition dash :: string where "dash = [CHR 0xE2, CHR 0x80, CHR 0x94]"
definition middle_dot :: string where "middle_dot = [CHR 0xC2, CHR 0xB7]"
definition ellipsis :: string where "ellipsis = [CHR 0xE2, CHR 0x80, CHR 0xA6]"

definition ticked :: "string \<Rightarrow> string" where
  "ticked s = ''`'' @ s @ ''`''"

definition scope_name :: "scope \<Rightarrow> string" where
  "scope_name s = (case s of ScopeRegional \<Rightarrow> ''regional'' | ScopeZonal \<Rightarrow> ''zonal'' | _ \<Rightarrow> ''global'')"

definition yes_no :: "bool \<Rightarrow> string" where
  "yes_no b = (if b then ''yes'' else ''**no**'')"

definition paren :: "string \<Rightarrow> string" where
  "paren s = (if s = [] then [] else '' ('' @ s @ '')'')"

definition ticked_list :: "string list \<Rightarrow> string" where
  "ticked_list ss = join_with '', '' (map ticked ss)"

definition escaped_char :: "char \<Rightarrow> string" where
  "escaped_char c = (if c \<in> set ''|[]'' then [CHR 0x5C, c] else if c = CHR ''<'' then ''&lt;'' else [c])"

definition flatten :: "string \<Rightarrow> string" where
  "flatten s = concat (map escaped_char (squeezed (trim_space s)))"

definition code_span :: "string \<Rightarrow> string" where
  "code_span s = concat (map (\<lambda>c. if c = CHR ''|'' then [CHR 0x5C, c] else [c]) s)"

definition upto_last :: "char \<Rightarrow> string \<Rightarrow> string option" where
  "upto_last d s = (case dropWhile (\<lambda>c. c \<noteq> d) (rev s) of [] \<Rightarrow> None | _ # r \<Rightarrow> Some (rev r))"

definition trim_right :: "char list \<Rightarrow> string \<Rightarrow> string" where
  "trim_right cs s = rev (dropWhile (\<lambda>c. c \<in> set cs) (rev s))"

definition cell :: "string \<Rightarrow> nat \<Rightarrow> string" where
  "cell s limit = (if s = [] then dash
     else if length s \<le> limit then s
     else (let short = take limit s;
               words = (case upto_last (CHR '' '') short of
                   Some w \<Rightarrow> if length w > limit div 2 then w else short
                 | None \<Rightarrow> short)
           in trim_right '' .,;:'' words @ '' '' @ ellipsis))"

definition first_sentence :: "string \<Rightarrow> string" where
  "first_sentence s = (let f = flatten s in case str_index f ''. '' of None \<Rightarrow> f | Some i \<Rightarrow> take (i + 1) f)"

definition anchor :: "string \<Rightarrow> string" where
  "anchor heading = List.map_filter (\<lambda>c. if is_digit c \<or> is_lower c \<or> c = CHR ''_'' then Some c
     else if c \<in> set '' -'' then Some (CHR ''-'') else None) (map to_lower_char heading)"

section \<open>Attributes\<close>

record attr_row =
  ro_path :: string
  ro_attr :: attr
  ro_same_as :: string

text \<open>What a row leads on to, by both edges of an attribute.\<close>

definition below_row :: "string \<Rightarrow> attr \<Rightarrow> (string \<times> attr) list" where
  "below_row path a = map (\<lambda>(n, f). (path @ ''.'' @ n, f)) (sort_key fst (a_fields a))
     @ (case a_elem a of None \<Rightarrow> [] | Some e \<Rightarrow> [(path @ ''[]'', e)])"

lemma size_below_row: "size_list (\<lambda>(_, b). size b) (below_row path a) < size a"
proof (cases a)
  case (Attr i fs e)
  have "size_list (\<lambda>(_, b). size b) (map (\<lambda>(n, f). (path @ ''.'' @ n, f)) (sort_key fst fs))
      = size_list (\<lambda>(_, b). size b) (sort_key fst fs)"
    by (simp add: size_list_conv_sum_list sum_list_Suc comp_def case_prod_unfold)
  also have "\<dots> = size_list (\<lambda>(_, b). size b) fs" by (rule size_sorted_level)
  also have "\<dots> \<le> size_list (size_prod (\<lambda>_. 0) size) fs"
    by (rule size_list_pointwise) (auto simp: case_prod_unfold)
  finally show ?thesis unfolding below_row_def Attr by (auto simp: size_list_append split: option.splits)
qed

text \<open>
  The walk goes depth first: \<open>todo\<close> holds what is still to be visited, nearest first, and \<open>seen\<close> where
  each shape that nests was first met.
\<close>

function (sequential) walk_rows ::
  "(attr \<Rightarrow> string) \<Rightarrow> (string \<times> attr) list \<Rightarrow> (string \<times> string) list \<Rightarrow> attr_row list" where
  "walk_rows shape [] seen = []"
| "walk_rows shape ((path, a) # todo) seen =
     (if a_fields a = [] \<and> a_elem a = None
      then \<lparr>ro_path = path, ro_attr = a, ro_same_as = []\<rparr> # walk_rows shape todo seen
      else case map_of seen (shape a) of
        Some prev \<Rightarrow> \<lparr>ro_path = path, ro_attr = a, ro_same_as = prev\<rparr> # walk_rows shape todo seen
      | None \<Rightarrow> \<lparr>ro_path = path, ro_attr = a, ro_same_as = []\<rparr>
          # walk_rows shape (below_row path a @ todo) ((shape a, path) # seen))"
  by pat_completeness auto
termination
  by (relation "measure (\<lambda>(_, todo, _). size_list (\<lambda>(_, b). size b) todo)")
    (auto simp: size_list_append less_Suc_eq_le less_imp_le size_below_row)

definition attr_rows :: "(attr \<Rightarrow> string) \<Rightarrow> ctype \<Rightarrow> attr_row list" where
  "attr_rows shape t = walk_rows shape (sort_key fst (t_attributes t)) []"

definition row_spellings :: "attr_row \<Rightarrow> string" where
  "row_spellings r = (if has_suffix (ro_path r) ''[]'' then dash
     else (let key = after_last (CHR ''.'') (ro_path r); c = a_canonical (ro_attr r);
               parts = map ticked (filter (\<lambda>a. a \<noteq> key) (i_aliases (a_info (ro_attr r))))
                 @ (if c \<noteq> [] \<and> c \<noteq> key then [''wire '' @ ticked c] else [])
           in if parts = [] then dash else join_with '', '' parts))"

definition row_notes :: "attr_row \<Rightarrow> string" where
  "row_notes r = (let i = a_info (ro_attr r); note = (\<lambda>b s. if b then [s] else []);
       n = note (i_force_new i) ''force new'' @ note (i_create_only i) ''create only'' @ note (i_sensitive i) ''sensitive''
         @ note (i_opaque i) ''opaque'' @ note (i_unordered i) ''unordered''
         @ (case i_ref i of None \<Rightarrow> [] | Some f \<Rightarrow> [''refers to '' @ ticked (r_type f @ ''.'' @ r_attribute f)])
         @ note (ro_same_as r \<noteq> []) (''same fields as '' @ ticked (ro_same_as r))
     in if n = [] then dash else join_with '', '' n)"

definition set_by :: "attr \<Rightarrow> string" where
  "set_by a = (if a_output a then ''output only'' else if i_required (a_info a) then ''required'' else ''optional'')"

definition table_row :: "string list \<Rightarrow> string" where
  "table_row cells = ''| '' @ join_with '' | '' cells @ '' |''"

definition attr_line :: "(kind \<Rightarrow> string) \<Rightarrow> attr_row \<Rightarrow> string" where
  "attr_line kind_name r = table_row [ticked (ro_path r), row_spellings r, ticked (kind_name (i_kind (a_info (ro_attr r)))),
     set_by (ro_attr r), row_notes r, cell (flatten (i_description (a_info (ro_attr r)))) 200]"

definition ref_lines :: "attr_row list \<Rightarrow> string list" where
  "ref_lines rows = List.map_filter (\<lambda>r. map_option (\<lambda>f.
     table_row [ticked (ro_path r), ticked (r_type f @ ''.'' @ r_attribute f)]) (i_ref (a_info (ro_attr r)))) rows"

end
