(* ===== verification/Pages.thy ===== *)
theory Pages
  imports Docs
begin

text \<open>
  The pages of the reference (cmd/gen-docs/main.go): the index, a page for each service and each type,
  the page of what is not served, and the files they are. Rows that the source sorts without regard to
  the order of equals keep it here.
\<close>

abbreviation banner :: string where
  "banner \<equiv> ''<!-- GENERATED by cmd/gen-docs from the embedded catalog. Do not edit by hand. -->''"

definition or_text :: "string \<Rightarrow> string \<Rightarrow> string" where
  "or_text s alt = (if s = [] then alt else s)"

definition can_create :: "ctype \<Rightarrow> bool" where
  "can_create t \<longleftrightarrow> unresolved_create_placeholders t = []"

section \<open>The index\<close>

definition count_not_shipped :: "warn_row list \<Rightarrow> nat" where
  "count_not_shipped ws = length (filter (\<lambda>w. wr_tier w \<noteq> ''nocreate'') ws)"

definition reading_guide :: "string list" where
  "reading_guide =
    [''- **What it can do** is derived from the catalog the same way `infrena explain` derives it. ''
       @ ''A type whose create url has a placeholder nothing can fill reports `create: no`, and the page names the placeholder.'',
     ''- **Attributes** lists every attribute at every depth. A `.` is a field of an object; a `[]` is the element of a list. ''
       @ ''Both are real nesting edges in the catalog and both are followed here.'',
     ''- **Also spelled** lists the alternative spellings configuration accepts for an attribute, ''
       @ ''including the snake_case alias emitted for every camelCase name.'',
     ''- **Set by** is `required` (you must write it), `optional` (you may) or `output only` (GCP chooses it; configuration may not set it).'',
     ''- A note of `same fields as x.y` means the attribute's subtree is identical to one already listed on the page. ''
       @ ''Several GCP schemas are recursive, and expanding them twice would repeat thousands of identical rows.'']"

definition render_index :: "catalog \<Rightarrow> (string \<times> ctype list) list \<Rightarrow> warn_row list \<Rightarrow> string" where
  "render_index c services ws = unlines (
    [banner, [], ''# GCP type reference'', [],
     ''This plugin serves **'' @ digits_of (length (c_types c)) @ '' types** across '' @ digits_of (length services)
       @ '' Google Cloud services. ''
       @ ''Every page below is generated from the catalog the plugin itself loads, so it says what the plugin does, not what it intends to do.'',
     [],
     ''- Catalog generated: '' @ c_generated c,
     ''- From magic-modules commit: '' @ ticked (c_mmv1_commit c),
     [],
     ''**[Types that are not served, and why](not-shipped.md)** '' @ dash @ '' '' @ digits_of (count_not_shipped ws) @ '' entries. ''
       @ ''Read that page first if the type you want is missing from this one.'',
     [], ''## Services'', [], ''| Service | Types |'', ''| --- | --- |'']
    @ map (\<lambda>(s, ts). table_row [''['' @ s @ '']('' @ s @ ''/README.md)'', digits_of (length ts)]) services
    @ [[], ''## How to read a type page'', []] @ reading_guide)"

section \<open>A service\<close>

definition render_service :: "string \<Rightarrow> ctype list \<Rightarrow> string" where
  "render_service service ts = unlines (
    [banner, [], ''# '' @ service, [],
     digits_of (length ts) @ '' type(s). [Back to the index](../README.md).'', [],
     ''| Type | Create | Update | Import | What it is |'', ''| --- | --- | --- | --- | --- |'']
    @ map (\<lambda>t. table_row [''['' @ ticked (t_name t) @ '']('' @ t_name t @ ''.md)'',
        yes_no (can_create t), yes_no (t_update_verb t \<noteq> []), yes_no (t_import_format t \<noteq> []),
        cell (first_sentence (t_description t)) 140]) ts)"

section \<open>A type\<close>

definition type_facts_lines :: "ctype \<Rightarrow> string list" where
  "type_facts_lines t =
    [''| | |'', ''| --- | --- |'', table_row [''Service'', t_service t], table_row [''Scope'', scope_name (t_scope t)]]
    @ (if t_asset_type t = [] then [] else [table_row [''Asset type'', ticked (t_asset_type t)]])
    @ (if t_parent_root t = [] then [] else [table_row [''Hangs off'', ticked (t_parent_root t)]])
    @ [table_row [''Tier'', format_int (t_tier t) @ paren (t_tier_reason t)],
       table_row [''Mutation timeout'', format_int (t_timeout_seconds t) @ ''s'']]"

definition create_how :: "ctype \<Rightarrow> string" where
  "create_how t = (let missing = unresolved_create_placeholders t; url = code_span (create_template t) in
     if missing = [] then ticked (''POST '' @ url)
     else ''the create url '' @ ticked url @ '' needs '' @ ticked_list missing
       @ '', which nothing supplies: no provider setting (project, region, zone, location), ''
       @ ''no stored binding, and no settable attribute of this type'')"

definition read_how :: "ctype \<Rightarrow> string" where
  "read_how t = (let how = ticked (''GET '' @ code_span (or_text (t_self_link t) (t_base_url t))) in
     if t_read_via t = [] then how else ''by '' @ ticked (t_read_via t) @ '': '' @ how)"

definition update_how :: "ctype \<Rightarrow> string" where
  "update_how t =
     (if t_update_verb t = [] then ''publishes no update method; every change to it replaces the resource''
      else ticked (t_update_verb t @ '' '' @ code_span (or_text (t_update_url t) (or_text (t_self_link t) (t_base_url t))))
        @ (if t_update_verb t = ''PUT'' then '', the whole resource: read first, with the change written in'' else [])
        @ (if t_update_mask t then '', with an update mask naming the changed fields'' else []))"

definition operation_lines :: "ctype \<Rightarrow> string list" where
  "operation_lines t =
    [[], ''## What it can do'', [], ''| Operation | Supported | How |'', ''| --- | --- | --- |'',
     table_row [''Create'', yes_no (can_create t), create_how t],
     table_row [''Read'', ''yes'', read_how t],
     table_row [''Update'', yes_no (t_update_verb t \<noteq> []), update_how t],
     table_row [''Delete'', ''yes'', ticked (''DELETE '' @ code_span (or_text (t_delete_url t) (or_text (t_self_link t) (t_base_url t))))],
     table_row [''Import'', yes_no (t_import_format t \<noteq> []),
       if t_import_format t = [] then ''no import id shape is published for this type'' else ''by id, see below'']]"

definition import_lines :: "ctype \<Rightarrow> string list" where
  "import_lines t = [[], ''## Import id'', []]
    @ (if t_import_format t = [] then [''This type cannot be imported: magic-modules publishes no id shape for it.'']
       else (let forms = map trim_space (split_on (CHR 0x0A) (t_import_format t)) in
         if length forms = 1 then ''```'' # forms @ [''```'']
         else [''Any one of these shapes is accepted, tried in order:'', [], ''```''] @ filter (\<lambda>f. f \<noteq> []) forms @ [''```'']))"

definition attribute_lines :: "(kind \<Rightarrow> string) \<Rightarrow> attr_row list \<Rightarrow> string list" where
  "attribute_lines kind_name rows =
    [[], ''## Attributes'', [],
     digits_of (length rows) @ '' attribute(s), at every depth. A `.` is a field of an object; `[]` is the element of a list.'', [],
     ''| Attribute | Also spelled | Type | Set by | Notes | Description |'', ''| --- | --- | --- | --- | --- | --- |'']
    @ map (attr_line kind_name) rows
    @ (if ref_lines rows = [] then []
       else [[], ''## References'', [], ''These attributes name another type. infrena uses them to order a plan.'', [],
         ''| Attribute | Points at |'', ''| --- | --- |''] @ ref_lines rows)"

definition render_type :: "(kind \<Rightarrow> string) \<Rightarrow> (attr \<Rightarrow> string) \<Rightarrow> ctype \<Rightarrow> string" where
  "render_type kind_name shape t = unlines (
    [banner, [], ''# '' @ ticked (t_name t), []]
    @ (if flatten (t_description t) = [] then [] else [flatten (t_description t), []])
    @ [''['' @ t_service t @ ''](README.md) '' @ middle_dot @ '' [all services](../README.md)'', []]
    @ type_facts_lines t @ operation_lines t @ import_lines t @ attribute_lines kind_name (attr_rows shape t))"

section \<open>What is not served\<close>

definition explain :: "string \<Rightarrow> string" where
  "explain c =
     (if c = ''unruled wire hooks'' then ''The upstream definition carries hooks that rewrite the request or response. ''
        @ ''Each of these ships as soon as a ruling in `gen/overlay.yaml` names every hook on the row and says what it does.''
      else if c = ''no insert or create method'' then ''The API publishes no way to create one. Most of these are read-only collections ''
        @ dash @ '' locations, operations, supported flags '' @ dash @ '' that exist to be listed, not managed.''
      else if c = ''no delete method''
      then ''The API publishes no way to delete one. A type infrena cannot remove is a type it cannot honestly manage.''
      else if c = ''magic-modules marks it exclude''
      then ''Upstream excludes the resource from generation, so there is no definition to work from.''
      else if c = ''min_version is beta, not ga'' then ''Only a beta API serves it. This plugin generates from GA surfaces.''
      else if c = ''legacy alias of a type that does ship''
      then ''An older url for a resource another type already serves, under the name in the Detail column. Use that type.''
      else if c = ''no get method''
      then ''The API publishes no get. Reading one means listing its parent, which needs a ruling with `read_via` in `gen/overlay.yaml`.''
      else ''Reported by the generator.'')"

text \<open>The reasons, the most frequent first, with the rows of each by subject.\<close>

definition reason_groups :: "warn_row list \<Rightarrow> (string \<times> warn_row list) list" where
  "reason_groups ws = (let of_reason = (\<lambda>n. filter (\<lambda>w. category (wr_reason w) = n) ws) in
     map (\<lambda>n. (n, sort_key wr_subject (of_reason n)))
       (sort_key (\<lambda>n. - int (length (of_reason n))) (sort (remdups (map (\<lambda>w. category (wr_reason w)) ws)))))"

definition not_shipped_intro :: "string list" where
  "not_shipped_intro =
    [banner, [], ''# Types this plugin does not serve'', [],
     ''If a GCP resource is not in the [reference](README.md), it is on this page with the reason. There is no third list.'', [],
     ''Every candidate type is sorted into a tier before anything is generated:'', [],
     ''- **tier 1** ships as it stands.'',
     ''- **tier 2** has provider-side wire hooks '' @ dash @ '' custom import, an encoder, a pre-update step '' @ dash
       @ '' that change what goes on the wire. ''
       @ ''A tier-2 type ships only once somebody writes a ruling in `gen/overlay.yaml` that names **every** hook on it and says what each one does. ''
       @ ''Naming most of them is not enough: an unnamed hook is behaviour this plugin would silently not perform.'',
     ''- **tier 3** is not representable at all '' @ dash @ '' no create method, no delete method, beta-only, or excluded upstream.'', [],
     ''So a type listed under \"unruled wire hooks\" below is not impossible. It is unwritten. ''
       @ ''The hooks named on its row are exactly what a ruling has to account for.'', []]"

definition reason_lines :: "string \<times> warn_row list \<Rightarrow> string list" where
  "reason_lines g = (case g of (n, ws) \<Rightarrow>
    [[], ''## '' @ n, [], explain n, [], ''| Type | Tier | Detail |'', ''| --- | --- | --- |'']
    @ map (\<lambda>w. table_row [ticked (wr_subject w), trim_prefix (wr_tier w) ''tier'', cell (detail (wr_reason w)) 200]) ws)"

definition uncreatable_lines :: "warn_row list \<Rightarrow> string list" where
  "uncreatable_lines ws = (if ws = [] then [] else
    [[], ''## Shipped, but cannot be created'', [],
     ''These types **are** in the reference. They read, import, discover and delete. ''
       @ ''What they cannot do is create, because their create url has a placeholder nothing supplies '' @ dash
       @ '' not an instance setting (project, region, zone, location), not a stored binding, and not a settable attribute of their own. ''
       @ ''The create is refused before a request is sent, rather than by Google answering a url with an empty segment in it.'', [],
     ''| Type | Create url | Needs |'', ''| --- | --- | --- |'']
    @ map (\<lambda>w. table_row [ticked (wr_subject w), ticked (code_span (wr_template w)), cell (trim_prefix (wr_reason w) ''needs '') 120])
        (sort_key wr_subject ws))"

definition render_not_shipped :: "warn_row list \<Rightarrow> string" where
  "render_not_shipped ws =
     (let shipped = filter (\<lambda>w. wr_tier w = ''nocreate'') ws;
          refused = filter (\<lambda>w. wr_tier w \<noteq> ''nocreate'') ws;
          groups = reason_groups refused
      in unlines (not_shipped_intro
        @ [''## Summary'', [], ''| Reason | Types |'', ''| --- | --- |'']
        @ map (\<lambda>(n, g). table_row [''['' @ n @ ''](#'' @ anchor n @ '')'', digits_of (length g)]) groups
        @ [table_row [''[shipped, but cannot be created](#shipped-but-cannot-be-created)'', digits_of (length shipped)], [],
           ''**'' @ digits_of (length refused) @ ''** types did not ship. **'' @ digits_of (length shipped)
             @ ''** more ship without a create.'']
        @ concat (map reason_lines groups) @ uncreatable_lines shipped))"

section \<open>The pages and the files\<close>

definition services_of :: "catalog \<Rightarrow> (string \<times> ctype list) list" where
  "services_of c = map (\<lambda>s. (s, sort_key t_name (filter (\<lambda>t. t_service t = s) (c_types c))))
     (sort (remdups (map t_service (c_types c))))"

definition service_pages ::
  "(kind \<Rightarrow> string) \<Rightarrow> (attr \<Rightarrow> string) \<Rightarrow> string \<times> ctype list \<Rightarrow> (string \<times> string) list" where
  "service_pages kind_name shape g = (case g of (s, ts) \<Rightarrow>
     (s @ ''/README.md'', render_service s ts) # map (\<lambda>t. (s @ ''/'' @ t_name t @ ''.md'', render_type kind_name shape t)) ts)"

definition pages :: "(kind \<Rightarrow> string) \<Rightarrow> (attr \<Rightarrow> string) \<Rightarrow> catalog \<Rightarrow> warn_row list \<Rightarrow> (string \<times> string) list" where
  "pages kind_name shape c ws = overlay []
     ([(''README.md'', render_index c (services_of c) ws), (''not-shipped.md'', render_not_shipped ws)]
      @ concat (map (service_pages kind_name shape) (services_of c)))"

text \<open>Every page is written, and a page no run produced is removed.\<close>

definition pruned :: "(string \<times> string) list \<Rightarrow> (string \<times> string) list \<Rightarrow> (string \<times> string) list" where
  "pruned ps files = filter (\<lambda>(rel, _). \<not> has_suffix rel ''.md'' \<or> has_key ps rel) files"

definition write_pages :: "(string \<times> string) list \<Rightarrow> (string \<times> string) list \<Rightarrow> (string \<times> string) list" where
  "write_pages ps files = pruned ps (overlay files (sort_key fst ps))"

text \<open>Every difference between the pages and the files, in order.\<close>

definition page_difference :: "(string \<times> string) list \<Rightarrow> string \<times> string \<Rightarrow> string option" where
  "page_difference files rp = (case map_of files (fst rp) of
      None \<Rightarrow> Some (''missing: '' @ fst rp)
    | Some got \<Rightarrow> if got = snd rp then None else Some (''out of date: '' @ fst rp))"

definition left_over :: "(string \<times> string) list \<Rightarrow> string \<times> string \<Rightarrow> string option" where
  "left_over ps file = (if has_suffix (fst file) ''.md'' \<and> \<not> has_key ps (fst file) then Some (''left over: '' @ fst file) else None)"

definition compare_pages :: "(string \<times> string) list \<Rightarrow> (string \<times> string) list \<Rightarrow> string list" where
  "compare_pages ps files =
     sort (List.map_filter (page_difference files) (sort_key fst ps) @ List.map_filter (left_over ps) files)"

end
