(* ===== verification/Commands.thy ===== *)
theory Commands
  imports Pages Generated
begin

text \<open>
  The two generators as they are run (cmd/gen-gcp/main.go and cmd/gen-docs/main.go, \<open>main\<close>): what each
  leaves on disk, and what a check that writes nothing reports. The flags are arguments, a failure is
  the error value the process ends with, and the line each prints when it is done is left out.
\<close>

section \<open>The reference\<close>

definition docs_command ::
  "(kind \<Rightarrow> string) \<Rightarrow> (attr \<Rightarrow> string) \<Rightarrow> bool \<Rightarrow> string \<Rightarrow> gerr + catalog \<Rightarrow> gerr + string
    \<Rightarrow> (string \<times> string) list \<Rightarrow> (string \<times> string) list \<times> string list \<times> gerr option" where
  "docs_command kind_name shape check warn_path loaded raw files = (case loaded of
      Inl e \<Rightarrow> (files, [], Some (Wrapf ''gen-docs: load catalog: %v'' [] e))
    | Inr c \<Rightarrow> (case raw of
        Inl e \<Rightarrow> (files, [], Some (Wrapf ''gen-docs: %v'' [] e))
      | Inr text \<Rightarrow> (case parse_warnings text of
          Inl e \<Rightarrow> (files, [], Some (Wrapf ''gen-docs: %s: %v'' [warn_path] e))
        | Inr ws \<Rightarrow> (let ps = pages kind_name shape c ws in
            if check then (let diff = compare_pages ps files in
              (files, diff, if diff = [] then None
                else Some (Errorf ''gen-docs: %d page(s) out of date; run `go run ./cmd/gen-docs`'' [digits_of (length diff)])))
            else (write_pages ps files, [], None)))))"

section \<open>The catalog\<close>

text \<open>Each committed file and its scratch file, in the order they are compared.\<close>

definition output_pairs :: "output_paths \<Rightarrow> output_paths \<Rightarrow> (string \<times> string) list" where
  "output_pairs paths scratch =
    [(op_catalog paths, op_catalog scratch), (op_warnings paths, op_warnings scratch), (op_facts paths, op_facts scratch),
     (op_unknowns paths, op_unknowns scratch), (op_methods paths, op_methods scratch), (op_lock paths, op_lock scratch)]"

definition stale :: "(string \<times> string) list \<Rightarrow> (string \<times> string) list \<Rightarrow> (string \<times> string) list \<Rightarrow> string list" where
  "stale files scratch_files pairs = map fst (filter (\<lambda>(p, q). case (map_of files p, map_of scratch_files q) of
      (Some have, Some want) \<Rightarrow> have \<noteq> want | _ \<Rightarrow> True) pairs)"

text \<open>
  \<open>run\<close> is the generation, given where to write; a check gives it a scratch directory with the committed
  lock in it, so that the lock it saves is the copy.
\<close>

definition check_generation ::
  "(output_paths \<Rightarrow> (string \<times> string) list \<times> gerr option) \<Rightarrow> output_paths \<Rightarrow> output_paths
    \<Rightarrow> (string \<times> string) list \<Rightarrow> gerr + string list" where
  "check_generation run paths scratch files = (case map_of files (op_lock paths) of
      None \<Rightarrow> Inl (Errorf ''open %s: no such file or directory'' [op_lock paths])
    | Some lock \<Rightarrow> (case run scratch of
        (out, Some e) \<Rightarrow> Inl e
      | (out, None) \<Rightarrow> Inr (stale files (overlay [(op_lock scratch, lock)] out) (output_pairs paths scratch))))"

section \<open>What a generation leaves\<close>

definition path_list :: "output_paths \<Rightarrow> string list" where
  "path_list ps = [op_lock ps, op_catalog ps, op_warnings ps, op_facts ps, op_unknowns ps, op_methods ps]"

lemma written_these: "written (\<lambda>_. None) (map Inr out) = (out, None)"
  by (induction out) auto

lemma written_all: "written (\<lambda>_. None) fs = (out, None) \<longleftrightarrow> fs = map Inr out"
proof
  assume "written (\<lambda>_. None) fs = (out, None)"
  then show "fs = map Inr out"
  proof (induction fs arbitrary: out)
    case (Cons f fs)
    then obtain p c where f: "f = Inr (p, c)" by (cases f) auto
    obtain files err where w: "written (\<lambda>_. None) fs = (files, err)" by (cases "written (\<lambda>_. None) fs")
    with Cons.prems f have "err = None" "out = (p, c) # files" by auto
    with Cons.IH [of files] w f show ?case by simp
  qed simp
qed (simp add: written_these)

lemma six: "length cs = 6 \<longleftrightarrow> (\<exists>a b c d e f. cs = [a, b, c, d, e, f])"
  by (auto simp: numeral_eq_Suc length_Suc_conv)

lemma generation_outputs:
  assumes "generation encode encode_lock sources paths named made docs = map Inr out"
  shows "\<exists>cs. length cs = 6 \<and> out = zip (path_list paths) cs
    \<and> (\<forall>ps. generation encode encode_lock sources ps named made docs = map Inr (zip (path_list ps) cs))"
proof -
  obtain lock where n: "named = Inr lock" using assms by (cases named) (auto simp: generation_def Cons_eq_map_conv)
  obtain g where b: "made = Inr g" using assms n by (cases made) (auto simp: generation_def Cons_eq_map_conv)
  obtain blob where e: "encode (ge_catalog g) = Inr blob"
    using assms n b by (cases "encode (ge_catalog g)") (auto simp: generation_def Cons_eq_map_conv)
  obtain f u where fu: "facts_files sources (ge_catalog g) = Inr (f, u)"
    using assms n b e by (cases "facts_files sources (ge_catalog g)") (auto simp: generation_def Cons_eq_map_conv)
  let ?cs = "[encode_lock lock, blob, warnings_text (ge_warnings g) (ge_uncreatable g) (ge_unpatchable g), f, u, methods_text docs]"
  have all: "generation encode encode_lock sources ps named made docs = map Inr (zip (path_list ps) ?cs)" for ps
    by (simp add: generation_def path_list_def n b e fu)
  with assms have "map (Inr :: _ \<Rightarrow> gerr + _) out = map Inr (zip (path_list paths) ?cs)" by simp
  then have "out = zip (path_list paths) ?cs" by (rule map_injective) (simp add: inj_def)
  with all show ?thesis by (intro exI [of _ ?cs]) simp
qed

lemma stale_nothing: "stale files out pairs = [] \<longleftrightarrow> (\<forall>(p, q) \<in> set pairs. \<exists>c. map_of files p = Some c \<and> map_of out q = Some c)"
  by (auto simp: stale_def filter_empty_conv split: option.splits)

lemma zip_found:
  assumes "length ks = length cs" "distinct ks" "i < length ks"
  shows "map_of (overlay m (zip ks cs)) (ks ! i) = Some (cs ! i)"
proof -
  have "wf_map (zip ks cs)" using assms(1,2) by (simp add: wf_map_def)
  moreover have "map_of (zip ks cs) (ks ! i) = Some (cs ! i)" using assms by (simp add: map_of_zip_nth)
  ultimately show ?thesis by (simp add: map_of_overlay)
qed

text \<open>
  C35. The check of the committed files says exactly whether a generation would change one of them: when
  the generation succeeds, it reports nothing when each of the six files on disk already holds what the
  generation would write there, and something otherwise.
\<close>

theorem check_finds_changes:
  assumes "generate (\<lambda>_. None) encode encode_lock sources paths text_of day commit load_warnings by_product ov lock docs = (out, None)"
    and "distinct (path_list scratch)" "map_of files (op_lock paths) = Some saved"
  shows "check_generation (\<lambda>ps. generate (\<lambda>_. None) encode encode_lock sources ps text_of day commit load_warnings by_product ov lock docs)
      paths scratch files = Inr []
    \<longleftrightarrow> (\<forall>(p, content) \<in> set out. map_of files p = Some content)"
proof -
  let ?gen = "\<lambda>ps. generation encode encode_lock sources ps (named_lock by_product ov lock docs)
    (build_catalog text_of day commit load_warnings by_product ov lock docs) docs"
  have "?gen paths = map Inr out" using assms(1) unfolding generate_def written_all .
  from generation_outputs [OF this] obtain cs where cs: "length cs = 6" "out = zip (path_list paths) cs"
    "?gen scratch = map Inr (zip (path_list scratch) cs)" by blast
  then have run: "generate (\<lambda>_. None) encode encode_lock sources scratch text_of day commit load_warnings by_product ov lock docs
      = (zip (path_list scratch) cs, None)" unfolding generate_def written_all by simp
  let ?m = "overlay [(op_lock scratch, saved)] (zip (path_list scratch) cs)"
  have found: "map_of ?m (path_list scratch ! i) = Some (cs ! i)" if "i < 6" for i
    using that assms(2) cs(1) by (intro zip_found) (simp_all add: path_list_def)
  obtain c0 c1 c2 c3 c4 c5 where c: "cs = [c0, c1, c2, c3, c4, c5]" using cs(1) unfolding six by blast
  have "map_of ?m (op_lock scratch) = Some c0" "map_of ?m (op_catalog scratch) = Some c1" "map_of ?m (op_warnings scratch) = Some c2"
    "map_of ?m (op_facts scratch) = Some c3" "map_of ?m (op_unknowns scratch) = Some c4" "map_of ?m (op_methods scratch) = Some c5"
    using found [of 0] found [of 1] found [of 2] found [of 3] found [of 4] found [of 5] unfolding c
    by (simp_all add: path_list_def numeral_eq_Suc)
  then have "stale files ?m (output_pairs paths scratch) = [] \<longleftrightarrow> (\<forall>(p, content) \<in> set out. map_of files p = Some content)"
    unfolding stale_nothing cs(2) c by (auto simp: output_pairs_def path_list_def)
  then show ?thesis using assms(3) run by (simp add: check_generation_def)
qed

section \<open>A catalog of one bucket\<close>

lemma lock_when_built:
  assumes "build_catalog text_of day commit load_warnings by_product ov lock docs = Inr g"
  shows "named_lock by_product ov lock docs = Inr (ge_lock g)"
  using assms unfolding build_catalog_def named_lock_def Let_def on_ok_Inr
  by (auto simp: on_ok_Inr Let_def split: option.splits prod.splits)

lemma one_source: "f \<in> set (facts_of (\<lambda>_ _ _. [s]) c) \<Longrightarrow> has_prefix s lost_mark \<or> fa_sources f = [s]"
  by (auto simp: facts_of_def facts_of_type_def winning_sources_def Let_def List.map_filter_def split: prod.splits if_splits)

lemma facts_when_sourced:
  assumes "\<not> has_prefix s lost_mark" "s \<noteq> ''unrecorded''"
  shows "\<exists>f u. facts_files (\<lambda>_ _ _. [s]) c = Inr (f, u)"
proof -
  have "unrecorded (facts_of (\<lambda>_ _ _. [s]) c) = []"
    using one_source [of _ s c] assms by (force simp: unrecorded_def filter_empty_conv)
  then show ?thesis by (simp add: facts_files_def Let_def)
qed

definition committed_paths :: output_paths where
  "committed_paths = \<lparr>op_catalog = ''catalog.json.gz'', op_warnings = ''warnings.txt'', op_facts = ''facts.tsv'',
     op_unknowns = ''unknowns.txt'', op_methods = ''methods.tsv'', op_lock = ''names.lock.json''\<rparr>"

definition scratch_paths :: output_paths where
  "scratch_paths = \<lparr>op_catalog = ''tmp/catalog.json.gz'', op_warnings = ''tmp/warnings.txt'', op_facts = ''tmp/facts.tsv'',
     op_unknowns = ''tmp/unknowns.txt'', op_methods = ''tmp/methods.tsv'', op_lock = ''tmp/names.lock.json''\<rparr>"

abbreviation generate_bucket :: "output_paths \<Rightarrow> (string \<times> string) list \<times> gerr option" where
  "generate_bucket ps \<equiv> generate (\<lambda>_. None) (\<lambda>_. Inr ''blob'') (\<lambda>_. ''names'') (\<lambda>_ _ _. [''discovery'']) ps
     (\<lambda>_. []) [] [] [] [(''s'', [bucket_resource])] no_overlay [] [bucket_tree]"

lemma bucket_outputs: "\<exists>cs. length cs = 6 \<and> generate_bucket committed_paths = (zip (path_list committed_paths) cs, None)"
proof -
  obtain f u where fu: "facts_files (\<lambda>_ _ _. [''discovery'']) (ge_catalog bucket_generated) = Inr (f, u)"
    using facts_when_sourced [of "''discovery''" "ge_catalog bucket_generated"] by (auto simp: has_prefix_def lost_mark_def)
  let ?named = "named_lock [(''s'', [bucket_resource])] no_overlay [] [bucket_tree]"
  let ?g = "generation (\<lambda>_. Inr ''blob'') (\<lambda>_. ''names'') (\<lambda>_ _ _. [''discovery'']) committed_paths ?named (Inr bucket_generated) [bucket_tree]"
  have "\<exists>out. ?g = map Inr out"
    unfolding lock_when_built [OF bucket_catalog_unobserved] generation_def
    by (rule exI [of _ "zip (path_list committed_paths) [''names'', ''blob'', warnings_text (ge_warnings bucket_generated)
      (ge_uncreatable bucket_generated) (ge_unpatchable bucket_generated), f, u, methods_text [bucket_tree]]"])
      (simp add: fu path_list_def)
  then obtain out where out: "?g = map Inr out" ..
  from generation_outputs [OF this] obtain cs where "length cs = 6" "out = zip (path_list committed_paths) cs" by blast
  with out show ?thesis unfolding generate_def bucket_catalog_unobserved written_all by blast
qed

theorem check_finds_changes_witness:
  "\<exists>out. generate_bucket committed_paths = (out, None) \<and> out \<noteq> []
    \<and> check_generation generate_bucket committed_paths scratch_paths out = Inr []"
proof -
  obtain cs where cs: "length cs = 6" "generate_bucket committed_paths = (zip (path_list committed_paths) cs, None)"
    using bucket_outputs by blast
  let ?out = "zip (path_list committed_paths) cs"
  have d: "distinct (path_list committed_paths)" "distinct (path_list scratch_paths)"
    by (simp_all add: path_list_def committed_paths_def scratch_paths_def)
  obtain c0 c1 c2 c3 c4 c5 where c: "cs = [c0, c1, c2, c3, c4, c5]" using cs(1) unfolding six by blast
  have saved: "map_of ?out (op_lock committed_paths) = Some c0" by (simp add: c path_list_def)
  have "wf_map ?out" using d(1) cs(1) by (simp add: wf_map_def path_list_def)
  then have "\<forall>(p, content) \<in> set ?out. map_of ?out p = Some content" by (auto simp: wf_map_def)
  with check_finds_changes [OF cs(2) d(2) saved] have
    "check_generation generate_bucket committed_paths scratch_paths ?out = Inr []" by blast
  moreover have "?out \<noteq> []" by (simp add: c path_list_def)
  ultimately show ?thesis using cs(2) by blast
qed

end
