(* ===== verification/Credentials.thy ===== *)
theory Credentials
  imports Plugin
begin

text \<open>
  Who an instance is (internal/gcpplugin/credentials.go) and how it is made (internal/gcpplugin/plugin.go).
  Google's credentials library, the file system, the network and the parsing of urls are records of
  functions. \<open>oauth2.ReuseTokenSource\<close>, which keeps a token until shortly before it expires, is that
  library's: what is modelled is the \<open>Token\<close> it calls. A token's expiry is its time in nanoseconds.
\<close>

section \<open>Token sources\<close>

definition cloud_platform_scope :: string where
  "cloud_platform_scope = ''https://www.googleapis.com/auth/cloud-platform''"

record token =
  tk_access :: string
  tk_type :: string
  tk_expiry :: int

text \<open>\<open>'c\<close> is a credential of Google's library.\<close>

datatype 'c token_source = OwnToken 'c | ImpersonatedToken 'c string | StaticToken token

record 'c google_auth =
  ga_default :: "string \<Rightarrow> gerr + 'c"
  ga_read_file :: "string \<Rightarrow> gerr + string"
  ga_from_json :: "string \<Rightarrow> string \<Rightarrow> gerr + 'c"

definition base_token_source :: "'c google_auth \<Rightarrow> plugin_instance \<Rightarrow> gerr + 'c" where
  "base_token_source g inst =
     (if in_credentials_file inst = [] then (case ga_default g cloud_platform_scope of
          Inl e \<Rightarrow> Inl (Wrapf ''provider %q: no Application Default Credentials: %w'' [in_name inst] e)
        | Inr c \<Rightarrow> Inr c)
      else (case ga_read_file g (in_credentials_file inst) of
          Inl e \<Rightarrow> Inl (Wrapf ''provider %q: credentials_file: %w'' [in_name inst] e)
        | Inr text \<Rightarrow> (case ga_from_json g text cloud_platform_scope of
            Inl e \<Rightarrow> Inl (Wrapf ''provider %q: credentials_file is not a credential Google recognizes: %w'' [in_name inst] e)
          | Inr c \<Rightarrow> Inr c)))"

definition token_source_of :: "'c google_auth \<Rightarrow> plugin_instance \<Rightarrow> gerr + 'c token_source" where
  "token_source_of g inst = (case base_token_source g inst of
      Inl e \<Rightarrow> Inl e
    | Inr base \<Rightarrow> Inr (if in_impersonate inst = [] then OwnToken base else ImpersonatedToken base (in_impersonate inst)))"

section \<open>Impersonation\<close>

definition impersonation_timeout :: int where "impersonation_timeout = 30 * second"

definition iam_credentials_base_url :: string where
  "iam_credentials_base_url = ''https://iamcredentials.googleapis.com/v1''"

definition max_token_answer :: nat where "max_token_answer = 2 ^ 20"

text \<open>
  The request carries the base token as its authorization, and ends with the earlier of the context's
  end and the timeout. An answer is its status and what reading its body gives.
\<close>

record token_request =
  tq_method :: string
  tq_url :: string
  tq_content_type :: string
  tq_scope :: "string list"
  tq_auth :: token
  tq_ends :: int

record token_answer =
  ta_status :: int
  ta_status_text :: string
  ta_body :: "gerr + string"

text \<open>
  What impersonation calls, over a state \<open>'s\<close> of the world: the base token, the clock, the check of
  the url, the round trip, the decoding of the answer to its token and the time it expires, and the
  reading of that time.
\<close>

record 's token_world =
  tw_base :: "'s \<Rightarrow> (gerr + token) \<times> 's"
  tw_now :: "'s \<Rightarrow> int"
  tw_refuses :: "string \<Rightarrow> gerr option"
  tw_send :: "token_request \<Rightarrow> 's \<Rightarrow> (gerr + token_answer) \<times> 's"
  tw_decode :: "string \<Rightarrow> gerr + string \<times> string"
  tw_parse_time :: "string \<Rightarrow> gerr + int"

definition round_trip_ends :: "int \<Rightarrow> int option \<Rightarrow> int" where
  "round_trip_ends now ends = (case ends of None \<Rightarrow> now + impersonation_timeout | Some t \<Rightarrow> min t (now + impersonation_timeout))"

definition impersonation_url :: "string \<Rightarrow> string" where
  "impersonation_url target = iam_credentials_base_url @ ''/projects/-/serviceAccounts/'' @ target @ '':generateAccessToken''"

definition impersonation_request :: "string \<Rightarrow> token \<Rightarrow> int \<Rightarrow> token_request" where
  "impersonation_request target base ends = \<lparr>tq_method = ''POST'', tq_url = impersonation_url target,
     tq_content_type = ''application/json'', tq_scope = [cloud_platform_scope], tq_auth = base, tq_ends = ends\<rparr>"

definition read_token :: "'s token_world \<Rightarrow> string \<Rightarrow> token_answer \<Rightarrow> gerr + token" where
  "read_token tw target a = (case ta_body a of
      Inl e \<Rightarrow> Inl (Wrapf ''impersonating %s: reading the response: %w'' [target] e)
    | Inr text \<Rightarrow> (let body = take max_token_answer text in
        if ta_status a \<noteq> 200
        then Inl (Errorf ''impersonating %s: generateAccessToken returned %s: %s'' [target, ta_status_text a, body])
        else (case tw_decode tw body of
            Inl e \<Rightarrow> Inl (Wrapf ''impersonating %s: parsing the response: %w'' [target] e)
          | Inr (access, expire) \<Rightarrow> (case tw_parse_time tw expire of
              Inl e \<Rightarrow> Inl (Wrapf ''impersonating %s: parsing the token's expiry: %w'' [target] e)
            | Inr t \<Rightarrow> Inr \<lparr>tk_access = access, tk_type = ''Bearer'', tk_expiry = t\<rparr>))))"

definition impersonated_token :: "'s token_world \<Rightarrow> string \<Rightarrow> int option \<Rightarrow> 's \<Rightarrow> (gerr + token) \<times> 's" where
  "impersonated_token tw target ends s = (case tw_base tw s of
      (Inl e, s) \<Rightarrow> (Inl (Wrapf ''impersonating %s: obtaining the base token: %w'' [target] e), s)
    | (Inr base, s) \<Rightarrow> (case tw_refuses tw (impersonation_url target) of
        Some e \<Rightarrow> (Inl (Wrapf ''impersonating %s: %w'' [target] e), s)
      | None \<Rightarrow> (case tw_send tw (impersonation_request target base (round_trip_ends (tw_now tw s) ends)) s of
          (Inl e, s) \<Rightarrow> (Inl (Wrapf ''impersonating %s: %w'' [target] e), s)
        | (Inr a, s) \<Rightarrow> (read_token tw target a, s))))"

section \<open>Another endpoint\<close>

text \<open>
  What \<open>net/url\<close> gives of a url: its scheme and host, and the rest as it keeps it. \<open>ul_parse\<close> is
  \<open>url.Parse\<close>, \<open>ul_text\<close> is \<open>String\<close>.
\<close>

record url =
  u_scheme :: string
  u_host :: string
  u_opaque :: string
  u_user :: string
  u_path :: string
  u_query :: string

record url_lib =
  ul_parse :: "string \<Rightarrow> url option"
  ul_text :: "url \<Rightarrow> string"

definition override_env :: string where "override_env = ''GOOGLE_API_ENDPOINT_OVERRIDE''"

definition override_token :: token where
  "override_token = \<lparr>tk_access = ''endpoint-override-no-credentials'', tk_type = ''Bearer'', tk_expiry = 0\<rparr>"

definition rehost :: "url_lib \<Rightarrow> string \<Rightarrow> string \<Rightarrow> string" where
  "rehost l host original = (case ul_parse l host of
      None \<Rightarrow> host
    | Some base \<Rightarrow> (case ul_parse l original of
        None \<Rightarrow> trim_suffix host ''/'' @ ''/''
      | Some u \<Rightarrow> (let out = ul_text l (u\<lparr>u_scheme := u_scheme base, u_host := u_host base\<rparr>) in
          if has_suffix out ''/'' then out else out @ ''/'')))"

definition redirect :: "url_lib \<Rightarrow> catalog \<Rightarrow> string \<Rightarrow> string \<Rightarrow> gerr + catalog \<times> token" where
  "redirect l c host inst =
     (let refused = Inl (Errorf ''gcp: provider %q: %s must be an absolute http(s) url, got %q'' [inst, override_env, host]) in
      case ul_parse l host of
        None \<Rightarrow> refused
      | Some u \<Rightarrow> if u_scheme u \<noteq> ''http'' \<and> u_scheme u \<noteq> ''https'' \<or> u_host u = [] then refused
          else Inr (c\<lparr>c_types := map (\<lambda>t. t\<lparr>t_api_base_url := rehost l host (t_api_base_url t), t_endpoint_template := []\<rparr>)
            (c_types c)\<rparr>, override_token))"

section \<open>An instance\<close>

text \<open>
  \<open>Plugin.New\<close>. \<open>loaded\<close> is the embedded catalog, \<open>host\<close> the value of the override's variable, empty
  where it is not set; the transport a client sends through depends on the token source it is given.
\<close>

definition plugin_new ::
  "ext \<Rightarrow> 'c google_auth \<Rightarrow> url_lib \<Rightarrow> gerr + catalog \<Rightarrow> string \<Rightarrow> ('c token_source \<Rightarrow> 's transport) \<Rightarrow> (nat \<Rightarrow> int \<Rightarrow> int)
    \<Rightarrow> config \<Rightarrow> gerr + 's gcp_provider" where
  "plugin_new x g l loaded host tr jit cfg = (case parse_config x cfg of
      Inl e \<Rightarrow> Inl e
    | Inr inst \<Rightarrow> (case loaded of
        Inl e \<Rightarrow> Inl (Wrapf ''gcp: the embedded catalog will not load: %w'' [] e)
      | Inr c \<Rightarrow>
          if host \<noteq> [] then (case redirect l c host (cf_instance cfg) of
              Inl e \<Rightarrow> Inl e
            | Inr (redirected, tok) \<Rightarrow> (let inventory = rehost l host cloud_asset_base_url in
                Inr (new_provider ((settings_of inst)\<lparr>st_asset_inventory_base_url := inventory\<rparr>) redirected
                  (new_client x (tr (StaticToken tok)) jit inventory (in_quota_project inst) 0 0 None 0))))
          else (case token_source_of g inst of
              Inl e \<Rightarrow> Inl (Wrapf ''gcp: %w'' [] e)
            | Inr ts \<Rightarrow> Inr (new_provider (settings_of inst) c
                (new_client x (tr ts) jit [] (in_quota_project inst) 0 0 None 0)))))"

text \<open>\<open>Definitions\<close> and \<open>MaxConcurrency\<close>: what the host is told before any instance is made.\<close>

definition plugin_definitions :: "gerr + catalog \<Rightarrow> resource_definition list" where
  "plugin_definitions loaded = (case loaded of Inl e \<Rightarrow> [] | Inr c \<Rightarrow> definitions c)"

definition max_concurrency :: int where "max_concurrency = 16"

end
