(* ===== verification/CredentialFacts.thy ===== *)
theory CredentialFacts
  imports Credentials Samples
begin

text \<open>
  An instance pointed at another endpoint is nobody at Google: it resolves no credential and its types
  are all served from the other host.
\<close>

section \<open>The documented form of a url\<close>

text \<open>
  \<open>String\<close> writes a url that is not opaque as its scheme, \<open>://\<close>, the user if there is one, the host,
  and what follows the host.
\<close>

definition reaches :: "url \<Rightarrow> string \<Rightarrow> bool" where
  "reaches base s \<longleftrightarrow> (\<exists>user rest. s = u_scheme base @ ''://'' @ user @ u_host base @ rest
     \<and> (user = [] \<or> last user = CHR ''@'') \<and> (rest = [] \<or> hd rest \<in> set ''/?#''))"

definition writes_urls :: "url_lib \<Rightarrow> bool" where
  "writes_urls l \<longleftrightarrow> (\<forall>u. u_opaque u = [] \<longrightarrow> u_scheme u \<noteq> [] \<longrightarrow> u_host u \<noteq> [] \<longrightarrow> reaches u (ul_text l u))"

lemma reaches_slash: "reaches base s \<Longrightarrow> reaches base (s @ ''/'')"
proof -
  assume "reaches base s"
  then obtain user rest where s: "s = u_scheme base @ ''://'' @ user @ u_host base @ rest"
    "user = [] \<or> last user = CHR ''@''" "rest = [] \<or> hd rest \<in> set ''/?#''" unfolding reaches_def by blast
  have "rest @ ''/'' = [] \<or> hd (rest @ ''/'') \<in> set ''/?#''" using s(3) by (cases rest) auto
  with s show ?thesis unfolding reaches_def by (intro exI [of _ user] exI [of _ "rest @ ''/''"]) simp
qed

lemma rehost_reaches:
  assumes "writes_urls l" "ul_parse l host = Some base" "u_scheme base \<noteq> []" "u_host base \<noteq> []"
    and "ul_parse l original = Some u" "u_opaque u = []"
  shows "reaches base (rehost l host original)"
proof -
  let ?u = "u\<lparr>u_scheme := u_scheme base, u_host := u_host base\<rparr>"
  have "reaches ?u (ul_text l ?u)" using assms unfolding writes_urls_def by simp
  then have "reaches base (ul_text l ?u)" by (simp add: reaches_def)
  with reaches_slash show ?thesis using assms(2,5) by (simp add: rehost_def Let_def)
qed

section \<open>Instances\<close>

lemma redirect_types:
  assumes "redirect l c host inst = Inr (c', tok)" "t \<in> set (c_types c')"
  shows "\<exists>u \<in> set (c_types c). t = u\<lparr>t_api_base_url := rehost l host (t_api_base_url u), t_endpoint_template := []\<rparr>"
  using assms by (auto simp: redirect_def Let_def split: option.splits if_splits)

lemma redirect_accepts:
  assumes "redirect l c host inst = Inr (c', tok)"
  shows "tok = override_token \<and> (\<exists>base. ul_parse l host = Some base \<and> u_scheme base \<in> {''http'', ''https''} \<and> u_host base \<noteq> [])"
  using assms by (auto simp: redirect_def Let_def split: option.splits if_splits)

text \<open>
  C33. Pointed at another endpoint, an instance has no credential of Google: the one it sends with is the
  placeholder, whatever the credentials library would answer. Every type it serves has its base url at
  that endpoint, which is http or https, keeps everything else it had, and has no regional endpoint left.
\<close>

theorem redirected_away:
  assumes "plugin_new x g l (Inr c) host tr jit cfg = Inr p" "host \<noteq> []" "writes_urls l"
    and "\<forall>t \<in> set (c_types c). \<exists>u. ul_parse l (t_api_base_url t) = Some u \<and> u_opaque u = []"
  shows "plugin_new x g' l (Inr c) host tr jit cfg = Inr p
    \<and> cl_transport (p_client p) = tr (StaticToken override_token)
    \<and> (\<exists>base. ul_parse l host = Some base \<and> u_scheme base \<in> {''http'', ''https''}
        \<and> (\<forall>t \<in> set (c_types (p_catalog p)). \<exists>u \<in> set (c_types c).
             t = u\<lparr>t_api_base_url := t_api_base_url t, t_endpoint_template := []\<rparr> \<and> reaches base (t_api_base_url t)))"
proof -
  obtain inst where i: "parse_config x cfg = Inr inst" using assms(1) by (auto simp: plugin_new_def split: sum.splits)
  then obtain c' tok where r: "redirect l c host (cf_instance cfg) = Inr (c', tok)"
    using assms(1,2) by (auto simp: plugin_new_def split: sum.splits)
  let ?inventory = "rehost l host cloud_asset_base_url"
  have p: "p = new_provider ((settings_of inst)\<lparr>st_asset_inventory_base_url := ?inventory\<rparr>) c'
      (new_client x (tr (StaticToken tok)) jit ?inventory (in_quota_project inst) 0 0 None 0)"
    using assms(1,2) i r by (simp add: plugin_new_def Let_def)
  from redirect_accepts [OF r] obtain base where b: "tok = override_token" "ul_parse l host = Some base"
    "u_scheme base \<in> {''http'', ''https''}" "u_host base \<noteq> []" by blast
  have "\<exists>u \<in> set (c_types c). t = u\<lparr>t_api_base_url := t_api_base_url t, t_endpoint_template := []\<rparr> \<and> reaches base (t_api_base_url t)"
    if "t \<in> set (c_types c')" for t
  proof -
    from redirect_types [OF r that] obtain u where u: "u \<in> set (c_types c)"
      "t = u\<lparr>t_api_base_url := rehost l host (t_api_base_url u), t_endpoint_template := []\<rparr>" by blast
    with assms(4) obtain v where "ul_parse l (t_api_base_url u) = Some v" "u_opaque v = []" by blast
    with b have "reaches base (rehost l host (t_api_base_url u))" by (intro rehost_reaches [OF assms(3)]) auto
    with u show ?thesis by (intro bexI [of _ u]) simp_all
  qed
  moreover have "plugin_new x g' l (Inr c) host tr jit cfg = Inr p" using assms(2) i r p by (simp add: plugin_new_def Let_def)
  ultimately show ?thesis using b p by (simp add: new_provider_def new_client_def)
qed

text \<open>Urls of a scheme, a host and the rest, which is all the example needs.\<close>

definition plain_urls :: url_lib where
  "plain_urls = \<lparr>ul_parse = (\<lambda>s. case str_index s ''://'' of None \<Rightarrow> None | Some i \<Rightarrow> Some
       \<lparr>u_scheme = take i s, u_host = takeWhile (\<lambda>c. c \<notin> set ''/?#'') (drop (i + 3) s), u_opaque = [], u_user = [],
        u_path = dropWhile (\<lambda>c. c \<notin> set ''/?#'') (drop (i + 3) s), u_query = []\<rparr>),
     ul_text = (\<lambda>u. u_scheme u @ ''://'' @ u_host u
       @ (if u_path u = [] \<or> hd (u_path u) \<in> set ''/?#'' then u_path u else ''/'' @ u_path u))\<rparr>"

lemma plain_urls_write: "writes_urls plain_urls"
proof -
  have "reaches u (ul_text plain_urls u)" for u
    unfolding reaches_def plain_urls_def
    by (rule exI [of _ "[]"], rule exI [of _ "if u_path u = [] \<or> hd (u_path u) \<in> set ''/?#'' then u_path u else ''/'' @ u_path u"])
      auto
  then show ?thesis by (simp add: writes_urls_def)
qed

definition bare_config :: config where
  "bare_config = \<lparr>cf_instance = ''main'', cf_keys = [], cf_value = (\<lambda>_. None)\<rparr>"

definition no_credentials :: "unit google_auth" where
  "no_credentials = \<lparr>ga_default = (\<lambda>_. Inl (NetErr ''none'')), ga_read_file = (\<lambda>_. Inl (NetErr ''none'')),
     ga_from_json = (\<lambda>_ _. Inl (NetErr ''none''))\<rparr>"

text \<open>A transport that records the token source it was given.\<close>

definition by_token :: "unit token_source \<Rightarrow> unit token_source list transport" where
  "by_token ts srv rq now deadline = (NoReply ''down'', 1, ts # srv)"

abbreviation redirected_plugin :: "unit google_auth \<Rightarrow> gerr + unit token_source list gcp_provider" where
  "redirected_plugin g \<equiv> plugin_new sample_ext g plain_urls (Inr sample_catalog) ''http://127.0.0.1:8080'' by_token (\<lambda>n m. 0) bare_config"

lemma bare_instance: "\<exists>inst. parse_config sample_ext bare_config = Inr inst"
  by (simp add: parse_config_def bare_config_def config_string_def config_list_def)

lemma redirected_exists: "\<exists>p. redirected_plugin no_credentials = Inr p"
proof -
  have "\<exists>u. ul_parse plain_urls ''http://127.0.0.1:8080'' = Some u \<and> u_scheme u = ''http'' \<and> u_host u \<noteq> []"
    by (simp add: plain_urls_def has_prefix_def)
  then have "\<exists>c'. redirect plain_urls sample_catalog ''http://127.0.0.1:8080'' ''main'' = Inr c'"
    by (auto simp: redirect_def Let_def)
  then show ?thesis using bare_instance by (auto simp: plugin_new_def Let_def bare_config_def)
qed

theorem redirected_away_witness:
  "\<exists>p. redirected_plugin no_credentials = Inr p
    \<and> cl_transport (p_client p) = by_token (StaticToken override_token)
    \<and> (\<forall>t \<in> set (c_types (p_catalog p)). t_endpoint_template t = [])"
proof -
  obtain p where p: "redirected_plugin no_credentials = Inr p" using redirected_exists by blast
  have "\<exists>u. ul_parse plain_urls (t_api_base_url topic_type) = Some u \<and> u_opaque u = []"
    by (simp add: plain_urls_def has_prefix_def)
  then have "\<forall>t \<in> set (c_types sample_catalog). \<exists>u. ul_parse plain_urls (t_api_base_url t) = Some u \<and> u_opaque u = []"
    by (simp add: sample_catalog_def)
  from redirected_away [OF p _ plain_urls_write this, of no_credentials]
  have away: "cl_transport (p_client p) = by_token (StaticToken override_token)"
    "\<forall>t \<in> set (c_types (p_catalog p)). \<exists>u. t = u\<lparr>t_api_base_url := t_api_base_url t, t_endpoint_template := []\<rparr>" by auto
  have "t_endpoint_template t = []" if "t \<in> set (c_types (p_catalog p))" for t
  proof -
    from away(2) that obtain u where "t = u\<lparr>t_api_base_url := t_api_base_url t, t_endpoint_template := []\<rparr>" by blast
    then have "t_endpoint_template t = t_endpoint_template (u\<lparr>t_api_base_url := t_api_base_url t, t_endpoint_template := []\<rparr>)" by (rule arg_cong)
    then show ?thesis by simp
  qed
  with p away(1) show ?thesis by blast
qed

text \<open>
  The instance itself is not redirected: the lookup of its project's number goes to Cloud Resource
  Manager at Google.
\<close>

lemma redirected_asks_google:
  assumes "plugin_new x g l loaded host tr jit cfg = Inr p"
  shows "st_resource_manager_base_url (p_settings p) = []"
    and "full_url (p_client p) (resource_manager_base_url @ s) = ''https://cloudresourcemanager.googleapis.com/'' @ s"
proof -
  show "st_resource_manager_base_url (p_settings p) = []"
    using assms by (auto simp: plugin_new_def new_provider_def settings_of_def Let_def split: sum.splits if_splits)
  show "full_url (p_client p) (resource_manager_base_url @ s) = ''https://cloudresourcemanager.googleapis.com/'' @ s"
    by (simp add: full_url_def resource_manager_base_url_def has_prefix_def)
qed

section \<open>Impersonation\<close>

text \<open>
  A token is handed out only when the service answered, in time, the one request that carries the base
  token; without a base token nothing is sent.
\<close>

lemma impersonated_token_answered:
  assumes "impersonated_token tw target ends s = (Inr t, s')"
  shows "\<exists>base s1 a e. tw_base tw s = (Inr base, s1) \<and> tw_send tw (impersonation_request target base e) s1 = (Inr a, s')
    \<and> ta_status a = 200 \<and> tk_type t = ''Bearer'' \<and> e \<le> tw_now tw s1 + impersonation_timeout \<and> (\<forall>d. ends = Some d \<longrightarrow> e \<le> d)"
proof -
  obtain base s1 where b: "tw_base tw s = (Inr base, s1)"
    using assms by (cases "tw_base tw s"; cases "fst (tw_base tw s)") (auto simp: impersonated_token_def)
  let ?e = "round_trip_ends (tw_now tw s1) ends"
  obtain a where a: "tw_send tw (impersonation_request target base ?e) s1 = (Inr a, s')" "read_token tw target a = Inr t"
    using assms b by (auto simp: impersonated_token_def split: option.splits prod.splits sum.splits)
  then have "ta_status a = 200" "tk_type t = ''Bearer''"
    by (auto simp: read_token_def Let_def split: sum.splits if_splits prod.splits)
  moreover have "?e \<le> tw_now tw s1 + impersonation_timeout" "\<forall>d. ends = Some d \<longrightarrow> ?e \<le> d"
    by (auto simp: round_trip_ends_def split: option.split)
  ultimately show ?thesis using b a(1) by blast
qed

lemma no_base_nothing_sent: "tw_base tw s = (Inl e, s') \<Longrightarrow> snd (impersonated_token tw target ends s) = s'"
  by (simp add: impersonated_token_def)

end
