(* ===== verification/Loading.thy ===== *)
theory Loading
  imports Reports
begin

text \<open>
  Where the generator's inputs come from: Discovery documents (internal/disco/doc.go, \<open>Parse\<close>, and
  internal/gen/build.go, \<open>loadDocs\<close>), magic-modules (internal/mmv1/parse.go, \<open>ParseResource\<close>, and
  internal/mmv1/loaddir.go), the overlay (internal/gen/overlay.go), the lock (internal/gen/names.go) and
  the pinned commit; and \<open>Build\<close> from them. The decoders of JSON and YAML are parameters, and so is what
  the file system gives: a file that can be read is its content, a directory its entries, a walk the
  paths it visits, in its order.
\<close>

section \<open>Documents\<close>

definition parse_document :: "(string \<Rightarrow> gerr + document) \<Rightarrow> string \<Rightarrow> gerr + document" where
  "parse_document decode text = (case decode text of
      Inl e \<Rightarrow> Inl (Wrapf ''discovery document: %w'' [] e)
    | Inr d \<Rightarrow> if doc_name d = [] then Inl (Errorf ''discovery document has no name'' []) else Inr d)"

record dir_entry =
  de_name :: string
  de_is_dir :: bool

definition document_names :: "dir_entry list \<Rightarrow> string list" where
  "document_names es = sort (map de_name (filter (\<lambda>e. \<not> de_is_dir e \<and> has_suffix (de_name e) ''.json''
     \<and> de_name e \<noteq> ''_directory.json'') es))"

fun read_docs :: "(string \<Rightarrow> gerr + document) \<Rightarrow> (string \<Rightarrow> gerr + string) \<Rightarrow> string list \<Rightarrow> gerr + document list" where
  "read_docs decode read [] = Inr []"
| "read_docs decode read (n # ns) = (case read n of
      Inl e \<Rightarrow> Inl (Wrapf ''%s: %w'' [n] e)
    | Inr text \<Rightarrow> (case parse_document decode text of
        Inl e \<Rightarrow> Inl (Wrapf ''%s: %w'' [n] e)
      | Inr d \<Rightarrow> on_ok (read_docs decode read ns) (\<lambda>ds. Inr (d # ds))))"

definition load_docs ::
  "(string \<Rightarrow> gerr + document) \<Rightarrow> (string \<Rightarrow> gerr + string) \<Rightarrow> gerr + dir_entry list \<Rightarrow> gerr + document list" where
  "load_docs decode read entries = on_ok entries (\<lambda>es. read_docs decode read (document_names es))"

section \<open>magic-modules\<close>

definition parse_resource :: "(string \<Rightarrow> gerr + mm_resource) \<Rightarrow> string \<Rightarrow> gerr + mm_resource" where
  "parse_resource decode text = (case decode text of
      Inl e \<Rightarrow> Inl (Wrapf ''magic-modules resource: %w'' [] e)
    | Inr r \<Rightarrow> if mm_name r = [] then Inl (Errorf ''magic-modules resource has no name'' []) else Inr r)"

text \<open>What a walk comes to: a path it could not enter, which ends it, or an entry and what reading it gives.\<close>

datatype visit = WalkError gerr | Visit (vi_path: string) (vi_is_dir: bool) (vi_read: "gerr + string")

definition file_name :: "string \<Rightarrow> string" where
  "file_name path = after_last (CHR ''/'') path"

definition dir_name :: "string \<Rightarrow> string" where
  "dir_name path = (if CHR ''/'' \<in> set path
     then after_last (CHR ''/'') (rev (drop 1 (dropWhile (\<lambda>c. c \<noteq> CHR ''/'') (rev path)))) else ''.'')"

record loaded_dir =
  ld_resources :: "(string \<times> mm_resource list) list"
  ld_base_urls :: "(string \<times> string) list"
  ld_errors :: "(string \<times> gerr) list"

text \<open>\<open>versions\<close> decodes a product file to its versions, each a name and a base url.\<close>

definition load_product :: "(string \<Rightarrow> (string \<times> string) list option) \<Rightarrow> string \<Rightarrow> gerr + string \<Rightarrow> loaded_dir \<Rightarrow> loaded_dir" where
  "load_product versions path read ld = (case read of
      Inl _ \<Rightarrow> ld
    | Inr text \<Rightarrow> (case versions text of
        None \<Rightarrow> ld
      | Some vs \<Rightarrow> ld\<lparr>ld_base_urls := foldl (\<lambda>m (name, url). if name = ''ga'' then AList.update (dir_name path) url m else m)
          (ld_base_urls ld) vs\<rparr>))"

definition load_resource :: "(string \<Rightarrow> gerr + mm_resource) \<Rightarrow> string \<Rightarrow> gerr + string \<Rightarrow> loaded_dir \<Rightarrow> loaded_dir" where
  "load_resource decode path read ld = (case on_ok read (parse_resource decode) of
      Inl e \<Rightarrow> ld\<lparr>ld_errors := ld_errors ld @ [(path, e)]\<rparr>
    | Inr r \<Rightarrow> (let rs = (case map_of (ld_resources ld) (dir_name path) of None \<Rightarrow> [] | Some rs \<Rightarrow> rs) in
        ld\<lparr>ld_resources := AList.update (dir_name path) (rs @ [r\<lparr>mm_product := dir_name path\<rparr>]) (ld_resources ld)\<rparr>))"

fun walk_dir ::
  "(string \<Rightarrow> gerr + mm_resource) \<Rightarrow> (string \<Rightarrow> (string \<times> string) list option) \<Rightarrow> visit list \<Rightarrow> loaded_dir \<Rightarrow> gerr + loaded_dir" where
  "walk_dir decode versions [] ld = Inr ld"
| "walk_dir decode versions (WalkError e # vs) ld = Inl e"
| "walk_dir decode versions (Visit path is_dir read # vs) ld = walk_dir decode versions vs
     (if is_dir \<or> \<not> has_suffix path ''.yaml'' then ld
      else if file_name path = ''product.yaml'' then load_product versions path read ld
      else load_resource decode path read ld)"

definition with_product_url :: "(string \<times> string) list \<Rightarrow> string \<Rightarrow> mm_resource \<Rightarrow> mm_resource" where
  "with_product_url urls product r = r\<lparr>mm_product_base_url := (case map_of urls product of None \<Rightarrow> [] | Some u \<Rightarrow> u)\<rparr>"

definition load_dir ::
  "(string \<Rightarrow> gerr + mm_resource) \<Rightarrow> (string \<Rightarrow> (string \<times> string) list option) \<Rightarrow> visit list
    \<Rightarrow> gerr + (string \<times> mm_resource list) list \<times> (string \<times> gerr) list" where
  "load_dir decode versions vs = map_sum id
     (\<lambda>ld. (map (\<lambda>(p, rs). (p, map (with_product_url (ld_base_urls ld) p) rs)) (ld_resources ld), ld_errors ld))
     (walk_dir decode versions vs \<lparr>ld_resources = [], ld_base_urls = [], ld_errors = []\<rparr>)"

section \<open>The overlay, the lock and the pin\<close>

definition load_overlay ::
  "(string \<Rightarrow> gerr + gen_overlay) \<Rightarrow> (string \<Rightarrow> bool) \<Rightarrow> string \<Rightarrow> string \<Rightarrow> gerr + string \<Rightarrow> gerr + gen_overlay" where
  "load_overlay decode is_dir path mmv1_dir read = on_ok read (\<lambda>text. case decode text of
      Inl e \<Rightarrow> Inl (Wrapf ''%s: %w'' [path] e)
    | Inr ov \<Rightarrow> (case check_overlay path mmv1_dir is_dir ov of Some e \<Rightarrow> Inl e | None \<Rightarrow> Inr ov))"

text \<open>A file that may be missing.\<close>

datatype stored_file = Missing | Unreadable gerr | Content string

definition load_lock :: "(string \<Rightarrow> gerr + lock) \<Rightarrow> string \<Rightarrow> stored_file \<Rightarrow> gerr + lock" where
  "load_lock decode path f = (case f of
      Missing \<Rightarrow> Inr []
    | Unreadable e \<Rightarrow> Inl (Wrapf ''%s: %w'' [path] e)
    | Content text \<Rightarrow> (case decode text of Inl e \<Rightarrow> Inl (Wrapf ''%s: %w'' [path] e) | Inr l \<Rightarrow> Inr l))"

definition read_pin :: "stored_file \<Rightarrow> string" where
  "read_pin f = (case f of Content text \<Rightarrow> trim_space text | _ \<Rightarrow> [])"

section \<open>Build\<close>

record decoders =
  dc_document :: "string \<Rightarrow> gerr + document"
  dc_resource :: "string \<Rightarrow> gerr + mm_resource"
  dc_versions :: "string \<Rightarrow> (string \<times> string) list option"
  dc_overlay :: "string \<Rightarrow> gerr + gen_overlay"
  dc_lock :: "string \<Rightarrow> gerr + lock"

text \<open>The four inputs as the file system gives them, with the names that errors say.\<close>

record inputs =
  ip_schemas :: "gerr + dir_entry list"
  ip_schema :: "string \<Rightarrow> gerr + string"
  ip_mmv1_dir :: string
  ip_mmv1 :: "visit list"
  ip_mmv1_is_dir :: "string \<Rightarrow> bool"
  ip_pin :: stored_file
  ip_overlay_path :: string
  ip_overlay :: "gerr + string"
  ip_lock_path :: string
  ip_lock :: stored_file

definition load_warning :: "(gerr \<Rightarrow> string) \<Rightarrow> string \<times> gerr \<Rightarrow> warning" where
  "load_warning text_of le = \<lparr>wa_service = dir_name (fst le), wa_resource = file_name (fst le), wa_tier = TierExcluded,
     wa_reason = text_of (snd le)\<rparr>"

definition build :: "decoders \<Rightarrow> (gerr \<Rightarrow> string) \<Rightarrow> string \<Rightarrow> inputs \<Rightarrow> gerr + generated" where
  "build dc text_of day ip =
     on_ok (load_dir (dc_resource dc) (dc_versions dc) (ip_mmv1 ip)) (\<lambda>(by_product, load_errs).
     on_ok (load_overlay (dc_overlay dc) (ip_mmv1_is_dir ip) (ip_overlay_path ip) (ip_mmv1_dir ip) (ip_overlay ip)) (\<lambda>ov.
     on_ok (load_lock (dc_lock dc) (ip_lock_path ip) (ip_lock ip)) (\<lambda>lock.
     on_ok (load_docs (dc_document dc) (ip_schema ip) (ip_schemas ip)) (\<lambda>docs.
       build_catalog text_of day (read_pin (ip_pin ip)) (map (load_warning text_of) load_errs) by_product ov lock docs))))"

end
