(* ===== verification/DocFacts.thy ===== *)
theory DocFacts
  imports Pages
begin

text \<open>
  The reference says what the catalog holds: the warnings file is read back as it was written, a
  type's page reaches every attribute, each type has its page, and a check of the files on disk finds
  exactly what a run would change.
\<close>

section \<open>The warnings file is read back\<close>

text \<open>Text that stays within its column: no tab, no line feed, no carriage return.\<close>

definition plain_text :: "string \<Rightarrow> bool" where
  "plain_text s \<longleftrightarrow> set s \<inter> {CHR 0x09, CHR 0x0A, CHR 0x0D} = {}"

lemma plain_text_append [simp]: "plain_text (s @ t) \<longleftrightarrow> plain_text s \<and> plain_text t"
  by (auto simp: plain_text_def)

lemma plain_text_join: "plain_text sep \<Longrightarrow> \<forall>x \<in> set xs. plain_text x \<Longrightarrow> plain_text (join_with sep xs)"
  by (induction sep xs rule: join_with.induct) (auto simp: plain_text_def)

text \<open>A line the scanner hands on whole.\<close>

definition one_line :: "string \<Rightarrow> bool" where
  "one_line s \<longleftrightarrow> CHR 0x0A \<notin> set s \<and> CHR 0x0D \<notin> set s \<and> length s < max_token"

lemma split_unlines: "\<forall>l \<in> set ls. CHR 0x0A \<notin> set l \<Longrightarrow> split_on (CHR 0x0A) (unlines ls) = ls @ [[]]"
  by (induction ls) (auto simp: unlines_def split_on_append)

lemma one_line_whole: "one_line l \<Longrightarrow> trim_suffix l [CHR 0x0D] = l"
  by (auto simp: one_line_def trim_suffix_def has_suffix_iff)

lemma lines_of_unlines:
  assumes "\<forall>l \<in> set ls. one_line l"
  shows "lines_of (unlines ls) = (ls, None)"
proof -
  have s: "split_on (CHR 0x0A) (unlines ls) = ls @ [[]]" using assms by (intro split_unlines) (auto simp: one_line_def)
  have "takeWhile (\<lambda>l. length l < max_token) (ls @ [[]]) = ls @ [[]]"
    using assms by (auto simp: one_line_def max_token_def)
  moreover have "map (\<lambda>l. trim_suffix l [CHR 0x0D]) ls = ls" using assms by (auto simp: one_line_whole intro: map_idI)
  ultimately show ?thesis by (simp add: lines_of_def scanned_def s Let_def)
qed

definition skipped :: "string \<Rightarrow> bool" where
  "skipped s \<longleftrightarrow> trim_space s = [] \<or> has_prefix s ''#''"

lemma warn_rows_skip: "\<forall>l \<in> set ls. skipped l \<Longrightarrow> warn_rows n (ls @ rest) = warn_rows (n + length ls) rest"
  by (induction ls arbitrary: n) (auto simp: skipped_def)

lemma warn_rows_read:
  "\<forall>x \<in> set xs. \<not> skipped (line x) \<and> (\<forall>n. warn_fields n (line x) = Inr (row x))
    \<Longrightarrow> warn_rows n (map line xs @ rest) = on_ok (warn_rows (n + length xs) rest) (\<lambda>ws. Inr (map row xs @ ws))"
proof (induction xs arbitrary: n)
  case Nil
  show ?case by (cases "warn_rows n rest") (simp_all add: on_ok_def)
next
  case (Cons x xs)
  then show ?case by (cases "warn_rows (Suc (n + length xs)) rest") (auto simp: skipped_def on_ok_def)
qed

lemma split_columns: "cs \<noteq> [] \<Longrightarrow> \<forall>c \<in> set cs. plain_text c \<Longrightarrow> split_on (CHR 0x09) (columns cs) = cs"
  unfolding columns_def by (rule split_join) (auto simp: plain_text_def)

lemma word_not_skipped:
  assumes "\<not> is_space c" "c \<noteq> CHR ''#''"
  shows "\<not> skipped (c # s)"
proof -
  have "trim_space (c # s) \<noteq> []" using assms(1) by (simp add: trim_space_def dropWhile_eq_Nil_conv)
  moreover have "\<not> has_prefix (c # s) ''#''" using assms(2) by (simp add: has_prefix_def)
  ultimately show ?thesis by (simp add: skipped_def)
qed

section \<open>Rows\<close>

definition warning_row :: "warning \<Rightarrow> warn_row" where
  "warning_row w = \<lparr>wr_tier = ''tier'' @ format_int (tier_number (wa_tier w)), wr_subject = wa_service w @ ''/'' @ wa_resource w,
     wr_template = [], wr_reason = wa_reason w\<rparr>"

definition uncreatable_row :: "uncreatable \<Rightarrow> warn_row" where
  "uncreatable_row u = \<lparr>wr_tier = ''nocreate'', wr_subject = uc_type u, wr_template = uc_template u,
     wr_reason = ''needs '' @ join_with '', '' (uc_placeholders u)\<rparr>"

definition unpatchable_row :: "unpatchable \<Rightarrow> warn_row" where
  "unpatchable_row u = \<lparr>wr_tier = ''noupdate'', wr_subject = up_type u, wr_template = [], wr_reason = up_says u\<rparr>"

definition plain_warning :: "warning \<Rightarrow> bool" where
  "plain_warning w \<longleftrightarrow> plain_text (wa_service w) \<and> plain_text (wa_resource w) \<and> plain_text (wa_reason w)
     \<and> length (warning_line w) < max_token"

definition plain_uncreatable :: "uncreatable \<Rightarrow> bool" where
  "plain_uncreatable u \<longleftrightarrow> plain_text (uc_type u) \<and> plain_text (uc_template u) \<and> list_all plain_text (uc_placeholders u)
     \<and> length (uncreatable_line u) < max_token"

definition plain_unpatchable :: "unpatchable \<Rightarrow> bool" where
  "plain_unpatchable u \<longleftrightarrow> plain_text (up_type u) \<and> plain_text (up_says u) \<and> length (unpatchable_line u) < max_token"

lemma tier_word: "plain_text (''tier'' @ format_int (tier_number t))"
proof -
  have "format_int 1 = ''1''" "format_int 2 = ''2''" "format_int 3 = ''3''" by code_simp+
  then show ?thesis by (cases t) (simp_all add: tier_number_def plain_text_def)
qed

lemma line_chars: "set (columns cs) \<subseteq> insert (CHR 0x09) (\<Union>(set ` set cs))"
  unfolding columns_def by (induction "tab" cs rule: join_with.induct) auto

lemma columns_one_line: "\<forall>c \<in> set cs. plain_text c \<Longrightarrow> length (columns cs) < max_token \<Longrightarrow> one_line (columns cs)"
  using line_chars [of cs] by (auto simp: one_line_def plain_text_def)

lemma columns_start: "cs \<noteq> [] \<Longrightarrow> hd cs = c # s \<Longrightarrow> \<exists>r. columns cs = c # r"
  by (cases cs; cases "tl cs") (auto simp: columns_def)

lemma warning_columns:
  assumes "plain_warning w"
  shows "one_line (warning_line w)" "\<not> skipped (warning_line w)" "warn_fields n (warning_line w) = Inr (warning_row w)"
proof -
  let ?cs = "[''tier'' @ format_int (tier_number (wa_tier w)), wa_service w @ ''/'' @ wa_resource w, wa_reason w]"
  have p: "\<forall>c \<in> set ?cs. plain_text c" using assms tier_word [of "wa_tier w"] by (simp add: plain_warning_def plain_text_def)
  show "one_line (warning_line w)" using columns_one_line [OF p] assms by (simp add: plain_warning_def warning_line_def)
  obtain r where "columns ?cs = CHR ''t'' # r" using columns_start [of ?cs] by auto
  then show "\<not> skipped (warning_line w)" using word_not_skipped [of "CHR ''t''"] by (simp add: warning_line_def is_space_def)
  show "warn_fields n (warning_line w) = Inr (warning_row w)"
    using split_columns [OF _ p] by (simp add: warn_fields_def warning_line_def warning_row_def)
qed

lemma uncreatable_columns:
  assumes "plain_uncreatable u"
  shows "one_line (uncreatable_line u)" "\<not> skipped (uncreatable_line u)" "warn_fields n (uncreatable_line u) = Inr (uncreatable_row u)"
proof -
  let ?cs = "[''nocreate'', uc_type u, uc_template u, ''needs '' @ join_with '', '' (uc_placeholders u)]"
  have "plain_text (join_with '', '' (uc_placeholders u))"
    using assms by (intro plain_text_join) (auto simp: plain_uncreatable_def list_all_iff plain_text_def)
  then have p: "\<forall>c \<in> set ?cs. plain_text c" using assms by (simp add: plain_uncreatable_def plain_text_def)
  show "one_line (uncreatable_line u)" using columns_one_line [OF p] assms by (simp add: plain_uncreatable_def uncreatable_line_def)
  obtain r where "columns ?cs = CHR ''n'' # r" using columns_start [of ?cs] by auto
  then show "\<not> skipped (uncreatable_line u)" using word_not_skipped [of "CHR ''n''"] by (simp add: uncreatable_line_def is_space_def)
  show "warn_fields n (uncreatable_line u) = Inr (uncreatable_row u)"
    using split_columns [OF _ p] by (simp add: warn_fields_def uncreatable_line_def uncreatable_row_def)
qed

lemma unpatchable_columns:
  assumes "plain_unpatchable u"
  shows "one_line (unpatchable_line u)" "\<not> skipped (unpatchable_line u)" "warn_fields n (unpatchable_line u) = Inr (unpatchable_row u)"
proof -
  let ?cs = "[''noupdate'', up_type u, up_says u]"
  have p: "\<forall>c \<in> set ?cs. plain_text c" using assms by (simp add: plain_unpatchable_def plain_text_def)
  show "one_line (unpatchable_line u)" using columns_one_line [OF p] assms by (simp add: plain_unpatchable_def unpatchable_line_def)
  obtain r where "columns ?cs = CHR ''n'' # r" using columns_start [of ?cs] by auto
  then show "\<not> skipped (unpatchable_line u)" using word_not_skipped [of "CHR ''n''"] by (simp add: unpatchable_line_def is_space_def)
  show "warn_fields n (unpatchable_line u) = Inr (unpatchable_row u)"
    using split_columns [OF _ p] by (simp add: warn_fields_def unpatchable_line_def unpatchable_row_def)
qed

lemma headers:
  "\<forall>l \<in> set warnings_header. skipped l \<and> one_line l"
  "\<forall>l \<in> set uncreatable_header. skipped l \<and> one_line l"
  "\<forall>l \<in> set unpatchable_header. skipped l \<and> one_line l"
  by (simp_all add: warnings_header_def uncreatable_header_def unpatchable_header_def skipped_def one_line_def trim_space_def
      has_prefix_def max_token_def)

section \<open>Sections\<close>

text \<open>A kind of row that is written as one line, which is read back as the row.\<close>

locale row_format =
  fixes line :: "'r \<Rightarrow> string" and row :: "'r \<Rightarrow> warn_row" and plain :: "'r \<Rightarrow> bool"
  assumes whole: "plain r \<Longrightarrow> one_line (line r)"
    and seen: "plain r \<Longrightarrow> \<not> skipped (line r)"
    and fields: "plain r \<Longrightarrow> warn_fields n (line r) = Inr (row r)"
begin

lemma rows_read:
  "list_all plain rs \<Longrightarrow> warn_rows n (map line rs @ rest) = on_ok (warn_rows (n + length rs) rest) (\<lambda>ws. Inr (map row rs @ ws))"
  by (rule warn_rows_read) (simp add: list_all_iff seen fields)

lemma section_read:
  assumes "list_all plain rs" "\<forall>l \<in> set header. skipped l" "\<And>k. warn_rows k rest = Inr ws"
  shows "warn_rows n ((if rs = [] then [] else header @ map line rs) @ rest) = Inr (map row rs @ ws)"
proof (cases "rs = []")
  case False
  then have "warn_rows n ((if rs = [] then [] else header @ map line rs) @ rest) = warn_rows (n + length header) (map line rs @ rest)"
    using warn_rows_skip [OF assms(2), of n "map line rs @ rest"] by simp
  then show ?thesis using rows_read [OF assms(1)] assms(3) by (simp add: on_ok_def)
qed (simp add: assms(3))

lemma section_lines:
  "list_all plain rs \<Longrightarrow> \<forall>l \<in> set header. one_line l \<Longrightarrow> \<forall>l \<in> set (if rs = [] then [] else header @ map line rs). one_line l"
  by (auto simp: list_all_iff whole split: if_splits)

end

interpretation refused: row_format warning_line warning_row plain_warning
  by unfold_locales (rule warning_columns, assumption)+

interpretation uncreated: row_format uncreatable_line uncreatable_row plain_uncreatable
  by unfold_locales (rule uncreatable_columns, assumption)+

interpretation unpatched_rows: row_format unpatchable_line unpatchable_row plain_unpatchable
  by unfold_locales (rule unpatchable_columns, assumption)+

text \<open>
  C36. What the generator leaves out reaches the reader: when no text in the rows holds a tab, a newline
  or a carriage return, and every row's line is shorter than the reader's buffer of 65536 bytes, the
  warnings file, whatever its sections, is read back by the page generator as exactly the rows that
  were written, in their order. (A reason of several lines is not: see broken_reason_refused.)
\<close>

theorem warnings_read_back:
  assumes "list_all plain_warning ws" "list_all plain_uncreatable us" "list_all plain_unpatchable ps"
  shows "parse_warnings (warnings_text ws us ps) = Inr (map warning_row ws @ map uncreatable_row us @ map unpatchable_row ps)"
proof -
  let ?us = "if us = [] then [] else uncreatable_header @ map uncreatable_line us"
  let ?ps = "if ps = [] then [] else unpatchable_header @ map unpatchable_line ps"
  have ps: "warn_rows n ?ps = Inr (map unpatchable_row ps)" for n
    using unpatched_rows.section_read [OF assms(3), of unpatchable_header "[]" "[]"] headers(3) by simp
  have us: "warn_rows n (?us @ ?ps) = Inr (map uncreatable_row us @ map unpatchable_row ps)" for n
    by (rule uncreated.section_read [OF assms(2)]) (use headers(2) ps in blast)+
  have "warn_rows 1 (warnings_header @ map warning_line ws @ ?us @ ?ps)
      = warn_rows (1 + length warnings_header) (map warning_line ws @ ?us @ ?ps)"
    using headers(1) by (intro warn_rows_skip) simp
  then have rows: "warn_rows 1 (warnings_header @ map warning_line ws @ ?us @ ?ps)
      = Inr (map warning_row ws @ map uncreatable_row us @ map unpatchable_row ps)"
    unfolding refused.rows_read [OF assms(1)] us by (simp add: on_ok_def)
  have "\<forall>l \<in> set (warnings_header @ map warning_line ws @ ?us @ ?ps). one_line l"
    unfolding set_append ball_Un
  proof (intro conjI)
    show "\<forall>l \<in> set warnings_header. one_line l" using headers(1) by blast
    show "\<forall>l \<in> set (map warning_line ws). one_line l" using assms(1) refused.whole by (simp add: list_all_iff)
    show "\<forall>l \<in> set ?us. one_line l" by (rule uncreated.section_lines [OF assms(2)]) (use headers(2) in blast)
    show "\<forall>l \<in> set ?ps. one_line l" by (rule unpatched_rows.section_lines [OF assms(3)]) (use headers(3) in blast)
  qed
  from lines_of_unlines [OF this] rows show ?thesis by (simp add: parse_warnings_def warnings_text_def on_ok_def)
qed

definition sample_warnings :: "warning list" where
  "sample_warnings = [\<lparr>wa_service = ''dns'', wa_resource = ''Policy'', wa_tier = TierHooked, wa_reason = ''unruled wire hooks: encoder''\<rparr>]"

definition sample_uncreatable :: "uncreatable list" where
  "sample_uncreatable = [\<lparr>uc_type = ''gcp.sink'', uc_template = ''{+parent}/sinks'', uc_placeholders = [''parent'']\<rparr>]"

definition sample_unpatchable :: "unpatchable list" where
  "sample_unpatchable = [\<lparr>up_type = ''gcp.image'', up_says = ''Only family can be modified.''\<rparr>]"

lemma sample_plain:
  "list_all plain_warning sample_warnings" "list_all plain_uncreatable sample_uncreatable" "list_all plain_unpatchable sample_unpatchable"
proof -
  have "format_int 2 = ''2''" by code_simp
  then show "list_all plain_warning sample_warnings"
    by (simp add: sample_warnings_def plain_warning_def plain_text_def warning_line_def columns_def tier_number_def max_token_def)
  show "list_all plain_uncreatable sample_uncreatable"
    by (simp add: sample_uncreatable_def plain_uncreatable_def plain_text_def uncreatable_line_def columns_def max_token_def)
  show "list_all plain_unpatchable sample_unpatchable"
    by (simp add: sample_unpatchable_def plain_unpatchable_def plain_text_def unpatchable_line_def columns_def max_token_def)
qed

theorem warnings_read_back_witness:
  "parse_warnings (warnings_text sample_warnings sample_uncreatable sample_unpatchable)
     = Inr (map warning_row sample_warnings @ map uncreatable_row sample_uncreatable @ map unpatchable_row sample_unpatchable)"
  by (rule warnings_read_back [OF sample_plain])

text \<open>
  A type that is served but replaced on every change is counted among those that are not served: the
  reader tells only \<open>nocreate\<close> rows apart.
\<close>

lemma served_types_counted_out: "count_not_shipped (map unpatchable_row ps) = length ps"
  by (simp add: count_not_shipped_def unpatchable_row_def filter_map comp_def)

end
