(* ===== verification/LoadingFacts.thy ===== *)
theory LoadingFacts
  imports Loading Generated DocFacts
begin

text \<open>No definition of magic-modules is lost between the disk and the generation.\<close>

section \<open>The walk\<close>

definition resource_file :: "string \<Rightarrow> bool" where
  "resource_file path \<longleftrightarrow> has_suffix path ''.yaml'' \<and> file_name path \<noteq> ''product.yaml''"

definition outcome :: "(string \<Rightarrow> gerr + mm_resource) \<Rightarrow> gerr + string \<Rightarrow> gerr + mm_resource" where
  "outcome decode read = on_ok read (parse_resource decode)"

definition resources_in :: "loaded_dir \<Rightarrow> string \<Rightarrow> mm_resource list" where
  "resources_in ld p = (case map_of (ld_resources ld) p of None \<Rightarrow> [] | Some rs \<Rightarrow> rs)"

lemma load_resource_alt:
  "ld_errors (load_resource decode path read ld)
     = ld_errors ld @ (case outcome decode read of Inl e \<Rightarrow> [(path, e)] | Inr _ \<Rightarrow> [])"
  "resources_in (load_resource decode path read ld) p
     = resources_in ld p @ (case outcome decode read of Inl _ \<Rightarrow> []
         | Inr r \<Rightarrow> if dir_name path = p then [r\<lparr>mm_product := p\<rparr>] else [])"
  by (auto simp: load_resource_def outcome_def resources_in_def Let_def split: sum.split option.split)

lemma load_product_alt:
  "ld_errors (load_product versions path read ld) = ld_errors ld"
  "resources_in (load_product versions path read ld) p = resources_in ld p"
  by (auto simp: load_product_def resources_in_def split: sum.split option.split)

text \<open>What a walk has of the files before it stays.\<close>

lemma walk_keeps:
  assumes "walk_dir decode versions vs ld = Inr ld'"
  shows "set (ld_errors ld) \<subseteq> set (ld_errors ld') \<and> set (resources_in ld p) \<subseteq> set (resources_in ld' p)"
  using assms
proof (induction decode versions vs ld rule: walk_dir.induct)
  case (3 decode versions path is_dir read vs ld)
  from "3.IH" [OF "3.prems" [unfolded walk_dir.simps]] show ?case
    by (auto simp: load_resource_alt load_product_alt split: if_splits)
qed simp_all

lemma walk_accounts:
  assumes "walk_dir decode versions vs ld = Inr ld'" "Visit path False read \<in> set vs" "resource_file path"
  shows "case outcome decode read of Inl e \<Rightarrow> (path, e) \<in> set (ld_errors ld')
    | Inr r \<Rightarrow> r\<lparr>mm_product := dir_name path\<rparr> \<in> set (resources_in ld' (dir_name path))"
  using assms
proof (induction decode versions vs ld rule: walk_dir.induct)
  case (3 decode versions path' is_dir read' vs ld)
  show ?case
  proof (cases "Visit path False read = Visit path' is_dir read'")
    case True
    then have "walk_dir decode versions vs (load_resource decode path read ld) = Inr ld'"
      using "3.prems"(1,3) by (simp add: resource_file_def)
    from walk_keeps [OF this, of "dir_name path"] show ?thesis
      by (auto simp: load_resource_alt split: sum.splits)
  next
    case False
    with "3.prems" show ?thesis by (intro "3.IH") auto
  qed
qed simp_all

section \<open>The build\<close>

lemma map_of_by_key: "map_of (map (\<lambda>(k, v). (k, f k v)) m) k = map_option (f k) (map_of m k)"
  by (induction m) auto

lemma load_dir_accounts:
  assumes "load_dir decode versions vs = Inr (by_product, errs)" "Visit path False read \<in> set vs" "resource_file path"
  shows "case outcome decode read of Inl e \<Rightarrow> (path, e) \<in> set errs
    | Inr r \<Rightarrow> \<exists>rs url. map_of by_product (dir_name path) = Some rs
        \<and> r\<lparr>mm_product := dir_name path, mm_product_base_url := url\<rparr> \<in> set rs"
proof -
  let ?p = "dir_name path"
  obtain ld where ld: "walk_dir decode versions vs \<lparr>ld_resources = [], ld_base_urls = [], ld_errors = []\<rparr> = Inr ld"
    "by_product = map (\<lambda>(p, rs). (p, map (with_product_url (ld_base_urls ld) p) rs)) (ld_resources ld)" "errs = ld_errors ld"
    using assms(1) by (auto simp: load_dir_def map_sum_def split: sum.splits)
  from walk_accounts [OF ld(1) assms(2,3)] show ?thesis
  proof (cases "outcome decode read")
    case (Inr r)
    with walk_accounts [OF ld(1) assms(2,3)] have "r\<lparr>mm_product := ?p\<rparr> \<in> set (resources_in ld ?p)" by simp
    then obtain rs where rs: "map_of (ld_resources ld) ?p = Some rs" "r\<lparr>mm_product := ?p\<rparr> \<in> set rs"
      by (cases "map_of (ld_resources ld) ?p") (simp_all add: resources_in_def)
    then have "map_of by_product ?p = Some (map (with_product_url (ld_base_urls ld) ?p) rs)"
      unfolding ld(2) by (simp add: map_of_by_key)
    moreover have "with_product_url (ld_base_urls ld) ?p (r\<lparr>mm_product := ?p\<rparr>) \<in> set (map (with_product_url (ld_base_urls ld) ?p) rs)"
      using rs(2) by simp
    ultimately show ?thesis using Inr by (auto simp: with_product_url_def)
  qed (simp add: ld(3))
qed

lemma catalog_keeps_warnings:
  assumes "build_catalog text_of day commit ws by_product ov lock docs = Inr g"
  shows "set ws \<subseteq> set (ge_warnings g)"
  using assms by (auto simp: build_catalog_def on_ok_Inr Let_def split: option.splits prod.splits)

text \<open>
  C34. Every resource file of magic-modules is accounted for: in a generation that succeeds, one that can
  be read and parsed is among the resources of the product its directory names, and any other is named
  among the warnings with the reason.
\<close>

theorem files_accounted:
  assumes "build dc text_of day ip = Inr g" "Visit path False read \<in> set (ip_mmv1 ip)" "resource_file path"
  shows "case outcome (dc_resource dc) read of Inl e \<Rightarrow> load_warning text_of (path, e) \<in> set (ge_warnings g)
    | Inr r \<Rightarrow> \<exists>by_product errs rs url. load_dir (dc_resource dc) (dc_versions dc) (ip_mmv1 ip) = Inr (by_product, errs)
        \<and> map_of by_product (dir_name path) = Some rs
        \<and> r\<lparr>mm_product := dir_name path, mm_product_base_url := url\<rparr> \<in> set rs"
proof -
  obtain by_product errs ov lock docs where d: "load_dir (dc_resource dc) (dc_versions dc) (ip_mmv1 ip) = Inr (by_product, errs)"
    and b: "build_catalog text_of day (read_pin (ip_pin ip)) (map (load_warning text_of) errs) by_product ov lock docs = Inr g"
    using assms(1) by (auto simp: build_def on_ok_Inr split: prod.splits)
  from load_dir_accounts [OF d assms(2,3)] catalog_keeps_warnings [OF b] d show ?thesis
    by (auto split: sum.splits)
qed

section \<open>A bucket and a broken file\<close>

lemma catalog_with_warnings:
  assumes "build_catalog text_of day commit [] by_product ov lock docs = Inr g"
  shows "\<exists>g. build_catalog text_of day commit ws by_product ov lock docs = Inr g"
proof -
  have "\<not> isl (build_catalog text_of day commit ws by_product ov lock docs)"
    using assms by (auto simp: build_catalog_def on_ok_def Let_def split: option.splits prod.splits sum.splits)
  then show ?thesis by (cases "build_catalog text_of day commit ws by_product ov lock docs") auto
qed

definition bucket_decoders :: decoders where
  "bucket_decoders = \<lparr>dc_document = (\<lambda>_. Inr bucket_tree),
     dc_resource = (\<lambda>text. if text = ''bucket'' then Inr bucket_resource else Inl (Errorf ''yaml: line 1'' [])),
     dc_versions = (\<lambda>_. None), dc_overlay = (\<lambda>_. Inr no_overlay), dc_lock = (\<lambda>_. Inr [])\<rparr>"

definition bucket_inputs :: inputs where
  "bucket_inputs = \<lparr>ip_schemas = Inr [\<lparr>de_name = ''s.json'', de_is_dir = False\<rparr>], ip_schema = (\<lambda>_. Inr ''s''),
     ip_mmv1_dir = ''mmv1'', ip_mmv1 = [Visit ''mmv1/s/B.yaml'' False (Inr ''bucket''), Visit ''mmv1/s/C.yaml'' False (Inr ''{'')],
     ip_mmv1_is_dir = (\<lambda>_. True), ip_pin = Missing, ip_overlay_path = ''overlay.yaml'', ip_overlay = Inr [],
     ip_lock_path = ''names.lock.json'', ip_lock = Missing\<rparr>"

lemma bucket_loads:
  "load_dir (dc_resource bucket_decoders) (dc_versions bucket_decoders) (ip_mmv1 bucket_inputs)
    = Inr ([(''s'', [bucket_resource])], [(''mmv1/s/C.yaml'', Wrapf ''magic-modules resource: %w'' [] (Errorf ''yaml: line 1'' []))])"
proof -
  have "mm_name bucket_resource \<noteq> []" "bucket_resource\<lparr>mm_product := ''s'', mm_product_base_url := []\<rparr> = bucket_resource"
    by (simp_all add: bucket_resource_def bare_mm_resource_def)
  then show ?thesis
    by (simp add: load_dir_def bucket_inputs_def bucket_decoders_def load_resource_def parse_resource_def on_ok_def dir_name_def
        file_name_def after_last_def has_suffix_def Let_def with_product_url_def)
qed

theorem files_accounted_witness:
  "\<exists>g. build bucket_decoders (\<lambda>_. []) [] bucket_inputs = Inr g
    \<and> \<lparr>wa_service = ''s'', wa_resource = ''C.yaml'', wa_tier = TierExcluded, wa_reason = []\<rparr> \<in> set (ge_warnings g)"
proof -
  have "doc_name bucket_tree = ''s''" by code_simp
  then have "load_docs (dc_document bucket_decoders) (ip_schema bucket_inputs) (ip_schemas bucket_inputs) = Inr [bucket_tree]"
    by (simp add: load_docs_def document_names_def bucket_decoders_def bucket_inputs_def parse_document_def on_ok_def has_suffix_def)
  moreover have "load_overlay (dc_overlay bucket_decoders) (ip_mmv1_is_dir bucket_inputs) (ip_overlay_path bucket_inputs)
      (ip_mmv1_dir bucket_inputs) (ip_overlay bucket_inputs) = Inr no_overlay"
    by (simp add: load_overlay_def bucket_decoders_def bucket_inputs_def on_ok_def check_overlay_def no_overlay_def)
  moreover have "load_lock (dc_lock bucket_decoders) (ip_lock_path bucket_inputs) (ip_lock bucket_inputs) = Inr []"
    "read_pin (ip_pin bucket_inputs) = []" by (simp_all add: load_lock_def read_pin_def bucket_inputs_def)
  ultimately obtain g where g: "build bucket_decoders (\<lambda>_. []) [] bucket_inputs = Inr g"
    using catalog_with_warnings [OF bucket_catalog_unobserved] by (auto simp: build_def bucket_loads on_ok_def)
  have "resource_file ''mmv1/s/C.yaml''" by (simp add: resource_file_def file_name_def after_last_def has_suffix_def)
  moreover have "Visit ''mmv1/s/C.yaml'' False (Inr ''{'') \<in> set (ip_mmv1 bucket_inputs)" by (simp add: bucket_inputs_def)
  ultimately have "load_warning (\<lambda>_. []) (''mmv1/s/C.yaml'', Wrapf ''magic-modules resource: %w'' [] (Errorf ''yaml: line 1'' []))
      \<in> set (ge_warnings g)"
    using files_accounted [OF g] by (force simp: outcome_def on_ok_def parse_resource_def bucket_decoders_def)
  with g show ?thesis by (simp add: load_warning_def dir_name_def file_name_def after_last_def)
qed

section \<open>A reason of two lines\<close>

text \<open>
  Reasons are written as they are. One that spans lines, as the errors of a YAML decoder may, breaks its
  row in two, and the second part is refused with the whole file.
\<close>

lemma broken_reason_refused:
  assumes "plain_warning (w\<lparr>wa_reason := a\<rparr>)" "wa_reason w = a @ newline @ b"
    and "plain_text b" "\<not> skipped b" "length b < max_token"
  shows "isl (parse_warnings (warnings_text [w] [] []))"
proof -
  let ?v = "w\<lparr>wa_reason := a\<rparr>"
  have "warning_line w = warning_line ?v @ newline @ b" by (simp add: warning_line_def columns_def assms(2))
  then have "warnings_text [w] [] [] = unlines (warnings_header @ [warning_line ?v, b])" by (simp add: warnings_text_def unlines_def)
  moreover have "\<forall>l \<in> set (warnings_header @ [warning_line ?v, b]). one_line l"
    using headers(1) warning_columns(1) [OF assms(1)] assms(3,5) by (auto simp: one_line_def plain_text_def)
  ultimately have "lines_of (warnings_text [w] [] []) = (warnings_header @ [warning_line ?v, b], None)"
    using lines_of_unlines by simp
  moreover have "\<exists>e. warn_rows n [warning_line ?v, b] = Inl e" for n
  proof -
    have "split_on (CHR 0x09) b = [b]" using split_columns [of "[b]"] assms(3) by (simp add: columns_def)
    then have "warn_rows (Suc n) [b] = Inl (Errorf ''line %d: %d tab-separated fields, want 3 or 4: %q'' [digits_of (Suc n), digits_of 1, b])"
      using assms(4) by (simp add: warn_fields_def skipped_def on_ok_def)
    moreover have "\<not> skipped (warning_line ?v)" "warn_fields n (warning_line ?v) = Inr (warning_row ?v)"
      using warning_columns [OF assms(1)] by blast+
    ultimately show ?thesis by (simp add: skipped_def on_ok_def del: warn_rows.simps(2)) (simp add: skipped_def on_ok_def)
  qed
  moreover have "warn_rows 1 (warnings_header @ [warning_line ?v, b]) = warn_rows (1 + length warnings_header) [warning_line ?v, b]"
    using headers(1) by (intro warn_rows_skip) simp
  ultimately have "\<exists>e. parse_warnings (warnings_text [w] [] []) = Inl e"
    unfolding parse_warnings_def by (metis on_ok_def old.prod.case old.sum.simps(5))
  then show ?thesis by auto
qed

end
