(* ===== verification/Provenance.thy ===== *)
theory Provenance
  imports Observations
begin

text \<open>
  The record of which inputs decided a fact (internal/gen/facts.go, \<open>setTypeSource\<close>, \<open>addSource\<close>,
  \<open>overrule\<close>, \<open>finishTypeSources\<close>): per fact, its sources, the overruled ones marked. The passes that
  call these while a type is built are modelled without the record; here it is on its own.
\<close>

type_synonym source_record = "(string \<times> string list) list"

definition sources_at :: "source_record \<Rightarrow> string \<Rightarrow> string list" where
  "sources_at r f = (case map_of r f of None \<Rightarrow> [] | Some ss \<Rightarrow> ss)"

definition set_type_source :: "string \<Rightarrow> string list \<Rightarrow> source_record \<Rightarrow> source_record" where
  "set_type_source f srcs r = AList.update f srcs r"

definition add_source :: "string \<Rightarrow> string \<Rightarrow> source_record \<Rightarrow> source_record" where
  "add_source f src r = (if src \<in> set (sources_at r f) then r else AList.update f (sources_at r f @ [src]) r)"

definition mark_lost :: "string \<Rightarrow> string" where
  "mark_lost s = (if has_prefix s lost_mark then s else lost_mark @ s)"

definition overrule :: "string \<Rightarrow> string \<Rightarrow> source_record \<Rightarrow> source_record" where
  "overrule f winner r = add_source f winner (AList.update f (map mark_lost (sources_at r f)) r)"

definition finish_type_sources :: "source_record \<Rightarrow> source_record" where
  "finish_type_sources r = foldl (\<lambda>r f. if sources_at r f = [] then set_type_source f [''default''] r else r) r type_facts"

section \<open>Who decided\<close>

lemma sources_after_update [simp]: "sources_at (AList.update f ss r) g = (if f = g then ss else sources_at r g)"
  by (simp add: sources_at_def)

lemma sources_after_add:
  "sources_at (add_source f s r) g = (if f = g \<and> s \<notin> set (sources_at r f) then sources_at r f @ [s] else sources_at r g)"
  by (simp add: add_source_def)

lemma mark_lost_prefix: "has_prefix (mark_lost s) lost_mark"
  by (simp add: mark_lost_def has_prefix_def lost_mark_def)

lemma marked_lose: "winning_sources (map mark_lost ss) = []"
  by (simp add: winning_sources_def filter_empty_conv mark_lost_prefix)

text \<open>An overruled fact has one winner, and what it was before is still told.\<close>

lemma overruled_has_one_winner:
  assumes "\<not> has_prefix winner lost_mark"
  shows "winning_sources (sources_at (overrule f winner r) f) = [winner]"
    and "mark_lost ` set (sources_at r f) \<subseteq> set (sources_at (overrule f winner r) f)"
proof -
  have "winner \<notin> set (map mark_lost (sources_at r f))" using assms mark_lost_prefix by auto
  then have "sources_at (overrule f winner r) f = map mark_lost (sources_at r f) @ [winner]"
    by (simp add: overrule_def sources_after_add)
  then show "winning_sources (sources_at (overrule f winner r) f) = [winner]"
    "mark_lost ` set (sources_at r f) \<subseteq> set (sources_at (overrule f winner r) f)"
    using assms marked_lose [of "sources_at r f"] by (auto simp: winning_sources_def)
qed

text \<open>Adding a source keeps the sources of a fact apart.\<close>

lemma add_source_distinct: "distinct (sources_at r f) \<Longrightarrow> distinct (sources_at (add_source f s r) f)"
  by (simp add: sources_after_add)

lemma finish_keeps_or_defaults:
  "sources_at (foldl (\<lambda>r f. if sources_at r f = [] then set_type_source f [''default''] r else r) r fs) f
     = (if f \<in> set fs \<and> sources_at r f = [] then [''default''] else sources_at r f)"
  by (induction fs arbitrary: r) (auto simp: set_type_source_def)

lemma finished_type_sourced: "f \<in> set type_facts \<Longrightarrow> sources_at (finish_type_sources r) f \<noteq> []"
  by (simp add: finish_type_sources_def finish_keeps_or_defaults)

end
