(* ===== verification/DocPages.thy ===== *)
theory DocPages
  imports Pages
begin

text \<open>What the pages hold: every attribute of a type, and every type of the catalog.\<close>

section \<open>Every attribute\<close>

definition shown_at :: "attr_row list \<Rightarrow> string \<times> attr \<Rightarrow> bool" where
  "shown_at rows pa \<longleftrightarrow> (\<exists>r \<in> set rows. ro_path r = fst pa \<and> ro_attr r = snd pa)"

text \<open>
  A row is complete when what lies below it is shown, or when it refers to a row of the same shape,
  among these rows or met before, that refers to none.
\<close>

definition nests :: "attr \<Rightarrow> bool" where
  "nests a \<longleftrightarrow> a_fields a \<noteq> [] \<or> a_elem a \<noteq> None"

lemma no_row_below: "\<not> nests a \<Longrightarrow> below_row path a = []"
  by (simp add: nests_def below_row_def)

lemma below_row_path: "(p, b) \<in> set (below_row path a) \<Longrightarrow> p \<noteq> []"
  by (auto simp: below_row_def split: option.splits)

lemma shown_at_Cons: "shown_at (r # rows) pa \<longleftrightarrow> ro_path r = fst pa \<and> ro_attr r = snd pa \<or> shown_at rows pa"
  by (auto simp: shown_at_def)

lemma walk_shows_todo: "pa \<in> set todo \<Longrightarrow> shown_at (walk_rows shape todo seen) pa"
proof (induction shape todo seen rule: walk_rows.induct)
  case (2 shape path a todo seen)
  show ?case
  proof (cases "pa = (path, a)")
    case True
    then show ?thesis by (simp add: shown_at_Cons split: option.split)
  next
    case False
    with 2 show ?thesis by (auto simp: shown_at_Cons split: option.split)
  qed
qed simp

text \<open>Where the walk continues after a row, and what it then has seen.\<close>

definition refers_back :: "(attr \<Rightarrow> string) \<Rightarrow> attr_row list \<Rightarrow> (string \<times> string) list \<Rightarrow> attr_row \<Rightarrow> bool" where
  "refers_back shape rows seen r \<longleftrightarrow> (shape (ro_attr r), ro_same_as r) \<in> set seen
     \<or> (\<exists>q \<in> set rows. ro_path q = ro_same_as r \<and> ro_same_as q = [] \<and> nests (ro_attr q) \<and> shape (ro_attr q) = shape (ro_attr r))"

definition row_complete :: "(attr \<Rightarrow> string) \<Rightarrow> attr_row list \<Rightarrow> (string \<times> string) list \<Rightarrow> attr_row \<Rightarrow> bool" where
  "row_complete shape rows seen r \<longleftrightarrow>
     (if ro_same_as r = [] then \<forall>pa \<in> set (below_row (ro_path r) (ro_attr r)). shown_at rows pa
      else refers_back shape rows seen r)"

lemma row_complete_Cons: "row_complete shape rows seen r \<Longrightarrow> row_complete shape (x # rows) seen r"
  by (auto simp: row_complete_def shown_at_Cons refers_back_def)

lemma row_complete_first:
  assumes "row_complete shape rows ((shape a, path) # seen) r" "nests a"
  shows "row_complete shape (\<lparr>ro_path = path, ro_attr = a, ro_same_as = []\<rparr> # rows) seen r"
  using assms by (auto simp: row_complete_def shown_at_Cons refers_back_def)

lemma walk_rows_complete:
  assumes "\<forall>(p, a) \<in> set todo. p \<noteq> []" "\<forall>(k, p) \<in> set seen. p \<noteq> []" "r \<in> set (walk_rows shape todo seen)"
  shows "row_complete shape (walk_rows shape todo seen) seen r"
  using assms
proof (induction shape todo seen arbitrary: r rule: walk_rows.induct)
  case (2 shape path a todo seen)
  have todo: "\<forall>(p, b) \<in> set todo. p \<noteq> []" "path \<noteq> []" using 2(4) by auto
  consider (leaf) "\<not> nests a" | (again) prev where "nests a" "map_of seen (shape a) = Some prev"
    | (first) "nests a" "map_of seen (shape a) = None" by (cases "map_of seen (shape a)") auto
  then show ?case
  proof cases
    case leaf
    then have w: "walk_rows shape ((path, a) # todo) seen
        = \<lparr>ro_path = path, ro_attr = a, ro_same_as = []\<rparr> # walk_rows shape todo seen" by (simp add: nests_def)
    have "row_complete shape (walk_rows shape todo seen) seen q" if "q \<in> set (walk_rows shape todo seen)" for q
      using 2(1) leaf todo(1) 2(5) that by (simp add: nests_def)
    then show ?thesis using 2(6) no_row_below [OF leaf] row_complete_Cons
      unfolding w by (auto simp: row_complete_def [of _ _ _ "\<lparr>ro_path = path, ro_attr = a, ro_same_as = []\<rparr>"])
  next
    case again
    then have w: "walk_rows shape ((path, a) # todo) seen
        = \<lparr>ro_path = path, ro_attr = a, ro_same_as = prev\<rparr> # walk_rows shape todo seen" by (auto simp: nests_def)
    have prev: "(shape a, prev) \<in> set seen" using again(2) by (rule map_of_SomeD)
    then have "prev \<noteq> []" using 2(5) by auto
    have "row_complete shape (walk_rows shape todo seen) seen q" if "q \<in> set (walk_rows shape todo seen)" for q
      by (rule 2(3)) (use again todo(1) 2(5) that in \<open>auto simp: nests_def\<close>)
    then show ?thesis using 2(6) prev \<open>prev \<noteq> []\<close> row_complete_Cons
      unfolding w by (auto simp: row_complete_def [of _ _ _ "\<lparr>ro_path = path, ro_attr = a, ro_same_as = prev\<rparr>"] refers_back_def)
  next
    case first
    let ?row = "\<lparr>ro_path = path, ro_attr = a, ro_same_as = []\<rparr>"
    let ?rest = "walk_rows shape (below_row path a @ todo) ((shape a, path) # seen)"
    have w: "walk_rows shape ((path, a) # todo) seen = ?row # ?rest" using first by (auto simp: nests_def)
    have "row_complete shape ?rest ((shape a, path) # seen) q" if "q \<in> set ?rest" for q
    proof -
      have "\<forall>(p, b) \<in> set (below_row path a @ todo). p \<noteq> []" using todo(1) by (auto dest: below_row_path)
      moreover have "\<forall>(k, p) \<in> set ((shape a, path) # seen). p \<noteq> []" using todo(2) 2(5) by auto
      ultimately show ?thesis using 2(2) first that by (auto simp: nests_def)
    qed
    then have "row_complete shape (?row # ?rest) seen q" if "q \<in> set ?rest" for q
      using row_complete_first first(1) that by blast
    moreover have "row_complete shape (?row # ?rest) seen ?row"
      using walk_shows_todo [of _ "below_row path a @ todo" shape "(shape a, path) # seen"] by (simp add: row_complete_def shown_at_Cons)
    ultimately show ?thesis using 2(6) unfolding w by auto
  qed
qed simp

lemma edges_shown:
  assumes "\<forall>pa \<in> set (below_row path a). shown_at rows pa"
  shows "(n, f) \<in> set (a_fields a) \<Longrightarrow> shown_at rows (path @ ''.'' @ n, f)"
    and "a_elem a = Some e \<Longrightarrow> shown_at rows (path @ ''[]'', e)"
  using assms by (auto simp: below_row_def)

text \<open>
  C37. A type's page shows every attribute: each attribute of the type has a row under its key; and a
  row either stands for its attribute, and then each of its fields has a row under the row's path, a
  dot and the field's key, and the element of a list one under the row's path and [], or it
  refers to the row of an attribute that nests, has exactly its shape and refers to none itself. So
  following the references reaches every attribute at every depth, however far the schema repeats
  itself.
\<close>

theorem every_attribute_shown:
  assumes "[] \<notin> set (keys (t_attributes t))"
  shows "(\<forall>(n, a) \<in> set (t_attributes t). shown_at (attr_rows shape t) (n, a))
    \<and> (\<forall>r \<in> set (attr_rows shape t).
        if ro_same_as r = []
        then (\<forall>(n, f) \<in> set (a_fields (ro_attr r)). shown_at (attr_rows shape t) (ro_path r @ ''.'' @ n, f))
          \<and> (\<forall>e. a_elem (ro_attr r) = Some e \<longrightarrow> shown_at (attr_rows shape t) (ro_path r @ ''[]'', e))
        else \<exists>q \<in> set (attr_rows shape t). ro_path q = ro_same_as r \<and> ro_same_as q = []
          \<and> (a_fields (ro_attr q) \<noteq> [] \<or> a_elem (ro_attr q) \<noteq> None) \<and> shape (ro_attr q) = shape (ro_attr r))"
proof -
  have todo: "\<forall>(p, a) \<in> set (sort_key fst (t_attributes t)). p \<noteq> []" using assms by force
  have rows: "if ro_same_as r = []
        then (\<forall>(n, f) \<in> set (a_fields (ro_attr r)). shown_at (attr_rows shape t) (ro_path r @ ''.'' @ n, f))
          \<and> (\<forall>e. a_elem (ro_attr r) = Some e \<longrightarrow> shown_at (attr_rows shape t) (ro_path r @ ''[]'', e))
        else \<exists>q \<in> set (attr_rows shape t). ro_path q = ro_same_as r \<and> ro_same_as q = []
          \<and> (a_fields (ro_attr q) \<noteq> [] \<or> a_elem (ro_attr q) \<noteq> None) \<and> shape (ro_attr q) = shape (ro_attr r)"
    if "r \<in> set (attr_rows shape t)" for r
  proof -
    have "row_complete shape (attr_rows shape t) [] r" using that unfolding attr_rows_def by (intro walk_rows_complete [OF todo]) simp_all
    then show ?thesis using edges_shown [of "ro_path r" "ro_attr r" "attr_rows shape t"]
      by (cases "ro_same_as r = []") (auto simp: row_complete_def refers_back_def nests_def)
  qed
  have "shown_at (attr_rows shape t) pa" if "pa \<in> set (t_attributes t)" for pa
    unfolding attr_rows_def by (rule walk_shows_todo) (simp add: that)
  then have top: "\<forall>(n, a) \<in> set (t_attributes t). shown_at (attr_rows shape t) (n, a)" by auto
  show ?thesis by (rule conjI [OF top ballI [OF rows]])
qed

definition plain_leaf :: "string \<Rightarrow> attr" where
  "plain_leaf n = Attr (new_info n KString []) [] None"

definition twin_type :: ctype where
  "twin_type = zero_type\<lparr>t_name := ''gcp.t'', t_service := ''s'', t_attributes :=
     [(''a'', Attr (new_info ''a'' KMap []) [(''x'', plain_leaf ''x'')] None), (''b'', Attr (new_info ''b'' KMap []) [(''x'', plain_leaf ''x'')] None),
      (''c'', Attr (new_info ''c'' KList []) [] (Some (Attr (new_info [] KMap []) [(''y'', plain_leaf ''y'')] None)))]\<rparr>"

definition keys_shape :: "attr \<Rightarrow> string" where
  "keys_shape a = concat (map fst (a_fields a))"

lemma twin_rows: "map (\<lambda>r. (ro_path r, ro_same_as r)) (attr_rows keys_shape twin_type)
    = [(''a'', []), (''a.x'', []), (''b'', ''a''), (''c'', []), (''c[]'', []), (''c[].y'', [])]"
  by (simp add: attr_rows_def twin_type_def keys_shape_def below_row_def plain_leaf_def)

theorem every_attribute_shown_witness:
  "shown_at (attr_rows keys_shape twin_type) (''b'', Attr (new_info ''b'' KMap []) [(''x'', plain_leaf ''x'')] None)
   \<and> map (\<lambda>r. (ro_path r, ro_same_as r)) (attr_rows keys_shape twin_type)
     = [(''a'', []), (''a.x'', []), (''b'', ''a''), (''c'', []), (''c[]'', []), (''c[].y'', [])]"
  using every_attribute_shown [of twin_type keys_shape] twin_rows by (simp add: twin_type_def)

section \<open>Every type\<close>

lemma overlay_Nil_found:
  assumes "(k, v) \<in> set kvs" "\<forall>w. (k, w) \<in> set kvs \<longrightarrow> w = v"
  shows "map_of (overlay [] kvs) k = Some v"
proof -
  have "k \<in> set (keys kvs)" using assms(1) by force
  then have "k \<in> set (keys (overlay [] kvs))" unfolding keys_overlay [of "[]" kvs] by blast
  then obtain w where w: "map_of (overlay [] kvs) k = Some w" by (cases "map_of (overlay [] kvs) k") (auto simp: map_of_eq_None_iff)
  then have "(k, w) \<in> set kvs" using set_overlay [of "[]" kvs] by (auto dest!: map_of_SomeD)
  with assms(2) w show ?thesis by simp
qed

text \<open>Names a path can hold: no slash, and none that is the name of a service's own page.\<close>

definition page_name :: "string \<Rightarrow> bool" where
  "page_name n \<longleftrightarrow> CHR ''/'' \<notin> set n \<and> n \<noteq> ''README''"

lemma slash_split:
  assumes "a @ ''/'' @ b = c @ ''/'' @ d" "CHR ''/'' \<notin> set a" "CHR ''/'' \<notin> set c"
  shows "a = c \<and> b = d"
  using split_on_append [of "CHR ''/''" a b] split_on_append [of "CHR ''/''" c d] assms
    join_split [of "CHR ''/''" b] join_split [of "CHR ''/''" d] by (metis append_Cons append_Nil list.inject)

lemma in_services: "(s, ts) \<in> set (services_of c) \<longleftrightarrow>
    s \<in> t_service ` set (c_types c) \<and> ts = sort_key t_name (filter (\<lambda>t. t_service t = s) (c_types c))"
  by (auto simp: services_of_def)

lemma service_page_from:
  assumes "(k, v) \<in> set (concat (map (service_pages kind_name shape) (services_of c)))"
  shows "(\<exists>s \<in> t_service ` set (c_types c). k = s @ ''/'' @ ''README'' @ ''.md'')
    \<or> (\<exists>u \<in> set (c_types c). k = t_service u @ ''/'' @ t_name u @ ''.md'' \<and> v = render_type kind_name shape u)"
proof -
  obtain s ts where g: "(s, ts) \<in> set (services_of c)" "(k, v) \<in> set (service_pages kind_name shape (s, ts))"
    using assms by auto
  then have ts: "s \<in> t_service ` set (c_types c)" "set ts \<subseteq> {u \<in> set (c_types c). t_service u = s}" by (auto simp: in_services)
  from g(2) consider "k = s @ ''/README.md''"
    | u where "u \<in> set ts" "k = s @ ''/'' @ t_name u @ ''.md''" "v = render_type kind_name shape u"
    by (auto simp: service_pages_def)
  then show ?thesis
  proof cases
    case 1
    with ts(1) show ?thesis by auto
  next
    case 2
    with ts(2) have "u \<in> set (c_types c)" "t_service u = s" by auto
    with 2 show ?thesis by blast
  qed
qed

lemma service_page_in:
  assumes "t \<in> set (c_types c)"
  shows "(t_service t @ ''/'' @ t_name t @ ''.md'', render_type kind_name shape t)
    \<in> set (concat (map (service_pages kind_name shape) (services_of c)))"
proof -
  let ?ts = "sort_key t_name (filter (\<lambda>u. t_service u = t_service t) (c_types c))"
  have "(t_service t, ?ts) \<in> set (services_of c)" using assms by (simp add: in_services)
  moreover have "(t_service t @ ''/'' @ t_name t @ ''.md'', render_type kind_name shape t)
      \<in> set (service_pages kind_name shape (t_service t, ?ts))" using assms by (simp add: service_pages_def)
  ultimately show ?thesis unfolding set_concat set_map by blast
qed

text \<open>
  Every type the catalog serves has its own page, under its service, and that page is the one
  rendered from that type: no other type's page, and no index, takes its place.
\<close>

theorem type_has_its_page:
  assumes "t \<in> set (c_types c)" "distinct (map t_name (c_types c))"
    and "\<forall>u \<in> set (c_types c). page_name (t_name u) \<and> CHR ''/'' \<notin> set (t_service u)"
  shows "map_of (pages kind_name shape c ws) (t_service t @ ''/'' @ t_name t @ ''.md'') = Some (render_type kind_name shape t)"
proof -
  let ?k = "t_service t @ ''/'' @ t_name t @ ''.md''"
  let ?all = "[(''README.md'', render_index c (services_of c) ws), (''not-shipped.md'', render_not_shipped ws)]
      @ concat (map (service_pages kind_name shape) (services_of c))"
  have slash: "CHR ''/'' \<in> set ?k" by simp
  have here: "(?k, render_type kind_name shape t) \<in> set ?all" using service_page_in [OF assms(1)] unfolding set_append by blast
  have only: "v = render_type kind_name shape t" if "(?k, v) \<in> set ?all" for v
  proof -
    have "CHR ''/'' \<notin> set ''README.md''" "CHR ''/'' \<notin> set ''not-shipped.md''" by simp_all
    with slash have "?k \<noteq> ''README.md''" "?k \<noteq> ''not-shipped.md''" by metis+
    with that consider (service) s where "s \<in> t_service ` set (c_types c)" "?k = s @ ''/'' @ ''README'' @ ''.md''"
      | (type) u where "u \<in> set (c_types c)" "?k = t_service u @ ''/'' @ t_name u @ ''.md''" "v = render_type kind_name shape u"
      using service_page_from [of ?k v kind_name shape c] unfolding set_append by auto
    then show ?thesis
    proof cases
      case service
      with assms(1,3) have "t_name t @ ''.md'' = ''README'' @ ''.md''" using slash_split by blast
      with assms(1,3) show ?thesis by (simp add: page_name_def)
    next
      case type
      with assms(1,3) have "t_name t @ ''.md'' = t_name u @ ''.md''" using slash_split by blast
      then have "t_name t = t_name u" by simp
      with assms(1,2) type show ?thesis by (metis distinct_map inj_onD)
    qed
  qed
  show ?thesis unfolding pages_def by (rule overlay_Nil_found [OF here]) (use only in blast)
qed

definition twin_catalog :: catalog where
  "twin_catalog = \<lparr>c_generated = ''g'', c_mmv1_commit = ''m'', c_types = [twin_type], c_discover_default = []\<rparr>"

theorem type_has_its_page_witness:
  "map_of (pages (\<lambda>_. ''string'') keys_shape twin_catalog []) ''s/gcp.t.md''
     = Some (render_type (\<lambda>_. ''string'') keys_shape twin_type)"
  using type_has_its_page [of twin_type twin_catalog "\<lambda>_. ''string''" keys_shape "[]"]
  by (simp add: twin_catalog_def twin_type_def page_name_def)

section \<open>The files on disk\<close>

lemma pages_wf: "wf_map (pages kind_name shape c ws)"
  unfolding pages_def by (rule wf_map_overlay) (simp add: wf_map_def)

lemma nothing_to_map: "List.map_filter f xs = [] \<longleftrightarrow> (\<forall>x \<in> set xs. f x = None)"
  by (induction xs) (auto simp: map_filter_simps split: option.splits)

lemma sort_nothing: "sort xs = [] \<longleftrightarrow> xs = []"
  by (metis length_0_conv length_sort)

lemma same_page: "page_difference files (rel, page) = None \<longleftrightarrow> map_of files rel = Some page"
  by (auto simp: page_difference_def split: option.split)

lemma not_left_over: "left_over ps file = None \<longleftrightarrow> (has_suffix (fst file) ''.md'' \<longrightarrow> fst file \<in> set (keys ps))"
  unfolding left_over_def has_key_iff by simp

lemma compare_nothing:
  assumes "wf_map ps"
  shows "compare_pages ps files = [] \<longleftrightarrow>
    map_of ps \<subseteq>\<^sub>m map_of files \<and> {rel \<in> set (keys files). has_suffix rel ''.md''} \<subseteq> set (keys ps)"
proof -
  have "(\<forall>x \<in> set ps. page_difference files x = None) \<longleftrightarrow> map_of ps \<subseteq>\<^sub>m map_of files"
  proof
    assume "\<forall>x \<in> set ps. page_difference files x = None"
    then have "map_of files k = Some v" if "map_of ps k = Some v" for k v using that same_page map_of_SomeD by metis
    then show "map_of ps \<subseteq>\<^sub>m map_of files" unfolding map_le_def by force
  next
    assume le: "map_of ps \<subseteq>\<^sub>m map_of files"
    have "page_difference files (k, v) = None" if "(k, v) \<in> set ps" for k v
      using that le unfolding same_page wf_map_lookup [OF assms] map_le_def by (metis domI)
    then show "\<forall>x \<in> set ps. page_difference files x = None" by auto
  qed
  moreover have "(\<forall>x \<in> set files. left_over ps x = None) \<longleftrightarrow> {rel \<in> set (keys files). has_suffix rel ''.md''} \<subseteq> set (keys ps)"
    unfolding not_left_over by auto
  ultimately show ?thesis by (simp add: compare_pages_def sort_nothing nothing_to_map)
qed

lemma map_of_filter_key: "map_of (filter (\<lambda>(k, _). P k) m) k = (if P k then map_of m k else None)"
  by (induction m) auto

lemma pruned_keys: "{rel \<in> set (keys (pruned ps files)). has_suffix rel ''.md''} \<subseteq> set (keys ps)"
  unfolding pruned_def has_key_iff by force

lemma written_pages:
  assumes "wf_map ps"
  shows "map_of ps \<subseteq>\<^sub>m map_of (write_pages ps files)"
proof -
  have "mset (keys (sort_key fst ps)) = mset (keys ps)" by simp
  then have d: "distinct (keys (sort_key fst ps))" using assms unfolding wf_map_def by (metis mset_eq_imp_distinct_iff)
  then have "map_of (sort_key fst ps) = map_of ps" using assms by (simp add: map_of_inject_set wf_map_def)
  with d have "wf_map (sort_key fst ps)" "map_of (sort_key fst ps) = map_of ps" by (simp_all add: wf_map_def)
  moreover have "P \<or> k \<in> set (keys ps)" if "map_of ps k = Some v" for P k v
    using map_of_SomeD [OF that] by force
  ultimately show ?thesis
    unfolding map_le_def write_pages_def pruned_def map_of_filter_key has_key_iff by (auto simp: map_of_overlay)
qed

text \<open>
  The check of the reference says exactly whether a run would change anything: it reports nothing
  when every page is on disk as it would be written and no other page is; and after a run, whatever was
  on disk before, it reports nothing.
\<close>

theorem reference_current:
  "(compare_pages (pages kind_name shape c ws) files = []
     \<longleftrightarrow> map_of (pages kind_name shape c ws) \<subseteq>\<^sub>m map_of files
       \<and> {rel \<in> set (keys files). has_suffix rel ''.md''} \<subseteq> set (keys (pages kind_name shape c ws)))
   \<and> compare_pages (pages kind_name shape c ws) (write_pages (pages kind_name shape c ws) files) = []"
proof
  let ?ps = "pages kind_name shape c ws"
  show "compare_pages ?ps files = [] \<longleftrightarrow> map_of ?ps \<subseteq>\<^sub>m map_of files \<and> {rel \<in> set (keys files). has_suffix rel ''.md''} \<subseteq> set (keys ?ps)"
    by (rule compare_nothing [OF pages_wf])
  have "map_of ?ps \<subseteq>\<^sub>m map_of (write_pages ?ps files)" by (rule written_pages [OF pages_wf])
  moreover have "{rel \<in> set (keys (write_pages ?ps files)). has_suffix rel ''.md''} \<subseteq> set (keys ?ps)"
    unfolding write_pages_def by (rule pruned_keys)
  ultimately show "compare_pages ?ps (write_pages ?ps files) = []" by (simp add: compare_nothing [OF pages_wf])
qed

end
