(* ===== verification/DocCells.thy ===== *)
theory DocCells
  imports Pages
begin

text \<open>
  Descriptions are data: whatever Google writes in one, the row it is put in stays one row of its table,
  with the cells it was given.
\<close>

section \<open>Bars\<close>

text \<open>The bars of a text that end a cell: those no backslash precedes. \<open>p\<close> is the character before the text.\<close>

fun bare_bars :: "char \<Rightarrow> string \<Rightarrow> nat" where
  "bare_bars p [] = 0"
| "bare_bars p (c # cs) = (if c = CHR ''|'' \<and> p \<noteq> CHR 0x5C then 1 else 0) + bare_bars c cs"

lemma bare_bars_append: "bare_bars p (s @ t) = bare_bars p s + bare_bars (last (p # s)) t"
  by (induction p s rule: bare_bars.induct) auto

lemma no_bars: "CHR ''|'' \<notin> set s \<Longrightarrow> bare_bars p s = 0"
  by (induction p s rule: bare_bars.induct) auto

text \<open>Text that leaves its cell whole.\<close>

definition in_cell :: "string \<Rightarrow> bool" where
  "in_cell s \<longleftrightarrow> bare_bars (CHR '' '') s = 0 \<and> CHR 0x0A \<notin> set s"

lemma in_cell_plain: "CHR ''|'' \<notin> set s \<Longrightarrow> CHR 0x0A \<notin> set s \<Longrightarrow> in_cell s"
  by (simp add: in_cell_def no_bars)

lemma in_cell_prefix: "in_cell (s @ t) \<Longrightarrow> in_cell s"
  by (simp add: in_cell_def bare_bars_append)

lemma in_cell_then: "in_cell s \<Longrightarrow> CHR ''|'' \<notin> set t \<Longrightarrow> CHR 0x0A \<notin> set t \<Longrightarrow> in_cell (s @ t)"
  by (simp add: in_cell_def bare_bars_append no_bars)

section \<open>Descriptions\<close>

lemma bars_escaped: "bare_bars p (concat (map escaped_char s)) = 0"
  by (induction s arbitrary: p) (auto simp: escaped_char_def bare_bars_append)

lemma set_squeezed_Cons: "set (squeezed (a # s)) \<subseteq> insert (if is_space a then CHR '' '' else a) (set (squeezed s))"
  by (cases "squeezed s"; cases "is_space a") auto

lemma squeezed_spaces: "c \<in> set (squeezed s) \<Longrightarrow> c = CHR '' '' \<or> \<not> is_space c"
proof (induction s)
  case (Cons a s)
  then have "c = (if is_space a then CHR '' '' else a) \<or> c \<in> set (squeezed s)" using set_squeezed_Cons by blast
  then show ?case using Cons.IH by metis
qed simp

lemma flatten_in_cell: "in_cell (flatten s)"
proof -
  have "CHR 0x0A \<notin> set (squeezed (trim_space s))" using squeezed_spaces [of "CHR 0x0A"] by (auto simp: is_space_def)
  moreover have "CHR 0x0A \<in> set (escaped_char c) \<Longrightarrow> c = CHR 0x0A" for c by (auto simp: escaped_char_def split: if_splits)
  ultimately have "CHR 0x0A \<notin> set (flatten s)" unfolding flatten_def set_concat set_map by blast
  then show ?thesis by (simp add: in_cell_def flatten_def bars_escaped)
qed

lemma upto_last_prefix: "upto_last d s = Some w \<Longrightarrow> \<exists>t. s = w @ t"
proof -
  assume "upto_last d s = Some w"
  then obtain c r where r: "dropWhile (\<lambda>c. c \<noteq> d) (rev s) = c # r" "w = rev r" by (auto simp: upto_last_def split: list.splits)
  have "rev s = takeWhile (\<lambda>c. c \<noteq> d) (rev s) @ c # r" using takeWhile_dropWhile_id [of "\<lambda>c. c \<noteq> d" "rev s"] r(1) by simp
  then have "s = rev (takeWhile (\<lambda>c. c \<noteq> d) (rev s) @ c # r)" by (metis rev_rev_ident)
  then show ?thesis using r(2) by (metis append.assoc rev.simps(2) rev_append)
qed

lemma trim_right_prefix: "\<exists>t. s = trim_right cs s @ t"
proof -
  have "rev s = takeWhile (\<lambda>c. c \<in> set cs) (rev s) @ dropWhile (\<lambda>c. c \<in> set cs) (rev s)" by simp
  then have "s = trim_right cs s @ rev (takeWhile (\<lambda>c. c \<in> set cs) (rev s))"
    unfolding trim_right_def by (metis rev_append rev_rev_ident)
  then show ?thesis ..
qed

lemma in_cell_upto: "in_cell s \<Longrightarrow> upto_last d s = Some w \<Longrightarrow> in_cell w"
  by (drule upto_last_prefix) (auto dest: in_cell_prefix)

lemma in_cell_trim: "in_cell s \<Longrightarrow> in_cell (trim_right cs s)"
proof -
  assume "in_cell s"
  obtain t where "s = trim_right cs s @ t" using trim_right_prefix by blast
  then have "in_cell (trim_right cs s @ t)" using \<open>in_cell s\<close> by (rule subst)
  then show ?thesis by (rule in_cell_prefix)
qed

lemma cell_in_cell:
  assumes "in_cell s"
  shows "in_cell (cell s n)"
proof -
  have short: "in_cell (take n s)" using assms in_cell_prefix [of "take n s" "drop n s"] by simp
  let ?words = "case upto_last (CHR '' '') (take n s) of Some w \<Rightarrow> if length w > n div 2 then w else take n s | None \<Rightarrow> take n s"
  have "in_cell ?words" using short by (auto split: option.split dest: in_cell_upto)
  then have "in_cell (trim_right '' .,;:'' ?words)" by (rule in_cell_trim)
  then have "in_cell (trim_right '' .,;:'' ?words @ '' '' @ ellipsis)" by (rule in_cell_then) (simp_all add: ellipsis_def)
  then show ?thesis using assms by (simp add: cell_def Let_def in_cell_plain dash_def)
qed

section \<open>Rows\<close>

lemma bars_joined:
  "cells \<noteq> [] \<Longrightarrow> \<forall>c \<in> set cells. in_cell c
    \<Longrightarrow> bare_bars (CHR '' '') (join_with '' | '' cells) = length cells - 1 \<and> CHR 0x0A \<notin> set (join_with '' | '' cells)"
  by (induction "'' | ''" cells rule: join_with.induct) (auto simp: in_cell_def bare_bars_append)

lemma table_row_whole:
  assumes "cells \<noteq> []" "\<forall>c \<in> set cells. in_cell c"
  shows "bare_bars (CHR '' '') (table_row cells) = length cells + 1 \<and> CHR 0x0A \<notin> set (table_row cells)"
  using bars_joined [OF assms] assms(1) by (cases cells) (simp_all add: table_row_def bare_bars_append)

text \<open>Names and paths that hold neither a bar nor a line feed.\<close>

definition plain_cell :: "string \<Rightarrow> bool" where
  "plain_cell s \<longleftrightarrow> CHR ''|'' \<notin> set s \<and> CHR 0x0A \<notin> set s"

definition plain_row :: "attr_row \<Rightarrow> bool" where
  "plain_row r \<longleftrightarrow> plain_cell (ro_path r) \<and> plain_cell (ro_same_as r) \<and> list_all plain_cell (i_aliases (a_info (ro_attr r)))
     \<and> plain_cell (a_canonical (ro_attr r))
     \<and> (case i_ref (a_info (ro_attr r)) of None \<Rightarrow> True | Some f \<Rightarrow> plain_cell (r_type f) \<and> plain_cell (r_attribute f))"

lemma plain_cell_append [simp]: "plain_cell (s @ t) \<longleftrightarrow> plain_cell s \<and> plain_cell t"
  by (auto simp: plain_cell_def)

lemma plain_ticked [simp]: "plain_cell (ticked s) \<longleftrightarrow> plain_cell s"
  by (simp add: ticked_def plain_cell_def)

lemma plain_joined: "\<forall>x \<in> set xs. plain_cell x \<Longrightarrow> plain_cell (join_with '', '' xs)"
  by (induction "'', ''" xs rule: join_with.induct) (auto simp: plain_cell_def)

lemma plain_spellings:
  assumes "plain_row r"
  shows "plain_cell (row_spellings r)"
proof -
  let ?parts = "map ticked (filter (\<lambda>a. a \<noteq> after_last (CHR ''.'') (ro_path r)) (i_aliases (a_info (ro_attr r))))
    @ (if a_canonical (ro_attr r) \<noteq> [] \<and> a_canonical (ro_attr r) \<noteq> after_last (CHR ''.'') (ro_path r)
       then [''wire '' @ ticked (a_canonical (ro_attr r))] else [])"
  have "\<forall>x \<in> set ?parts. plain_cell x" using assms by (auto simp: plain_row_def list_all_iff plain_cell_def ticked_def)
  from plain_joined [OF this] show ?thesis by (simp add: row_spellings_def Let_def dash_def plain_cell_def)
qed

lemma plain_notes:
  assumes "plain_row r"
  shows "plain_cell (row_notes r)"
proof -
  let ?i = "a_info (ro_attr r)" and ?note = "\<lambda>b s. if b then [s] else []"
  let ?n = "?note (i_force_new ?i) ''force new'' @ ?note (i_create_only ?i) ''create only'' @ ?note (i_sensitive ?i) ''sensitive''
         @ ?note (i_opaque ?i) ''opaque'' @ ?note (i_unordered ?i) ''unordered''
         @ (case i_ref ?i of None \<Rightarrow> [] | Some f \<Rightarrow> [''refers to '' @ ticked (r_type f @ ''.'' @ r_attribute f)])
         @ ?note (ro_same_as r \<noteq> []) (''same fields as '' @ ticked (ro_same_as r))"
  define n where "n = ?n"
  have "\<forall>x \<in> set n. plain_cell x"
    using assms unfolding n_def by (auto simp: plain_row_def plain_cell_def ticked_def split: option.splits)
  from plain_joined [OF this] have "plain_cell (if n = [] then dash else join_with '', '' n)"
    by (simp add: dash_def plain_cell_def)
  then show ?thesis unfolding row_notes_def Let_def n_def .
qed

text \<open>
  A row of a type's table is one row with six cells, whatever its description says: it holds no
  line feed and exactly the seven bars the table needs, when its names hold no bar and no line feed.
\<close>

theorem rows_stay_whole:
  assumes "plain_row r" "plain_cell (kind_name (i_kind (a_info (ro_attr r))))"
  shows "bare_bars (CHR '' '') (attr_line kind_name r) = 7 \<and> CHR 0x0A \<notin> set (attr_line kind_name r)"
proof -
  let ?cells = "[ticked (ro_path r), row_spellings r, ticked (kind_name (i_kind (a_info (ro_attr r)))),
     set_by (ro_attr r), row_notes r, cell (flatten (i_description (a_info (ro_attr r)))) 200]"
  have plain: "in_cell s" if "plain_cell s" for s using that by (simp add: plain_cell_def in_cell_plain)
  have "in_cell (ticked (ro_path r))" using assms(1) by (intro plain) (simp add: plain_row_def)
  moreover have "in_cell (row_spellings r)" "in_cell (row_notes r)"
    using plain_spellings [OF assms(1)] plain_notes [OF assms(1)] plain by blast+
  moreover have "in_cell (ticked (kind_name (i_kind (a_info (ro_attr r)))))" using assms(2) by (intro plain) simp
  moreover have "in_cell (set_by (ro_attr r))" by (intro plain) (simp add: set_by_def plain_cell_def)
  moreover have "in_cell (cell (flatten (i_description (a_info (ro_attr r)))) 200)" by (intro cell_in_cell flatten_in_cell)
  ultimately have "\<forall>c \<in> set ?cells. in_cell c" by simp
  from table_row_whole [OF _ this] show ?thesis by (simp add: attr_line_def)
qed

definition bar_row :: attr_row where
  "bar_row = \<lparr>ro_path = ''mode'', ro_attr = Attr (new_info ''mode'' KString ''One of: on | off [see docs]'') [] None, ro_same_as = []\<rparr>"

theorem rows_stay_whole_witness:
  "plain_row bar_row \<and> bare_bars (CHR '' '') (attr_line (\<lambda>_. ''string'') bar_row) = 7"
proof -
  have "plain_row bar_row" by (simp add: plain_row_def bar_row_def plain_cell_def new_info_def)
  with rows_stay_whole [of bar_row "\<lambda>_. ''string''"] show ?thesis by (simp add: plain_cell_def)
qed

end
