(* ===== verification/Spec2Isabelle.thy ===== *)
theory Spec2Isabelle
  imports Identity Inventory Lapses Collisions FakeLife FakeSetup Documents CreateInputs Settled Generated Commands CredentialFacts LoadingFacts Provenance DocFacts DocPages DocCells
begin

text \<open>
  Verification library of the Infrena provider for Google Cloud.

  The program. Infrena, the host, calls a provider plugin to create, read, update, delete, import
  and discover resources. The provider (src/internal/gcprov) has no code of its own per type: what a
  type is, where it lives and how its mutations complete is data, the catalog
  (src/internal/catalog), made at build time by a generator (src/internal/gen, src/cmd/gen-gcp) from
  Google's Discovery documents (src/internal/disco) and from magic-modules (src/internal/mmv1), and
  described by a reference made of it (src/cmd/gen-docs). One plugin instance is made from one block
  of configuration (src/internal/gcpplugin). The tests run the provider against an in-process Google
  Cloud (src/internal/gcpfake). The theories below follow that order: what all share, the provider
  from its data to its operations, the properties of the provider, the generator from its inputs to
  its files, the reference, the in-process cloud, and the provider running against it.

  What all share.
  Prelude: Go's package strings on char lists, path escapes, errors (gerr keeps the format and the
  arguments of fmt.Errorf), and the Go map as an association list with distinct keys (wf_map).
  Where Go ranges over a map in no order, the model ranges over the list; a definition that sorts
  first, as the code then does, is independent of it. Strings are the bytes of the Go string.
  Values: the host's values (kind, known, raw, source) and decoded JSON (type any).

  The provider (src/internal/gcprov).
  CatalogModel (catalog.go): the type Type as the record ctype, Attr as the datatype attr over the
  record attr_info, and every query on them, with what the host is told about a type.
  Urls (urls.go, parts of crud.go), Names (names.go), Ids (ids.go): url templates, the two
  namespaces, provider ids.
  Errors (errors.go), Backoff (backoff.go), Client (client.go): the REST client. The world of the
  model is the record world: the state of the remote (a type variable), the clock, the trace of
  requests, the log, the buckets of the rate limiter. The transport, a field of the client, maps a
  remote state, a request and an instant to an answer, the time it took and the next remote state;
  every operation passes the world on. An operation is an action, world to option: None is an
  operation that never returns.
  Await (await.go, provider.go), Reconcile (reconcile.go, projects.go), Mask (pure parts of patch.go
  and setters.go), Reading (read and import of crud.go, listread.go), Update (patch.go, setters.go),
  Lifecycle (create and delete of crud.go), Discovery (discover.go, systemowned.go), Plugin
  (gcpplugin/config.go), Credentials (gcpplugin/credentials.go, plugin.go): the token source of an
  instance, impersonation, the redirection to another endpoint, and the making of the instance.

  What is proved of the provider.
  Identity: templates and ids undo one another, wire and schema names undo one another, nothing
  output-only reaches a request, the declared schemas are accepted by the host, a type that claims
  to be creatable has its create url supplied.
  Drift, Changes: reconciliation reports the reference exactly when the answer agrees with it; the
  mask is exactly what differs; a PUT body merges; patches of one field divide the mask.
  Effects: the locales client_order and world_order state what a relation between worlds must
  satisfy for every operation to respect it; each operation's lemma is proved once inside, and the
  interpretations keeps, grows, only and (in Requests) quiet give the frame properties.
  Progress: the locale polling is the contract of the two polling loops, interpreted on both; the
  loops of the provider end against a remote whose round trips take time.
  Heard: what an operation hears as a step relation over worlds (hears), one step for each request
  that was answered; the lemmas read an answer of the client, of a wait or of a delete back to what
  was heard last.
  Operations, Outcomes, Requests, Inventory: what operations send, when they end, what they may
  answer; the token bucket (locale stocked), retries, waits; discovery and the configuration.
  Reported: what a state must say of an object to report it, and that a read's state does.
  CredentialFacts: an instance pointed at another endpoint holds no credential of Google and serves
  every type from there (but still asks Google for its project's number).
  Lapses: where the code falls short of its own comments.
  Samples: the concrete instances the witnesses run on.

  The generator (src/internal/gen, src/internal/disco, src/internal/mmv1).
  Its data: Disco (Discovery documents, resolve.go and collection.go), MagicModules (parse.go and the
  overlay), Spelling (names in their two cases). A collection is a record of its path and its methods.
  What ships under which name: Tiering (tier.go, hooks.go), Naming (names.go), Segments and Collisions
  (collisions.go and helpers of build.go).
  How a type is built: AttrLevels (attrs.go), Methods (what a collection's methods say), Operate
  (schemas, envelopes, operations), Templates (url templates and the regular expressions on them),
  CreateIds (how a create url is filled), GenSetters (setters and patch allowlists), AttrEdits (human
  decisions), BuildType (buildType, as the sequence of its steps). Maps and pointers that the source
  changes in place are values passed on.
  The whole pass: Observations (facts.go and the checks of overlay.go), Provenance (the record of
  sources), Generate (Build on decoded inputs), Loading (the inputs on disk, and Build from them),
  Reports (the files beside the catalog and the order of the writes), Commands (the two commands and
  their checks).
  What is proved: names are permanent and do not depend on the order of the candidates; collisions
  lose no collection; Documents: expanding references ends on every document, cyclic ones included, and
  the flat list of collections is the tree; AttrFacts: the attributes built are what the provider's
  theorems and the host ask; BuildFacts, CreateInputs, Settled: how a built type is updated, named and
  created, and that nothing in it is both required and output; Generated: the types of a catalog have
  names of their own, its references lead somewhere, and it contradicts no observation; LoadingFacts:
  no file of magic-modules is lost; Commands: a check reports nothing exactly when a generation would
  change nothing.

  The reference (src/cmd/gen-docs).
  Docs (the warnings file read back, text, attributes) and Pages (every page and the files). A page is
  its lines. DocFacts: the warnings file is read back as it was written (locale row_format, one
  interpretation for each kind of row). DocPages: a page shows every attribute at every depth, each
  type has its page, and the check finds exactly what a run would change. DocCells: a row stays one
  row whatever its description holds.

  The in-process Google Cloud (src/internal/gcpfake).
  FakeState, FakeServer, FakeSetup: its state as the record server, one definition per handler, and
  the methods a test sets it up with. FakeStore makes it the remote of a client; FakeListing and
  FakeLife show that the provider's operations refine operations on the map from paths to what is
  stored: the abstraction is fs_resources read as a map.

  Bounds and fuel. Loops that end by the shape of their data are recursive functions with a measure;
  loops that end only because the remote cooperates are partial functions into option, with None for
  not returning, and the theorems operations_end, await_ends and listing_complete show the value
  exists; operations_end is for types read at their own url, and listing_parent_loops shows that a read
  through a parent's listing may go on for ever. No fuel is used. The expansion of references and of attributes is bounded where the source
  bounds it, with the depth as an argument. The reader of the warnings file holds lines of less than
  65536 bytes, the buffer of a scanner; a token's answer is read up to 2 ^ 20 bytes. int64 arithmetic that can overflow (Retry-After) is written with its
  wrap-around; float64 arithmetic of the token bucket is on the rationals.

  Parameters. What is not in the repository is an argument of the definitions that use it: the host's
  values and kinds, the transport, the decoders and encoders of JSON, YAML and gzip, Google's credentials
  library, the answers of the file system, and of the standard library the parsing of urls, of times and
  of durations and the digest of an attribute.

  Simplified. trim_space, to_lower and equal_fold are those of ASCII text. The names of JSON fields are
  compared with their case. The limit on the size of an answer the client reads (maxResponseBytes) is
  not modelled, and the explanation of a quota project is shorter than the source's, on the same branch.

  Not modelled. The start of the process (cmd/infrena-plugin-gcp), the reading of flags and the scratch
  directory of a check. The cache of tokens, which is the oauth2 library's. The sources of facts
  are recorded by operations of their own (Provenance), but the passes that build a type do not carry
  the record: what they recorded is a parameter of the facts. Lines printed on stderr outside the
  provider. Goroutines: discovery visits its projects and types in the order of the code, and a request
  is handled by the in-process cloud as one step. The callback OnRequest of the in-process cloud, which
  runs a test's own code, and its listener.
\<close>

end
